(* ===== verification/Prelude.thy ===== *)
theory Prelude
  imports Main "HOL-Library.Word" "HOL-Library.Monad_Syntax"
begin

text \<open>
  Shared vocabulary of the development: the machine types of \<open>include/x86/types.h\<close>, the global
  kernel state \<open>g_kstate\<close> of \<open>include/kernel.h\<close> as far as every component sees it (boot phase and
  last error), the error codes of \<open>include/kerror.h\<close>, the arithmetic macros of
  \<open>include/utils.h\<close>, and the generic lemmas on words and lists that the component theories use.

  Conventions. A kernel function is a HOL function from its arguments and the state to
  \<open>(result \<times> state) option\<close>. \<open>None\<close> is a kernel panic: \<open>k_panic\<close>, a failed
  \<open>k_assert\<close> (the model is of the \<open>DEBUG\<close> build, the default one) or \<open>FATAL_BUG\<close>, all of
  which halt the machine. An ordinary failure is a \<open>Some\<close> whose result is the C failure value
  and whose state carries the error code, as \<open>RETURN_ERROR\<close> leaves it. States are extensible
  records, so that a function of one component applies to the larger state of its clients.
\<close>

unbundle bit_operations_syntax

named_theorems kdefs \<open>definitions of the small kernel macros\<close>
named_theorems unat_kdefs \<open>values of the kernel macros as natural numbers\<close>

section \<open>Machine types\<close>

type_synonym U8 = "8 word"
type_synonym U16 = "16 word"
type_synonym U32 = "32 word"
type_synonym U64 = "64 word"
type_synonym UINT = "32 word"
type_synonym PTR = "32 word"
type_synonym SIZE = "32 word"
type_synonym USYSINT = "32 word"
type_synonym Physical = "32 word"

section \<open>Error codes, boot phases and the global state\<close>

datatype KernelErrorCodes =
    ERR_NONE | ERR_UNKNOWN | ERR_INVALID_RANGE | ERR_OVERFLOW | ERR_OUT_OF_MEM
  | ERR_DOUBLE_FREE | ERR_DOUBLE_ALLOC | ERR_WRONG_ALIGNMENT | ERR_OUTSIDE_ADDRESSABLE_RANGE
  | ERR_INVALID_ARGUMENT | ERR_PAGE_WRONG_STATE | ERR_SCHEDULER_QUEUE_FULL | ERR_QUEUE_EMPTY
  | ERR_VMM_NOT_ALLOCATED | ERR_VMM_OVERLAPING_VAS | ERR_VMM_NULL_PAGE_ACCESS
  | ERR_PROC_EXIT_NOT_ALLOWED | ERR_DEVICE_INIT_FAILED | ERR_DEVICE_NOT_READY | ERR_TIMEOUT
  | ERR_INVALID_HANDLE | ERR_INVALID_SYSCALL | ERR_PROC_CREATE_NOT_ALLOWED

text \<open>
  The enumeration has \<open>TEXTDISP_READY\<close> in text mode builds only and \<open>GRAPHICS_READY\<close> in
  graphics mode builds only; the order of the phases is the same in both.
\<close>

datatype KernelPhase =
    BOOT_COMPLETE | TEXTDISP_READY | PMM_READY | SALLOC_READY | VMM_READY | KMALLOC_READY
  | GRAPHICS_READY | KERNEL_READY

fun phase_rank :: "KernelPhase \<Rightarrow> nat" where
  "phase_rank BOOT_COMPLETE = 0"
| "phase_rank TEXTDISP_READY = 1"
| "phase_rank PMM_READY = 2"
| "phase_rank SALLOC_READY = 3"
| "phase_rank VMM_READY = 4"
| "phase_rank KMALLOC_READY = 5"
| "phase_rank GRAPHICS_READY = 6"
| "phase_rank KERNEL_READY = 7"

lemma phase_rank_inj: "phase_rank p = phase_rank q \<Longrightarrow> p = q"
  by (cases p; cases q) simp_all

instantiation KernelPhase :: linorder
begin

definition less_eq_KernelPhase :: "KernelPhase \<Rightarrow> KernelPhase \<Rightarrow> bool" where
  "less_eq_KernelPhase p q \<longleftrightarrow> phase_rank p \<le> phase_rank q"

definition less_KernelPhase :: "KernelPhase \<Rightarrow> KernelPhase \<Rightarrow> bool" where
  "less_KernelPhase p q \<longleftrightarrow> phase_rank p < phase_rank q"

instance
  by standard
    (auto simp: less_eq_KernelPhase_def less_KernelPhase_def intro: phase_rank_inj)

end

text \<open>
  The part of \<open>KernelStateInfo\<close> all components share. \<open>graphics_enabled\<close> is the build option
  \<open>GRAPHICS_MODE_ENABLED\<close>: no operation writes it.
\<close>

record kglobals =
  graphics_enabled :: bool
  phase :: KernelPhase
  errorNumber :: KernelErrorCodes

text \<open>The next enumerator, \<open>g_kstate.phase + 1\<close>, in either build.\<close>

fun next_phase :: "bool \<Rightarrow> KernelPhase \<Rightarrow> KernelPhase option" where
  "next_phase gx BOOT_COMPLETE = Some (if gx then PMM_READY else TEXTDISP_READY)"
| "next_phase gx TEXTDISP_READY = Some PMM_READY"
| "next_phase gx PMM_READY = Some SALLOC_READY"
| "next_phase gx SALLOC_READY = Some VMM_READY"
| "next_phase gx VMM_READY = Some KMALLOC_READY"
| "next_phase gx KMALLOC_READY = Some (if gx then GRAPHICS_READY else KERNEL_READY)"
| "next_phase gx GRAPHICS_READY = Some KERNEL_READY"
| "next_phase gx KERNEL_READY = None"

definition k_assert :: "bool \<Rightarrow> unit option" where
  "k_assert t = (if t then Some () else None)"

definition RETURN_ERROR ::
  "KernelErrorCodes \<Rightarrow> 'r \<Rightarrow> 'a kglobals_scheme \<Rightarrow> ('r \<times> 'a kglobals_scheme) option" where
  "RETURN_ERROR e rval st = Some (rval, st\<lparr>errorNumber := e\<rparr>)"

definition KERNEL_PHASE_SET ::
  "KernelPhase \<Rightarrow> 'a kglobals_scheme \<Rightarrow> 'a kglobals_scheme option" where
  "KERNEL_PHASE_SET p st = do {
     k_assert (p = BOOT_COMPLETE \<or> next_phase (graphics_enabled st) (phase st) = Some p);
     Some (st\<lparr>phase := p\<rparr>)
   }"

definition KERNEL_PHASE_CHECK :: "KernelPhase \<Rightarrow> 'a kglobals_scheme \<Rightarrow> bool" where
  "KERNEL_PHASE_CHECK p st \<longleftrightarrow> p \<le> phase st"

definition KERNEL_PHASE_VALIDATE :: "KernelPhase \<Rightarrow> 'a kglobals_scheme \<Rightarrow> unit option" where
  "KERNEL_PHASE_VALIDATE p st = k_assert (p \<le> phase st)"

lemma k_assert_Some [simp]: "k_assert t = Some u \<longleftrightarrow> t"
  by (simp add: k_assert_def)

lemma k_assert_None [simp]: "k_assert t = None \<longleftrightarrow> \<not> t"
  by (simp add: k_assert_def)

lemma k_assert_bind [simp]: "k_assert t \<bind> f = (if t then f () else None)"
  by (simp add: k_assert_def)

lemma KERNEL_PHASE_VALIDATE_bind [simp]:
  "KERNEL_PHASE_VALIDATE p st \<bind> f = (if p \<le> phase st then f () else None)"
  by (simp add: KERNEL_PHASE_VALIDATE_def)

lemma RETURN_ERROR_Some [simp]:
  "RETURN_ERROR e v st = Some (r, st') \<longleftrightarrow> r = v \<and> st' = st\<lparr>errorNumber := e\<rparr>"
  by (auto simp: RETURN_ERROR_def)

lemma phase_le_simps [simp]:
  "PMM_READY \<le> SALLOC_READY" "PMM_READY \<le> VMM_READY" "PMM_READY \<le> KMALLOC_READY"
  "PMM_READY \<le> KERNEL_READY" "SALLOC_READY \<le> VMM_READY" "SALLOC_READY \<le> KMALLOC_READY"
  "SALLOC_READY \<le> KERNEL_READY" "VMM_READY \<le> KMALLOC_READY" "VMM_READY \<le> KERNEL_READY"
  "KMALLOC_READY \<le> KERNEL_READY" "PMM_READY \<le> GRAPHICS_READY" "GRAPHICS_READY \<le> KERNEL_READY"
  by (simp_all add: less_eq_KernelPhase_def)

lemma phase_not_le_simps [simp]:
  "\<not> PMM_READY \<le> BOOT_COMPLETE" "\<not> PMM_READY \<le> TEXTDISP_READY"
  "\<not> SALLOC_READY \<le> PMM_READY" "\<not> VMM_READY \<le> SALLOC_READY"
  "\<not> KMALLOC_READY \<le> VMM_READY" "\<not> KERNEL_READY \<le> KMALLOC_READY"
  by (simp_all add: less_eq_KernelPhase_def)

section \<open>Configuration constants\<close>

definition CONFIG_PAGE_FRAME_SIZE_BYTES :: UINT where
  [kdefs]: "CONFIG_PAGE_FRAME_SIZE_BYTES = 4096"

definition CONFIG_PAGE_SIZE_BITS :: nat where
  [kdefs]: "CONFIG_PAGE_SIZE_BITS = 12"

definition CONFIG_PAGE_FRAME_SIZE_BITS :: nat where
  [kdefs]: "CONFIG_PAGE_FRAME_SIZE_BITS = 31 - CONFIG_PAGE_SIZE_BITS"

section \<open>The macros of utils.h\<close>

definition IS_ALIGNED :: "UINT \<Rightarrow> UINT \<Rightarrow> bool" where
  "IS_ALIGNED a n \<longleftrightarrow> (a AND (n - 1)) = 0"

definition ALIGN_UP :: "UINT \<Rightarrow> UINT \<Rightarrow> UINT" where
  "ALIGN_UP a n = (if IS_ALIGNED a n then a else (a div n + 1) * n)"

definition ALIGN_DOWN :: "UINT \<Rightarrow> UINT \<Rightarrow> UINT" where
  "ALIGN_DOWN a n = (if IS_ALIGNED a n then a else (a div n) * n)"

definition BIT_MASK :: "nat \<Rightarrow> nat \<Rightarrow> UINT" where
  "BIT_MASK l r = push_bit r (push_bit 1 (push_bit (l - r) 1) - 1)"

definition BIT_ISSET :: "UINT \<Rightarrow> UINT \<Rightarrow> bool" where
  "BIT_ISSET w s \<longleftrightarrow> (w AND s) = s"

definition BIT_ISUNSET :: "UINT \<Rightarrow> UINT \<Rightarrow> bool" where
  "BIT_ISUNSET w s \<longleftrightarrow> \<not> BIT_ISSET w s"

definition BYTES_TO_PAGEFRAMES_FLOOR :: "UINT \<Rightarrow> UINT" where
  "BYTES_TO_PAGEFRAMES_FLOOR b =
     (b div CONFIG_PAGE_FRAME_SIZE_BYTES) AND BIT_MASK CONFIG_PAGE_FRAME_SIZE_BITS 0"

definition BYTES_TO_PAGEFRAMES_CEILING :: "UINT \<Rightarrow> UINT" where
  "BYTES_TO_PAGEFRAMES_CEILING b =
     BYTES_TO_PAGEFRAMES_FLOOR (ALIGN_UP b CONFIG_PAGE_FRAME_SIZE_BYTES)"

definition PAGEFRAMES_TO_BYTES :: "UINT \<Rightarrow> USYSINT" where
  "PAGEFRAMES_TO_BYTES pf = push_bit CONFIG_PAGE_SIZE_BITS pf"

definition POWER_OF_TWO :: "nat \<Rightarrow> UINT" where
  "POWER_OF_TWO n = push_bit n 1"

text \<open>Alignment to a power of two is divisibility, and the masks of the macros are remainders.\<close>

lemma and_pow2_minus_1: "(a :: 'a::len word) AND (2 ^ k - 1) = take_bit k a"
  by (simp add: take_bit_eq_mask mask_eq_exp_minus_1 and.commute)

lemma IS_ALIGNED_pow2:
  assumes "n = 2 ^ k"
  shows "IS_ALIGNED a n \<longleftrightarrow> unat a mod 2 ^ k = 0"
proof -
  have "IS_ALIGNED a n \<longleftrightarrow> take_bit k a = 0"
    using assms by (simp add: IS_ALIGNED_def and_pow2_minus_1)
  also have "\<dots> \<longleftrightarrow> unat (take_bit k a) = 0"
    by (simp only: unat_eq_0)
  also have "unat (take_bit k a) = take_bit k (unat a)"
    by (rule unsigned_take_bit_eq)
  finally show ?thesis
    by (simp add: take_bit_eq_mod)
qed

lemma IS_ALIGNED_4096 [unat_kdefs]: "IS_ALIGNED a 4096 \<longleftrightarrow> unat a mod 4096 = 0"
  using IS_ALIGNED_pow2 [of 4096 12 a] by simp

lemma IS_ALIGNED_8 [unat_kdefs]: "IS_ALIGNED a 8 \<longleftrightarrow> unat a mod 8 = 0"
  using IS_ALIGNED_pow2 [of 8 3 a] by simp

lemma unat_less_2p32 [simp]: "unat (a :: 32 word) < 4294967296"
  using unsigned_less [of a] by simp

lemma unat_le_word32: "unat (a :: 32 word) \<le> 4294967295"
  using unat_less_2p32 [of a] by linarith

lemma of_nat_word32_eq_iff:
  "j < 4294967296 \<Longrightarrow> k < 4294967296 \<Longrightarrow> (of_nat j :: 32 word) = of_nat k \<longleftrightarrow> j = k"
  by (simp add: word_unat_eq_iff unat_of_nat)

lemma unat_of_nat_word32: "j < 4294967296 \<Longrightarrow> unat (of_nat j :: 32 word) = j"
  by (simp add: unat_of_nat)

lemma unat_add_word32:
  "unat a + unat b < 4294967296 \<Longrightarrow> unat (a + b :: 32 word) = unat a + unat b"
  by (simp add: unat_word_ariths)

lemma unat_ALIGN_DOWN_4096 [unat_kdefs]:
  "unat (ALIGN_DOWN a 4096) = unat a div 4096 * 4096"
proof -
  have "unat a div 4096 * 4096 < 4294967296"
    using unat_less_2p32 [of a] by linarith
  then show ?thesis
    by (auto simp: ALIGN_DOWN_def unat_kdefs unat_word_ariths unat_div)
qed

lemma unat_ALIGN_UP_pos:
  assumes n: "0 < unat n" and al: "IS_ALIGNED a n \<longleftrightarrow> unat a mod unat n = 0"
    and small: "unat a + unat n \<le> 4294967296"
  shows "unat (ALIGN_UP a n) = (unat a + (unat n - 1)) div unat n * unat n"
proof (cases "unat a mod unat n = 0")
  case True
  then obtain q where "unat a = unat n * q"
    by auto
  moreover have "(unat n * q + (unat n - 1)) div unat n = q"
    by (rule div_nat_eqI) (use n in auto)
  ultimately show ?thesis
    using True al by (simp add: ALIGN_UP_def)
next
  case False
  define q r where "q = unat a div unat n" and "r = unat a mod unat n"
  have qr: "unat a = unat n * q + r" "0 < r" "r < unat n"
    using False n by (simp_all add: q_def r_def)
  have up: "(unat a + (unat n - 1)) div unat n = q + 1"
    by (rule div_nat_eqI) (use qr in \<open>auto simp: algebra_simps\<close>)
  have less: "(q + 1) * unat n < 4294967296"
    using qr small by (simp add: algebra_simps)
  have "(q + 1) * 1 \<le> (q + 1) * unat n"
    using n by (intro mult_le_mono) simp_all
  from le_less_trans [OF this less] have "q + 1 < 4294967296"
    by simp
  then have "unat ((a div n + 1) * n) = (q + 1) * unat n"
    using less by (simp add: unat_word_ariths unat_div q_def)
  then show ?thesis
    using False al up by (simp add: ALIGN_UP_def)
qed

lemma unat_ALIGN_UP_4096 [unat_kdefs]:
  "unat a \<le> 4294963200 \<Longrightarrow> unat (ALIGN_UP a 4096) = (unat a + 4095) div 4096 * 4096"
  using unat_ALIGN_UP_pos [of 4096 a] by (simp add: IS_ALIGNED_4096)

lemma unat_ALIGN_UP_8 [unat_kdefs]:
  "unat a \<le> 4294967288 \<Longrightarrow> unat (ALIGN_UP a 8) = (unat a + 7) div 8 * 8"
  using unat_ALIGN_UP_pos [of 8 a] by (simp add: IS_ALIGNED_8)

lemma unat_BYTES_TO_PAGEFRAMES_FLOOR [unat_kdefs]:
  "unat (BYTES_TO_PAGEFRAMES_FLOOR b) = unat b div 4096"
proof -
  have mask: "BIT_MASK CONFIG_PAGE_FRAME_SIZE_BITS 0 = (2 ^ 20 - 1 :: 32 word)"
    by (simp add: BIT_MASK_def kdefs)
  have "unat (BYTES_TO_PAGEFRAMES_FLOOR b) = unat (take_bit 20 (b div 4096))"
    by (simp only: BYTES_TO_PAGEFRAMES_FLOOR_def mask and_pow2_minus_1 CONFIG_PAGE_FRAME_SIZE_BYTES_def)
  also have "\<dots> = take_bit 20 (unat b div 4096)"
    by (simp only: unsigned_take_bit_eq unat_div) simp
  also have "\<dots> = unat b div 4096"
    by (simp add: take_bit_eq_mod less_mult_imp_div_less)
  finally show ?thesis .
qed

lemma unat_PAGEFRAMES_TO_BYTES [unat_kdefs]:
  "unat pf < 1048576 \<Longrightarrow> unat (PAGEFRAMES_TO_BYTES pf) = unat pf * 4096"
  by (simp add: PAGEFRAMES_TO_BYTES_def kdefs push_bit_eq_mult unat_word_ariths)

lemma unat_BYTES_TO_PAGEFRAMES_CEILING [unat_kdefs]:
  "unat b \<le> 4294963200 \<Longrightarrow> unat (BYTES_TO_PAGEFRAMES_CEILING b) = (unat b + 4095) div 4096"
  by (simp add: BYTES_TO_PAGEFRAMES_CEILING_def kdefs unat_kdefs)

text \<open>Byte addresses and page frames: converting a frame to its address and back is the identity.\<close>

lemma PAGEFRAMES_roundtrip:
  "unat pf < 1048576 \<Longrightarrow> BYTES_TO_PAGEFRAMES_FLOOR (PAGEFRAMES_TO_BYTES pf) = pf"
  by (simp add: word_unat_eq_iff unat_kdefs)

lemma IS_ALIGNED_PAGEFRAMES_TO_BYTES [simp]: "IS_ALIGNED (PAGEFRAMES_TO_BYTES pf) 4096"
  by (simp add: IS_ALIGNED_4096 PAGEFRAMES_TO_BYTES_def kdefs push_bit_eq_mult unat_word_ariths
      mod_mod_cancel)

end
