(* ===== verification/Intrusive_List.thy ===== *)
theory Intrusive_List
  imports Prelude
begin

text \<open>
  The circular doubly linked lists of \<open>include/intrusive_list.h\<close> and the queues of
  \<open>include/intrusive_queue.h\<close>, at the level of their pointers.

  A \<open>ListNode\<close> is embedded in an object. A list uses one and the same field of all its objects, so
  its pointers are two maps, one per component of \<open>ListNode\<close>, whose domain is the list head and the
  objects. \<open>LIST_ITEM\<close>, the step from a node to the object that contains it, is then the projection
  of \<open>NodeOf\<close>. Distinct fields never alias, because objects do not overlap.

  \<open>ring l xs\<close> is the abstraction: \<open>l\<close> links the head and the objects \<open>xs\<close> in a circle, in this
  order. The locale \<open>linked_list\<close> states what clients may rely on, and is interpreted on the
  operations of the two headers.
\<close>

section \<open>The operations\<close>

datatype 'o node = NullNode | HeadNode | NodeOf (node_object: 'o)

record 'o links =
  nxt :: "'o node \<Rightarrow> 'o node"
  prv :: "'o node \<Rightarrow> 'o node"

definition set_next :: "'o node \<Rightarrow> 'o node \<Rightarrow> 'o links \<Rightarrow> 'o links" where
  "set_next n p l = l\<lparr>nxt := (nxt l)(n := p)\<rparr>"

definition set_prev :: "'o node \<Rightarrow> 'o node \<Rightarrow> 'o links \<Rightarrow> 'o links" where
  "set_prev n p l = l\<lparr>prv := (prv l)(n := p)\<rparr>"

definition list_init :: "'o node \<Rightarrow> 'o links \<Rightarrow> 'o links" where
  "list_init node l = set_prev node node (set_next node node l)"

definition list_is_empty :: "'o links \<Rightarrow> bool" where
  "list_is_empty l \<longleftrightarrow> nxt l HeadNode = HeadNode \<and> prv l HeadNode = HeadNode"

definition list_add_before :: "'o node \<Rightarrow> 'o node \<Rightarrow> 'o links \<Rightarrow> 'o links" where
  "list_add_before node item l =
     (let l = set_next item node l;
          l = set_prev item (prv l node) l;
          l = set_next (prv l node) item l
      in set_prev node item l)"

definition list_add_after :: "'o node \<Rightarrow> 'o node \<Rightarrow> 'o links \<Rightarrow> 'o links" where
  "list_add_after node item l =
     (let l = set_prev item node l;
          l = set_next item (nxt l node) l;
          l = set_prev (nxt l node) item l
      in set_next node item l)"

definition list_remove :: "'o node \<Rightarrow> 'o links \<Rightarrow> 'o links" where
  "list_remove item l =
     (let l = set_next (prv l item) (nxt l item) l;
          l = set_prev (nxt l item) (prv l item) l;
          l = set_next item NullNode l
      in set_prev item NullNode l)"

text \<open>
  \<open>list_for_each\<close> and \<open>queue_for_each\<close>, with a body that does not change the list: the objects it
  visits, from a node on until it is back at the head. \<open>None\<close> when that never happens.
\<close>

partial_function (option) for_each_from :: "'o links \<Rightarrow> 'o node \<Rightarrow> 'o list option" where
  "for_each_from l node =
     (case node of
        HeadNode \<Rightarrow> Some []
      | NullNode \<Rightarrow> None
      | NodeOf x \<Rightarrow> do { xs \<leftarrow> for_each_from l (nxt l node); Some (x # xs) })"

definition list_for_each :: "'o links \<Rightarrow> 'o list option" where
  "list_for_each l = for_each_from l (nxt l HeadNode)"

text \<open>The same loop with a body that only looks for an object and leaves the loop when it has found it.\<close>

partial_function (option) find_from ::
  "('o \<Rightarrow> bool) \<Rightarrow> 'o links \<Rightarrow> 'o node \<Rightarrow> 'o option option" where
  "find_from P l node =
     (case node of
        HeadNode \<Rightarrow> Some None
      | NullNode \<Rightarrow> None
      | NodeOf x \<Rightarrow> if P x then Some (Some x) else find_from P l (nxt l node))"

declare for_each_from.simps [code] find_from.simps [code]

definition list_find :: "('o \<Rightarrow> bool) \<Rightarrow> 'o links \<Rightarrow> 'o option option" where
  "list_find P l = find_from P l (nxt l HeadNode)"

definition enqueue :: "'o node \<Rightarrow> 'o links \<Rightarrow> 'o links" where
  "enqueue item l = list_add_before HeadNode item l"

definition dequeue :: "'o links \<Rightarrow> 'o node \<times> 'o links" where
  "dequeue l =
     (if nxt l HeadNode = HeadNode then (NullNode, l)
      else (nxt l HeadNode, list_remove (nxt l HeadNode) l))"

definition queue_remove :: "'o node \<Rightarrow> 'o links \<Rightarrow> 'o links" where
  "queue_remove node l = list_remove node l"

definition enqueue_front :: "'o node \<Rightarrow> 'o links \<Rightarrow> 'o links" where
  "enqueue_front item l = list_add_after HeadNode item l"

definition dequeue_back :: "'o links \<Rightarrow> 'o node \<times> 'o links" where
  "dequeue_back l =
     (if prv l HeadNode = HeadNode then (NullNode, l)
      else (prv l HeadNode, list_remove (prv l HeadNode) l))"

section \<open>Abstraction to lists\<close>

fun chain :: "'o links \<Rightarrow> 'o node list \<Rightarrow> bool" where
  "chain l (a # b # r) \<longleftrightarrow> nxt l a = b \<and> prv l b = a \<and> chain l (b # r)"
| "chain l _ \<longleftrightarrow> True"

definition ring :: "'o links \<Rightarrow> 'o list \<Rightarrow> bool" where
  "ring l xs \<longleftrightarrow> distinct xs \<and> chain l (HeadNode # map NodeOf xs @ [HeadNode])"

lemma chain_Cons: "chain l (a # xs) \<longleftrightarrow> (xs = [] \<or> nxt l a = hd xs \<and> prv l (hd xs) = a \<and> chain l xs)"
  by (cases xs) auto

lemma chain_append:
  "chain l (xs @ ys) \<longleftrightarrow> chain l xs \<and> chain l ys
     \<and> (xs = [] \<or> ys = [] \<or> nxt l (last xs) = hd ys \<and> prv l (hd ys) = last xs)"
  by (induction l xs rule: chain.induct) (auto simp: chain_Cons)

lemma chain_cong:
  assumes "\<And>a. a \<in> set (butlast xs) \<Longrightarrow> nxt l' a = nxt l a"
    and "\<And>a. a \<in> set (tl xs) \<Longrightarrow> prv l' a = prv l a"
  shows "chain l' xs = chain l xs"
  using assms by (induction l xs rule: chain.induct) auto

lemma links_simps [simp]:
  "nxt (set_next n p l) = (nxt l)(n := p)" "prv (set_next n p l) = prv l"
  "prv (set_prev n p l) = (prv l)(n := p)" "nxt (set_prev n p l) = nxt l"
  by (simp_all add: set_next_def set_prev_def)

lemma ring_init [simp]: "ring (list_init HeadNode l) []"
  by (simp add: ring_def list_init_def)

lemma ring_empty: "ring l xs \<Longrightarrow> nxt l HeadNode = HeadNode \<longleftrightarrow> xs = []"
  by (cases xs) (auto simp: ring_def)

lemma ring_hd: "ring l (x # xs) \<Longrightarrow> nxt l HeadNode = NodeOf x"
  by (simp add: ring_def)

lemma ring_last: "ring l (xs @ [x]) \<Longrightarrow> prv l HeadNode = NodeOf x"
  using chain_append [of l "HeadNode # map NodeOf xs @ [NodeOf x]" "[HeadNode]"] by (simp add: ring_def)

lemma ring_distinct: "ring l xs \<Longrightarrow> distinct xs"
  by (simp add: ring_def)

lemma list_is_empty_iff: "ring l xs \<Longrightarrow> list_is_empty l \<longleftrightarrow> xs = []"
  by (cases xs) (auto simp: ring_def list_is_empty_def)

text \<open>
  Linking a new object between two neighbours, whichever of them the caller names, and unlinking
  one. \<open>before us\<close> and \<open>behind vs\<close> are the neighbours of the gap between \<open>us\<close> and \<open>vs\<close>.
\<close>

definition before :: "'o list \<Rightarrow> 'o node" where
  "before us = last (HeadNode # map NodeOf us)"

definition behind :: "'o list \<Rightarrow> 'o node" where
  "behind vs = hd (map NodeOf vs @ [HeadNode])"

lemma before_simps [simp]: "before [] = HeadNode" "before (us @ [u]) = NodeOf u"
  by (simp_all add: before_def)

lemma behind_simps [simp]: "behind [] = HeadNode" "behind (v # vs) = NodeOf v"
  by (simp_all add: behind_def)

lemma before_neq: "x \<notin> set us \<Longrightarrow> before us \<noteq> NodeOf x"
  by (cases us rule: rev_cases) auto

lemma behind_neq: "x \<notin> set vs \<Longrightarrow> behind vs \<noteq> NodeOf x"
  by (cases vs) auto

lemma ring_append:
  "ring l (us @ vs) \<longleftrightarrow> distinct (us @ vs) \<and> chain l (HeadNode # map NodeOf us)
     \<and> chain l (map NodeOf vs @ [HeadNode]) \<and> nxt l (before us) = behind vs
     \<and> prv l (behind vs) = before us"
  using chain_append [of l "HeadNode # map NodeOf us" "map NodeOf vs @ [HeadNode]"]
  by (auto simp: ring_def before_def behind_def)

lemma ring_append_Cons:
  "ring l (us @ x # vs) \<longleftrightarrow> distinct (us @ x # vs) \<and> chain l (HeadNode # map NodeOf us)
     \<and> chain l (map NodeOf vs @ [HeadNode]) \<and> nxt l (before us) = NodeOf x
     \<and> prv l (NodeOf x) = before us \<and> nxt l (NodeOf x) = behind vs
     \<and> prv l (behind vs) = NodeOf x"
  by (auto simp: ring_append chain_Cons behind_def)

lemma chain_left_cong:
  assumes "us \<noteq> [] \<Longrightarrow> nxt l' HeadNode = nxt l HeadNode"
    "\<And>u. u \<in> set us \<Longrightarrow> NodeOf u \<noteq> before us \<Longrightarrow> nxt l' (NodeOf u) = nxt l (NodeOf u)"
    "\<And>u. u \<in> set us \<Longrightarrow> prv l' (NodeOf u) = prv l (NodeOf u)" "distinct us"
  shows "chain l' (HeadNode # map NodeOf us) = chain l (HeadNode # map NodeOf us)"
proof (rule chain_cong)
  fix n assume "n \<in> set (butlast (HeadNode # map NodeOf us))"
  then show "nxt l' n = nxt l n"
    using assms(1,2,4) by (cases us rule: rev_cases) auto
qed (use assms(3) in auto)

lemma chain_right_cong:
  assumes "vs \<noteq> [] \<Longrightarrow> prv l' HeadNode = prv l HeadNode"
    "\<And>v. v \<in> set vs \<Longrightarrow> NodeOf v \<noteq> behind vs \<Longrightarrow> prv l' (NodeOf v) = prv l (NodeOf v)"
    "\<And>v. v \<in> set vs \<Longrightarrow> nxt l' (NodeOf v) = nxt l (NodeOf v)" "distinct vs"
  shows "chain l' (map NodeOf vs @ [HeadNode]) = chain l (map NodeOf vs @ [HeadNode])"
proof (rule chain_cong)
  fix n assume "n \<in> set (tl (map NodeOf vs @ [HeadNode]))"
  then show "prv l' n = prv l n"
    using assms(1,2,4) by (cases vs) auto
qed (use assms(3) in auto)

lemma before_behind_disjoint:
  assumes "distinct (us @ vs)"
  shows "v \<in> set vs \<Longrightarrow> NodeOf v \<noteq> before us" "u \<in> set us \<Longrightarrow> NodeOf u \<noteq> behind vs"
    "us \<noteq> [] \<Longrightarrow> HeadNode \<noteq> before us" "vs \<noteq> [] \<Longrightarrow> HeadNode \<noteq> behind vs"
  using assms by (cases us rule: rev_cases; cases vs; auto)+

lemma ring_link:
  assumes ring: "ring l (us @ vs)" and new: "x \<notin> set (us @ vs)"
    and l': "nxt l' = (nxt l)(NodeOf x := behind vs, before us := NodeOf x)"
      "prv l' = (prv l)(NodeOf x := before us, behind vs := NodeOf x)"
  shows "ring l' (us @ x # vs)"
proof -
  note R = ring [unfolded ring_append]
  have D: "distinct (us @ vs)"
    using R by blast
  have "chain l' (HeadNode # map NodeOf us)"
    by (subst chain_left_cong [of us l' l]) (use R new before_behind_disjoint [OF D] in \<open>auto simp: l'\<close>)
  moreover have "chain l' (map NodeOf vs @ [HeadNode])"
    by (subst chain_right_cong [of vs l' l]) (use R new before_behind_disjoint [OF D] in \<open>auto simp: l'\<close>)
  ultimately show ?thesis
    using R new before_neq [of x us] behind_neq [of x vs] by (auto simp: ring_append_Cons l')
qed

lemma ring_unlink:
  assumes ring: "ring l (us @ x # vs)"
    and l': "nxt l' = (nxt l)(before us := behind vs, NodeOf x := n)"
      "prv l' = (prv l)(behind vs := before us, NodeOf x := n)"
  shows "ring l' (us @ vs)"
proof -
  note R = ring [unfolded ring_append_Cons]
  have D: "distinct (us @ vs)" "x \<notin> set (us @ vs)"
    using R by auto
  have "chain l' (HeadNode # map NodeOf us)"
    by (subst chain_left_cong [of us l' l]) (use R D before_behind_disjoint [OF D(1)] in \<open>auto simp: l'\<close>)
  moreover have "chain l' (map NodeOf vs @ [HeadNode])"
    by (subst chain_right_cong [of vs l' l]) (use R D before_behind_disjoint [OF D(1)] in \<open>auto simp: l'\<close>)
  ultimately show ?thesis
    using R D before_neq [of x us] behind_neq [of x vs] by (auto simp: ring_append l')
qed

lemma list_add_after_ring:
  assumes "ring l (us @ vs)" "x \<notin> set (us @ vs)"
  shows "ring (list_add_after (before us) (NodeOf x) l) (us @ x # vs)"
proof (rule ring_link [OF assms])
  have "before us \<noteq> NodeOf x" "nxt l (before us) = behind vs"
    using assms before_neq [of x us] by (auto simp: ring_append)
  then show
    "nxt (list_add_after (before us) (NodeOf x) l) = (nxt l)(NodeOf x := behind vs, before us := NodeOf x)"
    "prv (list_add_after (before us) (NodeOf x) l) = (prv l)(NodeOf x := before us, behind vs := NodeOf x)"
    by (simp_all add: list_add_after_def Let_def)
qed

lemma list_add_before_ring:
  assumes "ring l (us @ vs)" "x \<notin> set (us @ vs)"
  shows "ring (list_add_before (behind vs) (NodeOf x) l) (us @ x # vs)"
proof (rule ring_link [OF assms])
  have "behind vs \<noteq> NodeOf x" "prv l (behind vs) = before us"
    using assms behind_neq [of x vs] by (auto simp: ring_append)
  then show
    "nxt (list_add_before (behind vs) (NodeOf x) l) = (nxt l)(NodeOf x := behind vs, before us := NodeOf x)"
    "prv (list_add_before (behind vs) (NodeOf x) l) = (prv l)(NodeOf x := before us, behind vs := NodeOf x)"
    by (simp_all add: list_add_before_def Let_def)
qed

lemma list_remove_ring:
  assumes "ring l (us @ x # vs)"
  shows "ring (list_remove (NodeOf x) l) (us @ vs)"
proof (rule ring_unlink [OF assms])
  have "before us \<noteq> NodeOf x" "behind vs \<noteq> NodeOf x" "prv l (NodeOf x) = before us"
      "nxt l (NodeOf x) = behind vs"
    using assms before_neq [of x us] behind_neq [of x vs] by (auto simp: ring_append_Cons)
  then show
    "nxt (list_remove (NodeOf x) l) = (nxt l)(before us := behind vs, NodeOf x := NullNode)"
    "prv (list_remove (NodeOf x) l) = (prv l)(behind vs := before us, NodeOf x := NullNode)"
    by (auto simp: list_remove_def Let_def)
qed

lemma for_each_from_chain:
  "chain l (NodeOf x # map NodeOf xs @ [HeadNode]) \<Longrightarrow> for_each_from l (NodeOf x) = Some (x # xs)"
proof (induction xs arbitrary: x)
  case Nil
  then show ?case
    by (simp add: for_each_from.simps [of l "NodeOf x"] for_each_from.simps [of l HeadNode])
next
  case (Cons y xs)
  then show ?case
    by (simp add: for_each_from.simps [of l "NodeOf x"])
qed

text \<open>The traversal ends, and visits the objects in the order of the list.\<close>

lemma list_for_each_ring: "ring l xs \<Longrightarrow> list_for_each l = Some xs"
  by (cases xs)
    (auto simp: ring_def list_for_each_def for_each_from_chain for_each_from.simps [of l HeadNode])

lemma find_from_chain:
  "chain l (NodeOf x # map NodeOf xs @ [HeadNode]) \<Longrightarrow>
   find_from P l (NodeOf x) = Some (List.find P (x # xs))"
proof (induction xs arbitrary: x)
  case Nil
  then show ?case
    by (simp add: find_from.simps [of P l "NodeOf x"] find_from.simps [of P l HeadNode])
next
  case (Cons y xs)
  then show ?case
    by (simp add: find_from.simps [of P l "NodeOf x"])
qed

lemma list_find_ring: "ring l xs \<Longrightarrow> list_find P l = Some (List.find P xs)"
  by (cases xs)
    (auto simp: ring_def list_find_def find_from_chain find_from.simps [of P l HeadNode]
      simp del: find.simps(2) split: if_splits)

text \<open>Initializing the node of an object that is not in the list leaves the list alone.\<close>

lemma ring_frame:
  assumes "ring l xs" "x \<notin> set xs"
  shows "ring (list_init (NodeOf x) l) xs"
proof -
  have "chain (list_init (NodeOf x) l) (HeadNode # map NodeOf xs @ [HeadNode])
      = chain l (HeadNode # map NodeOf xs @ [HeadNode])"
    by (rule chain_cong)
      (use assms(2) in \<open>auto simp: list_init_def dest!: in_set_butlastD\<close>)
  then show ?thesis
    using assms(1) by (simp add: ring_def)
qed

lemma ring_nxt: "ring l (us @ x # vs) \<Longrightarrow> nxt l (NodeOf x) = behind vs"
  by (simp add: ring_append_Cons)

lemma ring_prv: "ring l (us @ x # vs) \<Longrightarrow> prv l (NodeOf x) = before us"
  by (simp add: ring_append_Cons)

section \<open>What clients rely on\<close>

locale linked_list =
  fixes repr :: "'l \<Rightarrow> 'o list \<Rightarrow> bool"
    and items :: "'l \<Rightarrow> 'o list option"
    and add_front :: "'o \<Rightarrow> 'l \<Rightarrow> 'l"
    and add_back :: "'o \<Rightarrow> 'l \<Rightarrow> 'l"
    and insert_after :: "'o \<Rightarrow> 'o \<Rightarrow> 'l \<Rightarrow> 'l"
    and delete :: "'o \<Rightarrow> 'l \<Rightarrow> 'l"
  assumes repr_distinct: "repr l xs \<Longrightarrow> distinct xs"
    and repr_items: "repr l xs \<Longrightarrow> items l = Some xs"
    and repr_add_front: "repr l xs \<Longrightarrow> x \<notin> set xs \<Longrightarrow> repr (add_front x l) (x # xs)"
    and repr_add_back: "repr l xs \<Longrightarrow> x \<notin> set xs \<Longrightarrow> repr (add_back x l) (xs @ [x])"
    and repr_insert_after:
      "repr l (us @ y # vs) \<Longrightarrow> x \<notin> set (us @ y # vs) \<Longrightarrow> repr (insert_after y x l) (us @ y # x # vs)"
    and repr_delete: "repr l (us @ x # vs) \<Longrightarrow> repr (delete x l) (us @ vs)"
begin

lemma repr_unique: "repr l xs \<Longrightarrow> repr l ys \<Longrightarrow> xs = ys"
  using repr_items [of l xs] repr_items [of l ys] by simp

lemma repr_delete_remove1: "repr l xs \<Longrightarrow> x \<in> set xs \<Longrightarrow> repr (delete x l) (remove1 x xs)"
proof -
  assume "repr l xs" "x \<in> set xs"
  moreover from \<open>x \<in> set xs\<close> obtain us vs where "xs = us @ x # vs" "x \<notin> set us"
    by (meson split_list_first)
  ultimately show ?thesis
    using repr_delete [of l us x vs] by (simp add: remove1_append)
qed

lemma set_delete: "repr l xs \<Longrightarrow> x \<in> set xs \<Longrightarrow> set (remove1 x xs) = set xs - {x}"
  by (simp add: repr_distinct)

lemma replace:
  assumes "repr l (us @ y # vs)" "x \<notin> set (us @ y # vs)"
  shows "repr (delete y (insert_after y x l)) (us @ x # vs)"
  using repr_delete [OF repr_insert_after [OF assms]] by simp

text \<open>A round trip: what was added is removed again.\<close>

lemma add_delete:
  "repr l xs \<Longrightarrow> x \<notin> set xs \<Longrightarrow> repr (delete x (add_front x l)) xs"
  "repr l xs \<Longrightarrow> x \<notin> set xs \<Longrightarrow> repr (delete x (add_back x l)) xs"
  by (rule repr_delete [of _ "[]", simplified], erule (1) repr_add_front)
    (rule repr_delete [of _ _ _ "[]", simplified], erule (1) repr_add_back)

end

interpretation il: linked_list ring list_for_each
  "\<lambda>x. list_add_after HeadNode (NodeOf x)" "\<lambda>x. list_add_before HeadNode (NodeOf x)"
  "\<lambda>y x. list_add_after (NodeOf y) (NodeOf x)" "\<lambda>x. list_remove (NodeOf x)"
proof
  fix l :: "'a links" and xs us vs x y
  show "ring l xs \<Longrightarrow> distinct xs"
    by (rule ring_distinct)
  show "ring l xs \<Longrightarrow> list_for_each l = Some xs"
    by (rule list_for_each_ring)
  show "ring l xs \<Longrightarrow> x \<notin> set xs \<Longrightarrow> ring (list_add_after HeadNode (NodeOf x) l) (x # xs)"
    using list_add_after_ring [of l "[]" xs x] by simp
  show "ring l xs \<Longrightarrow> x \<notin> set xs \<Longrightarrow> ring (list_add_before HeadNode (NodeOf x) l) (xs @ [x])"
    using list_add_before_ring [of l xs "[]" x] by simp
  show "ring l (us @ y # vs) \<Longrightarrow> x \<notin> set (us @ y # vs)
      \<Longrightarrow> ring (list_add_after (NodeOf y) (NodeOf x) l) (us @ y # x # vs)"
    using list_add_after_ring [of l "us @ [y]" vs x] by simp
  show "ring l (us @ x # vs) \<Longrightarrow> ring (list_remove (NodeOf x) l) (us @ vs)"
    by (rule list_remove_ring)
qed

section \<open>Queues\<close>

lemma enqueue_ring: "ring l xs \<Longrightarrow> x \<notin> set xs \<Longrightarrow> ring (enqueue (NodeOf x) l) (xs @ [x])"
  unfolding enqueue_def by (rule il.repr_add_back)

lemma dequeue_ring:
  assumes "ring l xs"
  shows "(case xs of [] \<Rightarrow> dequeue l = (NullNode, l)
    | x # xs' \<Rightarrow> \<exists>l'. dequeue l = (NodeOf x, l') \<and> ring l' xs')"
  using assms list_remove_ring [of l "[]"] ring_empty [OF assms]
  by (cases xs) (auto simp: dequeue_def ring_hd)

text \<open>
  What a client sees of a queue: a sequence of operations, each \<open>dequeue\<close> with the node it returned, on the pointers and on a list. An
  object is enqueued only while it is not in the queue, as its node has room for one list only.
\<close>

datatype 'o queue_op = Enqueue 'o | Dequeue

fun queue_run :: "'o queue_op list \<Rightarrow> 'o links \<Rightarrow> 'o node list \<times> 'o links" where
  "queue_run [] l = ([], l)"
| "queue_run (Enqueue x # ops) l = queue_run ops (enqueue (NodeOf x) l)"
| "queue_run (Dequeue # ops) l = (let (n, l) = dequeue l; (ns, l) = queue_run ops l in (n # ns, l))"

fun fifo_run :: "'o queue_op list \<Rightarrow> 'o list \<Rightarrow> 'o node list \<times> 'o list" where
  "fifo_run [] xs = ([], xs)"
| "fifo_run (Enqueue x # ops) xs = fifo_run ops (xs @ [x])"
| "fifo_run (Dequeue # ops) [] = (let (ns, xs) = fifo_run ops [] in (NullNode # ns, xs))"
| "fifo_run (Dequeue # ops) (x # xs) = (let (ns, xs) = fifo_run ops xs in (NodeOf x # ns, xs))"

fun fresh_ops :: "'o queue_op list \<Rightarrow> 'o list \<Rightarrow> bool" where
  "fresh_ops [] xs = True"
| "fresh_ops (Enqueue x # ops) xs = (x \<notin> set xs \<and> fresh_ops ops (xs @ [x]))"
| "fresh_ops (Dequeue # ops) xs = fresh_ops ops (tl xs)"

text \<open>
  C24. A queue is first in, first out. If the pointers link the objects \<open>xs\<close>, then any sequence of enqueueing objects that are not in the
  queue and of dequeueing returns exactly the nodes that a list returns to which objects are added at the end and from which they are taken at the front, the null
  pointer whenever the list is empty; and it leaves the pointers linking what that list still holds, in order.
\<close>

theorem enqueue_dequeue_fifo:
  assumes "ring l xs" "fresh_ops ops xs"
  shows "\<exists>l'. queue_run ops l = (fst (fifo_run ops xs), l') \<and> ring l' (snd (fifo_run ops xs))"
  using assms
proof (induction ops xs arbitrary: l rule: fifo_run.induct)
  case (2 x ops xs)
  then show ?case
    using enqueue_ring [of l xs x] by simp
next
  case (3 ops)
  then show ?case
    using dequeue_ring [of l "[]"] by (fastforce split: prod.splits)
next
  case (4 ops x xs)
  obtain l' where "dequeue l = (NodeOf x, l')" "ring l' xs"
    using dequeue_ring [OF 4(2)] by auto
  then show ?case
    using 4(1) [of l'] 4(3) by (fastforce split: prod.splits)
qed simp

definition empty_links :: "nat links" where
  "empty_links = list_init HeadNode \<lparr>nxt = \<lambda>_. NullNode, prv = \<lambda>_. NullNode\<rparr>"

theorem enqueue_dequeue_fifo_witness:
  "\<exists>l'. queue_run [Enqueue 1, Enqueue 2, Dequeue, Enqueue 1, Dequeue, Dequeue, Dequeue, Enqueue 3] empty_links =
      ([NodeOf 1, NodeOf 2, NodeOf 1, NullNode], l') \<and> ring l' [3]"
  using enqueue_dequeue_fifo [of empty_links "[]" "[Enqueue 1, Enqueue 2, Dequeue, Enqueue 1, Dequeue, Dequeue, Dequeue, Enqueue 3]"]
  by (simp add: empty_links_def)

end
