(* ===== verification/Heap_Core.thy ===== *)
theory Heap_Core
  imports Intrusive_List
begin

text \<open>
  The heap allocator of the kernel, \<open>src/kernel/kmalloc.c\<close>, and of the application library,
  \<open>src/cm/malloc.c\<close>. The static functions of the two files are the same code; here they are modelled
  once, over the buffer length the files differ in. The header of a node is at its start, and its
  components are maps from the address of the node: the size, the allocated flag and one pair of
  pointers for each of the three lists the header is in. A node not in use by a list has stale
  pointers, as in the code.
\<close>

section \<open>Operations\<close>

datatype FindCriteria = FIND_CRIT_NODE_SIZE | FIND_CRIT_NODE_ADDRESS

text \<open>The two list heads that are passed to \<open>s_findFirst\<close>.\<close>

datatype ListHead = s_freeHead | s_allocHead

record heap =
  netNodeSize :: "PTR \<Rightarrow> SIZE"
  isAllocated :: "PTR \<Rightarrow> bool"
  adjnode :: "PTR links"
  freenode :: "PTR links"
  allocnode :: "PTR links"
  s_buffer :: PTR

definition MALLOC_HEADER_SIZE :: SIZE where
  [kdefs]: "MALLOC_HEADER_SIZE = 32"

definition NET_ALLOCATION_SIZE :: "SIZE \<Rightarrow> SIZE" where
  [kdefs]: "NET_ALLOCATION_SIZE sz_bytes = sz_bytes + MALLOC_HEADER_SIZE"

definition s_createNewNode :: "SIZE \<Rightarrow> PTR \<Rightarrow> SIZE \<Rightarrow> heap \<Rightarrow> heap option" where
  "s_createNewNode len at netSize h = do {
     k_assert (at + netSize - 1 < s_buffer h + len);
     Some (h\<lparr>netNodeSize := (netNodeSize h)(at := netSize),
             isAllocated := (isAllocated h)(at := False),
             freenode := list_init (NodeOf at) (freenode h),
             allocnode := list_init (NodeOf at) (allocnode h),
             adjnode := list_init (NodeOf at) (adjnode h)\<rparr>)
   }"

text \<open>The list a head belongs to; \<open>s_getMallocHeaderFromList\<close> is the step to the header of a node.\<close>

fun s_getMallocHeaderFromList :: "ListHead \<Rightarrow> heap \<Rightarrow> PTR links" where
  "s_getMallocHeaderFromList s_allocHead h = allocnode h"
| "s_getMallocHeaderFromList s_freeHead h = freenode h"

fun find_matches :: "FindCriteria \<Rightarrow> PTR \<Rightarrow> heap \<Rightarrow> PTR \<Rightarrow> bool" where
  "find_matches FIND_CRIT_NODE_ADDRESS value h header \<longleftrightarrow> header = value"
| "find_matches FIND_CRIT_NODE_SIZE value h header \<longleftrightarrow> netNodeSize h header \<ge> value"

definition s_findFirst :: "ListHead \<Rightarrow> FindCriteria \<Rightarrow> PTR \<Rightarrow> heap \<Rightarrow> PTR option" where
  "s_findFirst head criteria value h = do {
     found \<leftarrow> list_find (find_matches criteria value h) (s_getMallocHeaderFromList head h);
     Some (case found of None \<Rightarrow> 0 | Some header \<Rightarrow> header)
   }"

definition s_splitFreeNode :: "SIZE \<Rightarrow> SIZE \<Rightarrow> PTR \<Rightarrow> heap \<Rightarrow> heap option" where
  "s_splitFreeNode len bytes freeNodeHdr h =
     (let netAllocSize = NET_ALLOCATION_SIZE bytes;
          splitAt = freeNodeHdr + netAllocSize;
          remainingSize = netNodeSize h freeNodeHdr - netAllocSize
      in do {
        k_assert (remainingSize \<ge> MALLOC_HEADER_SIZE);
        h \<leftarrow> s_createNewNode len splitAt remainingSize h;
        let h = h\<lparr>netNodeSize := (netNodeSize h)(freeNodeHdr := netAllocSize),
                  isAllocated := (isAllocated h)(freeNodeHdr := True)\<rparr>;
            h = h\<lparr>freenode := list_add_after (NodeOf freeNodeHdr) (NodeOf splitAt) (freenode h)\<rparr>;
            h = h\<lparr>adjnode := list_add_after (NodeOf freeNodeHdr) (NodeOf splitAt) (adjnode h)\<rparr>;
            h = h\<lparr>freenode := list_remove (NodeOf freeNodeHdr) (freenode h)\<rparr>
        in Some (h\<lparr>allocnode := list_add_before HeadNode (NodeOf freeNodeHdr) (allocnode h)\<rparr>)
      })"

text \<open>Combining a node into the one before it, the common body of both cases of the next function.\<close>

definition merge_nodes :: "PTR \<Rightarrow> PTR \<Rightarrow> heap \<Rightarrow> heap" where
  "merge_nodes into node h =
     h\<lparr>netNodeSize := (netNodeSize h)(into := netNodeSize h into + netNodeSize h node),
       freenode := list_remove (NodeOf node) (freenode h),
       adjnode := list_remove (NodeOf node) (adjnode h)\<rparr>"

definition s_combineAdjFreeNodes :: "PTR \<Rightarrow> heap \<Rightarrow> heap option" where
  "s_combineAdjFreeNodes currentNode h = do {
     k_assert (\<not> isAllocated h currentNode);
     let prev = prv (adjnode h) (NodeOf currentNode);
         nextNode = nxt (adjnode h) (NodeOf currentNode);
         h = (if nextNode \<noteq> HeadNode \<and> \<not> isAllocated h (node_object nextNode)
              then merge_nodes currentNode (node_object nextNode) h else h);
         h = (if prev \<noteq> HeadNode \<and> \<not> isAllocated h (node_object prev)
              then merge_nodes (node_object prev) currentNode h else h)
     in Some h
   }"

text \<open>
  The bodies of \<open>kmalloc\<close> and \<open>cm_malloc\<close>, \<open>kfree\<close> and \<open>cm_free\<close> between their checks and their
  error returns, which differ. \<open>heap_alloc\<close> gives the address of the memory, 0 when there is no node
  that is large enough, and \<open>heap_free\<close> says whether the address was allocated.
\<close>

definition heap_alloc :: "SIZE \<Rightarrow> SIZE \<Rightarrow> heap \<Rightarrow> (PTR \<times> heap) option" where
  "heap_alloc len bytes h =
     (let searchAllocSize = NET_ALLOCATION_SIZE bytes + MALLOC_HEADER_SIZE
      in do {
        node \<leftarrow> s_findFirst s_freeHead FIND_CRIT_NODE_SIZE searchAllocSize h;
        if node \<noteq> 0 then do {
          k_assert (netNodeSize h node \<ge> NET_ALLOCATION_SIZE bytes);
          h \<leftarrow> s_splitFreeNode len bytes node h;
          Some (node + MALLOC_HEADER_SIZE, h)
        }
        else Some (0, h)
      })"

definition heap_free :: "PTR \<Rightarrow> heap \<Rightarrow> (bool \<times> heap) option" where
  "heap_free addr h =
     (let headerAddress = addr - MALLOC_HEADER_SIZE
      in do {
        allocHdr \<leftarrow> s_findFirst s_allocHead FIND_CRIT_NODE_ADDRESS headerAddress h;
        if allocHdr \<noteq> 0 then do {
          let h = h\<lparr>allocnode := list_remove (NodeOf allocHdr) (allocnode h)\<rparr>;
              h = h\<lparr>freenode := list_add_after HeadNode (NodeOf allocHdr) (freenode h)\<rparr>;
              h = h\<lparr>isAllocated := (isAllocated h)(allocHdr := False)\<rparr>
          in do {
            h \<leftarrow> s_combineAdjFreeNodes allocHdr h;
            Some (True, h)
          }
        }
        else Some (False, h)
      })"

definition heap_init :: "SIZE \<Rightarrow> PTR \<Rightarrow> heap \<Rightarrow> heap option" where
  "heap_init len buffer h = do {
     let h = h\<lparr>freenode := list_init HeadNode (freenode h),
               allocnode := list_init HeadNode (allocnode h),
               adjnode := list_init HeadNode (adjnode h), s_buffer := buffer\<rparr>
     in do {
       h \<leftarrow> s_createNewNode len buffer len h;
       Some (h\<lparr>freenode := list_add_before HeadNode (NodeOf buffer) (freenode h),
               adjnode := list_add_before HeadNode (NodeOf buffer) (adjnode h)\<rparr>)
     }
   }"

section \<open>Invariant\<close>

text \<open>
  The nodes \<open>xs\<close>, in this order, fill the addresses from \<open>a\<close> up to \<open>e\<close> without gap or overlap, and
  each has room for its header.
\<close>

fun tiles :: "(PTR \<Rightarrow> SIZE) \<Rightarrow> nat \<Rightarrow> nat \<Rightarrow> PTR list \<Rightarrow> bool" where
  "tiles sz a e [] \<longleftrightarrow> a = e"
| "tiles sz a e (x # xs) \<longleftrightarrow> unat x = a \<and> 32 \<le> unat (sz x) \<and> tiles sz (a + unat (sz x)) e xs"

text \<open>No two neighbours are both free: free memory is always coalesced.\<close>

fun coalesced :: "(PTR \<Rightarrow> bool) \<Rightarrow> PTR list \<Rightarrow> bool" where
  "coalesced al (x # y # xs) \<longleftrightarrow> (al x \<or> al y) \<and> coalesced al (y # xs)"
| "coalesced al _ \<longleftrightarrow> True"

definition heap_rel :: "heap \<Rightarrow> SIZE \<Rightarrow> PTR list \<Rightarrow> PTR list \<Rightarrow> PTR list \<Rightarrow> bool" where
  "heap_rel h len adj fr al \<longleftrightarrow> ring (adjnode h) adj \<and> ring (freenode h) fr \<and> ring (allocnode h) al
     \<and> set fr = {x \<in> set adj. \<not> isAllocated h x} \<and> set al = {x \<in> set adj. isAllocated h x}
     \<and> tiles (netNodeSize h) (unat (s_buffer h)) (unat (s_buffer h) + unat len) adj
     \<and> s_buffer h \<noteq> 0 \<and> unat (s_buffer h) + unat len < 2 ^ 32"

definition heap_inv :: "heap \<Rightarrow> SIZE \<Rightarrow> bool" where
  "heap_inv h len \<longleftrightarrow> (\<exists>adj fr al. heap_rel h len adj fr al \<and> coalesced (isAllocated h) adj)"

text \<open>What the heap looks like from outside: its segments in address order.\<close>

definition segments :: "heap \<Rightarrow> (PTR \<times> SIZE \<times> bool) list" where
  "segments h = map (\<lambda>x. (x, netNodeSize h x, isAllocated h x)) (the (list_for_each (adjnode h)))"

text \<open>
  The specification of freeing: mark the segment free, then combine runs of adjacent free segments.
\<close>

fun coalesce :: "(PTR \<times> SIZE \<times> bool) list \<Rightarrow> (PTR \<times> SIZE \<times> bool) list" where
  "coalesce ((x, n, a) # (y, m, b) # r) =
     (if \<not> a \<and> \<not> b then coalesce ((x, n + m, False) # r) else (x, n, a) # coalesce ((y, m, b) # r))"
| "coalesce [s] = [s]"
| "coalesce [] = []"

definition mark_free :: "PTR \<Rightarrow> (PTR \<times> SIZE \<times> bool) list \<Rightarrow> (PTR \<times> SIZE \<times> bool) list" where
  "mark_free p = map (\<lambda>(x, n, a). (x, n, a \<and> x \<noteq> p))"

definition allocated_blocks :: "heap \<Rightarrow> (PTR \<times> SIZE) set" where
  "allocated_blocks h = {(x, n). (x, n, True) \<in> set (segments h)}"

lemma segments_eq:
  "heap_rel h len adj fr al \<Longrightarrow> segments h = map (\<lambda>x. (x, netNodeSize h x, isAllocated h x)) adj"
  by (auto simp: segments_def heap_rel_def dest: il.repr_items)

lemma tiles_append:
  "tiles sz a e (xs @ ys) \<longleftrightarrow> (\<exists>m. tiles sz a m xs \<and> tiles sz m e ys)"
  by (induction sz a e xs rule: tiles.induct) auto

lemma tiles_le: "tiles sz a e xs \<Longrightarrow> a \<le> e"
  by (induction sz a e xs rule: tiles.induct) auto

lemma tiles_mem:
  "tiles sz a e xs \<Longrightarrow> x \<in> set xs \<Longrightarrow> a \<le> unat x \<and> unat x + unat (sz x) \<le> e \<and> 32 \<le> unat (sz x)"
  by (induction sz a e xs rule: tiles.induct) (auto dest: tiles_le)

lemma tiles_update [simp]: "x \<notin> set xs \<Longrightarrow> tiles (sz(x := v)) a e xs = tiles sz a e xs"
  by (induction "sz(x := v)" a e xs rule: tiles.induct) auto

lemma tiles_disjoint:
  assumes "tiles sz a e xs" "x \<in> set xs" "y \<in> set xs" "x \<noteq> y"
  shows "unat x + unat (sz x) \<le> unat y \<or> unat y + unat (sz y) \<le> unat x"
  using assms by (induction sz a e xs rule: tiles.induct) (auto dest: tiles_mem)

lemma coalesced_append:
  "coalesced al (xs @ ys) \<longleftrightarrow> coalesced al xs \<and> coalesced al ys
     \<and> (xs = [] \<or> ys = [] \<or> al (last xs) \<or> al (hd ys))"
proof (induction xs)
  case (Cons x xs)
  then show ?case
    by (cases xs; cases ys) auto
qed (cases ys; simp)

lemma coalesced_Cons:
  "coalesced al (x # xs) \<longleftrightarrow> coalesced al xs \<and> (xs = [] \<or> al x \<or> al (hd xs))"
  by (cases xs) auto

lemma coalesced_update [simp]:
  "x \<notin> set xs \<Longrightarrow> coalesced (al(x := v)) xs = coalesced al xs"
  by (induction "al(x := v)" xs rule: coalesced.induct) auto

lemma map_if_notin [simp]:
  "c \<notin> set xs \<Longrightarrow> map (\<lambda>x. (x, if x = c then v else f x, g x)) xs = map (\<lambda>x. (x, f x, g x)) xs"
  by auto

lemma tiles_outside:
  assumes "tiles sz a e xs" "x \<in> set xs" "unat x < unat y" "unat y < unat x + unat (sz x)"
  shows "y \<notin> set xs"
  using tiles_disjoint [OF assms(1,2)] assms(3,4) tiles_mem [OF assms(1)] by fastforce

lemma heap_relD:
  assumes "heap_rel h len adj fr al" "x \<in> set adj"
  shows "unat (s_buffer h) \<le> unat x" "unat x + unat (netNodeSize h x) \<le> unat (s_buffer h) + unat len"
    "32 \<le> unat (netNodeSize h x)" "unat x + unat (netNodeSize h x) < 2 ^ 32" "x \<noteq> 0"
proof -
  have b: "0 < unat (s_buffer h)" "unat (s_buffer h) + unat len < 2 ^ 32"
    and m: "unat (s_buffer h) \<le> unat x \<and> unat x + unat (netNodeSize h x) \<le> unat (s_buffer h) + unat len
      \<and> 32 \<le> unat (netNodeSize h x)"
    using assms tiles_mem [of _ _ _ adj x] by (auto simp: heap_rel_def unat_gt_0)
  then show "unat (s_buffer h) \<le> unat x" "unat x + unat (netNodeSize h x) \<le> unat (s_buffer h) + unat len"
    "32 \<le> unat (netNodeSize h x)" "unat x + unat (netNodeSize h x) < 2 ^ 32"
    by auto
  from m b(1) have "0 < unat x"
    by linarith
  then show "x \<noteq> 0"
    by auto
qed

abbreviation seg :: "heap \<Rightarrow> PTR \<Rightarrow> PTR \<times> SIZE \<times> bool" where
  "seg h x \<equiv> (x, netNodeSize h x, isAllocated h x)"

lemma coalesce_id: "coalesced (isAllocated h) xs \<Longrightarrow> coalesce (map (seg h) xs) = map (seg h) xs"
  by (induction "isAllocated h" xs rule: coalesced.induct) auto

lemma coalesce_merge:
  "coalesce (A @ (x, n, False) # (y, m, False) # B) = coalesce (A @ (x, n + m, False) # B)"
proof (induction A rule: coalesce.induct)
  case (2 s)
  obtain a k f where "s = (a, k, f)"
    by (cases s)
  then show ?case
    by (simp add: add.assoc)
qed auto

section \<open>The operations on the lists\<close>

lemma s_findFirst_size:
  assumes rel: "heap_rel h len adj fr al"
  shows "s_findFirst s_freeHead FIND_CRIT_NODE_SIZE v h =
    Some (case List.find (\<lambda>x. v \<le> netNodeSize h x) fr of None \<Rightarrow> 0 | Some x \<Rightarrow> x)"
proof -
  have m: "find_matches FIND_CRIT_NODE_SIZE v h = (\<lambda>x. v \<le> netNodeSize h x)"
    by (rule ext) simp
  show ?thesis
    using rel list_find_ring [of "freenode h" fr] by (simp add: s_findFirst_def m heap_rel_def)
qed

lemma s_findFirst_address:
  assumes rel: "heap_rel h len adj fr al"
  shows "s_findFirst s_allocHead FIND_CRIT_NODE_ADDRESS v h = Some (if v \<in> set al then v else 0)"
proof -
  have m: "find_matches FIND_CRIT_NODE_ADDRESS v h = (\<lambda>x. x = v)"
    by (rule ext) simp
  have "List.find (\<lambda>x. x = v) al = (if v \<in> set al then Some v else None)"
    by (induction al) auto
  then show ?thesis
    using rel list_find_ring [of "allocnode h" al] by (simp add: s_findFirst_def m heap_rel_def)
qed

text \<open>
  Splitting a free node: it becomes allocated with the requested size, the rest is a new free node
  which takes its place in the free list.
\<close>

lemma split_rel:
  assumes rel: "heap_rel h len (us @ f # vs) (fs @ f # gs) al"
    and size: "unat bytes + 64 \<le> unat (netNodeSize h f)"
  defines "n \<equiv> f + (bytes + 32)" and "r \<equiv> netNodeSize h f - (bytes + 32)"
  shows "\<exists>h'. s_splitFreeNode len bytes f h = Some h'
    \<and> heap_rel h' len (us @ f # n # vs) (fs @ n # gs) (al @ [f])
    \<and> netNodeSize h' = (netNodeSize h)(n := r, f := bytes + 32)
    \<and> isAllocated h' = (isAllocated h)(n := False, f := True) \<and> s_buffer h' = s_buffer h
    \<and> unat n = unat f + unat bytes + 32 \<and> unat r = unat (netNodeSize h f) - unat bytes - 32
    \<and> n \<notin> set (us @ f # vs)"
proof -
  let ?adj = "us @ f # vs"
  have rings: "ring (adjnode h) ?adj" "ring (freenode h) (fs @ f # gs)" "ring (allocnode h) al"
    and sets: "set (fs @ f # gs) = {x \<in> set ?adj. \<not> isAllocated h x}" "set al = {x \<in> set ?adj. isAllocated h x}"
    and tiles: "tiles (netNodeSize h) (unat (s_buffer h)) (unat (s_buffer h) + unat len) ?adj"
    using rel by (auto simp: heap_rel_def)
  note D = heap_relD [OF rel, of f, simplified]
  have net: "unat (bytes + 32) = unat bytes + 32"
    using size unat_le_word32 [of "netNodeSize h f"] by (simp add: unat_add_word32)
  have n: "unat n = unat f + unat bytes + 32"
    using D(4) size by (simp add: n_def unat_add_word32 net)
  have r: "unat r = unat (netNodeSize h f) - unat bytes - 32" "32 \<le> unat r"
    using size by (simp_all add: r_def unat_sub word_le_nat_alt net)
  have notin: "n \<notin> set ?adj"
    by (rule tiles_outside [OF tiles, of f]) (use n size in auto)
  then have notin': "n \<notin> set (fs @ f # gs)" "n \<notin> set al" "n \<noteq> f" "f \<notin> set al"
    using sets by auto
  have "unat (n + r - 1) = unat f + unat (netNodeSize h f) - 1"
    using n r size D(4) by (simp add: unat_sub word_le_nat_alt unat_add_word32)
  then have fits: "n + r - 1 < s_buffer h + len"
    using D rel by (simp add: word_less_nat_alt unat_add_word32 heap_rel_def)
  have 1: "ring (list_add_after (NodeOf f) (NodeOf n) (list_init (NodeOf n) (adjnode h))) (us @ f # n # vs)"
    using il.repr_insert_after [OF ring_frame [OF rings(1) notin] notin] .
  have 2: "ring (list_remove (NodeOf f) (list_add_after (NodeOf f) (NodeOf n)
      (list_init (NodeOf n) (freenode h)))) (fs @ n # gs)"
    using il.replace [OF ring_frame [OF rings(2) notin'(1)] notin'(1)] .
  have 3: "ring (list_add_before HeadNode (NodeOf f) (list_init (NodeOf n) (allocnode h))) (al @ [f])"
    using il.repr_add_back [OF ring_frame [OF rings(3) notin'(2)] notin'(4)] .
  have 4: "tiles ((netNodeSize h)(n := r, f := bytes + 32)) (unat (s_buffer h))
      (unat (s_buffer h) + unat len) (us @ f # n # vs)"
  proof -
    obtain m where m: "tiles (netNodeSize h) (unat (s_buffer h)) m us"
        "tiles (netNodeSize h) m (unat (s_buffer h) + unat len) (f # vs)"
      using tiles by (auto simp: tiles_append)
    have "f \<notin> set us" "f \<notin> set vs"
      using il.repr_distinct [OF rings(1)] by auto
    with m notin net n r show ?thesis
      by (auto simp: tiles_append add.assoc intro!: exI [of _ m])
  qed
  let ?h = "h\<lparr>netNodeSize := (netNodeSize h)(n := r, f := bytes + 32),
      isAllocated := (isAllocated h)(n := False, f := True),
      freenode := list_remove (NodeOf f) (list_add_after (NodeOf f) (NodeOf n) (list_init (NodeOf n) (freenode h))),
      allocnode := list_add_before HeadNode (NodeOf f) (list_init (NodeOf n) (allocnode h)),
      adjnode := list_add_after (NodeOf f) (NodeOf n) (list_init (NodeOf n) (adjnode h))\<rparr>"
  have "s_splitFreeNode len bytes f h = Some ?h"
    using fits r(2) by (simp add: s_splitFreeNode_def s_createNewNode_def Let_def kdefs
        word_le_nat_alt n_def r_def)
  moreover have "heap_rel ?h len (us @ f # n # vs) (fs @ n # gs) (al @ [f])"
    using 1 2 3 4 rel sets notin notin' il.repr_distinct [OF rings(2)] by (auto simp: heap_rel_def)
  ultimately show ?thesis
    using n r notin by auto
qed

text \<open>Combining two free neighbours.\<close>

lemma merge_rel:
  assumes rel: "heap_rel h len (us @ a # b # vs) fr al"
    and free: "\<not> isAllocated h a" "\<not> isAllocated h b"
  shows "heap_rel (merge_nodes a b h) len (us @ a # vs) (remove1 b fr) al"
proof -
  let ?adj = "us @ a # b # vs"
  have rings: "ring (adjnode h) ?adj" "ring (freenode h) fr" "ring (allocnode h) al"
    and sets: "set fr = {x \<in> set ?adj. \<not> isAllocated h x}" "set al = {x \<in> set ?adj. isAllocated h x}"
    and tiles: "tiles (netNodeSize h) (unat (s_buffer h)) (unat (s_buffer h) + unat len) ?adj"
    using rel by (auto simp: heap_rel_def)
  have dist: "distinct ?adj"
    by (rule il.repr_distinct [OF rings(1)])
  have 1: "ring (list_remove (NodeOf b) (adjnode h)) (us @ a # vs)"
    using il.repr_delete [of "adjnode h" "us @ [a]" b vs] rings(1) by simp
  have b: "b \<in> set fr"
    using sets free by auto
  have 2: "ring (list_remove (NodeOf b) (freenode h)) (remove1 b fr)" "set (remove1 b fr) = set fr - {b}"
    using il.repr_delete_remove1 [OF rings(2) b] il.set_delete [OF rings(2) b] by blast+
  obtain m where m: "tiles (netNodeSize h) (unat (s_buffer h)) m us"
      "tiles (netNodeSize h) m (unat (s_buffer h) + unat len) (a # b # vs)"
    using tiles by (auto simp: tiles_append)
  have sum: "unat (netNodeSize h a + netNodeSize h b) = unat (netNodeSize h a) + unat (netNodeSize h b)"
  proof (rule unat_add_word32)
    have "unat a + unat (netNodeSize h a) + unat (netNodeSize h b) \<le> unat (s_buffer h) + unat len"
      using m(2) by (auto intro: tiles_le)
    then show "unat (netNodeSize h a) + unat (netNodeSize h b) < 4294967296"
      using rel by (simp add: heap_rel_def)
  qed
  have 3: "tiles ((netNodeSize h)(a := netNodeSize h a + netNodeSize h b)) (unat (s_buffer h))
      (unat (s_buffer h) + unat len) (us @ a # vs)"
    using m dist by (auto simp: tiles_append sum add.assoc intro!: exI [of _ m])
  show ?thesis
    using 1 2 3 rings sets rel free dist by (auto simp: heap_rel_def merge_nodes_def)
qed

lemma merge_nodes_simps [simp]:
  "isAllocated (merge_nodes a b h) = isAllocated h" "allocnode (merge_nodes a b h) = allocnode h"
  "s_buffer (merge_nodes a b h) = s_buffer h"
  "netNodeSize (merge_nodes a b h) = (netNodeSize h)(a := netNodeSize h a + netNodeSize h b)"
  by (simp_all add: merge_nodes_def)

text \<open>
  \<open>s_combineAdjFreeNodes\<close> on a free node \<open>c\<close> between \<open>us\<close> and \<open>vs\<close>, both coalesced: the free
  neighbours disappear into it, and what remains is coalesced.
\<close>

lemma combine_rel:
  assumes rel: "heap_rel h len (us @ c # vs) fr al" and c: "\<not> isAllocated h c"
    and co: "coalesced (isAllocated h) us" "coalesced (isAllocated h) vs"
  shows "\<exists>h' adj' fr'. s_combineAdjFreeNodes c h = Some h' \<and> heap_rel h' len adj' fr' al
    \<and> coalesced (isAllocated h') adj' \<and> isAllocated h' = isAllocated h \<and> s_buffer h' = s_buffer h
    \<and> map (seg h') adj' = coalesce (map (seg h) (us @ c # vs))"
proof -
  have ring: "ring (adjnode h) (us @ c # vs)"
    using rel by (simp add: heap_rel_def)
  note dist = il.repr_distinct [OF ring]
  note links = ring_nxt [OF ring] ring_prv [OF ring]
  define h1 where "h1 = (if vs \<noteq> [] \<and> \<not> isAllocated h (hd vs) then merge_nodes c (hd vs) h else h)"
  define vs1 where "vs1 = (if vs \<noteq> [] \<and> \<not> isAllocated h (hd vs) then tl vs else vs)"
  define fr1 where "fr1 = (if vs \<noteq> [] \<and> \<not> isAllocated h (hd vs) then remove1 (hd vs) fr else fr)"
  have al1: "isAllocated h1 = isAllocated h"
    by (simp add: h1_def)
  have rel1: "heap_rel h1 len (us @ c # vs1) fr1 al"
    using merge_rel [of h len us c "hd vs" "tl vs" fr al] rel c
    by (auto simp: h1_def vs1_def fr1_def neq_Nil_conv)
  have co1: "coalesced (isAllocated h) (c # vs1)"
    using co(2) c by (cases vs; cases "tl vs") (auto simp: vs1_def)
  define h2 where "h2 = (if us \<noteq> [] \<and> \<not> isAllocated h1 (last us) then merge_nodes (last us) c h1 else h1)"
  define adj2 where "adj2 = (if us \<noteq> [] \<and> \<not> isAllocated h1 (last us) then us @ vs1 else us @ c # vs1)"
  define fr2 where "fr2 = (if us \<noteq> [] \<and> \<not> isAllocated h1 (last us) then remove1 c fr1 else fr1)"
  have al2: "isAllocated h2 = isAllocated h"
    by (simp add: h2_def al1)
  have rel2: "heap_rel h2 len adj2 fr2 al"
    using merge_rel [of h1 len "butlast us" "last us" c vs1 fr1 al] rel1 c al1
    by (cases us rule: rev_cases) (auto simp: h2_def adj2_def fr2_def)
  have co2: "coalesced (isAllocated h2) adj2"
    using co1 co(1) c al1 unfolding al2 adj2_def
    by (cases us rule: rev_cases; cases vs1) (auto simp: coalesced_append)
  have "s_combineAdjFreeNodes c h = Some h2"
    using c al1 by (cases us rule: rev_cases; cases vs)
      (auto simp: s_combineAdjFreeNodes_def links h1_def h2_def Let_def)
  moreover have "s_buffer h2 = s_buffer h"
    by (simp add: h2_def h1_def)
  moreover have "map (seg h2) adj2 = coalesce (map (seg h) (us @ c # vs))"
  proof -
    have "coalesce (map (seg h1) (us @ c # vs1)) = coalesce (map (seg h) (us @ c # vs))"
      using c dist coalesce_merge [of "map (seg h) us" c "netNodeSize h c"]
      by (cases vs) (auto simp: h1_def vs1_def)
    moreover have "coalesce (map (seg h2) adj2) = coalesce (map (seg h1) (us @ c # vs1))"
    proof -
      have "last us \<notin> set vs1" if "us \<noteq> []"
        using that dist by (cases us rule: rev_cases; cases vs) (auto simp: vs1_def)
      then show ?thesis
        using c dist al1 coalesce_merge [of "map (seg h1) (butlast us)" "last us" "netNodeSize h1 (last us)"]
        by (cases us rule: rev_cases) (auto simp: h2_def adj2_def)
    qed
    ultimately show ?thesis
      using coalesce_id [OF co2] by simp
  qed
  ultimately show ?thesis
    using rel2 co2 al2 by blast
qed

section \<open>What the allocator does to the segments\<close>

lemma heap_init_spec:
  assumes "buffer \<noteq> 0" "unat buffer + unat len < 2 ^ 32" "32 \<le> unat len"
  shows "\<exists>h'. heap_init len buffer h = Some h' \<and> heap_inv h' len \<and> segments h' = [(buffer, len, False)]"
proof -
  have "unat (buffer + len - 1) = unat buffer + unat len - 1"
    using assms by (simp add: unat_sub word_le_nat_alt unat_add_word32)
  then have fits: "buffer + len - 1 < buffer + len"
    using assms by (simp add: word_less_nat_alt unat_add_word32)
  then obtain h' where h': "heap_init len buffer h = Some h'"
      "ring (adjnode h') [buffer]" "ring (freenode h') [buffer]" "ring (allocnode h') []"
      "netNodeSize h' buffer = len" "\<not> isAllocated h' buffer" "s_buffer h' = buffer"
    using il.repr_add_back [OF ring_frame [OF ring_init], of buffer]
      ring_frame [OF ring_init, of buffer]
    by (auto simp: heap_init_def s_createNewNode_def Let_def)
  then have "heap_rel h' len [buffer] [buffer] []"
    using assms by (auto simp: heap_rel_def)
  then show ?thesis
    using h' segments_eq unfolding heap_inv_def by fastforce
qed

text \<open>
  \<open>heap_alloc\<close> either leaves the heap alone, because no free segment has room for the request, its
  header and the header of a remainder, or turns one free segment into the allocation and a free
  remainder.
\<close>

lemma heap_alloc_spec:
  assumes inv: "heap_inv h len" and bytes: "unat bytes + 64 < 2 ^ 32"
  obtains
    (full) "heap_alloc len bytes h = Some (0, h)"
      "\<forall>(x, n, a) \<in> set (segments h). a \<or> unat n < unat bytes + 64"
  | (alloc) us x n vs h' where "heap_alloc len bytes h = Some (x + 32, h')" "heap_inv h' len"
      "segments h = us @ (x, n, False) # vs" "unat bytes + 64 \<le> unat n" "x + 32 \<noteq> 0"
      "segments h' = us @ (x, bytes + 32, True) # (x + (bytes + 32), n - (bytes + 32), False) # vs"
proof -
  obtain adj fr al where rel: "heap_rel h len adj fr al" and co: "coalesced (isAllocated h) adj"
    using inv by (auto simp: heap_inv_def)
  have search: "unat (NET_ALLOCATION_SIZE bytes + MALLOC_HEADER_SIZE) = unat bytes + 64"
    using bytes by (simp add: kdefs add.assoc unat_add_word32)
  have fr: "set fr = {x \<in> set adj. \<not> isAllocated h x}"
    using rel by (simp add: heap_rel_def)
  let ?P = "\<lambda>x. NET_ALLOCATION_SIZE bytes + MALLOC_HEADER_SIZE \<le> netNodeSize h x"
  show thesis
  proof (cases "List.find ?P fr")
    case None
    then have "\<forall>x \<in> set fr. unat (netNodeSize h x) < unat bytes + 64"
      by (simp add: find_None_iff not_le word_less_nat_alt search)
    then have "\<forall>(x, n, a) \<in> set (segments h). a \<or> unat n < unat bytes + 64"
      using fr by (auto simp: segments_eq [OF rel])
    moreover have "heap_alloc len bytes h = Some (0, h)"
      using None by (simp add: heap_alloc_def s_findFirst_size [OF rel])
    ultimately show thesis
      by (rule full [rotated])
  next
    case (Some f)
    then have f: "f \<in> set fr" "unat bytes + 64 \<le> unat (netNodeSize h f)"
      by (auto simp: find_Some_iff word_le_nat_alt search)
    obtain fs gs where fs: "fr = fs @ f # gs"
      using split_list [OF f(1)] by blast
    obtain us vs where us: "adj = us @ f # vs"
      using f(1) fr split_list [of f adj] by auto
    have free: "\<not> isAllocated h f"
      using f(1) fr by auto
    let ?n = "f + (bytes + 32)" and ?r = "netNodeSize h f - (bytes + 32)"
    obtain h' where h': "s_splitFreeNode len bytes f h = Some h'"
      "heap_rel h' len (us @ f # ?n # vs) (fs @ ?n # gs) (al @ [f])"
      "netNodeSize h' = (netNodeSize h)(?n := ?r, f := bytes + 32)"
      "isAllocated h' = (isAllocated h)(?n := False, f := True)" "?n \<notin> set (us @ f # vs)"
      using split_rel [OF rel [unfolded fs us] f(2)] by blast
    have "f \<notin> set us" "f \<notin> set vs"
      using rel us il.repr_distinct [of "adjnode h" adj] by (auto simp: heap_rel_def)
    then have segs: "segments h' = map (seg h) us @ (f, bytes + 32, True) # (?n, ?r, False) # map (seg h) vs"
      using h'(3-5) by (auto simp: segments_eq [OF h'(2)] cong: map_cong)
    have "coalesced (isAllocated h') (us @ f # ?n # vs)"
    proof -
      have "coalesced (isAllocated h) us" "coalesced (isAllocated h) vs"
          "us = [] \<or> isAllocated h (last us)" "vs = [] \<or> isAllocated h (hd vs)"
        using co free us by (auto simp: coalesced_append) (cases vs; auto)+
      moreover have "hd vs \<noteq> ?n" if "vs \<noteq> []"
        using that h'(5) by (cases vs) auto
      ultimately show ?thesis
        using h'(4,5) \<open>f \<notin> set us\<close> \<open>f \<notin> set vs\<close> \<open>vs \<noteq> [] \<Longrightarrow> hd vs \<noteq> ?n\<close>
        by (auto simp: coalesced_append coalesced_Cons simp del: coalesced.simps(1))
    qed
    then have "heap_inv h' len"
      using h'(2) by (auto simp: heap_inv_def)
    moreover note D = heap_relD [OF rel, of f]
    have "f \<noteq> 0" "unat (f + 32) = unat f + 32"
      using us D f(2) by (simp_all add: unat_add_word32)
    then have "f + 32 \<noteq> 0"
      by (metis add_is_0 unat_0 zero_neq_numeral)
    moreover have "NET_ALLOCATION_SIZE bytes \<le> netNodeSize h f"
      using f(2) bytes by (simp add: kdefs word_le_nat_alt unat_add_word32)
    then have "heap_alloc len bytes h = Some (f + 32, h')"
      using Some h'(1) \<open>f \<noteq> 0\<close> by (simp add: heap_alloc_def s_findFirst_size [OF rel] kdefs)
    ultimately show thesis
      using segs segments_eq [OF rel] us free f(2)
        alloc [of f h' "map (seg h) us" "netNodeSize h f" "map (seg h) vs"] by simp
  qed
qed

text \<open>
  \<open>heap_free\<close> of the address of an allocated segment marks it free and coalesces; of any other
  address it changes nothing.
\<close>

lemma heap_free_spec:
  assumes inv: "heap_inv h len"
  shows "if \<exists>n. (addr - 32, n, True) \<in> set (segments h)
    then \<exists>h'. heap_free addr h = Some (True, h') \<and> heap_inv h' len
      \<and> segments h' = coalesce (mark_free (addr - 32) (segments h))
    else heap_free addr h = Some (False, h)"
proof -
  obtain adj fr al where rel: "heap_rel h len adj fr al" and co: "coalesced (isAllocated h) adj"
    using inv by (auto simp: heap_inv_def)
  let ?c = "addr - 32"
  have al: "set al = {x \<in> set adj. isAllocated h x}" and fr: "set fr = {x \<in> set adj. \<not> isAllocated h x}"
    using rel by (auto simp: heap_rel_def)
  have iff: "(\<exists>n. (?c, n, True) \<in> set (segments h)) \<longleftrightarrow> ?c \<in> set al"
    using al by (auto simp: segments_eq [OF rel])
  show ?thesis
  proof (cases "?c \<in> set al")
    case False
    then show ?thesis
      unfolding iff by (simp add: heap_free_def s_findFirst_address [OF rel] kdefs)
  next
    case True
    then have "?c \<in> set adj" and notin: "?c \<notin> set fr"
      using al fr by auto
    then have "?c \<noteq> 0"
      by (intro heap_relD(5) [OF rel])
    obtain us vs where us: "adj = us @ ?c # vs"
      using True al split_list [of ?c adj] by auto
    let ?h = "h\<lparr>allocnode := list_remove (NodeOf ?c) (allocnode h),
        freenode := list_add_after HeadNode (NodeOf ?c) (freenode h),
        isAllocated := (isAllocated h)(?c := False)\<rparr>"
    have rel': "heap_rel ?h len (us @ ?c # vs) (?c # fr) (remove1 ?c al)"
      using rel True al fr us notin il.repr_delete_remove1 [of "allocnode h" al ?c] il.set_delete [of "allocnode h" al ?c]
        il.repr_add_front [of "freenode h" fr ?c] by (auto simp: heap_rel_def)
    have dist: "?c \<notin> set us" "?c \<notin> set vs"
      using rel' il.repr_distinct [of "adjnode h" "us @ ?c # vs"] by (auto simp: heap_rel_def)
    then have "coalesced (isAllocated ?h) us" "coalesced (isAllocated ?h) vs"
      using co us by (auto simp: coalesced_append coalesced_Cons)
    from combine_rel [OF rel' _ this] obtain h' adj' fr' where
      h': "s_combineAdjFreeNodes ?c ?h = Some h'" "heap_rel h' len adj' fr' (remove1 ?c al)"
        "coalesced (isAllocated h') adj'"
        "map (seg h') adj' = coalesce (map (seg ?h) (us @ ?c # vs))"
      by auto
    have "map (seg ?h) (us @ ?c # vs) = mark_free ?c (segments h)"
      using us by (auto simp: mark_free_def segments_eq [OF rel])
    then have "segments h' = coalesce (mark_free ?c (segments h))"
      using h'(4) by (simp add: segments_eq [OF h'(2)])
    moreover have "heap_free addr h = Some (True, h')"
      using h'(1) True \<open>?c \<noteq> 0\<close> by (simp add: heap_free_def s_findFirst_address [OF rel] kdefs Let_def)
    ultimately show ?thesis
      unfolding iff using True h'(2,3) by (auto simp: heap_inv_def)
  qed
qed

lemma heap_inv_coalesce: "heap_inv h len \<Longrightarrow> coalesce (segments h) = segments h"
  by (auto simp: heap_inv_def segments_eq coalesce_id)

text \<open>The segments of a heap are disjoint and inside its buffer.\<close>

lemma heap_inv_segments:
  assumes "heap_inv h len"
  shows "(x, n, a) \<in> set (segments h) \<Longrightarrow> unat (s_buffer h) \<le> unat x
      \<and> unat x + unat n \<le> unat (s_buffer h) + unat len \<and> 32 \<le> unat n"
    and "(x, n, a) \<in> set (segments h) \<Longrightarrow> (y, m, b) \<in> set (segments h) \<Longrightarrow> x \<noteq> y \<Longrightarrow>
      unat x + unat n \<le> unat y \<or> unat y + unat m \<le> unat x"
    and "distinct (map fst (segments h))" "unat (s_buffer h) + unat len < 2 ^ 32"
proof -
  obtain adj fr al where rel: "heap_rel h len adj fr al"
    using assms by (auto simp: heap_inv_def)
  then have t: "tiles (netNodeSize h) (unat (s_buffer h)) (unat (s_buffer h) + unat len) adj"
      "ring (adjnode h) adj"
    by (auto simp: heap_rel_def)
  show "(x, n, a) \<in> set (segments h) \<Longrightarrow> unat (s_buffer h) \<le> unat x
      \<and> unat x + unat n \<le> unat (s_buffer h) + unat len \<and> 32 \<le> unat n"
    using tiles_mem [OF t(1)] by (auto simp: segments_eq [OF rel])
  show "(x, n, a) \<in> set (segments h) \<Longrightarrow> (y, m, b) \<in> set (segments h) \<Longrightarrow> x \<noteq> y \<Longrightarrow>
      unat x + unat n \<le> unat y \<or> unat y + unat m \<le> unat x"
    using tiles_disjoint [OF t(1)] by (auto simp: segments_eq [OF rel])
  show "distinct (map fst (segments h))"
    using il.repr_distinct [OF t(2)] by (simp add: segments_eq [OF rel] comp_def)
  show "unat (s_buffer h) + unat len < 2 ^ 32"
    using rel by (simp add: heap_rel_def)
qed

section \<open>What clients rely on\<close>

text \<open>
  The contract of a heap, over its segments. \<open>ok\<close> are the requests the contract is about.
\<close>

locale segment_allocator =
  fixes inv :: "'s \<Rightarrow> bool" and segs :: "'s \<Rightarrow> (PTR \<times> SIZE \<times> bool) list" and ok :: "SIZE \<Rightarrow> bool"
    and malloc :: "SIZE \<Rightarrow> 's \<Rightarrow> (PTR \<times> 's) option" and mfree :: "PTR \<Rightarrow> 's \<Rightarrow> (bool \<times> 's) option"
  assumes malloc_law: "inv st \<Longrightarrow> ok bytes \<Longrightarrow> \<exists>p st'. malloc bytes st = Some (p, st') \<and> inv st' \<and>
      (if p = 0 then segs st' = segs st \<and> (\<forall>(x, n, a) \<in> set (segs st). a \<or> unat n < unat bytes + 64)
       else \<exists>us x n vs. p = x + 32 \<and> segs st = us @ (x, n, False) # vs \<and> unat bytes + 64 \<le> unat n
         \<and> segs st' = us @ (x, bytes + 32, True) # (x + (bytes + 32), n - (bytes + 32), False) # vs)"
    and free_law: "inv st \<Longrightarrow> (p - 32, n, True) \<in> set (segs st) \<Longrightarrow> \<exists>st'. mfree p st = Some (True, st') \<and> inv st'
      \<and> segs st' = coalesce (mark_free (p - 32) (segs st))"
    and segs_coalesced: "inv st \<Longrightarrow> coalesce (segs st) = segs st"
    and segs_distinct: "inv st \<Longrightarrow> distinct (map fst (segs st))"
    and segs_disjoint: "inv st \<Longrightarrow> (x, n, a) \<in> set (segs st) \<Longrightarrow> (y, m, b) \<in> set (segs st) \<Longrightarrow> x \<noteq> y \<Longrightarrow>
      unat x + unat n \<le> unat y \<or> unat y + unat m \<le> unat x"
    and segs_bounded: "inv st \<Longrightarrow> (x, n, a) \<in> set (segs st) \<Longrightarrow> unat x + unat n < 2 ^ 32"
begin

text \<open>
  A block that was obtained lies in a segment of its own: it is disjoint from every segment that was
  allocated before, header included, and those are still allocated.
\<close>

lemma malloc_safe:
  assumes inv: "inv st" and ok: "ok bytes" and got: "malloc bytes st = Some (p, st')" and p: "p \<noteq> 0"
  shows "inv st' \<and> 32 \<le> unat p \<and> unat p + unat bytes < 2 ^ 32
    \<and> (p - 32, bytes + 32, True) \<in> set (segs st')
    \<and> (\<forall>x n. (x, n, True) \<in> set (segs st) \<longrightarrow> (x, n, True) \<in> set (segs st')
         \<and> (unat x + unat n \<le> unat p - 32 \<or> unat p + unat bytes \<le> unat x))"
proof -
  obtain us x n vs where s: "p = x + 32" "segs st = us @ (x, n, False) # vs" "unat bytes + 64 \<le> unat n"
      "segs st' = us @ (x, bytes + 32, True) # (x + (bytes + 32), n - (bytes + 32), False) # vs" "inv st'"
    using malloc_law [OF inv ok] got p by (auto split: if_splits)
  have mem: "(x, n, False) \<in> set (segs st)"
    using s(2) by simp
  have up: "unat p = unat x + 32"
    using segs_bounded [OF inv mem] s(1,3) by (simp add: unat_add_word32)
  have "(y, m, True) \<in> set (segs st')
      \<and> (unat y + unat m \<le> unat p - 32 \<or> unat p + unat bytes \<le> unat y)"
    if y: "(y, m, True) \<in> set (segs st)" for y m
  proof -
    have "y \<noteq> x"
      using segs_distinct [OF inv] y s(2) by (auto simp: image_iff)
    with segs_disjoint [OF inv y mem] have "unat y + unat m \<le> unat x \<or> unat x + unat n \<le> unat y"
      by blast
    then show ?thesis
      using y s(2-4) up by auto
  qed
  then show ?thesis
    using s segs_bounded [OF inv mem] up by auto
qed

text \<open>Freeing a block right after it was obtained restores the segments, and a second free fails.\<close>

lemma malloc_free:
  assumes inv: "inv st" and ok: "ok bytes" and got: "malloc bytes st = Some (p, st')" and p: "p \<noteq> 0"
  shows "\<exists>st''. mfree p st' = Some (True, st'') \<and> inv st'' \<and> segs st'' = segs st"
proof -
  obtain us x n vs where s: "p = x + 32" "segs st = us @ (x, n, False) # vs"
      "segs st' = us @ (x, bytes + 32, True) # (x + (bytes + 32), n - (bytes + 32), False) # vs" "inv st'"
    using malloc_law [OF inv ok] got p by (auto split: if_splits)
  have notin: "x \<notin> fst ` set us" "x \<notin> fst ` set vs"
    using segs_distinct [OF inv] s(2) by auto
  have keep: "mark_free x ys = ys" if "x \<notin> fst ` set ys" for ys
    using that unfolding mark_free_def by (intro map_idI) force
  have "mark_free x (segs st') =
      us @ (x, bytes + 32, False) # (x + (bytes + 32), n - (bytes + 32), False) # vs"
    using keep [OF notin(1)] keep [OF notin(2)] s(3) by (simp add: mark_free_def)
  then have "coalesce (mark_free x (segs st')) = coalesce (segs st)"
    by (simp add: coalesce_merge s(2))
  moreover have "(p - 32, bytes + 32, True) \<in> set (segs st')"
    using s(1,3) by simp
  ultimately show ?thesis
    using free_law [OF s(4), of p "bytes + 32"] segs_coalesced [OF inv] s(1) by simp
qed

end

text \<open>Uninitialized memory, for the examples.\<close>

definition blank_heap :: heap where
  "blank_heap = \<lparr>netNodeSize = \<lambda>_. 0, isAllocated = \<lambda>_. False,
     adjnode = \<lparr>nxt = \<lambda>_. NullNode, prv = \<lambda>_. NullNode\<rparr>,
     freenode = \<lparr>nxt = \<lambda>_. NullNode, prv = \<lambda>_. NullNode\<rparr>,
     allocnode = \<lparr>nxt = \<lambda>_. NullNode, prv = \<lambda>_. NullNode\<rparr>, s_buffer = 0\<rparr>"

end
