(* ===== verification/Kstdlib.thy ===== *)
theory Kstdlib
  imports Prelude
begin

text \<open>
  The memory and string routines of \<open>src/kernel/kstdlib.c\<close> and their copies in
  \<open>src/cm/string.c\<close>. Routines that only read take their arguments as byte lists, the objects the
  pointers point to, and have no result when they run past the end. Routines that write work on
  \<open>memory\<close>, a function from addresses to bytes, because their results depend on how source and
  destination overlap.
\<close>

type_synonym memory = "PTR \<Rightarrow> U8"

section \<open>Reading routines\<close>

text \<open>\<open>k_memcmp\<close>: \<open>n\<close> counts down while the bytes agree; the result is whether it reached zero.\<close>

fun k_memcmp :: "U8 list \<Rightarrow> U8 list \<Rightarrow> nat \<Rightarrow> bool option" where
  "k_memcmp dest src 0 = Some True"
| "k_memcmp (d # dest) (s # src) (Suc n) = (if d = s then k_memcmp dest src n else Some False)"
| "k_memcmp _ _ (Suc n) = None"

text \<open>The loop of \<open>k_strlen\<close>, with the \<open>UINT\<close> counter \<open>len\<close>; \<open>None\<close> when no NUL is found.\<close>

fun strlen_loop :: "U8 list \<Rightarrow> UINT \<Rightarrow> UINT option" where
  "strlen_loop [] len = None"
| "strlen_loop (c # s) len = (if c = 0 then Some len else strlen_loop s (len + 1))"

definition k_strlen :: "U8 list \<Rightarrow> UINT option" where
  "k_strlen s = strlen_loop s 0"

definition cm_strlen :: "U8 list \<Rightarrow> UINT option" where
  "cm_strlen s = strlen_loop s 0"

lemma k_memcmp_eq:
  "n \<le> length xs \<Longrightarrow> n \<le> length ys \<Longrightarrow> k_memcmp xs ys n = Some (take n xs = take n ys)"
  by (induction xs ys n rule: k_memcmp.induct) auto

lemma strlen_loop_append:
  "0 \<notin> set s \<Longrightarrow> strlen_loop (s @ 0 # rest) len = Some (len + of_nat (length s))"
  by (induction s arbitrary: len) (auto simp: add.assoc)

lemma strlen_loop_None: "strlen_loop s len = None \<longleftrightarrow> 0 \<notin> set s"
  by (induction s arbitrary: len) auto

section \<open>Writing routines\<close>

text \<open>
  \<open>k_memcpy\<close> copies from the last byte to the first: \<open>n\<close> is the number of bytes left, and the
  byte written is at offset \<open>n - 1\<close>.
\<close>

fun memcpy_loop :: "nat \<Rightarrow> PTR \<Rightarrow> PTR \<Rightarrow> memory \<Rightarrow> memory" where
  "memcpy_loop 0 dest src m = m"
| "memcpy_loop (Suc n) dest src m =
     memcpy_loop n dest src (m(dest + of_nat n := m (src + of_nat n)))"

definition k_memcpy :: "PTR \<Rightarrow> PTR \<Rightarrow> SIZE \<Rightarrow> memory \<Rightarrow> memory" where
  "k_memcpy dest src n m = memcpy_loop (unat n) dest src m"

definition cm_memcpy :: "PTR \<Rightarrow> PTR \<Rightarrow> SIZE \<Rightarrow> memory \<Rightarrow> memory" where
  "cm_memcpy dest src n m = memcpy_loop (unat n) dest src m"

fun memset_loop :: "nat \<Rightarrow> PTR \<Rightarrow> U8 \<Rightarrow> memory \<Rightarrow> memory" where
  "memset_loop 0 s c m = m"
| "memset_loop (Suc n) s c m = memset_loop n (s + 1) c (m(s := c))"

definition k_memset :: "PTR \<Rightarrow> U8 \<Rightarrow> SIZE \<Rightarrow> memory \<Rightarrow> memory" where
  "k_memset s c n m = memset_loop (unat n) s c m"

definition cm_memset :: "PTR \<Rightarrow> U8 \<Rightarrow> SIZE \<Rightarrow> memory \<Rightarrow> memory" where
  "cm_memset s c n m = memset_loop (unat n) s c m"

text \<open>\<open>k_strncpy\<close>: the byte is stored before it is compared with NUL, and \<open>n\<close> bounds the stores.\<close>

fun strncpy_loop :: "nat \<Rightarrow> PTR \<Rightarrow> PTR \<Rightarrow> memory \<Rightarrow> memory" where
  "strncpy_loop 0 d s m = m"
| "strncpy_loop (Suc n) d s m =
     (let m' = m(d := m s) in if m' d = 0 then m' else strncpy_loop n (d + 1) (s + 1) m')"

definition k_strncpy :: "PTR \<Rightarrow> PTR \<Rightarrow> SIZE \<Rightarrow> memory \<Rightarrow> memory" where
  "k_strncpy d s n m = strncpy_loop (unat n) d s m"

definition cm_strncpy :: "PTR \<Rightarrow> PTR \<Rightarrow> SIZE \<Rightarrow> memory \<Rightarrow> memory" where
  "cm_strncpy d s n m = strncpy_loop (unat n) d s m"

text \<open>
  \<open>k_memset_pat4\<close>: the bytes of the pattern in memory order (little endian), \<open>szp\<close> of them at a
  time. Other widths than 1 to 4 reach \<open>UNREACHABLE()\<close>. The counter is unsigned: when fewer than
  \<open>szp\<close> bytes are left it wraps around, and the loop goes on past the end of the destination.
\<close>

definition pattern_byte :: "U32 \<Rightarrow> nat \<Rightarrow> U8" where
  "pattern_byte p i = ucast (drop_bit (8 * i) p)"

definition store_pattern :: "PTR \<Rightarrow> U32 \<Rightarrow> SIZE \<Rightarrow> memory \<Rightarrow> memory option" where
  "store_pattern dest p szp m =
     (let w1 = (\<lambda>m. (m(dest + 1 := pattern_byte p 1))(dest := pattern_byte p 0));
          w2 = (\<lambda>m. m(dest + 2 := pattern_byte p 2));
          w3 = (\<lambda>m. m(dest + 3 := pattern_byte p 3))
      in if szp = 4 then Some (w1 (w2 (w3 m)))
         else if szp = 3 then Some (w1 (w2 m))
         else if szp = 2 then Some (w1 m)
         else None)"

partial_function (option) memset_pat4_loop ::
  "SIZE \<Rightarrow> PTR \<Rightarrow> U32 \<Rightarrow> SIZE \<Rightarrow> memory \<Rightarrow> memory option" where
  "memset_pat4_loop n dest p szp m =
     (if n = 0 then Some m
      else do {
        m' \<leftarrow> store_pattern dest p szp m;
        memset_pat4_loop (n - szp) (dest + szp) p szp m'
      })"

definition k_memset_pat4 :: "PTR \<Rightarrow> U32 \<Rightarrow> SIZE \<Rightarrow> SIZE \<Rightarrow> memory \<Rightarrow> memory option" where
  "k_memset_pat4 s p szp n m = do {
     k_assert (IS_ALIGNED n szp);
     if szp = 1 then Some (k_memset s (ucast p) n m) else memset_pat4_loop n s p szp m
   }"


text \<open>A 32 bit object in memory, little endian: what reading and assigning a \<open>U32\<close> or pointer does.\<close>

definition load32 :: "memory \<Rightarrow> PTR \<Rightarrow> U32" where
  "load32 m a = ucast (m a) OR push_bit 8 (ucast (m (a + 1))) OR push_bit 16 (ucast (m (a + 2)))
     OR push_bit 24 (ucast (m (a + 3)))"

definition store32 :: "PTR \<Rightarrow> U32 \<Rightarrow> memory \<Rightarrow> memory" where
  "store32 a w m = m(a := ucast w, a + 1 := ucast (drop_bit 8 w), a + 2 := ucast (drop_bit 16 w),
     a + 3 := ucast (drop_bit 24 w))"

lemma load32_store32_same [simp]: "load32 (store32 a w m) a = w"
proof (rule bit_word_eqI)
  fix n assume "n < LENGTH(32)"
  then consider "n < 8" | "8 \<le> n" "n < 16" | "16 \<le> n" "n < 24" | "24 \<le> n" "n < 32"
    by fastforce
  then show "bit (load32 (store32 a w m) a) n = bit w n"
    by cases (auto simp: load32_def store32_def bit_simps)
qed

lemma load32_store32_other:
  assumes "4 \<le> unat (b - a)" "unat (b - a) \<le> 4294967292"
  shows "load32 (store32 a w m) b = load32 m b"
proof -
  have ne: "b + of_nat j \<noteq> a + of_nat k" if "j < 4" "k < 4" for j k :: nat
  proof
    assume "b + of_nat j = a + of_nat k"
    then have "b - a + of_nat j = of_nat k"
      by (simp add: algebra_simps)
    then have "unat (b - a + of_nat j) = k"
      using that by (simp add: unat_of_nat_word32)
    then show False
      using assms that by (auto simp: unat_word_ariths unat_of_nat_word32 split: if_splits)
  qed
  show ?thesis
    using ne [of 0 0] ne [of 0 1] ne [of 0 2] ne [of 0 3] ne [of 1 0] ne [of 1 1] ne [of 1 2] ne [of 1 3]
      ne [of 2 0] ne [of 2 1] ne [of 2 2] ne [of 2 3] ne [of 3 0] ne [of 3 1] ne [of 3 2] ne [of 3 3]
    by (simp add: load32_def store32_def)
qed

section \<open>What the writing routines compute\<close>

lemma memcpy_loop_frame:
  "\<forall>k < n. a \<noteq> dest + of_nat k \<Longrightarrow> memcpy_loop n dest src m a = m a"
  by (induction n arbitrary: m) auto

lemma memcpy_loop_copies:
  assumes "n \<le> 2 ^ 32" "k < n"
    and "\<forall>i j. i < j \<longrightarrow> j < n \<longrightarrow> src + of_nat i \<noteq> dest + of_nat j"
  shows "memcpy_loop n dest src m (dest + of_nat k) = m (src + of_nat k)"
  using assms
proof (induction n arbitrary: m)
  case 0
  then show ?case by simp
next
  case (Suc n)
  let ?m = "m(dest + of_nat n := m (src + of_nat n))"
  show ?case
  proof (cases "k = n")
    case True
    have "memcpy_loop n dest src ?m (dest + of_nat n) = ?m (dest + of_nat n)"
      using Suc.prems(1) by (intro memcpy_loop_frame) (auto simp: of_nat_word32_eq_iff)
    with True show ?thesis by simp
  next
    case False
    then have "k < n"
      using Suc.prems(2) by simp
    then have "memcpy_loop n dest src ?m (dest + of_nat k) = ?m (src + of_nat k)"
      using Suc.prems by (intro Suc.IH) auto
    with \<open>k < n\<close> show ?thesis
      using Suc.prems(3) by simp
  qed
qed

lemma no_forward_overlap:
  assumes "src = dest \<or> n \<le> unat (src - dest)" "i < j" "j < n" "n \<le> 2 ^ 32"
  shows "(src :: PTR) + of_nat i \<noteq> dest + of_nat j"
proof
  assume "src + of_nat i = dest + of_nat j"
  then have d: "src - dest = of_nat j - of_nat i"
    by (simp add: algebra_simps)
  also have "\<dots> = of_nat (j - i)"
    using assms(2) by (simp add: of_nat_diff)
  finally have "unat (src - dest) = j - i"
    using assms(3,4) by (simp add: unat_of_nat)
  then show False
    using assms(1-3) by auto
qed

lemma memset_loop_eq:
  assumes "n \<le> 2 ^ 32"
  shows "memset_loop n s c m a = (if unat (a - s) < n then c else m a)"
  using assms
proof (induction n arbitrary: s m)
  case 0
  then show ?case by simp
next
  case (Suc n)
  have IH: "memset_loop n (s + 1) c (m(s := c)) a
      = (if unat (a - (s + 1)) < n then c else (m(s := c)) a)"
    using Suc by simp
  show ?case
  proof (cases "a = s")
    case True
    with IH show ?thesis by simp
  next
    case False
    then have "0 < unat (a - s)"
      by (simp add: unat_gt_0)
    then have "unat (a - (s + 1)) = unat (a - s) - 1"
      by (simp only: diff_diff_eq [symmetric]) (subst unat_sub; simp add: word_le_nat_alt)
    then show ?thesis
      using False \<open>0 < unat (a - s)\<close> by (auto simp: IH)
  qed
qed

text \<open>
  C-strings: \<open>cstring m p s\<close> says that the bytes \<open>s\<close> followed by NUL stand at \<open>p\<close>.
\<close>

fun bytes_at :: "memory \<Rightarrow> PTR \<Rightarrow> U8 list \<Rightarrow> bool" where
  "bytes_at m p [] = True"
| "bytes_at m p (c # cs) = (m p = c \<and> bytes_at m (p + 1) cs)"

definition cstring :: "memory \<Rightarrow> PTR \<Rightarrow> U8 list \<Rightarrow> bool" where
  "cstring m p s \<longleftrightarrow> 0 \<notin> set s \<and> bytes_at m p (s @ [0])"


text \<open>
  The pattern fill writes the pattern bytes cyclically. The loop invariant relates the memory after
  the fill to the one before it, byte by byte, through the offset from the destination.
\<close>

lemma small_word_iff:
  "unat (x :: PTR) < 4 \<longleftrightarrow> x = 0 \<or> x = 1 \<or> x = 2 \<or> x = 3"
  "unat (x :: PTR) < 2 \<longleftrightarrow> x = 0 \<or> x = 1"
  by (simp_all add: word_unat_eq_iff) linarith+

lemma store_pattern_eq:
  assumes "szp = 2 \<or> szp = 4"
  shows "store_pattern dest p szp m = Some (\<lambda>a. if unat (a - dest) < unat szp
    then pattern_byte p (unat (a - dest)) else m a)"
proof -
  have conv: "m' = (\<lambda>a. if unat (a - dest) < unat szp then pattern_byte p (unat (a - dest)) else m a)"
    if m': "\<And>x. m' (dest + x) = (if unat x < unat szp then pattern_byte p (unat x) else m (dest + x))"
    for m' :: memory
  proof
    fix a
    show "m' a = (if unat (a - dest) < unat szp then pattern_byte p (unat (a - dest)) else m a)"
      using m' [of "a - dest"] by simp
  qed
  from assms show ?thesis
  proof
    assume szp: "szp = 2"
    have "(m(dest + 1 := pattern_byte p 1))(dest := pattern_byte p 0) =
       (\<lambda>a. if unat (a - dest) < unat szp then pattern_byte p (unat (a - dest)) else m a)"
      by (rule conv) (simp add: szp small_word_iff)
    then show ?thesis
      by (simp add: store_pattern_def szp)
  next
    assume szp: "szp = 4"
    have "(((m(dest + 3 := pattern_byte p 3))(dest + 2 := pattern_byte p 2))
        (dest + 1 := pattern_byte p 1))(dest := pattern_byte p 0) =
       (\<lambda>a. if unat (a - dest) < unat szp then pattern_byte p (unat (a - dest)) else m a)"
      by (rule conv) (simp add: szp small_word_iff)
    then show ?thesis
      by (simp add: store_pattern_def szp)
  qed
qed

lemma unat_sub_cases:
  "unat (x - y :: PTR) = (if unat y \<le> unat x then unat x - unat y else unat x + 4294967296 - unat y)"
  by (simp add: unat_sub_if')

lemma memset_pat4_loop_eq:
  assumes "szp = 2 \<or> szp = 4" "unat szp dvd unat n"
  shows "memset_pat4_loop n dest p szp m = Some (\<lambda>a. if unat (a - dest) < unat n
    then pattern_byte p (unat (a - dest) mod unat szp) else m a)"
  using assms
proof (induction "unat n" arbitrary: n dest m rule: less_induct)
  case (less n dest m)
  show ?case
  proof (cases "n = 0")
    case True
    then show ?thesis
      by (simp add: memset_pat4_loop.simps)
  next
    case False
    then have le: "unat szp \<le> unat n"
      using less(3) by (simp add: dvd_imp_le unat_gt_0)
    have diff: "unat (n - szp) = unat n - unat szp" "0 < unat szp"
      using le less(2) by (auto simp: unat_sub word_le_nat_alt)
    let ?m = "\<lambda>a. if unat (a - dest) < unat szp then pattern_byte p (unat (a - dest)) else m a"
    have "memset_pat4_loop n dest p szp m = memset_pat4_loop (n - szp) (dest + szp) p szp ?m"
      using False store_pattern_eq [OF less(2), of dest p m]
      by (simp add: memset_pat4_loop.simps [of n])
    also have "\<dots> = Some (\<lambda>a. if unat (a - (dest + szp)) < unat (n - szp)
        then pattern_byte p (unat (a - (dest + szp)) mod unat szp) else ?m a)"
      using diff le less(2,3) by (intro less(1)) (simp_all add: dvd_diff_nat)
    also have "\<dots> = Some (\<lambda>a. if unat (a - dest) < unat n
        then pattern_byte p (unat (a - dest) mod unat szp) else m a)"
    proof -
      have "unat (a - (dest + szp)) = (if unat szp \<le> unat (a - dest) then unat (a - dest) - unat szp
          else unat (a - dest) + 4294967296 - unat szp)" for a
        using unat_sub_cases [of "a - dest" szp] by (simp add: diff_diff_eq)
      then show ?thesis
        using le unat_le_word32 [of n]
        by (auto simp: fun_eq_iff unat_sub word_le_nat_alt le_mod_geq)
    qed
    finally show ?thesis .
  qed
qed


section \<open>Properties\<close>

text \<open>
  C25. \<open>k_memcpy\<close> copies: when the source does not start inside the destination (it is the
  destination itself, or lies at least \<open>n\<close> bytes after its start, counted around the address
  space), byte \<open>k\<close> of the destination afterwards is byte \<open>k\<close> of the source before, for each
  \<open>k < n\<close>, and no other byte of memory changes. This covers disjoint buffers and a destination
  above an overlapping source.
\<close>

theorem k_memcpy_correct:
  assumes "src = dest \<or> unat n \<le> unat (src - dest)"
  shows "k_memcpy dest src n m =
    (\<lambda>a. if unat (a - dest) < unat n then m (src + (a - dest)) else m a)"
proof
  fix a
  note n = unat_le_word32 [of n]
  show "k_memcpy dest src n m a = (if unat (a - dest) < unat n then m (src + (a - dest)) else m a)"
  proof (cases "unat (a - dest) < unat n")
    case True
    have "memcpy_loop (unat n) dest src m (dest + of_nat (unat (a - dest)))
        = m (src + of_nat (unat (a - dest)))"
      using True n no_forward_overlap [OF assms] by (intro memcpy_loop_copies) auto
    with True show ?thesis
      by (simp add: k_memcpy_def)
  next
    case False
    then have "a \<noteq> dest + of_nat k" if "k < unat n" for k
      using that n by (auto simp: unat_of_nat_word32)
    with False show ?thesis
      by (simp add: k_memcpy_def memcpy_loop_frame)
  qed
qed

theorem k_memcpy_correct_witness:
  "(4 :: nat) \<le> unat (0x2000 - 0x1000 :: PTR) \<and>
   k_memcpy 0x1000 0x2000 4 (\<lambda>a. ucast (a - 0x2000)) 0x1003 = 3"
  using k_memcpy_correct [of "0x2000" "0x1000" 4 "\<lambda>a. ucast (a - 0x2000)"] by simp

text \<open>
  The comment above \<open>k_memcpy\<close> says that it can handle overlaps. It cannot when the source
  starts inside the destination: copying down by one byte writes the last source byte everywhere.
  Here two bytes are moved from address 1 to address 0, and byte 0 receives the old byte 2.
\<close>

theorem k_memcpy_forward_overlap:
  "k_memcpy 0 1 2 m 0 = m 2 \<and> k_memcpy 0 1 2 m 1 = m 2"
proof -
  have "unat (2 :: SIZE) = Suc (Suc 0)"
    by simp
  then show ?thesis
    by (simp only: k_memcpy_def memcpy_loop.simps) simp
qed

text \<open>
  \<open>k_memset_pat4\<close> with a pattern of 1, 2 or 4 bytes and a length that is a multiple of it
  returns, fills exactly \<open>n\<close> bytes at the destination with the pattern bytes in cyclic order, and
  leaves all other memory as it was.
\<close>

theorem k_memset_pat4_correct:
  assumes "szp = 1 \<or> szp = 2 \<or> szp = 4" "unat szp dvd unat n"
  shows "k_memset_pat4 s p szp n m = Some (\<lambda>a. if unat (a - s) < unat n
    then pattern_byte p (unat (a - s) mod unat szp) else m a)"
proof (cases "szp = 1")
  case True
  then show ?thesis
    using unat_le_word32 [of n]
    by (auto simp: k_memset_pat4_def IS_ALIGNED_def k_memset_def memset_loop_eq pattern_byte_def)
next
  case False
  then have szp: "szp = 2 \<or> szp = 4"
    using assms(1) by simp
  then have "IS_ALIGNED n szp"
    using assms(2) IS_ALIGNED_pow2 [of 2 1 n] IS_ALIGNED_pow2 [of 4 2 n] by auto
  then show ?thesis
    using False memset_pat4_loop_eq [OF szp assms(2)] by (simp add: k_memset_pat4_def)
qed

theorem k_memset_pat4_correct_witness:
  "unat (4 :: SIZE) dvd unat (8 :: SIZE) \<and>
   (\<exists>m'. k_memset_pat4 0x100 0x11223344 4 8 (\<lambda>_. 0) = Some m' \<and> m' 0x105 = 0x33)"
  using k_memset_pat4_correct [of 4 8 "0x100" "0x11223344" "\<lambda>_. 0"] by (simp add: pattern_byte_def)

text \<open>
  For the three byte pattern of 24 bit pixels the guard of \<open>k_memset_pat4\<close> is wrong, because
  \<open>IS_ALIGNED\<close> tests for multiples of powers of two only: a three byte fill, one whole pattern, fails
  the assertion, while a fill of four bytes passes it, stores six bytes and goes on with a counter of
  \<open>2 ^ 32 - 2\<close> bytes left.
\<close>

theorem k_memset_pat4_three_bytes:
  "k_memset_pat4 s p 3 3 m = None \<and>
   (\<exists>m'. k_memset_pat4 s p 3 4 m = memset_pat4_loop (- 2) (s + 6) p 3 m' \<and>
     m' (s + 4) = pattern_byte p 1 \<and> m' (s + 5) = pattern_byte p 2)"
  by (simp add: k_memset_pat4_def IS_ALIGNED_def store_pattern_def Let_def
      memset_pat4_loop.simps [of 4] memset_pat4_loop.simps [of 1] add.assoc)
    (rule exI, rule conjI, rule refl, simp)

end
