(* ===== verification/App_Heap.thy ===== *)
theory App_Heap
  imports Heap_Core Kstdlib
begin

text \<open>
  The heap of applications, \<open>src/cm/malloc.c\<close>, over the common allocator of theory \<open>Heap_Core\<close>. The
  state is that of one process: the last error of the library (\<open>cm_error_num\<close>, a number), its memory and its
  heap. \<open>cm_panic\<close> and a failed \<open>cm_assert\<close> end the process, which is the value \<open>None\<close>.
  \<open>cm_process_get_datamem_start\<close> is a system call, and its result is an argument of
  \<open>cm_malloc_init\<close>.
\<close>

section \<open>Operations\<close>

record cm_state =
  cm_error_num :: U32
  cmem :: memory
  cheap :: heap

definition CM_ERR_INVALID_INPUT :: U32 where
  "CM_ERR_INVALID_INPUT = 100"

definition CM_ERR_OUT_OF_HEAP_MEM :: U32 where
  "CM_ERR_OUT_OF_HEAP_MEM = 102"

definition CM_MALLOC_MEM_SIZE_BYTES :: SIZE where
  "CM_MALLOC_MEM_SIZE_BYTES = 256 * 1024 div 2"

definition CM_RETURN_ERROR :: "U32 \<Rightarrow> 'r \<Rightarrow> 'a cm_state_scheme \<Rightarrow> ('r \<times> 'a cm_state_scheme) option" where
  "CM_RETURN_ERROR e rval st = Some (rval, st\<lparr>cm_error_num := e\<rparr>)"

definition cm_malloc_init :: "PTR \<Rightarrow> 'a cm_state_scheme \<Rightarrow> 'a cm_state_scheme option" where
  "cm_malloc_init datamem_start st = do {
     h \<leftarrow> heap_init CM_MALLOC_MEM_SIZE_BYTES datamem_start (cheap st);
     Some (st\<lparr>cheap := h\<rparr>)
   }"

definition cm_malloc :: "SIZE \<Rightarrow> 'a cm_state_scheme \<Rightarrow> (PTR \<times> 'a cm_state_scheme) option" where
  "cm_malloc bytes st =
     (if bytes = 0 then CM_RETURN_ERROR CM_ERR_INVALID_INPUT 0 st
      else do {
        (p, h) \<leftarrow> heap_alloc CM_MALLOC_MEM_SIZE_BYTES bytes (cheap st);
        if p \<noteq> 0 then Some (p, st\<lparr>cheap := h\<rparr>) else CM_RETURN_ERROR CM_ERR_OUT_OF_HEAP_MEM 0 st
      })"

definition cm_calloc :: "SIZE \<Rightarrow> 'a cm_state_scheme \<Rightarrow> (PTR \<times> 'a cm_state_scheme) option" where
  "cm_calloc bytes st = do {
     (addr, st) \<leftarrow> cm_malloc bytes st;
     Some (addr, if addr \<noteq> 0 then st\<lparr>cmem := cm_memset addr 0 bytes (cmem st)\<rparr> else st)
   }"

definition cm_free :: "PTR \<Rightarrow> 'a cm_state_scheme \<Rightarrow> (bool \<times> 'a cm_state_scheme) option" where
  "cm_free addr st = do {
     (found, h) \<leftarrow> heap_free addr (cheap st);
     if found then Some (True, st\<lparr>cheap := h\<rparr>) else None
   }"

section \<open>The contract\<close>

definition cm_heap_inv :: "'a cm_state_scheme \<Rightarrow> bool" where
  "cm_heap_inv st \<longleftrightarrow> heap_inv (cheap st) CM_MALLOC_MEM_SIZE_BYTES"

definition cm_segments :: "'a cm_state_scheme \<Rightarrow> (PTR \<times> SIZE \<times> bool) list" where
  "cm_segments st = segments (cheap st)"

definition cm_request :: "SIZE \<Rightarrow> bool" where
  "cm_request bytes \<longleftrightarrow> bytes \<noteq> 0 \<and> unat bytes + 64 < 2 ^ 32"

interpretation cm: segment_allocator cm_heap_inv cm_segments cm_request cm_malloc cm_free
proof
  fix st :: "'a cm_state_scheme" and bytes p n x y m a b
  assume inv: "cm_heap_inv st"
  then have h: "heap_inv (cheap st) CM_MALLOC_MEM_SIZE_BYTES"
    by (simp add: cm_heap_inv_def)
  show "coalesce (cm_segments st) = cm_segments st"
    unfolding cm_segments_def by (rule heap_inv_coalesce [OF h])
  show "distinct (map fst (cm_segments st))"
    unfolding cm_segments_def by (rule heap_inv_segments [OF h])
  show "(x, n, a) \<in> set (cm_segments st) \<Longrightarrow> (y, m, b) \<in> set (cm_segments st) \<Longrightarrow> x \<noteq> y \<Longrightarrow>
      unat x + unat n \<le> unat y \<or> unat y + unat m \<le> unat x"
    unfolding cm_segments_def by (rule heap_inv_segments [OF h])
  show "(x, n, a) \<in> set (cm_segments st) \<Longrightarrow> unat x + unat n < 2 ^ 32"
    unfolding cm_segments_def using heap_inv_segments(1,4) [OF h] by fastforce
  show "\<exists>st'. cm_free p st = Some (True, st') \<and> cm_heap_inv st'
      \<and> cm_segments st' = coalesce (mark_free (p - 32) (cm_segments st))"
    if "(p - 32, n, True) \<in> set (cm_segments st)"
    using heap_free_spec [OF h, of p] that
    by (auto simp: cm_segments_def cm_free_def cm_heap_inv_def split: if_splits)
  assume req: "cm_request bytes"
  then have small: "unat bytes + 64 < 2 ^ 32"
    by (simp add: cm_request_def)
  show "\<exists>p st'. cm_malloc bytes st = Some (p, st') \<and> cm_heap_inv st' \<and>
      (if p = 0 then cm_segments st' = cm_segments st
         \<and> (\<forall>(x, n, a) \<in> set (cm_segments st). a \<or> unat n < unat bytes + 64)
       else \<exists>us x n vs. p = x + 32 \<and> cm_segments st = us @ (x, n, False) # vs
         \<and> unat bytes + 64 \<le> unat n \<and> cm_segments st' =
           us @ (x, bytes + 32, True) # (x + (bytes + 32), n - (bytes + 32), False) # vs)"
    using h small
  proof (cases rule: heap_alloc_spec)
    case full
    then show ?thesis
      using h req by (simp add: cm_malloc_def CM_RETURN_ERROR_def cm_segments_def cm_heap_inv_def cm_request_def)
  next
    case (alloc us x n vs h')
    then show ?thesis
      using req by (auto simp: cm_malloc_def cm_segments_def cm_heap_inv_def cm_request_def)
  qed
qed

section \<open>Properties\<close>

text \<open>
  C22. The application heap is safe: from the heap as \<open>cm_malloc_init\<close> leaves it, a request that is
  not zero and small enough not to wrap either fails, with no free segment large enough, or
  returns a block in a segment of its own that is disjoint from all earlier allocations; freeing it
  at once restores the segments.
\<close>

theorem cm_malloc_free_correct:
  assumes "cm_heap_inv st" "bytes \<noteq> 0" "unat bytes + 64 < 2 ^ 32"
  shows "\<exists>p st1. cm_malloc bytes st = Some (p, st1) \<and> cm_heap_inv st1 \<and>
    (if p = 0 then \<forall>(x, n, a) \<in> set (cm_segments st). a \<or> unat n < unat bytes + 64
     else (\<forall>x n. (x, n, True) \<in> set (cm_segments st) \<longrightarrow> (x, n, True) \<in> set (cm_segments st1)
            \<and> (unat x + unat n \<le> unat p - 32 \<or> unat p + unat bytes \<le> unat x))
       \<and> (\<exists>st2. cm_free p st1 = Some (True, st2) \<and> cm_segments st2 = cm_segments st))"
proof -
  have ok: "cm_request bytes"
    using assms by (simp add: cm_request_def)
  obtain p st1 where k: "cm_malloc bytes st = Some (p, st1)"
    using cm.malloc_law [OF assms(1) ok] by blast
  then show ?thesis
    using cm.malloc_law [OF assms(1) ok] cm.malloc_safe [OF assms(1) ok k] cm.malloc_free [OF assms(1) ok k]
    by (cases "p = 0") auto
qed

definition blank_cm :: cm_state where
  "blank_cm = \<lparr>cm_error_num = 0, cmem = \<lambda>_. 0, cheap = blank_heap\<rparr>"

definition sample_cm :: cm_state where
  "sample_cm = the (cm_malloc_init 0x200000 blank_cm)"

lemma cm_malloc_init_inv:
  assumes "p \<noteq> 0" "unat p + 0x20000 < 2 ^ 32"
  shows "\<exists>st'. cm_malloc_init p st = Some st' \<and> cm_heap_inv st' \<and> cm_segments st' = [(p, 0x20000, False)]"
  using heap_init_spec [OF assms(1), of CM_MALLOC_MEM_SIZE_BYTES "cheap st"] assms(2)
  by (auto simp: cm_malloc_init_def cm_heap_inv_def cm_segments_def CM_MALLOC_MEM_SIZE_BYTES_def)

lemma sample_cm_ok: "cm_heap_inv sample_cm" "cm_segments sample_cm = [(0x200000, 0x20000, False)]"
  using cm_malloc_init_inv [of "0x200000" blank_cm] by (auto simp: sample_cm_def)

theorem cm_malloc_free_correct_witness:
  "\<exists>p st1. cm_malloc 100 sample_cm = Some (p, st1) \<and> p \<noteq> 0
    \<and> (\<exists>st2. cm_free p st1 = Some (True, st2) \<and> cm_segments st2 = [(0x200000, 0x20000, False)])"
  using cm_malloc_free_correct [OF sample_cm_ok(1), of 100]
  by (auto simp: sample_cm_ok(2) split: if_splits)

end
