(* ===== verification/Graphics.thy ===== *)
theory Graphics
  imports Kstdlib
begin

text \<open>
  Drawing into graphics areas: \<open>src/kernel/kgraphics.c\<close>, \<open>include/kgraphics.h\<close> and the copies for applications in
  \<open>src/cm/graphics.c\<close>. An area is a rectangle of pixels in memory, row by row; the functions work on the
  byte addressed \<open>memory\<close>. The first argument of the functions is \<open>sizeof (GxColor)\<close>, which the build option
  \<open>GRAPHICS_BPP\<close> makes 1, 3 or 4.
\<close>

section \<open>The functions\<close>

record KGraphicsArea =
  width_px :: UINT
  height_px :: UINT
  bytesPerPixel :: UINT
  bytesPerRow :: UINT
  buffer :: PTR
  bufferSizeBytes :: SIZE

type_synonym Color = U32

text \<open>\<open>*row = *col\<close>: the low bytes of the colour, in memory order.\<close>

fun put_color :: "nat \<Rightarrow> PTR \<Rightarrow> Color \<Rightarrow> memory \<Rightarrow> memory" where
  "put_color 0 row col m = m"
| "put_color (Suc k) row col m = (put_color k row col m)(row + of_nat k := ucast (drop_bit (8 * k) col))"

text \<open>\<open>*row = *(GxColor*)bytes\<close>.\<close>

definition copy_color :: "nat \<Rightarrow> PTR \<Rightarrow> PTR \<Rightarrow> memory \<Rightarrow> memory" where
  "copy_color n row src m = (\<lambda>a. if unat (a - row) < n then m (src + (a - row)) else m a)"

definition pixel_address :: "KGraphicsArea \<Rightarrow> UINT \<Rightarrow> UINT \<Rightarrow> PTR" where
  "pixel_address g x y = buffer g + y * bytesPerRow g + x * bytesPerPixel g"

definition kgraphics_putpixel :: "nat \<Rightarrow> KGraphicsArea \<Rightarrow> UINT \<Rightarrow> UINT \<Rightarrow> Color \<Rightarrow> memory \<Rightarrow> memory" where
  "kgraphics_putpixel gx g x y color m = put_color gx (pixel_address g x y) color m"

text \<open>The inner and the outer loop of \<open>kgraphics_rect\<close>.\<close>

fun rect_row :: "nat \<Rightarrow> nat \<Rightarrow> PTR \<Rightarrow> Color \<Rightarrow> memory \<Rightarrow> memory" where
  "rect_row gx 0 row color m = m"
| "rect_row gx (Suc lw) row color m = rect_row gx lw (row + of_nat gx) color (put_color gx row color m)"

fun rect_rows :: "nat \<Rightarrow> nat \<Rightarrow> UINT \<Rightarrow> nat \<Rightarrow> PTR \<Rightarrow> Color \<Rightarrow> memory \<Rightarrow> memory" where
  "rect_rows gx 0 bpr w start color m = m"
| "rect_rows gx (Suc h) bpr w start color m = rect_rows gx h bpr w (start + bpr) color (rect_row gx w start color m)"

definition kgraphics_rect ::
  "nat \<Rightarrow> KGraphicsArea \<Rightarrow> UINT \<Rightarrow> UINT \<Rightarrow> UINT \<Rightarrow> UINT \<Rightarrow> Color \<Rightarrow> memory \<Rightarrow> memory" where
  "kgraphics_rect gx g x y w h color m =
     rect_rows gx (unat h) (bytesPerRow g) (unat w) (pixel_address g x y) color m"

definition kgraphics_hline ::
  "nat \<Rightarrow> KGraphicsArea \<Rightarrow> UINT \<Rightarrow> UINT \<Rightarrow> UINT \<Rightarrow> UINT \<Rightarrow> Color \<Rightarrow> memory \<Rightarrow> memory" where
  "kgraphics_hline gx g x y w th color m = kgraphics_rect gx g x y w th color m"

definition kgraphics_vline ::
  "nat \<Rightarrow> KGraphicsArea \<Rightarrow> UINT \<Rightarrow> UINT \<Rightarrow> UINT \<Rightarrow> UINT \<Rightarrow> Color \<Rightarrow> memory \<Rightarrow> memory" where
  "kgraphics_vline gx g x y h th color m = kgraphics_rect gx g x y th h color m"

definition kgraphics_inborder ::
  "nat \<Rightarrow> KGraphicsArea \<Rightarrow> UINT \<Rightarrow> UINT \<Rightarrow> UINT \<Rightarrow> UINT \<Rightarrow> UINT \<Rightarrow> Color \<Rightarrow> memory \<Rightarrow> memory" where
  "kgraphics_inborder gx g x y w h th color m =
     (let m = kgraphics_hline gx g x y w th color m;
          m = kgraphics_vline gx g x y h th color m;
          m = kgraphics_vline gx g (x + w - th) y h th color m
      in kgraphics_hline gx g x (y + h - th) w th color m)"

text \<open>The loops of \<open>kgraphics_blit\<close>; \<open>bytes\<close> runs through the source without gaps between its rows.\<close>

fun blit_row :: "nat \<Rightarrow> nat \<Rightarrow> PTR \<Rightarrow> PTR \<Rightarrow> UINT \<Rightarrow> memory \<Rightarrow> PTR \<times> memory" where
  "blit_row gx 0 row bytes bpp m = (bytes, m)"
| "blit_row gx (Suc lw) row bytes bpp m =
     blit_row gx lw (row + of_nat gx) (bytes + bpp) bpp (copy_color gx row bytes m)"

fun blit_rows :: "nat \<Rightarrow> nat \<Rightarrow> UINT \<Rightarrow> nat \<Rightarrow> PTR \<Rightarrow> PTR \<Rightarrow> UINT \<Rightarrow> memory \<Rightarrow> memory" where
  "blit_rows gx 0 bpr w start bytes bpp m = m"
| "blit_rows gx (Suc h) bpr w start bytes bpp m =
     (let (bytes, m) = blit_row gx w start bytes bpp m in blit_rows gx h bpr w (start + bpr) bytes bpp m)"

definition kgraphics_blit ::
  "nat \<Rightarrow> KGraphicsArea \<Rightarrow> UINT \<Rightarrow> UINT \<Rightarrow> KGraphicsArea \<Rightarrow> memory \<Rightarrow> memory option" where
  "kgraphics_blit gx destg x y srcg m = do {
     k_assert (bytesPerPixel destg = bytesPerPixel srcg);
     Some (blit_rows gx (unat (height_px srcg)) (bytesPerRow destg) (unat (width_px srcg))
       (pixel_address destg x y) (buffer srcg) (bytesPerPixel destg) m)
   }"

text \<open>
  The pixel \<open>kgraphics_image_raw\<close> writes, assignment by assignment: with one byte per pixel the byte itself, otherwise
  the fields \<open>alpha\<close> (32 bits only), \<open>red\<close>, \<open>green\<close> and \<open>blue\<close>, which are in memory in the opposite order.
\<close>

definition put_raw :: "nat \<Rightarrow> PTR \<Rightarrow> PTR \<Rightarrow> memory \<Rightarrow> memory" where
  "put_raw gx row bytes m =
     (if gx = 1 then m(row := m bytes)
      else
        let m = (if gx = 4 then m(row + 3 := 0) else m);
            m = m(row + 2 := m bytes);
            m = m(row + 1 := m (bytes + 1))
        in m(row := m (bytes + 2)))"

fun image_row :: "nat \<Rightarrow> nat \<Rightarrow> PTR \<Rightarrow> PTR \<Rightarrow> UINT \<Rightarrow> memory \<Rightarrow> PTR \<times> memory" where
  "image_row gx 0 row bytes bpp m = (bytes, m)"
| "image_row gx (Suc lw) row bytes bpp m =
     image_row gx lw (row + of_nat gx) (bytes + bpp) bpp (put_raw gx row bytes m)"

fun image_rows :: "nat \<Rightarrow> nat \<Rightarrow> UINT \<Rightarrow> nat \<Rightarrow> PTR \<Rightarrow> PTR \<Rightarrow> UINT \<Rightarrow> memory \<Rightarrow> memory" where
  "image_rows gx 0 bpr w start bytes bpp m = m"
| "image_rows gx (Suc h) bpr w start bytes bpp m =
     (let (bytes, m) = image_row gx w start bytes bpp m in image_rows gx h bpr w (start + bpr) bytes bpp m)"

definition kgraphics_image_raw ::
  "nat \<Rightarrow> KGraphicsArea \<Rightarrow> UINT \<Rightarrow> UINT \<Rightarrow> UINT \<Rightarrow> UINT \<Rightarrow> UINT \<Rightarrow> PTR \<Rightarrow> memory \<Rightarrow> memory" where
  "kgraphics_image_raw gx g x y w h bpp bytes m =
     image_rows gx (unat h) (bytesPerRow g) (unat w) (pixel_address g x y) bytes bpp m"

text \<open>Glyphs are 8 by 16 bits, the leftmost pixel in the highest bit of a byte.\<close>

definition CONFIG_GXMODE_FONT_WIDTH :: nat where "CONFIG_GXMODE_FONT_WIDTH = 8"
definition CONFIG_GXMODE_FONT_HEIGHT :: nat where "CONFIG_GXMODE_FONT_HEIGHT = 16"
definition BOOT_FONTS_GLYPH_BYTES :: UINT where "BOOT_FONTS_GLYPH_BYTES = 16"

definition glyph_mask :: "nat \<Rightarrow> U8" where
  "glyph_mask x = push_bit (7 - x) 1"

fun font_row :: "nat \<Rightarrow> nat \<Rightarrow> nat \<Rightarrow> PTR \<Rightarrow> PTR \<Rightarrow> Color \<Rightarrow> Color \<Rightarrow> memory \<Rightarrow> memory" where
  "font_row gx 0 x glyph row fg bg m = m"
| "font_row gx (Suc n) x glyph row fg bg m =
     font_row gx n (x + 1) glyph (row + of_nat gx) fg bg
       (put_color gx row (if m glyph AND glyph_mask x \<noteq> 0 then fg else bg) m)"

fun font_rows :: "nat \<Rightarrow> nat \<Rightarrow> PTR \<Rightarrow> UINT \<Rightarrow> PTR \<Rightarrow> Color \<Rightarrow> Color \<Rightarrow> memory \<Rightarrow> memory" where
  "font_rows gx 0 glyph bpr start fg bg m = m"
| "font_rows gx (Suc n) glyph bpr start fg bg m =
     font_rows gx n (glyph + 1) bpr (start + bpr) fg bg
       (font_row gx CONFIG_GXMODE_FONT_WIDTH 0 glyph start fg bg m)"

definition kgraphics_drawfont ::
  "nat \<Rightarrow> PTR \<Rightarrow> KGraphicsArea \<Rightarrow> UINT \<Rightarrow> UINT \<Rightarrow> U8 \<Rightarrow> Color \<Rightarrow> Color \<Rightarrow> memory \<Rightarrow> memory" where
  "kgraphics_drawfont gx fontsData g x y a fg bg m =
     font_rows gx CONFIG_GXMODE_FONT_HEIGHT (fontsData + ucast a * BOOT_FONTS_GLYPH_BYTES) (bytesPerRow g)
       (pixel_address g x y) fg bg m"

text \<open>\<open>sx\<close> is the column where a line starts.\<close>

fun drawstring_loop ::
  "nat \<Rightarrow> PTR \<Rightarrow> KGraphicsArea \<Rightarrow> UINT \<Rightarrow> UINT \<Rightarrow> UINT \<Rightarrow> U8 list \<Rightarrow> Color \<Rightarrow> Color \<Rightarrow> memory \<Rightarrow> memory option" where
  "drawstring_loop gx fontsData g sx x y [] fg bg m = None"
| "drawstring_loop gx fontsData g sx x y (ch # s) fg bg m =
     (if ch = 0 then Some m
      else if ch = 10 then drawstring_loop gx fontsData g sx sx (y + of_nat CONFIG_GXMODE_FONT_HEIGHT + 1) s fg bg m
      else drawstring_loop gx fontsData g sx (x + of_nat CONFIG_GXMODE_FONT_WIDTH) y s fg bg
             (kgraphics_drawfont gx fontsData g x y ch fg bg m))"

definition kgraphics_drawstring ::
  "nat \<Rightarrow> PTR \<Rightarrow> KGraphicsArea \<Rightarrow> UINT \<Rightarrow> UINT \<Rightarrow> U8 list \<Rightarrow> Color \<Rightarrow> Color \<Rightarrow> memory \<Rightarrow> memory option" where
  "kgraphics_drawstring gx fontsData g x y s fg bg m = drawstring_loop gx fontsData g x x y s fg bg m"

text \<open>The drawing functions of \<open>src/cm/graphics.c\<close>; \<open>graphics_blit\<close> does not compare the pixel sizes.\<close>

definition graphics_blit :: "nat \<Rightarrow> KGraphicsArea \<Rightarrow> UINT \<Rightarrow> UINT \<Rightarrow> KGraphicsArea \<Rightarrow> memory \<Rightarrow> memory" where
  "graphics_blit gx destg x y srcg m =
     blit_rows gx (unat (height_px srcg)) (bytesPerRow destg) (unat (width_px srcg))
       (pixel_address destg x y) (buffer srcg) (bytesPerPixel destg) m"

definition graphics_image_ppm ::
  "nat \<Rightarrow> KGraphicsArea \<Rightarrow> UINT \<Rightarrow> UINT \<Rightarrow> UINT \<Rightarrow> UINT \<Rightarrow> UINT \<Rightarrow> PTR \<Rightarrow> memory \<Rightarrow> memory" where
  "graphics_image_ppm gx g x y w h bpp bytes m =
     image_rows gx (unat h) (bytesPerRow g) (unat w) (pixel_address g x y) bytes bpp m"

definition graphics_putpixel :: "nat \<Rightarrow> KGraphicsArea \<Rightarrow> UINT \<Rightarrow> UINT \<Rightarrow> Color \<Rightarrow> memory \<Rightarrow> memory" where
  "graphics_putpixel gx g x y color m = put_color gx (pixel_address g x y) color m"

definition graphics_rect ::
  "nat \<Rightarrow> KGraphicsArea \<Rightarrow> UINT \<Rightarrow> UINT \<Rightarrow> UINT \<Rightarrow> UINT \<Rightarrow> Color \<Rightarrow> memory \<Rightarrow> memory" where
  "graphics_rect gx g x y w h color m =
     rect_rows gx (unat h) (bytesPerRow g) (unat w) (pixel_address g x y) color m"

section \<open>What is painted\<close>

text \<open>The byte of a colour at a place of its pixel.\<close>

definition color_byte :: "Color \<Rightarrow> nat \<Rightarrow> U8" where
  "color_byte color k = ucast (drop_bit (8 * k) color)"

text \<open>Distances from the start of a row and from a place further right.\<close>

lemma unat_minus_of_nat:
  assumes "k < 2 ^ 32"
  shows "unat ((d :: PTR) - of_nat k) = (if k \<le> unat d then unat d - k else unat d + 2 ^ 32 - k)"
proof -
  have "unat (of_nat k :: PTR) = k"
    using assms by (simp add: unat_of_nat)
  then show ?thesis
    by (simp add: unat_sub_if_size word_size)
qed

lemma distance_split:
  assumes "k + n \<le> 2 ^ 32" "0 < n"
  shows "unat ((a :: PTR) - row) < k + n \<longleftrightarrow> unat (a - row) < k \<or> unat (a - (row + of_nat k)) < n"
    and "unat (a - (row + of_nat k)) < n \<Longrightarrow> unat (a - row) = unat (a - (row + of_nat k)) + k"
proof -
  have "a - (row + of_nat k) = (a - row) - of_nat k"
    by simp
  then have d: "unat (a - (row + of_nat k)) = (if k \<le> unat (a - row) then unat (a - row) - k else unat (a - row) + 2 ^ 32 - k)"
    using assms by (simp only: unat_minus_of_nat)
  show "unat ((a :: PTR) - row) < k + n \<longleftrightarrow> unat (a - row) < k \<or> unat (a - (row + of_nat k)) < n"
    and "unat (a - (row + of_nat k)) < n \<Longrightarrow> unat (a - row) = unat (a - (row + of_nat k)) + k"
    using assms unfolding d by (auto split: if_splits)
qed

lemma put_color_eq:
  "k \<le> 4 \<Longrightarrow> put_color k row color m a = (if unat (a - row) < k then color_byte color (unat (a - row)) else m a)"
proof (induction k)
  case (Suc k)
  have "a = row + of_nat k \<longleftrightarrow> a - row = of_nat k"
    by (metis add.commute add_diff_cancel_right' diff_add_cancel)
  also have "\<dots> \<longleftrightarrow> unat (a - row) = k"
    using Suc.prems by (subst word_unat_eq_iff) (simp add: unat_of_nat)
  finally show ?case
    using Suc by (auto simp: color_byte_def less_Suc_eq)
qed simp

lemma rect_row_eq:
  assumes "gx \<le> 4" "0 < gx"
  shows "lw * gx \<le> 2 ^ 32 \<Longrightarrow> rect_row gx lw row color m a =
    (if unat (a - row) < lw * gx then color_byte color (unat (a - row) mod gx) else m a)"
proof (induction lw arbitrary: row m)
  case (Suc lw)
  show ?case
  proof (cases "lw = 0")
    case True
    then show ?thesis
      using assms put_color_eq [of gx row color m a] by simp
  next
    case False
    then have split: "unat (a - row) < gx + lw * gx \<longleftrightarrow> unat (a - row) < gx \<or> unat (a - (row + of_nat gx)) < lw * gx"
      and shift: "unat (a - (row + of_nat gx)) < lw * gx \<Longrightarrow> unat (a - row) = unat (a - (row + of_nat gx)) + gx"
      using distance_split [of gx "lw * gx" a row] Suc.prems assms(2) by simp_all
    show ?thesis
      using Suc.IH [of "row + of_nat gx" "put_color gx row color m"] Suc.prems put_color_eq [OF assms(1), of row color m a]
        split shift by auto
  qed
qed simp

lemma rect_rows_eq:
  assumes gx: "gx \<le> 4" "0 < gx" and w: "w * gx \<le> unat bpr" "0 < w"
  shows "h * unat bpr \<le> 2 ^ 32 \<Longrightarrow> rect_rows gx h bpr w start color m a =
    (if unat (a - start) < h * unat bpr \<and> unat (a - start) mod unat bpr < w * gx
     then color_byte color (unat (a - start) mod unat bpr mod gx) else m a)"
proof (induction h arbitrary: start m)
  case (Suc h)
  let ?b = "unat bpr"
  have b: "0 < ?b" "w * gx \<le> 2 ^ 32"
    using w gx(2) less_imp_le [OF unat_less_2p32 [of bpr]] by (auto intro: Nat.gr0I order_trans)
  have row: "rect_row gx w start color m a =
      (if unat (a - start) < w * gx then color_byte color (unat (a - start) mod gx) else m a)"
    by (rule rect_row_eq [OF gx b(2)])
  show ?case
  proof (cases "h = 0")
    case True
    then show ?thesis
      using row w(1) by auto
  next
    case False
    have bpr: "(of_nat ?b :: UINT) = bpr"
      by simp
    have split: "unat (a - start) < ?b + h * ?b \<longleftrightarrow> unat (a - start) < ?b \<or> unat (a - (start + bpr)) < h * ?b"
      and shift: "unat (a - (start + bpr)) < h * ?b \<Longrightarrow> unat (a - start) = unat (a - (start + bpr)) + ?b"
      using distance_split [of ?b "h * ?b" a start] False Suc.prems b(1) unfolding bpr by simp_all
    show ?thesis
      using Suc.IH [of "start + bpr" "rect_row gx w start color m"] Suc.prems row split shift w(1) by auto
  qed
qed simp

section \<open>Areas\<close>

text \<open>
  An area is well formed when its rows hold its pixels and it does not wrap around the end of the address space.
  \<open>pixel\<close> is the bytes of the pixel in column \<open>i\<close> of row \<open>j\<close>.
\<close>

definition area_ok :: "nat \<Rightarrow> KGraphicsArea \<Rightarrow> bool" where
  "area_ok gx g \<longleftrightarrow> gx \<in> {1, 3, 4} \<and> bytesPerPixel g = of_nat gx \<and> 0 < unat (bytesPerRow g)
     \<and> unat (width_px g) * gx \<le> unat (bytesPerRow g)
     \<and> unat (buffer g) + unat (height_px g) * unat (bytesPerRow g) \<le> 2 ^ 32"

definition pixel :: "nat \<Rightarrow> KGraphicsArea \<Rightarrow> nat \<Rightarrow> nat \<Rightarrow> memory \<Rightarrow> U8 list" where
  "pixel gx g i j m = map (\<lambda>k. m (buffer g + of_nat (j * unat (bytesPerRow g) + i * gx + k))) [0..<gx]"

definition in_buffer :: "KGraphicsArea \<Rightarrow> PTR \<Rightarrow> bool" where
  "in_buffer g a \<longleftrightarrow> unat (buffer g) \<le> unat a \<and> unat a < unat (buffer g) + unat (height_px g) * unat (bytesPerRow g)"

text \<open>
  Places of a rectangle with upper left corner \<open>(x, y)\<close>, width \<open>w\<close> and height \<open>h\<close> in rows of \<open>B\<close> bytes: which
  distances from the corner belong to it.
\<close>

lemma rect_place_inside:
  assumes "x \<le> i" "y \<le> j" "i * gx + k < B" "k < (gx :: nat)"
  shows "j * B + i * gx + k - (y * B + x * gx) = (j - y) * B + ((i - x) * gx + k)"
    and "((j - y) * B + ((i - x) * gx + k)) div B = j - y" "((j - y) * B + ((i - x) * gx + k)) mod B = (i - x) * gx + k"
    and "((i - x) * gx + k) mod gx = k"
proof -
  obtain p q where "i = x + p" "j = y + q"
    using assms(1,2) by (metis le_Suc_ex)
  then show "j * B + i * gx + k - (y * B + x * gx) = (j - y) * B + ((i - x) * gx + k)"
    by (simp add: algebra_simps)
  have "(i - x) * gx + k < B"
    using assms by (simp add: diff_mult_distrib)
  then show "((j - y) * B + ((i - x) * gx + k)) div B = j - y" "((j - y) * B + ((i - x) * gx + k)) mod B = (i - x) * gx + k"
    by simp_all
  show "((i - x) * gx + k) mod gx = k"
    using assms(4) by simp
qed

lemma rect_place_beyond:
  assumes "h * B - x \<le> d" "x + w \<le> (B :: nat)" "d < h * B"
  shows "\<not> d mod B < w"
proof -
  obtain h' where h: "h = Suc h'"
    using assms(3) by (cases h) auto
  then have "d = h' * B + (d - h' * B)" "d - h' * B < B" "B - x \<le> d - h' * B"
    using assms by auto
  then have "d mod B = d - h' * B"
    by (metis mod_less mod_mult_self3)
  then show ?thesis
    using \<open>B - x \<le> d - h' * B\<close> assms(2) by linarith
qed

text \<open>The bytes of a pixel are in the rectangle exactly when its column and its row are.\<close>

lemma rect_place_left:
  assumes "(i :: nat) * gx + gx \<le> B" "x * gx + w \<le> B" "k < gx" "\<not> (x \<le> i \<and> y \<le> j)"
    "y * B + x * gx \<le> j * B + i * gx + k"
  shows "\<not> (j * B + i * gx + k - (y * B + x * gx)) mod B < w"
proof -
  have "y \<le> j"
  proof (rule ccontr)
    assume "\<not> y \<le> j"
    then have "j * B + B \<le> y * B"
      by (metis add.commute mult_Suc mult_le_mono1 not_less_eq_eq)
    then show False
      using assms(1,3,5) by linarith
  qed
  then have "i * gx + gx \<le> x * gx"
    using assms(4) by (metis Suc_leI add.commute linorder_not_le mult_Suc mult_le_mono1)
  then have lt: "i * gx + k < x * gx"
    using assms(3) by linarith
  then have "y \<noteq> j"
    using assms(5) by auto
  with \<open>y \<le> j\<close> have "y < j"
    by simp
  then obtain q where "j = y + Suc q"
    by (metis add_Suc_right less_imp_Suc_add)
  then have "j * B + i * gx + k - (y * B + x * gx) = q * B + (B - x * gx + (i * gx + k))"
    using assms(2) by (simp add: algebra_simps)
  moreover have "B - x * gx + (i * gx + k) < B"
    using lt assms(2) by linarith
  ultimately have "(j * B + i * gx + k - (y * B + x * gx)) mod B = B - x * gx + (i * gx + k)"
    by (simp only: mod_mult_self3 mod_less)
  then show ?thesis
    using assms(2) by linarith
qed

lemma rect_place_iff:
  assumes row: "(i :: nat) * gx + gx \<le> B" "x * gx + w * gx \<le> B" and k: "k < gx"
  shows "y * B + x * gx \<le> j * B + i * gx + k \<and> j * B + i * gx + k - (y * B + x * gx) < h * B
      \<and> (j * B + i * gx + k - (y * B + x * gx)) mod B < w * gx
    \<longleftrightarrow> x \<le> i \<and> i < x + w \<and> y \<le> j \<and> j < y + h"
    and "x \<le> i \<Longrightarrow> y \<le> j \<Longrightarrow> (j * B + i * gx + k - (y * B + x * gx)) mod B mod gx = k"
proof -
  have iB: "i * gx + k < B" and B: "0 < B"
    using row(1) k by linarith+
  show "(j * B + i * gx + k - (y * B + x * gx)) mod B mod gx = k" if "x \<le> i" "y \<le> j"
    using rect_place_inside [OF that iB k] by simp
  show "y * B + x * gx \<le> j * B + i * gx + k \<and> j * B + i * gx + k - (y * B + x * gx) < h * B
      \<and> (j * B + i * gx + k - (y * B + x * gx)) mod B < w * gx
    \<longleftrightarrow> x \<le> i \<and> i < x + w \<and> y \<le> j \<and> j < y + h"
  proof (cases "x \<le> i \<and> y \<le> j")
    case True
    note place = rect_place_inside [OF True [THEN conjunct1] True [THEN conjunct2] iB k]
    have "y * B + x * gx \<le> j * B + i * gx + k"
      using True by (simp add: add_mono mult_le_mono1 trans_le_add1)
    moreover have "d < h * B \<longleftrightarrow> d div B < h" for d
      using B by (simp add: div_less_iff_less_mult)
    moreover have "(i - x) * gx + k < w * gx \<longleftrightarrow> i - x < w"
    proof -
      have "((i - x) * gx + k) div gx = i - x"
        using k by simp
      then show ?thesis
        using div_less_iff_less_mult [of gx "(i - x) * gx + k" w] k by simp
    qed
    ultimately show ?thesis
      using True unfolding place(1) by (simp only: place) linarith
  next
    case False
    then show ?thesis
      using rect_place_left [OF row k False] by blast
  qed
qed

lemma pixel_address_eq:
  assumes "area_ok gx g"
  shows "pixel_address g (of_nat x) (of_nat y) = buffer g + of_nat (y * unat (bytesPerRow g) + x * gx)"
  using assms by (simp add: pixel_address_def area_ok_def)

text \<open>A rectangle that is inside of an area.\<close>

lemma rect_inside_area:
  assumes g: "area_ok gx g" and x: "x + w \<le> unat (width_px g)" and y: "y + h \<le> unat (height_px g)"
  shows "gx \<le> 4" "0 < gx" "x * gx + w * gx \<le> unat (bytesPerRow g)" "w * gx \<le> unat (bytesPerRow g)"
    "y * unat (bytesPerRow g) + h * unat (bytesPerRow g) \<le> unat (height_px g) * unat (bytesPerRow g)"
    "unat (buffer g) + (y * unat (bytesPerRow g) + h * unat (bytesPerRow g)) \<le> 2 ^ 32"
    "h * unat (bytesPerRow g) \<le> 2 ^ 32"
    "0 < w \<Longrightarrow> 0 < h \<Longrightarrow> unat (buffer g) + (y * unat (bytesPerRow g) + x * gx) < 2 ^ 32"
proof -
  let ?B = "unat (bytesPerRow g)"
  show gx: "gx \<le> 4" "0 < gx"
    using g by (auto simp: area_ok_def)
  have "(x + w) * gx \<le> unat (width_px g) * gx"
    using x by (rule mult_le_mono1)
  then show wB: "x * gx + w * gx \<le> ?B" and "w * gx \<le> ?B"
    using g by (simp_all add: area_ok_def algebra_simps)
  have "(y + h) * ?B \<le> unat (height_px g) * ?B"
    using y by (rule mult_le_mono1)
  then show "y * ?B + h * ?B \<le> unat (height_px g) * ?B"
    by (simp add: algebra_simps)
  then show room: "unat (buffer g) + (y * ?B + h * ?B) \<le> 2 ^ 32" and "h * ?B \<le> 2 ^ 32"
    using g by (simp_all add: area_ok_def)
  assume "0 < w" "0 < h"
  then have "0 < w * gx" "?B \<le> h * ?B"
    using gx(2) by simp_all
  then show "unat (buffer g) + (y * ?B + x * gx) < 2 ^ 32"
    using wB room by linarith
qed

lemma rect_offset:
  assumes g: "area_ok gx g" and x: "x + w \<le> unat (width_px g)" and y: "y + h \<le> unat (height_px g)"
    and pos: "0 < w" and off: "unat (buffer g) + off < 2 ^ 32"
  defines "B \<equiv> unat (bytesPerRow g)" and "s \<equiv> y * unat (bytesPerRow g) + x * gx"
  shows "rect_rows gx h (bytesPerRow g) w (buffer g + of_nat s) color m (buffer g + of_nat off) =
    (if s \<le> off \<and> off - s < h * B \<and> (off - s) mod B < w * gx
     then color_byte color ((off - s) mod B mod gx) else m (buffer g + of_nat off))"
proof -
  let ?a = "buffer g + of_nat off" and ?st = "buffer g + of_nat s"
  note inside = rect_inside_area [OF g x y, folded B_def]
  have dist: "unat (?a - ?st) = (if s \<le> off then off - s else off + 2 ^ 32 - s)" if "s < 2 ^ 32"
  proof -
    have "?a - ?st = of_nat off - of_nat s"
      by simp
    moreover have "unat (of_nat off :: PTR) = off"
      using off by (simp add: unat_of_nat)
    ultimately show ?thesis
      using unat_minus_of_nat [OF that, of "of_nat off"] by simp
  qed
  have eq: "rect_rows gx h (bytesPerRow g) w ?st color m ?a =
    (if unat (?a - ?st) < h * B \<and> unat (?a - ?st) mod B < w * gx
     then color_byte color (unat (?a - ?st) mod B mod gx) else m ?a)"
    unfolding B_def by (rule rect_rows_eq [OF inside(1,2) _ pos]) (use inside(4,7) in \<open>simp_all add: B_def\<close>)
  show ?thesis
  proof (cases "h = 0")
    case True
    then show ?thesis by simp
  next
    case False
    then have s32: "s < 2 ^ 32"
      using inside(8) pos unfolding s_def B_def [symmetric] by linarith
    show ?thesis
    proof (cases "s \<le> off")
      case True
      then show ?thesis
        using eq dist [OF s32] by simp
    next
      case False
      have "h * B - x * gx \<le> off + 2 ^ 32 - s"
        using inside(6) False unfolding s_def B_def [symmetric] by linarith
      then have "\<not> (unat (?a - ?st) < h * B \<and> unat (?a - ?st) mod B < w * gx)"
        using rect_place_beyond [OF _ inside(3)] dist [OF s32] False by auto
      then show ?thesis
        using False unfolding eq by (simp only: if_False simp_thms)
    qed
  qed
qed

section \<open>Properties\<close>

lemma rect_pixel:
  assumes g: "area_ok gx g" and x: "x + w \<le> unat (width_px g)" and y: "y + h \<le> unat (height_px g)" and pos: "0 < w"
    and i: "i < unat (width_px g)" and j: "j < unat (height_px g)"
  shows "pixel gx g i j (rect_rows gx h (bytesPerRow g) w (pixel_address g (of_nat x) (of_nat y)) color m) =
    (if x \<le> i \<and> i < x + w \<and> y \<le> j \<and> j < y + h then map (color_byte color) [0..<gx] else pixel gx g i j m)"
proof -
  define B where "B = unat (bytesPerRow g)"
  have wB: "x * gx + w * gx \<le> B" and row: "i * gx + gx \<le> B"
    and area: "unat (buffer g) + unat (height_px g) * B \<le> 2 ^ 32" and jB: "j * B + B \<le> unat (height_px g) * B"
  proof -
    have "(x + w) * gx \<le> unat (width_px g) * gx" "(i + 1) * gx \<le> unat (width_px g) * gx"
        "(j + 1) * B \<le> unat (height_px g) * B"
      using x i j by (simp_all only: mult_le_mono1 Suc_leI Suc_eq_plus1 [symmetric])
    then show "x * gx + w * gx \<le> B" "i * gx + gx \<le> B" "unat (buffer g) + unat (height_px g) * B \<le> 2 ^ 32"
        "j * B + B \<le> unat (height_px g) * B"
      using g by (simp_all add: area_ok_def B_def algebra_simps)
  qed
  have byte: "rect_rows gx h (bytesPerRow g) w (pixel_address g (of_nat x) (of_nat y)) color m (buffer g + of_nat (j * B + i * gx + k))
      = (if x \<le> i \<and> i < x + w \<and> y \<le> j \<and> j < y + h then color_byte color k else m (buffer g + of_nat (j * B + i * gx + k)))"
    if k: "k < gx" for k
  proof -
    let ?off = "j * B + i * gx + k"
    have "unat (buffer g) + ?off < 2 ^ 32"
      using row area jB k by linarith
    then show ?thesis
      using rect_offset [OF g x y pos, where off = ?off and color = color and m = m]
        rect_place_iff(1) [OF row wB k, of y j h] rect_place_iff(2) [OF row wB k, of y j]
      by (simp add: pixel_address_eq [OF g] B_def)
  qed
  show ?thesis
    using byte unfolding pixel_def B_def [symmetric]
    by (cases "x \<le> i \<and> i < x + w \<and> y \<le> j \<and> j < y + h") (auto simp del: of_nat_add of_nat_mult)
qed

lemma rect_rows_outside:
  assumes g: "area_ok gx g" and x: "x + w \<le> unat (width_px g)" and y: "y + h \<le> unat (height_px g)"
    and pos: "0 < w" "0 < h" and a: "\<not> in_buffer g a"
  shows "rect_rows gx h (bytesPerRow g) w (pixel_address g (of_nat x) (of_nat y)) color m a = m a"
proof -
  define B s where "B = unat (bytesPerRow g)" and "s = y * unat (bytesPerRow g) + x * gx"
  note inside = rect_inside_area [OF g x y, folded B_def]
  let ?st = "buffer g + of_nat s"
  have s32: "unat (buffer g) + s < 2 ^ 32"
    using inside(8) pos by (simp add: s_def B_def)
  then have st: "unat ?st = unat (buffer g) + s"
    by (simp add: unat_add_word32 unat_of_nat)
  have area: "unat (buffer g) + unat (height_px g) * B \<le> 2 ^ 32"
    using g by (simp add: area_ok_def B_def)
  have "unat (a - ?st) = (if unat ?st \<le> unat a then unat a - unat ?st else unat a + 2 ^ 32 - unat ?st)"
    by (simp add: unat_sub_if_size word_size)
  then have "h * B - x * gx \<le> unat (a - ?st)"
    using a st area inside(5) unfolding in_buffer_def B_def [symmetric] s_def by (auto split: if_splits)
  then have "\<not> (unat (a - ?st) < h * B \<and> unat (a - ?st) mod B < w * gx)"
    using rect_place_beyond [OF _ inside(3)] by blast
  moreover have "pixel_address g (of_nat x) (of_nat y) = ?st"
    by (simp only: pixel_address_eq [OF g] s_def)
  moreover have "rect_rows gx h (bytesPerRow g) w ?st color m a =
    (if unat (a - ?st) < h * B \<and> unat (a - ?st) mod B < w * gx
     then color_byte color (unat (a - ?st) mod B mod gx) else m a)"
    unfolding B_def by (rule rect_rows_eq [OF inside(1,2) _ pos(1)]) (use inside(4,7) in \<open>simp_all add: B_def\<close>)
  ultimately show ?thesis
    by (simp only: if_False simp_thms)
qed

lemma rect_rows_empty [simp]: "rect_rows gx h bpr 0 start color m = m"
  by (induction h arbitrary: start) simp_all

lemma rect_paints:
  assumes "area_ok gx g" "unat x + unat w \<le> unat (width_px g)" "unat y + unat h \<le> unat (height_px g)"
    and ij: "i < unat (width_px g)" "j < unat (height_px g)" and a: "\<not> in_buffer g a"
  shows "pixel gx g i j (kgraphics_rect gx g x y w h color m) =
      (if unat x \<le> i \<and> i < unat x + unat w \<and> unat y \<le> j \<and> j < unat y + unat h
       then map (color_byte color) [0..<gx] else pixel gx g i j m)
    \<and> kgraphics_rect gx g x y w h color m a = m a"
proof (cases "w = 0 \<or> h = 0")
  case True
  then show ?thesis
    by (auto simp: kgraphics_rect_def)
next
  case False
  then have pos: "0 < unat w" "0 < unat h"
    by (simp_all add: unat_gt_0)
  then show ?thesis
    using rect_pixel [OF assms(1-3) pos(1) ij, of color m] rect_rows_outside [OF assms(1-3) pos a, of color m]
    by (simp add: kgraphics_rect_def)
qed

text \<open>
  C29. Painting a rectangle. In a well formed area, for a rectangle inside of it, \<open>kgraphics_rect\<close> gives exactly the
  pixels of the rectangle the colour and leaves every other pixel of the area and every byte outside of the area as
  it was.
\<close>

theorem kgraphics_rect_correct:
  assumes "area_ok gx g" "unat x + unat w \<le> unat (width_px g)" "unat y + unat h \<le> unat (height_px g)"
    and ij: "i < unat (width_px g)" "j < unat (height_px g)" and a: "\<not> in_buffer g a"
  shows "pixel gx g i j (kgraphics_rect gx g x y w h color m) =
      (if unat x \<le> i \<and> i < unat x + unat w \<and> unat y \<le> j \<and> j < unat y + unat h
       then map (color_byte color) [0..<gx] else pixel gx g i j m)
    \<and> kgraphics_rect gx g x y w h color m a = m a"
  using assms by (rule rect_paints)

definition sample_area :: KGraphicsArea where
  "sample_area = \<lparr>width_px = 4, height_px = 2, bytesPerPixel = 1, bytesPerRow = 4, buffer = 0x1000, bufferSizeBytes = 8\<rparr>"

theorem kgraphics_rect_correct_witness:
  "pixel 1 sample_area 2 1 (kgraphics_rect 1 sample_area 1 1 2 1 7 (\<lambda>_. 0)) = [7]
   \<and> kgraphics_rect 1 sample_area 1 1 2 1 7 (\<lambda>_. 0) 0 = 0"
  using kgraphics_rect_correct [of 1 sample_area 1 2 1 1 2 1 0 7 "\<lambda>_. 0"]
  by (simp add: area_ok_def sample_area_def in_buffer_def color_byte_def)

end
