(* ===== verification/Bitmap_Store.thy ===== *)
theory Bitmap_Store
  imports Prelude
begin

text \<open>
  The bitmap of \<open>src/kernel/bitmap.c\<close> and \<open>include/bitmap.h\<close>: an array of states of 1, 2, 4 or
  8 bits packed into bytes, with the callback \<open>allow\<close> that vets each change. \<open>bitmap_states\<close>
  is the abstraction, the list of the states; the lemmas give every operation as an operation on
  that list.
\<close>

section \<open>The data structure\<close>

type_synonym BitmapState = U8

text \<open>
  \<open>allow\<close> is a function pointer (\<open>None\<close> is the null pointer). It may panic, hence the
  \<open>bool option\<close>.
\<close>

record Bitmap =
  bitmap :: "BitmapState list"
  size :: SIZE
  bitsPerState :: SIZE
  allow :: "(UINT \<Rightarrow> BitmapState \<Rightarrow> BitmapState \<Rightarrow> bool option) option"

definition BITMAP_MAX_STATE :: "Bitmap \<Rightarrow> UINT" where
  "BITMAP_MAX_STATE b = POWER_OF_TWO (unat (bitsPerState b))"

definition BITMAP_STATE_MASK :: "Bitmap \<Rightarrow> UINT" where
  "BITMAP_STATE_MASK b = POWER_OF_TWO (unat (bitsPerState b)) - 1"

definition BITMAP_STATES_PER_BYTE :: "Bitmap \<Rightarrow> UINT" where
  "BITMAP_STATES_PER_BYTE b = 8 div bitsPerState b"

definition BITMAP_CAPACITY :: "Bitmap \<Rightarrow> UINT" where
  "BITMAP_CAPACITY b = Bitmap.size b * BITMAP_STATES_PER_BYTE b"

section \<open>Operations\<close>

text \<open>
  A read or write outside the byte array is outside the object the C pointer points to; the model
  gives no result for it.
\<close>

definition read_byte :: "U8 list \<Rightarrow> UINT \<Rightarrow> U8 option" where
  "read_byte xs i = (if unat i < length xs then Some (xs ! unat i) else None)"

definition bitmap_get :: "Bitmap \<Rightarrow> UINT \<Rightarrow> BitmapState option" where
  "bitmap_get b index = do {
     k_assert (8 mod bitsPerState b = 0);
     k_assert (index < BITMAP_CAPACITY b);
     let byteIndex = index div BITMAP_STATES_PER_BYTE b;
         bitIndex = (index mod BITMAP_STATES_PER_BYTE b) * bitsPerState b
     in do {
       byte \<leftarrow> read_byte (bitmap b) byteIndex;
       Some (ucast (drop_bit (unat bitIndex) (ucast byte :: UINT) AND BITMAP_STATE_MASK b))
     }
   }"

text \<open>The loop of \<open>bitmap_findContinousAt\<close> with \<open>n = len - i\<close> iterations left.\<close>

fun findContinousAt_loop :: "Bitmap \<Rightarrow> BitmapState \<Rightarrow> nat \<Rightarrow> UINT \<Rightarrow> bool option" where
  "findContinousAt_loop b state 0 index = Some True"
| "findContinousAt_loop b state (Suc n) index = do {
     st \<leftarrow> bitmap_get b index;
     if st = state then findContinousAt_loop b state n (index + 1) else Some False
   }"

definition bitmap_findContinousAt ::
  "Bitmap \<Rightarrow> BitmapState \<Rightarrow> UINT \<Rightarrow> UINT \<Rightarrow> bool option" where
  "bitmap_findContinousAt b state len indexAt = do {
     k_assert (8 mod bitsPerState b = 0);
     k_assert (ucast state < BITMAP_MAX_STATE b);
     k_assert (len > 0);
     if indexAt + len > BITMAP_CAPACITY b then Some False
     else findContinousAt_loop b state (unat len) indexAt
   }"

text \<open>
  \<open>bitmap_findContinous\<close> returns the index, or \<open>KERNEL_EXIT_FAILURE\<close>, the \<open>INT\<close> -1, which
  is the word of all ones. \<open>n\<close> is \<open>count - index\<close>.
\<close>

definition KERNEL_EXIT_FAILURE :: UINT where
  "KERNEL_EXIT_FAILURE = -1"

fun findContinous_loop :: "Bitmap \<Rightarrow> BitmapState \<Rightarrow> UINT \<Rightarrow> nat \<Rightarrow> UINT \<Rightarrow> UINT option" where
  "findContinous_loop b state len 0 index = Some KERNEL_EXIT_FAILURE"
| "findContinous_loop b state len (Suc n) index = do {
     found \<leftarrow> bitmap_findContinousAt b state len index;
     if found then Some index else findContinous_loop b state len n (index + 1)
   }"

definition bitmap_findContinous :: "Bitmap \<Rightarrow> BitmapState \<Rightarrow> UINT \<Rightarrow> UINT option" where
  "bitmap_findContinous b state len = do {
     k_assert (8 mod bitsPerState b = 0);
     k_assert (ucast state < BITMAP_MAX_STATE b);
     k_assert (len > 0);
     findContinous_loop b state len (unat (BITMAP_CAPACITY b)) 0
   }"

text \<open>The body of the loop of \<open>bitmap_setContinous\<close>: clear the bits of the state, then set them.\<close>

definition set_state :: "Bitmap \<Rightarrow> UINT \<Rightarrow> BitmapState \<Rightarrow> Bitmap option" where
  "set_state b index state =
     (let byteIndex = index div BITMAP_STATES_PER_BYTE b;
          bitIndex = unat ((index mod BITMAP_STATES_PER_BYTE b) * bitsPerState b)
      in do {
        byte \<leftarrow> read_byte (bitmap b) byteIndex;
        let cleared = byte AND ucast (NOT (push_bit bitIndex (BITMAP_STATE_MASK b)));
            newbyte = cleared OR ucast (push_bit bitIndex (ucast state :: UINT))
        in Some (b\<lparr>bitmap := (bitmap b)[unat byteIndex := newbyte]\<rparr>)
      })"

fun setContinous_loop ::
  "(UINT \<Rightarrow> BitmapState \<Rightarrow> BitmapState \<Rightarrow> bool option) \<Rightarrow> Bitmap \<Rightarrow> UINT \<Rightarrow> nat \<Rightarrow> BitmapState
   \<Rightarrow> (bool \<times> Bitmap) option" where
  "setContinous_loop al b index 0 state = Some (True, b)"
| "setContinous_loop al b index (Suc n) state = do {
     old \<leftarrow> bitmap_get b index;
     ok \<leftarrow> al index old state;
     if ok then do {
       b' \<leftarrow> set_state b index state;
       setContinous_loop al b' (index + 1) n state
     } else Some (False, b)
   }"

definition bitmap_setContinous ::
  "Bitmap \<Rightarrow> UINT \<Rightarrow> UINT \<Rightarrow> BitmapState \<Rightarrow> (bool \<times> Bitmap) option" where
  "bitmap_setContinous b index len state = (case allow b of
     None \<Rightarrow> None
   | Some al \<Rightarrow> do {
       k_assert (8 mod bitsPerState b = 0);
       k_assert (ucast state < BITMAP_MAX_STATE b);
       k_assert (len > 0);
       k_assert (index + len - 1 < BITMAP_CAPACITY b);
       setContinous_loop al b index (unat len) state
     })"

section \<open>Abstraction: the list of states\<close>

text \<open>
  A well-formed bitmap has an admissible state width, as many bytes as \<open>size\<close> says, and a
  capacity that leaves room for the sums \<open>index + len\<close> not to wrap (the array has at most
  \<open>2^28\<close> bytes; the one of the kernel has 4096).
\<close>

definition bitmap_wf :: "Bitmap \<Rightarrow> bool" where
  "bitmap_wf b \<longleftrightarrow> bitsPerState b \<in> {1, 2, 4, 8} \<and> length (bitmap b) = unat (Bitmap.size b)
     \<and> unat (Bitmap.size b) < 2 ^ 28"

definition bps :: "Bitmap \<Rightarrow> nat" where
  "bps b = unat (bitsPerState b)"

definition capacity :: "Bitmap \<Rightarrow> nat" where
  "capacity b = length (bitmap b) * (8 div bps b)"

definition state_at :: "Bitmap \<Rightarrow> nat \<Rightarrow> BitmapState" where
  "state_at b i = take_bit (bps b)
     (drop_bit (i mod (8 div bps b) * bps b) (bitmap b ! (i div (8 div bps b))))"

definition bitmap_states :: "Bitmap \<Rightarrow> BitmapState list" where
  "bitmap_states b = map (state_at b) [0..<capacity b]"

lemma length_bitmap_states [simp]: "length (bitmap_states b) = capacity b"
  by (simp add: bitmap_states_def)

lemma bitmap_wf_cases:
  assumes "bitmap_wf b"
  obtains "bitsPerState b = 1" "bps b = 1" | "bitsPerState b = 2" "bps b = 2"
    | "bitsPerState b = 4" "bps b = 4" | "bitsPerState b = 8" "bps b = 8"
  using assms by (auto simp: bitmap_wf_def bps_def)

lemma bitmap_wf_bps:
  assumes "bitmap_wf b"
  shows "0 < bps b" "bps b \<le> 8" "8 mod bitsPerState b = 0" "0 < 8 div bps b"
    "(8 div bps b) * bps b = 8" "unat (BITMAP_STATES_PER_BYTE b) = 8 div bps b"
  using assms
  by (cases rule: bitmap_wf_cases; simp add: BITMAP_STATES_PER_BYTE_def unat_div)+

lemma capacity_bound:
  assumes "bitmap_wf b"
  shows "capacity b < 2 ^ 31"
proof -
  have "8 div bps b \<le> 8"
    by (simp add: div_le_dividend)
  then have "capacity b \<le> length (bitmap b) * 8"
    by (simp add: capacity_def)
  then show ?thesis
    using assms by (simp add: bitmap_wf_def)
qed

lemma unat_BITMAP_CAPACITY:
  assumes "bitmap_wf b"
  shows "unat (BITMAP_CAPACITY b) = capacity b"
  using assms capacity_bound [OF assms]
  by (simp add: BITMAP_CAPACITY_def unat_word_ariths bitmap_wf_bps capacity_def bitmap_wf_def)

lemma less_BITMAP_CAPACITY:
  "bitmap_wf b \<Longrightarrow> index < BITMAP_CAPACITY b \<longleftrightarrow> unat index < capacity b"
  by (simp add: word_less_nat_alt unat_BITMAP_CAPACITY)

lemma BITMAP_MAX_STATE_iff:
  assumes "bitmap_wf b"
  shows "ucast (state :: U8) < BITMAP_MAX_STATE b \<longleftrightarrow> unat state < 2 ^ bps b"
proof -
  have u: "unat (ucast state :: UINT) = unat state"
    by (simp add: unsigned_ucast_eq take_bit_nat_eq_self_iff less_trans [OF unsigned_less])
  show ?thesis
    using assms by (cases rule: bitmap_wf_cases)
      (simp_all add: u word_less_nat_alt BITMAP_MAX_STATE_def POWER_OF_TWO_def)
qed


section \<open>Reading and writing one state\<close>

lemma bit_mask_const: "bit (POWER_OF_TWO n - 1) k \<longleftrightarrow> k < n \<and> k < 32"
  by (auto simp: POWER_OF_TWO_def mask_eq_exp_minus_1 [symmetric] push_bit_eq_mult bit_simps)

lemma byte_index_bound:
  assumes "bitmap_wf b" "i < capacity b"
  shows "i div (8 div bps b) < length (bitmap b)"
  using assms bitmap_wf_bps(4) [OF assms(1)]
  by (simp add: capacity_def less_mult_imp_div_less)

lemma bit_index_bound:
  assumes "bitmap_wf b"
  shows "i mod (8 div bps b) * bps b + bps b \<le> 8"
proof -
  have "i mod (8 div bps b) + 1 \<le> 8 div bps b"
    using bitmap_wf_bps(4) [OF assms] by (simp add: Suc_leI)
  then have "(i mod (8 div bps b) + 1) * bps b \<le> (8 div bps b) * bps b"
    by (rule mult_le_mono1)
  then show ?thesis
    unfolding bitmap_wf_bps(5) [OF assms] by simp
qed

lemma unat_bitIndex:
  assumes "bitmap_wf b"
  shows "unat ((index mod BITMAP_STATES_PER_BYTE b) * bitsPerState b)
    = unat index mod (8 div bps b) * bps b"
proof -
  have "unat index mod (8 div bps b) * bps b < 4294967296"
    using bit_index_bound [OF assms, of "unat index"] by linarith
  then show ?thesis
    using bitmap_wf_bps(6) [OF assms] by (simp add: unat_word_ariths unat_mod bps_def mod_mult_left_eq)
qed

lemma bit_state_at:
  "bit (state_at b i) k \<longleftrightarrow> k < bps b
     \<and> bit (bitmap b ! (i div (8 div bps b))) (i mod (8 div bps b) * bps b + k)"
  by (auto simp: state_at_def bit_simps)

lemma bitmap_get_eq:
  assumes "bitmap_wf b" "unat index < capacity b"
  shows "bitmap_get b index = Some (state_at b (unat index))"
proof -
  let ?n = "unat index mod (8 div bps b) * bps b"
  have "ucast (drop_bit ?n (ucast byte :: UINT) AND BITMAP_STATE_MASK b)
      = take_bit (bps b) (drop_bit ?n byte)" for byte :: U8
    using bitmap_wf_bps(2) [OF assms(1)] bit_index_bound [OF assms(1), of "unat index"]
    by (intro bit_word_eqI)
      (auto simp: bit_simps BITMAP_STATE_MASK_def bit_mask_const bps_def [symmetric])
  then show ?thesis
    using assms
    by (simp add: bitmap_get_def read_byte_def less_BITMAP_CAPACITY bitmap_wf_bps unat_bitIndex
        unat_div byte_index_bound state_at_def Let_def)
qed

lemma bitmap_get_out_of_range:
  "bitmap_wf b \<Longrightarrow> capacity b \<le> unat index \<Longrightarrow> bitmap_get b index = None"
  by (simp add: bitmap_get_def less_BITMAP_CAPACITY)

text \<open>Writing a state changes the bits of that state only.\<close>

definition new_byte :: "nat \<Rightarrow> nat \<Rightarrow> U8 \<Rightarrow> U8 \<Rightarrow> U8" where
  "new_byte w n byte s = (byte AND ucast (NOT (push_bit n (POWER_OF_TWO w - 1))))
     OR ucast (push_bit n (ucast s :: UINT))"

lemma bit_new_byte:
  assumes "n + w \<le> 8" "unat s < 2 ^ w"
  shows "bit (new_byte w n byte s) k \<longleftrightarrow>
    k < 8 \<and> (if n \<le> k \<and> k < n + w then bit s (k - n) else bit byte k)"
proof -
  have s: "bit s j \<Longrightarrow> j < w" for j
  proof (rule ccontr)
    assume "bit s j" "\<not> j < w"
    moreover have "take_bit w s = s"
      using assms(2) by (simp only: word_unat_eq_iff unsigned_take_bit_eq take_bit_nat_eq_self)
    ultimately show False
      by (metis bit_take_bit_iff)
  qed
  show ?thesis
    using assms(1) s [of "k - n"]
    by (auto simp: new_byte_def bit_simps bit_mask_const)
qed

lemma same_slot_iff:
  assumes "0 < (w::nat)" "0 < (m::nat)" "k < w" "i div m = j div m"
  shows "j mod m * w \<le> i mod m * w + k \<and> i mod m * w + k < j mod m * w + w \<longleftrightarrow> i = j"
proof
  assume a: "j mod m * w \<le> i mod m * w + k \<and> i mod m * w + k < j mod m * w + w"
  then have "j mod m * w < (i mod m + 1) * w" "i mod m * w < (j mod m + 1) * w"
    using assms(3) by (auto simp: algebra_simps)
  then have "j mod m < i mod m + 1" "i mod m < j mod m + 1"
    by (simp_all only: mult_less_cancel2)
  then have "i mod m = j mod m"
    by simp
  with assms(4) show "i = j"
    by (metis div_mod_decomp)
next
  assume "i = j"
  then show "j mod m * w \<le> i mod m * w + k \<and> i mod m * w + k < j mod m * w + w"
    using assms(3) by simp
qed


lemma bps_update [simp]: "bps (b\<lparr>bitmap := xs\<rparr>) = bps b"
  by (simp add: bps_def)

lemma state_at_set_byte:
  assumes wf: "bitmap_wf b" and i: "i < capacity b" and j: "j < capacity b"
    and s: "unat s < 2 ^ bps b"
    and b': "b' = b\<lparr>bitmap := (bitmap b)[i div (8 div bps b) :=
      new_byte (bps b) (i mod (8 div bps b) * bps b) (bitmap b ! (i div (8 div bps b))) s]\<rparr>"
  shows "state_at b' j = (if i = j then s else state_at b j)"
proof (rule bit_word_eqI)
  fix k
  note bounds = byte_index_bound [OF wf i] bit_index_bound [OF wf, of i] bit_index_bound [OF wf, of j]
  note slot = same_slot_iff [OF bitmap_wf_bps(1,4) [OF wf], of k j i]
  have sk: "bit s k \<Longrightarrow> k < bps b"
    using s by (metis bit_take_bit_iff take_bit_nat_eq_self unsigned_take_bit_eq word_unat_eq_iff)
  show "bit (state_at b' j) k \<longleftrightarrow> bit (if i = j then s else state_at b j) k"
  proof (cases "i div (8 div bps b) = j div (8 div bps b)")
    case True
    then show ?thesis
      using bounds slot sk
      by (auto simp: bit_state_at b' bit_new_byte [OF _ s])
  next
    case False
    then show ?thesis
      using bounds by (auto simp: bit_state_at b')
  qed
qed

lemma set_state_eq:
  assumes wf: "bitmap_wf b" and i: "unat index < capacity b" and s: "unat state < 2 ^ bps b"
  shows "\<exists>b'. set_state b index state = Some b' \<and> bitmap_wf b'
    \<and> bitmap_states b' = (bitmap_states b)[unat index := state]
    \<and> b' = b\<lparr>bitmap := bitmap b'\<rparr>"
proof -
  let ?i = "unat index"
  let ?n = "?i mod (8 div bps b) * bps b" and ?k = "?i div (8 div bps b)"
  define b' where "b' = b\<lparr>bitmap := (bitmap b)[?k := new_byte (bps b) ?n (bitmap b ! ?k) state]\<rparr>"
  have 1: "set_state b index state = Some b'"
    using wf byte_index_bound [OF wf i]
    by (simp add: set_state_def read_byte_def Let_def unat_bitIndex unat_div bitmap_wf_bps b'_def
        new_byte_def BITMAP_STATE_MASK_def bps_def [symmetric])
  have cap: "capacity b' = capacity b"
    by (simp add: b'_def capacity_def bps_def)
  have 2: "bitmap_states b' = (bitmap_states b)[?i := state]"
    by (rule nth_equalityI)
      (use state_at_set_byte [OF wf i _ s b'_def] in
        \<open>auto simp: cap bitmap_states_def nth_list_update\<close>)
  have 3: "bitmap_wf b'" "b' = b\<lparr>bitmap := bitmap b'\<rparr>"
    using wf by (simp_all add: b'_def bitmap_wf_def)
  from 1 2 3 show ?thesis
    by blast
qed

section \<open>The operations on the list of states\<close>

lemma findContinousAt_loop_eq:
  assumes "bitmap_wf b" "unat index + n \<le> capacity b"
  shows "findContinousAt_loop b state n index
    = Some (\<forall>i < n. bitmap_states b ! (unat index + i) = state)"
  using assms
proof (induction n arbitrary: index)
  case 0
  then show ?case by simp
next
  case (Suc n)
  then have step: "unat (index + 1) = unat index + 1"
    using capacity_bound [OF Suc.prems(1)] by (simp add: unat_word_ariths)
  show ?case
    using Suc.prems Suc.IH [of "index + 1"] step
    by (auto simp: bitmap_get_eq bitmap_states_def All_less_Suc2 Ex_less_Suc2)
qed

lemma bitmap_findContinousAt_eq:
  assumes wf: "bitmap_wf b" and s: "unat state < 2 ^ bps b" and len: "0 < len"
    and nowrap: "unat indexAt + unat len < 2 ^ 32"
  shows "bitmap_findContinousAt b state len indexAt
    = Some (unat indexAt + unat len \<le> capacity b
        \<and> (\<forall>i < unat len. bitmap_states b ! (unat indexAt + i) = state))"
proof -
  have "indexAt + len > BITMAP_CAPACITY b \<longleftrightarrow> capacity b < unat indexAt + unat len"
    using nowrap by (simp add: word_less_nat_alt unat_BITMAP_CAPACITY [OF wf] unat_word_ariths)
  then show ?thesis
    using assms
    by (auto simp: bitmap_findContinousAt_def bitmap_wf_bps BITMAP_MAX_STATE_iff
        findContinousAt_loop_eq)
qed


text \<open>
  \<open>run_at xs s i n\<close>: positions \<open>i, \<dots>, i + n - 1\<close> exist and all hold \<open>s\<close>. The search for a run
  returns the least such index.
\<close>

definition run_at :: "'a list \<Rightarrow> 'a \<Rightarrow> nat \<Rightarrow> nat \<Rightarrow> bool" where
  "run_at xs s i n \<longleftrightarrow> i + n \<le> length xs \<and> (\<forall>k < n. xs ! (i + k) = s)"

fun first_run :: "'a list \<Rightarrow> 'a \<Rightarrow> nat \<Rightarrow> nat \<Rightarrow> nat \<Rightarrow> nat option" where
  "first_run xs s n 0 i = None"
| "first_run xs s n (Suc m) i = (if run_at xs s i n then Some i else first_run xs s n m (Suc i))"

lemma first_run_Some:
  "first_run xs s n m i = Some j \<longleftrightarrow>
     i \<le> j \<and> j < i + m \<and> run_at xs s j n \<and> (\<forall>k. i \<le> k \<longrightarrow> k < j \<longrightarrow> \<not> run_at xs s k n)"
proof (induction m arbitrary: i)
  case 0
  then show ?case by simp
next
  case (Suc m)
  show ?case
  proof (cases "run_at xs s i n")
    case True
    then show ?thesis by (auto intro: le_antisym leI)
  next
    case False
    have "i \<le> j \<and> run_at xs s j n \<longleftrightarrow> Suc i \<le> j \<and> run_at xs s j n"
      using False by (metis Suc_leD le_antisym not_less_eq_eq)
    moreover have "(\<forall>k. i \<le> k \<longrightarrow> k < j \<longrightarrow> \<not> run_at xs s k n)
        \<longleftrightarrow> (\<forall>k. Suc i \<le> k \<longrightarrow> k < j \<longrightarrow> \<not> run_at xs s k n)"
      using False by (metis Suc_leD le_antisym not_less_eq_eq)
    ultimately show ?thesis
      using False Suc.IH [of "Suc i"] by auto
  qed
qed

lemma first_run_None:
  "first_run xs s n m i = None \<longleftrightarrow> (\<forall>j. i \<le> j \<longrightarrow> j < i + m \<longrightarrow> \<not> run_at xs s j n)"
proof (induction m arbitrary: i)
  case 0
  then show ?case by simp
next
  case (Suc m)
  have "(\<forall>j. i \<le> j \<longrightarrow> j < i + Suc m \<longrightarrow> P j) \<longleftrightarrow> P i \<and> (\<forall>j. Suc i \<le> j \<longrightarrow> j < Suc i + m \<longrightarrow> P j)"
    for P
    by (auto dest: le_imp_less_or_eq)
  from this [of "\<lambda>j. \<not> run_at xs s j n"] show ?case
    using Suc.IH [of "Suc i"] by simp
qed

lemma findContinous_loop_eq:
  assumes wf: "bitmap_wf b" and s: "unat state < 2 ^ bps b" and len: "0 < len" "unat len < 2 ^ 31"
    and "unat index + n \<le> capacity b"
  shows "findContinous_loop b state len n index
    = Some (case first_run (bitmap_states b) state (unat len) n (unat index) of
        None \<Rightarrow> KERNEL_EXIT_FAILURE | Some i \<Rightarrow> of_nat i)"
  using assms(5)
proof (induction n arbitrary: index)
  case 0
  then show ?case by simp
next
  case (Suc n)
  note cb = capacity_bound [OF wf]
  have step: "unat (index + 1) = Suc (unat index)"
    using Suc.prems cb by (simp add: unat_word_ariths)
  have "unat index + unat len < 2 ^ 32"
    using Suc.prems cb len by simp
  from bitmap_findContinousAt_eq [OF wf s len(1) this]
  have "bitmap_findContinousAt b state len index
      = Some (run_at (bitmap_states b) state (unat index) (unat len))"
    by (simp add: run_at_def)
  then show ?case
    using Suc.prems Suc.IH [of "index + 1"] step by simp
qed

lemma bitmap_findContinous_eq:
  assumes "bitmap_wf b" "unat state < 2 ^ bps b" "0 < len" "unat len < 2 ^ 31"
  shows "bitmap_findContinous b state len
    = Some (case first_run (bitmap_states b) state (unat len) (capacity b) 0 of
        None \<Rightarrow> KERNEL_EXIT_FAILURE | Some i \<Rightarrow> of_nat i)"
  using assms findContinous_loop_eq [of b state len 0 "capacity b"]
  by (simp add: bitmap_findContinous_def bitmap_wf_bps BITMAP_MAX_STATE_iff unat_BITMAP_CAPACITY)

section \<open>Setting a run of states\<close>

fun set_run :: "'a list \<Rightarrow> nat \<Rightarrow> nat \<Rightarrow> 'a \<Rightarrow> 'a list" where
  "set_run xs i 0 s = xs"
| "set_run xs i (Suc n) s = set_run (xs[i := s]) (Suc i) n s"

lemma length_set_run [simp]: "length (set_run xs i n s) = length xs"
  by (induction xs i n s rule: set_run.induct) simp_all

lemma nth_set_run:
  "j < length xs \<Longrightarrow> set_run xs i n s ! j = (if i \<le> j \<and> j < i + n then s else xs ! j)"
  by (induction xs i n s rule: set_run.induct) (auto simp: nth_list_update)

lemma run_at_nth: "run_at xs s i n \<Longrightarrow> i \<le> j \<Longrightarrow> j < i + n \<Longrightarrow> xs ! j = s"
  by (auto simp: run_at_def dest: spec [of _ "j - i"])

lemma setContinous_loop_eq:
  assumes "bitmap_wf b" "unat state < 2 ^ bps b" "unat index + n \<le> capacity b"
    and "\<forall>i < n. al (index + of_nat i) (bitmap_states b ! (unat index + i)) state = Some True"
  shows "\<exists>b'. setContinous_loop al b index n state = Some (True, b') \<and> bitmap_wf b'
    \<and> bitmap_states b' = set_run (bitmap_states b) (unat index) n state
    \<and> b' = b\<lparr>bitmap := bitmap b'\<rparr>"
  using assms
proof (induction n arbitrary: b index)
  case 0
  then show ?case by simp
next
  case (Suc n)
  have i: "unat index < capacity b"
    using Suc.prems(3) by simp
  obtain b1 where b1: "set_state b index state = Some b1" "bitmap_wf b1"
      "bitmap_states b1 = (bitmap_states b)[unat index := state]" "b1 = b\<lparr>bitmap := bitmap b1\<rparr>"
    using set_state_eq [OF Suc.prems(1) i Suc.prems(2)] by blast
  have step: "unat (index + 1) = Suc (unat index)"
    using i capacity_bound [OF Suc.prems(1)] by (simp add: unat_word_ariths)
  have bps1: "bps b1 = bps b"
    by (subst b1(4)) simp
  have cap1: "capacity b1 = capacity b"
    using arg_cong [OF b1(3), of length] by simp
  have al1: "\<forall>i < n. al (index + 1 + of_nat i) (bitmap_states b1 ! (unat (index + 1) + i)) state = Some True"
    using Suc.prems(3,4) by (auto simp: step b1(3) cap1 nth_list_update add.assoc dest: spec [of _ "Suc _"])
  obtain b2 where b2: "setContinous_loop al b1 (index + 1) n state = Some (True, b2)" "bitmap_wf b2"
      "bitmap_states b2 = set_run (bitmap_states b1) (unat (index + 1)) n state"
      "b2 = b1\<lparr>bitmap := bitmap b2\<rparr>"
    using Suc.IH [OF b1(2) _ _ al1] Suc.prems(2,3) by (auto simp: bps1 cap1 step)
  have "al index (bitmap_states b ! unat index) state = Some True"
    using spec [OF Suc.prems(4), of 0] by simp
  then have "setContinous_loop al b index (Suc n) state = Some (True, b2)"
    using b1(1) b2(1) Suc.prems(1) i by (simp add: bitmap_get_eq bitmap_states_def)
  moreover have "b2 = b\<lparr>bitmap := bitmap b2\<rparr>"
    using b2(4) b1(4) by (metis Bitmap.surjective Bitmap.update_convs(1))
  ultimately show ?case
    using b2(2,3) b1(3) step by auto
qed


lemma bitmap_setContinous_eq:
  assumes wf: "bitmap_wf b" and al: "allow b = Some al" and s: "unat state < 2 ^ bps b"
    and len: "0 < len" and fits: "unat index + unat len \<le> capacity b"
    and ok: "\<forall>i < unat len. al (index + of_nat i) (bitmap_states b ! (unat index + i)) state = Some True"
  shows "\<exists>b'. bitmap_setContinous b index len state = Some (True, b') \<and> bitmap_wf b'
    \<and> bitmap_states b' = set_run (bitmap_states b) (unat index) (unat len) state
    \<and> b' = b\<lparr>bitmap := bitmap b'\<rparr>"
proof -
  have "0 < unat len"
    using len by (simp add: word_less_nat_alt)
  moreover from this have "unat (index + len - 1) = unat index + unat len - 1"
    using fits capacity_bound [OF wf] by (subst unat_sub) (simp_all add: word_le_nat_alt unat_word_ariths)
  ultimately have "index + len - 1 < BITMAP_CAPACITY b"
    using fits by (simp add: less_BITMAP_CAPACITY [OF wf])
  then show ?thesis
    using setContinous_loop_eq [where al = al, OF wf s fits ok] len s wf al
    by (simp add: bitmap_setContinous_def bitmap_wf_bps BITMAP_MAX_STATE_iff)
qed

lemma bitmap_setContinous_out_of_range:
  assumes "bitmap_wf b" "capacity b \<le> unat (index + len - 1)"
  shows "bitmap_setContinous b index len state = None"
  using assms by (simp add: bitmap_setContinous_def less_BITMAP_CAPACITY split: option.split)

section \<open>The interface clients rely on\<close>

text \<open>
  What the physical memory manager needs of the bitmap: a store of states with a search for a run
  and an update of a run, specified on the list of states. \<open>same\<close> relates two stores that differ
  in their states only.
\<close>

locale run_store =
  fixes wf :: "'b \<Rightarrow> bool"
    and valid :: "'b \<Rightarrow> 's \<Rightarrow> bool"
    and allowed :: "'b \<Rightarrow> UINT \<Rightarrow> 's \<Rightarrow> 's \<Rightarrow> bool"
    and states :: "'b \<Rightarrow> 's list"
    and same :: "'b \<Rightarrow> 'b \<Rightarrow> bool"
    and fetch :: "'b \<Rightarrow> UINT \<Rightarrow> 's option"
    and find_at :: "'b \<Rightarrow> 's \<Rightarrow> UINT \<Rightarrow> UINT \<Rightarrow> bool option"
    and find_first :: "'b \<Rightarrow> 's \<Rightarrow> UINT \<Rightarrow> UINT option"
    and store :: "'b \<Rightarrow> UINT \<Rightarrow> UINT \<Rightarrow> 's \<Rightarrow> (bool \<times> 'b) option"
  assumes small: "wf b \<Longrightarrow> length (states b) < 2 ^ 31"
    and fetch_spec: "wf b \<Longrightarrow> unat i < length (states b) \<Longrightarrow> fetch b i = Some (states b ! unat i)"
    and find_at_spec: "wf b \<Longrightarrow> valid b s \<Longrightarrow> 0 < n \<Longrightarrow> unat i + unat n < 2 ^ 32
      \<Longrightarrow> find_at b s n i = Some (run_at (states b) s (unat i) (unat n))"
    and find_first_spec: "wf b \<Longrightarrow> valid b s \<Longrightarrow> 0 < n \<Longrightarrow> unat n < 2 ^ 31
      \<Longrightarrow> find_first b s n = Some (case first_run (states b) s (unat n) (length (states b)) 0 of
            None \<Rightarrow> KERNEL_EXIT_FAILURE | Some i \<Rightarrow> of_nat i)"
    and store_spec: "wf b \<Longrightarrow> valid b s \<Longrightarrow> 0 < n \<Longrightarrow> unat i + unat n \<le> length (states b)
      \<Longrightarrow> \<forall>k < unat n. allowed b (i + of_nat k) (states b ! (unat i + k)) s
      \<Longrightarrow> \<exists>b'. store b i n s = Some (True, b') \<and> wf b' \<and> same b b'
            \<and> states b' = set_run (states b) (unat i) (unat n) s"
begin

text \<open>A search that succeeds names a run, and no run starts before it; one that fails means none.\<close>

lemma find_first_Some:
  assumes "wf b" "valid b s" "0 < n" "unat n < 2 ^ 31"
    and "find_first b s n = Some i" "i \<noteq> KERNEL_EXIT_FAILURE"
  shows "run_at (states b) s (unat i) (unat n) \<and> (\<forall>k < unat i. \<not> run_at (states b) s k (unat n))"
proof -
  from assms find_first_spec [OF assms(1-4)] obtain j
    where j: "first_run (states b) s (unat n) (length (states b)) 0 = Some j" "i = of_nat j"
    by (auto split: option.splits)
  then have "j < length (states b)" "run_at (states b) s j (unat n)"
      "\<forall>k < j. \<not> run_at (states b) s k (unat n)"
    by (auto simp: first_run_Some)
  moreover from this(1) have "unat i = j"
    using small [OF assms(1)] j(2) by (simp add: unat_of_nat)
  ultimately show ?thesis
    by simp
qed

lemma find_first_failure:
  assumes "wf b" "valid b s" "0 < n" "unat n < 2 ^ 31"
  shows "find_first b s n = Some KERNEL_EXIT_FAILURE \<longleftrightarrow> (\<forall>k. \<not> run_at (states b) s k (unat n))"
proof -
  have run_bound: "run_at (states b) s k (unat n) \<Longrightarrow> k < length (states b)" for k
    using assms(3) by (auto simp: run_at_def word_less_nat_alt)
  have "of_nat i \<noteq> KERNEL_EXIT_FAILURE" if "i < length (states b)" for i
  proof -
    have "unat (of_nat i :: UINT) = i"
      using that small [OF assms(1)] by (simp add: unat_of_nat)
    moreover have "unat KERNEL_EXIT_FAILURE = 4294967295"
      by (simp add: KERNEL_EXIT_FAILURE_def unsigned_minus_1_eq_mask mask_eq_exp_minus_1)
    ultimately show ?thesis
      using that small [OF assms(1)] by auto
  qed
  then have "find_first b s n = Some KERNEL_EXIT_FAILURE
      \<longleftrightarrow> first_run (states b) s (unat n) (length (states b)) 0 = None"
    using find_first_spec [OF assms] by (auto split: option.splits simp: first_run_Some)
  also have "\<dots> \<longleftrightarrow> (\<forall>k. \<not> run_at (states b) s k (unat n))"
    using run_bound by (auto simp: first_run_None)
  finally show ?thesis .
qed

text \<open>Claiming a run of \<open>s\<close> for \<open>t\<close>: the search followed by the update.\<close>

lemma claim_run:
  assumes "wf b" "valid b t" "0 < n" "run_at (states b) s (unat i) (unat n)"
    and "\<forall>k < unat n. allowed b (i + of_nat k) s t"
  shows "\<exists>b'. store b i n t = Some (True, b') \<and> wf b' \<and> same b b'
    \<and> states b' = set_run (states b) (unat i) (unat n) t"
  using assms by (intro store_spec) (simp_all add: run_at_def)

end

definition bitmap_allowed :: "Bitmap \<Rightarrow> UINT \<Rightarrow> BitmapState \<Rightarrow> BitmapState \<Rightarrow> bool" where
  "bitmap_allowed b i old new \<longleftrightarrow> (\<exists>al. allow b = Some al \<and> al i old new = Some True)"

definition bitmap_same :: "Bitmap \<Rightarrow> Bitmap \<Rightarrow> bool" where
  "bitmap_same b b' \<longleftrightarrow> b' = b\<lparr>bitmap := bitmap b'\<rparr>"

interpretation bm: run_store bitmap_wf "\<lambda>b s. unat s < 2 ^ bps b" bitmap_allowed bitmap_states
  bitmap_same bitmap_get bitmap_findContinousAt bitmap_findContinous bitmap_setContinous
proof (unfold_locales, goal_cases)
  case (1 b)
  then show ?case
    using capacity_bound [of b] by simp
next
  case (2 b i)
  then show ?case
    by (simp add: bitmap_get_eq bitmap_states_def)
next
  case (3 b s n i)
  then show ?case
    by (simp add: bitmap_findContinousAt_eq run_at_def)
next
  case (4 b s n)
  then show ?case
    by (simp add: bitmap_findContinous_eq)
next
  case (5 b s n i)
  then obtain al where "allow b = Some al"
    by (auto simp: bitmap_allowed_def word_less_nat_alt)
  with 5 show ?case
    using bitmap_setContinous_eq [of b al s n i]
    by (auto simp: bitmap_allowed_def bitmap_same_def)
qed

end
