(* ===== verification/Boot_Info.thy ===== *)
theory Boot_Info
  imports Kstdlib
begin

text \<open>
  The structure the boot loader leaves for the kernel (\<open>include/x86/boot.h\<close>,
  \<open>include/x86/boot_struct.h\<close>) and its accessors in \<open>src/kernel/x86/boot.c\<close>: the memory map, the
  table of the files loaded with the kernel and the graphics mode.
\<close>

record BootMemoryMapItem =
  baseAddr :: U64
  map_length :: U64
  map_type :: U32

definition MMTYPE_FREE :: U32 where
  "MMTYPE_FREE = 1"

record BootFileItem =
  file_name :: "U8 list"
  startLocation :: U32
  file_length :: U16

record BootGraphicsModeInfo =
  xResolution :: U16
  yResolution :: U16
  bitsPerPixel :: U8
  graphicsMode :: U16
  vbeVersion :: U16
  framebufferPhysicalPtr :: Physical
  bytesPerScanLine :: U16

text \<open>
  \<open>filecount\<close> and \<open>count\<close> are the numbers of valid entries of \<open>files\<close> and \<open>items\<close>; the
  model lists hold the entries that exist in memory.
\<close>

record BootLoaderInfo =
  font_data :: "U8 list"
  gxInfo :: BootGraphicsModeInfo
  filecount :: U16
  files :: "BootFileItem list"
  count :: U16
  items :: "BootMemoryMapItem list"

definition nth_opt :: "'a list \<Rightarrow> nat \<Rightarrow> 'a option" where
  "nth_opt xs i = (if i < length xs then Some (xs ! i) else None)"

section \<open>Accessors\<close>

definition kboot_getBootMemoryMapItemCount :: "BootLoaderInfo \<Rightarrow> U16" where
  "kboot_getBootMemoryMapItemCount bli = count bli"

definition kboot_getBootMemoryMapItem :: "BootLoaderInfo \<Rightarrow> int \<Rightarrow> BootMemoryMapItem option" where
  "kboot_getBootMemoryMapItem bli index = do {
     k_assert (0 \<le> index);
     k_assert (index < uint (count bli));
     nth_opt (items bli) (nat index)
   }"

definition kboot_getBootFileItemCount :: "BootLoaderInfo \<Rightarrow> U16" where
  "kboot_getBootFileItemCount bli = filecount bli"

definition kboot_getBootFileItem :: "BootLoaderInfo \<Rightarrow> int \<Rightarrow> BootFileItem option" where
  "kboot_getBootFileItem bli index = do {
     k_assert (0 \<le> index);
     k_assert (index < uint (filecount bli));
     nth_opt (files bli) (nat index)
   }"

definition kboot_getGraphicsModeInfo :: "BootLoaderInfo \<Rightarrow> BootGraphicsModeInfo" where
  "kboot_getGraphicsModeInfo bli = gxInfo bli"

definition kboot_getFontData :: "BootLoaderInfo \<Rightarrow> U8 list" where
  "kboot_getFontData bli = font_data bli"

text \<open>The sum over all entries of the memory map, whatever their type, modulo \<open>2^64\<close>.\<close>

definition kboot_calculateInstalledMemory :: "BootLoaderInfo \<Rightarrow> U64" where
  "kboot_calculateInstalledMemory bli =
     sum_list (map map_length (take (unat (count bli)) (items bli)))"

section \<open>FAT12 file names\<close>

text \<open>
  \<open>convert_to_f12_filename\<close>: the loop over the name with the output position \<open>di\<close>. A dot pads
  the base name with blanks up to position 8 and takes no position itself (the loop decrements
  \<open>di\<close> before its own increment). The list returned is what the function writes at \<open>out\<close>.
\<close>

fun f12_loop :: "U8 list \<Rightarrow> nat \<Rightarrow> U8 list \<times> nat" where
  "f12_loop [] di = ([], di)"
| "f12_loop (c # fn) di =
     (if c = 0 \<or> \<not> di < 11 then ([], di)
      else if c = 46 then
        let pad = 8 - di; (out, di') = f12_loop fn (di + pad) in (replicate pad 32 @ out, di')
      else let (out, di') = f12_loop fn (di + 1) in (c # out, di'))"

definition convert_to_f12_filename :: "U8 list \<Rightarrow> U8 list" where
  "convert_to_f12_filename fn =
     (let (out, di) = f12_loop fn 0 in out @ replicate (11 - di) 32)"

lemma f12_loop_length:
  "di \<le> 11 \<Longrightarrow> f12_loop fn di = (out, di') \<Longrightarrow> di' \<le> 11 \<and> di + length out = di'"
proof (induction fn arbitrary: di out)
  case Nil
  then show ?case by simp
next
  case (Cons c fn)
  show ?case
  proof (cases "c = 0 \<or> \<not> di < 11")
    case True
    with Cons.prems show ?thesis by simp
  next
    case False
    then have "di + (8 - di) \<le> 11"
      by linarith
    with False show ?thesis
      using Cons.prems Cons.IH [of "di + (8 - di)"] Cons.IH [of "di + 1"]
      by (auto simp: Let_def split: prod.splits if_splits)
  qed
qed

text \<open>\<open>kboot_findBootFileItem\<close> compares all 12 bytes, the terminating NUL included.\<close>

fun findBootFileItem_loop :: "BootLoaderInfo \<Rightarrow> U8 list \<Rightarrow> nat \<Rightarrow> nat \<Rightarrow> BootFileItem option" where
  "findBootFileItem_loop bli name 0 i = None"
| "findBootFileItem_loop bli name (Suc n) i = do {
     bfi \<leftarrow> nth_opt (files bli) i;
     eq \<leftarrow> k_memcmp (file_name bfi) name 12;
     if eq then Some bfi else findBootFileItem_loop bli name n (Suc i)
   }"

definition kboot_findBootFileItem :: "BootLoaderInfo \<Rightarrow> U8 list \<Rightarrow> BootFileItem option" where
  "kboot_findBootFileItem bli filename =
     (let fat12FileName = convert_to_f12_filename filename @ [0]
      in do {
        len \<leftarrow> k_strlen fat12FileName;
        k_assert (len = 11);
        findBootFileItem_loop bli fat12FileName (unat (filecount bli)) 0
      })"

lemma length_convert_to_f12_filename [simp]: "length (convert_to_f12_filename fn) = 11"
  using f12_loop_length [of 0 fn] by (auto simp: convert_to_f12_filename_def split: prod.split)

end
