(* ===== verification/Physical_Memory.thy ===== *)
theory Physical_Memory
  imports Bitmap_Store Boot_Info
begin

text \<open>
  The physical memory manager: \<open>src/kernel/pmm.c\<close>, \<open>src/kernel/x86/pmm.c\<close> and
  \<open>include/pmm.h\<close>. Its state is the page allocation bitmap (two bits per page frame) and the cached
  size of the usable memory. \<open>frames\<close> is the abstraction, the list of the frame states.
\<close>

section \<open>Data\<close>

datatype KernelPhysicalMemoryRegions = PMM_REGION_ANY

text \<open>The enumerators of \<open>KernelPhysicalMemoryStates\<close>, as the states of the bitmap.\<close>

abbreviation (input) PMM_STATE_FREE :: BitmapState where "PMM_STATE_FREE \<equiv> 0"
abbreviation (input) PMM_STATE_USED :: BitmapState where "PMM_STATE_USED \<equiv> 1"
abbreviation (input) PMM_STATE_RESERVED :: BitmapState where "PMM_STATE_RESERVED \<equiv> 2"
abbreviation (input) PMM_STATE_INVALID :: BitmapState where "PMM_STATE_INVALID \<equiv> 3"

definition PAB_BITS_PER_STATE :: SIZE where
  "PAB_BITS_PER_STATE = 2"

definition PAB_SIZE_BYTES :: SIZE where
  "PAB_SIZE_BYTES = CONFIG_PAGE_FRAME_SIZE_BYTES * 1"

definition MAX_PAB_ADDRESSABLE_PAGE_COUNT :: UINT where
  "MAX_PAB_ADDRESSABLE_PAGE_COUNT = PAB_SIZE_BYTES * 8 div PAB_BITS_PER_STATE"

definition MAX_PAB_ADDRESSABLE_BYTE_COUNT :: USYSINT where
  "MAX_PAB_ADDRESSABLE_BYTE_COUNT = PAGEFRAMES_TO_BYTES MAX_PAB_ADDRESSABLE_PAGE_COUNT"

text \<open>
  \<open>PhysicalMemoryRegion\<close> without the bytes of its bitmap, which are the array \<open>s_pab\<close>.
  \<open>reg_allow\<close> says whether the callback is installed; \<open>s_verifyChange\<close> is the only one there is.
\<close>

record PhysicalMemoryRegion =
  reg_size :: SIZE
  reg_bitsPerState :: SIZE
  reg_allow :: bool
  reg_start :: Physical
  reg_length :: USYSINT

record pmm_state = kglobals +
  boot :: BootLoaderInfo
  s_pab :: "U8 list"
  s_pmm_completeRegion :: PhysicalMemoryRegion
  regionLength :: int

section \<open>Usable memory\<close>

definition kpmm_arch_getInstalledMemoryByteCount :: "'a pmm_state_scheme \<Rightarrow> U64" where
  "kpmm_arch_getInstalledMemoryByteCount st = kboot_calculateInstalledMemory (boot st)"

fun s_getRegion :: "KernelPhysicalMemoryRegions \<Rightarrow> 'a pmm_state_scheme \<Rightarrow> PhysicalMemoryRegion" where
  "s_getRegion PMM_REGION_ANY st = s_pmm_completeRegion st"

text \<open>
  The result is cached in a static variable, -1 while it is not known. The signed 64 bit arithmetic
  of the code is exact on these operands: both ends fit 32 bits.
\<close>

definition kpmm_getUsableMemorySize ::
  "KernelPhysicalMemoryRegions \<Rightarrow> 'a pmm_state_scheme \<Rightarrow> USYSINT \<times> 'a pmm_state_scheme" where
  "kpmm_getUsableMemorySize reg st =
     (if regionLength st = -1 then
        let installedRamBytes = kpmm_arch_getInstalledMemoryByteCount st;
            region = s_getRegion reg st;
            earliestMemoryEnd =
              uint (min installedRamBytes (ucast (reg_start region + reg_length region)));
            len = earliestMemoryEnd - uint (reg_start region);
            len' = (if len < 0 then 0 else len)
        in (word_of_int len', st\<lparr>regionLength := len'\<rparr>)
      else (word_of_int (regionLength st), st))"

definition kpmm_getUsableMemoryPagesCount ::
  "KernelPhysicalMemoryRegions \<Rightarrow> 'a pmm_state_scheme \<Rightarrow> UINT \<times> 'a pmm_state_scheme" where
  "kpmm_getUsableMemoryPagesCount reg st =
     (let (sz, st') = kpmm_getUsableMemorySize reg st in (BYTES_TO_PAGEFRAMES_FLOOR sz, st'))"

section \<open>The bitmap and its callback\<close>

definition s_verifyChange ::
  "'a pmm_state_scheme \<Rightarrow> UINT \<Rightarrow> BitmapState \<Rightarrow> BitmapState \<Rightarrow> bool option" where
  "s_verifyChange st pageFrame old new =
     (if pageFrame > fst (kpmm_getUsableMemoryPagesCount PMM_REGION_ANY st) then None
      else if old = PMM_STATE_USED \<and> new = PMM_STATE_USED then None
      else if old = PMM_STATE_FREE \<and> new = PMM_STATE_FREE then None
      else if KERNEL_PHASE_CHECK PMM_READY st \<and> old = PMM_STATE_RESERVED then None
      else if old = PMM_STATE_INVALID then None
      else Some True)"

definition s_getBitmapFromRegion ::
  "KernelPhysicalMemoryRegions \<Rightarrow> 'a pmm_state_scheme \<Rightarrow> Bitmap" where
  "s_getBitmapFromRegion reg st =
     (let region = s_getRegion reg st
      in \<lparr>bitmap = s_pab st, size = reg_size region, bitsPerState = reg_bitsPerState region,
          allow = (if reg_allow region then Some (s_verifyChange st) else None)\<rparr>)"

text \<open>\<open>bitmap_setContinous\<close> on the bitmap of the region: the bytes written are \<open>s_pab\<close>.\<close>

definition set_frames ::
  "KernelPhysicalMemoryRegions \<Rightarrow> UINT \<Rightarrow> UINT \<Rightarrow> BitmapState \<Rightarrow> 'a pmm_state_scheme
   \<Rightarrow> (bool \<times> 'a pmm_state_scheme) option" where
  "set_frames reg index len state st = do {
     (success, b) \<leftarrow> bitmap_setContinous (s_getBitmapFromRegion reg st) index len state;
     Some (success, st\<lparr>s_pab := bitmap b\<rparr>)
   }"

section \<open>Initialization\<close>

text \<open>One iteration of the loop of \<open>s_markFreeMemory\<close>.\<close>

definition markFreeItem ::
  "USYSINT \<Rightarrow> BootMemoryMapItem \<Rightarrow> 'a pmm_state_scheme \<Rightarrow> 'a pmm_state_scheme option" where
  "markFreeItem actualAddressableMemorySize memmap st =
     (let startAddress = baseAddr memmap;
          lengthBytes = map_length memmap
      in if map_type memmap \<noteq> MMTYPE_FREE then Some st
         else if lengthBytes = 0 \<or> startAddress \<ge> ucast actualAddressableMemorySize then Some st
         else
           let endAddress = min (ucast (actualAddressableMemorySize - 1))
                                (startAddress + lengthBytes - 1);
               lengthBytes = endAddress - startAddress + 1;
               lengthBytes = max (ucast CONFIG_PAGE_FRAME_SIZE_BYTES) lengthBytes;
               pageFrameCount = BYTES_TO_PAGEFRAMES_FLOOR (ucast lengthBytes);
               startPageFrame = BYTES_TO_PAGEFRAMES_FLOOR (ucast startAddress)
           in do {
             (success, st') \<leftarrow> set_frames PMM_REGION_ANY startPageFrame pageFrameCount
                                 PMM_STATE_FREE st;
             if success then Some st' else None
           })"

fun markFree_loop ::
  "USYSINT \<Rightarrow> nat \<Rightarrow> int \<Rightarrow> 'a pmm_state_scheme \<Rightarrow> 'a pmm_state_scheme option" where
  "markFree_loop actual 0 i st = Some st"
| "markFree_loop actual (Suc n) i st = do {
     memmap \<leftarrow> kboot_getBootMemoryMapItem (boot st) i;
     st' \<leftarrow> markFreeItem actual memmap st;
     markFree_loop actual n (i + 1) st'
   }"

definition s_markFreeMemory :: "'a pmm_state_scheme \<Rightarrow> 'a pmm_state_scheme option" where
  "s_markFreeMemory st =
     (let mmapCount = kboot_getBootMemoryMapItemCount (boot st);
          (actual, st') = kpmm_getUsableMemorySize PMM_REGION_ANY st
      in markFree_loop actual (unat mmapCount) 0 st')"

definition kpmm_arch_init :: "'a pmm_state_scheme \<Rightarrow> 'a pmm_state_scheme option" where
  "kpmm_arch_init st = s_markFreeMemory (st\<lparr>s_pab := replicate (unat PAB_SIZE_BYTES) 0xAA\<rparr>)"

definition kpmm_init :: "'a pmm_state_scheme \<Rightarrow> 'a pmm_state_scheme option" where
  "kpmm_init st =
     (let st1 = st\<lparr>s_pmm_completeRegion :=
            \<lparr>reg_size = PAB_SIZE_BYTES, reg_bitsPerState = PAB_BITS_PER_STATE, reg_allow = True,
             reg_start = 0, reg_length = MAX_PAB_ADDRESSABLE_BYTE_COUNT\<rparr>\<rparr>
      in do {
        st2 \<leftarrow> kpmm_arch_init st1;
        KERNEL_PHASE_SET PMM_READY st2
      })"

section \<open>Allocation\<close>

definition kpmm_free ::
  "Physical \<Rightarrow> UINT \<Rightarrow> 'a pmm_state_scheme \<Rightarrow> (bool \<times> 'a pmm_state_scheme) option" where
  "kpmm_free startAddress pageCount st = do {
     KERNEL_PHASE_VALIDATE PMM_READY st;
     if pageCount = 0 then RETURN_ERROR ERR_INVALID_ARGUMENT False st
     else
       let allocation_end_byte = startAddress + pageCount * CONFIG_PAGE_FRAME_SIZE_BYTES - 1;
           (usable, st) = kpmm_getUsableMemorySize PMM_REGION_ANY st
       in if allocation_end_byte \<ge> usable then RETURN_ERROR ERR_OUTSIDE_ADDRESSABLE_RANGE False st
          else if \<not> IS_ALIGNED startAddress CONFIG_PAGE_FRAME_SIZE_BYTES
          then RETURN_ERROR ERR_WRONG_ALIGNMENT False st
          else set_frames PMM_REGION_ANY (BYTES_TO_PAGEFRAMES_FLOOR startAddress) pageCount
                 PMM_STATE_FREE st
   }"

definition kpmm_allocAt ::
  "Physical \<Rightarrow> UINT \<Rightarrow> KernelPhysicalMemoryRegions \<Rightarrow> 'a pmm_state_scheme
   \<Rightarrow> (bool \<times> 'a pmm_state_scheme) option" where
  "kpmm_allocAt start pageCount reg st = do {
     KERNEL_PHASE_VALIDATE PMM_READY st;
     if pageCount = 0 then RETURN_ERROR ERR_INVALID_ARGUMENT False st
     else
       let allocation_end_byte = start + pageCount * CONFIG_PAGE_FRAME_SIZE_BYTES - 1;
           (usable, st) = kpmm_getUsableMemorySize reg st
       in if allocation_end_byte \<ge> usable then RETURN_ERROR ERR_OUTSIDE_ADDRESSABLE_RANGE False st
          else if \<not> IS_ALIGNED start CONFIG_PAGE_FRAME_SIZE_BYTES
          then RETURN_ERROR ERR_WRONG_ALIGNMENT False st
          else
            let startPageFrame = BYTES_TO_PAGEFRAMES_FLOOR start
            in do {
              found \<leftarrow> bitmap_findContinousAt (s_getBitmapFromRegion reg st) PMM_STATE_FREE
                         pageCount startPageFrame;
              if \<not> found then RETURN_ERROR ERR_DOUBLE_ALLOC False st
              else set_frames reg startPageFrame pageCount PMM_STATE_USED st
            }
   }"

text \<open>
  \<open>kpmm_alloc\<close> stores the address through a pointer and returns true, or returns false: the result
  is \<open>Some address\<close> or \<open>None\<close>.
\<close>

definition kpmm_alloc ::
  "UINT \<Rightarrow> KernelPhysicalMemoryRegions \<Rightarrow> 'a pmm_state_scheme
   \<Rightarrow> (Physical option \<times> 'a pmm_state_scheme) option" where
  "kpmm_alloc pageCount reg st = do {
     KERNEL_PHASE_VALIDATE PMM_READY st;
     if pageCount = 0 then RETURN_ERROR ERR_INVALID_ARGUMENT None st
     else do {
       pageFrame \<leftarrow> bitmap_findContinous (s_getBitmapFromRegion reg st) PMM_STATE_FREE pageCount;
       if pageFrame = KERNEL_EXIT_FAILURE then RETURN_ERROR ERR_OUT_OF_MEM None st
       else
         let (usablePages, st) = kpmm_getUsableMemoryPagesCount reg st
         in do {
           k_assert (pageFrame < usablePages);
           (success, st') \<leftarrow> set_frames reg pageFrame pageCount PMM_STATE_USED st;
           k_assert success;
           let address = PAGEFRAMES_TO_BYTES pageFrame
           in do {
             k_assert (IS_ALIGNED address CONFIG_PAGE_FRAME_SIZE_BYTES);
             Some (Some address, st')
           }
         }
     }
   }"

fun count_free :: "Bitmap \<Rightarrow> nat \<Rightarrow> UINT \<Rightarrow> UINT \<Rightarrow> UINT option" where
  "count_free b 0 frame freePages = Some freePages"
| "count_free b (Suc n) frame freePages = do {
     state \<leftarrow> bitmap_get b frame;
     count_free b n (frame + 1) (if state = PMM_STATE_FREE then freePages + 1 else freePages)
   }"

definition kpmm_getFreeMemorySize ::
  "'a pmm_state_scheme \<Rightarrow> (SIZE \<times> 'a pmm_state_scheme) option" where
  "kpmm_getFreeMemorySize st = do {
     KERNEL_PHASE_VALIDATE PMM_READY st;
     let (usablePageCount, st) = kpmm_getUsableMemoryPagesCount PMM_REGION_ANY st
     in do {
       freePages \<leftarrow> count_free (s_getBitmapFromRegion PMM_REGION_ANY st)
                      (unat usablePageCount - 1) 1 0;
       k_assert (freePages \<le> usablePageCount);
       Some (PAGEFRAMES_TO_BYTES freePages, st)
     }
   }"

definition kpmm_getPageStatus ::
  "Physical \<Rightarrow> 'a pmm_state_scheme \<Rightarrow> (BitmapState \<times> 'a pmm_state_scheme) option" where
  "kpmm_getPageStatus phy st = do {
     KERNEL_PHASE_VALIDATE PMM_READY st;
     if \<not> IS_ALIGNED phy CONFIG_PAGE_FRAME_SIZE_BYTES
     then RETURN_ERROR ERR_WRONG_ALIGNMENT PMM_STATE_INVALID st
     else do {
       state \<leftarrow> bitmap_get (s_getBitmapFromRegion PMM_REGION_ANY st)
                  (BYTES_TO_PAGEFRAMES_FLOOR phy);
       Some (state, st)
     }
   }"


section \<open>Abstraction and invariant\<close>

definition frames :: "'a pmm_state_scheme \<Rightarrow> BitmapState list" where
  "frames st = bitmap_states (s_getBitmapFromRegion PMM_REGION_ANY st)"

definition usable_pages :: "'a pmm_state_scheme \<Rightarrow> nat" where
  "usable_pages st = nat (regionLength st) div 4096"

text \<open>
  The shape of the state once \<open>kpmm_init\<close> has filled in the region and the usable size is cached.
  The size of the bitmap is left open (the kernel's has 4096 bytes, for 64 MB).
\<close>

definition pmm_wf :: "'a pmm_state_scheme \<Rightarrow> bool" where
  "pmm_wf st \<longleftrightarrow> (let r = s_pmm_completeRegion st in
     reg_bitsPerState r = 2 \<and> reg_allow r \<and> reg_start r = 0
     \<and> length (s_pab st) = unat (reg_size r)
     \<and> unat (reg_length r) = unat (reg_size r) * 16384
     \<and> 0 \<le> regionLength st \<and> nat (regionLength st) \<le> unat (reg_length r))"

text \<open>
  The invariant of the initialized manager: a frame that is free or in use lies inside the usable
  memory.
\<close>

definition pmm_inv :: "'a pmm_state_scheme \<Rightarrow> bool" where
  "pmm_inv st \<longleftrightarrow> pmm_wf st \<and> PMM_READY \<le> phase st
     \<and> (\<forall>i < length (frames st). frames st ! i = PMM_STATE_FREE \<or> frames st ! i = PMM_STATE_USED
          \<longrightarrow> i < usable_pages st)"

lemma pmm_wf_size:
  assumes "pmm_wf st"
  shows "unat (reg_size (s_pmm_completeRegion st)) * 16384 < 4294967296"
  using assms unat_less_2p32 [of "reg_length (s_pmm_completeRegion st)"]
  by (simp add: pmm_wf_def Let_def)

lemma pmm_wf_bitmap:
  assumes "pmm_wf st"
  shows "bitmap_wf (s_getBitmapFromRegion PMM_REGION_ANY st)"
    and "bps (s_getBitmapFromRegion PMM_REGION_ANY st) = 2"
  using assms pmm_wf_size [OF assms]
  by (simp_all add: pmm_wf_def bitmap_wf_def s_getBitmapFromRegion_def Let_def bps_def)

lemma length_frames: "pmm_wf st \<Longrightarrow> length (frames st) = 4 * length (s_pab st)"
  by (simp add: frames_def capacity_def pmm_wf_bitmap) (simp add: s_getBitmapFromRegion_def Let_def)

lemma kpmm_getUsableMemorySize_cached:
  "pmm_wf st \<Longrightarrow> kpmm_getUsableMemorySize reg st = (word_of_int (regionLength st), st)"
  by (simp add: kpmm_getUsableMemorySize_def pmm_wf_def Let_def)

lemma regionLength_bound:
  assumes "pmm_wf st"
  shows "0 \<le> regionLength st" "nat (regionLength st) < 4294967296"
    "nat (regionLength st) \<le> length (frames st) * 4096"
  using assms pmm_wf_size [OF assms] by (auto simp: pmm_wf_def Let_def length_frames [OF assms])

lemma unat_usable:
  assumes "pmm_wf st"
  shows "unat (word_of_int (regionLength st) :: USYSINT) = nat (regionLength st)"
  using regionLength_bound [OF assms]
  by (simp add: unat_eq_nat_uint uint_word_of_int take_bit_int_eq_self)

lemma kpmm_getUsableMemoryPagesCount_cached:
  assumes "pmm_wf st"
  shows "kpmm_getUsableMemoryPagesCount reg st = (of_nat (usable_pages st), st)"
proof -
  have "unat (BYTES_TO_PAGEFRAMES_FLOOR (word_of_int (regionLength st))) = usable_pages st"
    by (simp add: unat_kdefs unat_usable [OF assms] usable_pages_def)
  from arg_cong [OF this, of "of_nat :: nat \<Rightarrow> UINT"] show ?thesis
    by (simp add: kpmm_getUsableMemoryPagesCount_def kpmm_getUsableMemorySize_cached [OF assms])
qed

lemma usable_pages_bound:
  assumes "pmm_wf st"
  shows "usable_pages st \<le> length (frames st)" "length (frames st) < 1048576"
    "unat (of_nat (usable_pages st) :: UINT) = usable_pages st"
proof -
  show 1: "usable_pages st \<le> length (frames st)"
    using regionLength_bound(3) [OF assms] by (simp add: usable_pages_def)
  show 2: "length (frames st) < 1048576"
    using assms pmm_wf_size [OF assms] by (simp add: length_frames) (simp add: pmm_wf_def Let_def)
  from 1 2 show "unat (of_nat (usable_pages st) :: UINT) = usable_pages st"
    by (simp add: unat_of_nat_word32)
qed

lemma s_verifyChange_eq:
  assumes "pmm_wf st"
  shows "s_verifyChange st pf old new = Some True \<longleftrightarrow>
    unat pf \<le> usable_pages st \<and> \<not> (old = PMM_STATE_USED \<and> new = PMM_STATE_USED)
    \<and> \<not> (old = PMM_STATE_FREE \<and> new = PMM_STATE_FREE)
    \<and> \<not> (PMM_READY \<le> phase st \<and> old = PMM_STATE_RESERVED) \<and> old \<noteq> PMM_STATE_INVALID"
  by (auto simp: s_verifyChange_def kpmm_getUsableMemoryPagesCount_cached [OF assms]
      KERNEL_PHASE_CHECK_def word_less_nat_alt usable_pages_bound(3) [OF assms])

lemma bitmap_states_cong:
  "bitmap b = bitmap b' \<Longrightarrow> bitsPerState b = bitsPerState b' \<Longrightarrow> bitmap_states b = bitmap_states b'"
  by (simp add: bitmap_states_def capacity_def state_at_def bps_def)

lemma set_frames_spec:
  assumes wf: "pmm_wf st" and s: "unat s < 4" and n: "0 < n"
    and fits: "unat i + unat n \<le> length (frames st)"
    and ok: "\<forall>k < unat n. s_verifyChange st (i + of_nat k) (frames st ! (unat i + k)) s = Some True"
  shows "\<exists>st'. set_frames PMM_REGION_ANY i n s st = Some (True, st') \<and> pmm_wf st'
    \<and> frames st' = set_run (frames st) (unat i) (unat n) s \<and> st' = st\<lparr>s_pab := s_pab st'\<rparr>"
proof -
  let ?b = "s_getBitmapFromRegion PMM_REGION_ANY st"
  have al: "allow ?b = Some (s_verifyChange st)"
    using wf by (simp add: s_getBitmapFromRegion_def pmm_wf_def Let_def)
  obtain b' where b': "bitmap_setContinous ?b i n s = Some (True, b')" "bitmap_wf b'"
      "bitmap_same ?b b'" "bitmap_states b' = set_run (bitmap_states ?b) (unat i) (unat n) s"
    using bm.store_spec [OF pmm_wf_bitmap(1) [OF wf], of s n i] s n fits ok pmm_wf_bitmap(2) [OF wf]
    by (auto simp: bitmap_allowed_def al frames_def)
  let ?st' = "st\<lparr>s_pab := bitmap b'\<rparr>"
  have "bitsPerState b' = bitsPerState ?b" "Bitmap.size b' = Bitmap.size ?b"
    using b'(3) unfolding bitmap_same_def by (metis Bitmap.select_convs Bitmap.surjective Bitmap.update_convs(1))+
  then have "frames ?st' = bitmap_states b'" "length (bitmap b') = length (s_pab st)"
    using b'(2) wf by (auto intro!: bitmap_states_cong
        simp: frames_def s_getBitmapFromRegion_def Let_def bitmap_wf_def pmm_wf_def)
  then show ?thesis
    using b'(1,4) wf by (auto simp: set_frames_def frames_def pmm_wf_def Let_def)
qed


section \<open>The operations on the list of frame states\<close>

lemma pmm_invD:
  assumes "pmm_inv st"
  shows "pmm_wf st" "PMM_READY \<le> phase st"
    "\<And>i. i < length (frames st) \<Longrightarrow> frames st ! i = PMM_STATE_FREE \<Longrightarrow> i < usable_pages st"
    "\<And>i. i < length (frames st) \<Longrightarrow> frames st ! i = PMM_STATE_USED \<Longrightarrow> i < usable_pages st"
  using assms by (auto simp: pmm_inv_def)

lemma frames_error [simp]: "frames (st\<lparr>errorNumber := e\<rparr>) = frames st"
  unfolding frames_def by (rule bitmap_states_cong) (simp_all add: s_getBitmapFromRegion_def Let_def)

lemma usable_pages_error [simp]: "usable_pages (st\<lparr>errorNumber := e\<rparr>) = usable_pages st"
  by (simp add: usable_pages_def)

lemma pmm_inv_error [simp]: "pmm_inv (st\<lparr>errorNumber := e\<rparr>) \<longleftrightarrow> pmm_inv st"
  by (simp add: pmm_inv_def pmm_wf_def)

lemma usable_pages_pab [simp]: "usable_pages (st\<lparr>s_pab := xs\<rparr>) = usable_pages st"
  by (simp add: usable_pages_def)

text \<open>
  Changing a run of frames that are all free or all in use to the other of the two states succeeds
  and keeps the invariant: the only transitions of the initialized manager.
\<close>

lemma set_frames_flip:
  assumes inv: "pmm_inv st" and n: "0 < n" and run: "run_at (frames st) s (unat i) (unat n)"
    and st: "s = PMM_STATE_FREE \<and> t = PMM_STATE_USED \<or> s = PMM_STATE_USED \<and> t = PMM_STATE_FREE"
  shows "\<exists>st'. set_frames PMM_REGION_ANY i n t st = Some (True, st') \<and> pmm_inv st'
    \<and> frames st' = set_run (frames st) (unat i) (unat n) t \<and> st' = st\<lparr>s_pab := s_pab st'\<rparr>"
proof -
  note D = pmm_invD [OF inv]
  have inside: "unat i + k < usable_pages st" if "k < unat n" for k
    using that run st D(3,4) [of "unat i + k"] by (auto simp: run_at_def)
  have ok: "\<forall>k < unat n. s_verifyChange st (i + of_nat k) (frames st ! (unat i + k)) t = Some True"
  proof (intro allI impI)
    fix k assume k: "k < unat n"
    have "unat (i + of_nat k) = unat i + k"
      using inside [OF k] usable_pages_bound(1,2) [OF D(1)] by (simp add: unat_add_word32 unat_of_nat_word32)
    then show "s_verifyChange st (i + of_nat k) (frames st ! (unat i + k)) t = Some True"
      using inside [OF k] run k st by (auto simp: s_verifyChange_eq [OF D(1)] run_at_def)
  qed
  have "unat t < 4" "unat i + unat n \<le> length (frames st)"
    using st run by (auto simp: run_at_def)
  from set_frames_spec [OF D(1) this(1) n this(2) ok]
  obtain st' where st': "set_frames PMM_REGION_ANY i n t st = Some (True, st')" "pmm_wf st'"
      "frames st' = set_run (frames st) (unat i) (unat n) t" "st' = st\<lparr>s_pab := s_pab st'\<rparr>"
    by blast
  have up: "usable_pages st' = usable_pages st" "phase st' = phase st"
    by (subst st'(4), simp)+
  have "j < usable_pages st" if "unat i \<le> j" "j < unat i + unat n" for j
    using inside [of "j - unat i"] that by simp
  then have "pmm_inv st'"
    unfolding pmm_inv_def using st'(2,3) D(2-4) by (auto simp: up nth_set_run)
  with st' show ?thesis
    by blast
qed

text \<open>The three outcomes of \<open>kpmm_alloc\<close>.\<close>

lemma kpmm_alloc_cases:
  assumes inv: "pmm_inv st" and n: "0 < n" "unat n < 2 ^ 31"
  obtains
    (out_of_mem) "kpmm_alloc n reg st = Some (None, st\<lparr>errorNumber := ERR_OUT_OF_MEM\<rparr>)"
      "\<forall>k. \<not> run_at (frames st) PMM_STATE_FREE k (unat n)"
  | (allocated) f st' where "kpmm_alloc n reg st = Some (Some (PAGEFRAMES_TO_BYTES f), st')"
      "run_at (frames st) PMM_STATE_FREE (unat f) (unat n)"
      "\<forall>k < unat f. \<not> run_at (frames st) PMM_STATE_FREE k (unat n)"
      "unat f < usable_pages st" "pmm_inv st'"
      "frames st' = set_run (frames st) (unat f) (unat n) PMM_STATE_USED"
      "st' = st\<lparr>s_pab := s_pab st'\<rparr>"
proof -
  note D = pmm_invD [OF inv]
  have reg: "reg = PMM_REGION_ANY"
    by (cases reg) simp
  let ?b = "s_getBitmapFromRegion PMM_REGION_ANY st"
  have v: "unat PMM_STATE_FREE < 2 ^ bps ?b"
    by simp
  note wf = pmm_wf_bitmap(1) [OF D(1)]
  obtain f where f: "bitmap_findContinous ?b PMM_STATE_FREE n = Some f"
    using bm.find_first_spec [OF wf v n] by blast
  show thesis
  proof (cases "f = KERNEL_EXIT_FAILURE")
    case True
    with f have "\<forall>k. \<not> run_at (frames st) PMM_STATE_FREE k (unat n)"
      using bm.find_first_failure [OF wf v n] by (simp add: frames_def)
    moreover have "kpmm_alloc n reg st = Some (None, st\<lparr>errorNumber := ERR_OUT_OF_MEM\<rparr>)"
      using True f n D(2) by (simp add: kpmm_alloc_def reg RETURN_ERROR_def)
    ultimately show thesis
      by (rule out_of_mem [rotated])
  next
    case False
    then have run: "run_at (frames st) PMM_STATE_FREE (unat f) (unat n)"
      and least: "\<forall>k < unat f. \<not> run_at (frames st) PMM_STATE_FREE k (unat n)"
      using bm.find_first_Some [OF wf v n f] by (simp_all add: frames_def)
    have "0 < unat n"
      using n by (simp add: word_less_nat_alt)
    then have less: "unat f < usable_pages st"
      using run D(3) [of "unat f"] by (auto simp: run_at_def)
    obtain st' where st': "set_frames PMM_REGION_ANY f n PMM_STATE_USED st = Some (True, st')"
        "pmm_inv st'" "frames st' = set_run (frames st) (unat f) (unat n) PMM_STATE_USED"
        "st' = st\<lparr>s_pab := s_pab st'\<rparr>"
      using set_frames_flip [OF inv n(1) run] by blast
    have "f < of_nat (usable_pages st)"
      using less usable_pages_bound [OF D(1)] by (simp add: word_less_nat_alt)
    then have "kpmm_alloc n reg st = Some (Some (PAGEFRAMES_TO_BYTES f), st')"
      using False f n D(2) st'(1)
      by (auto simp: kpmm_alloc_def reg kpmm_getUsableMemoryPagesCount_cached [OF D(1)] kdefs)
    then show thesis
      using allocated run least less st'(2-4) by blast
  qed
qed


text \<open>
  The range check of \<open>kpmm_free\<close> and \<open>kpmm_allocAt\<close>, for requests whose last byte address does
  not wrap around.
\<close>

lemma range_check:
  assumes wf: "pmm_wf st" and n: "0 < n" and nowrap: "unat a + unat n * 4096 \<le> 2 ^ 32"
  shows "(a + n * CONFIG_PAGE_FRAME_SIZE_BYTES - 1 \<ge> word_of_int (regionLength st)) \<longleftrightarrow>
    nat (regionLength st) < unat a + unat n * 4096"
proof -
  have n0: "0 < unat n"
    using n by (simp add: word_less_nat_alt)
  have "a + n * CONFIG_PAGE_FRAME_SIZE_BYTES - 1 = of_nat (unat a + unat n * 4096 - 1)"
    using n0 by (simp add: of_nat_diff kdefs)
  then have "unat (a + n * CONFIG_PAGE_FRAME_SIZE_BYTES - 1) = unat a + unat n * 4096 - 1"
    by (simp only:) (rule unat_of_nat_word32, use nowrap n0 in simp)
  then show ?thesis
    using n0 by (auto simp: word_le_nat_alt unat_usable [OF wf])
qed


lemma kpmm_free_cases:
  assumes inv: "pmm_inv st" and n: "0 < n" and nowrap: "unat a + unat n * 4096 \<le> 2 ^ 32"
  shows "kpmm_free a n st =
    (if nat (regionLength st) < unat a + unat n * 4096
     then Some (False, st\<lparr>errorNumber := ERR_OUTSIDE_ADDRESSABLE_RANGE\<rparr>)
     else if unat a mod 4096 \<noteq> 0 then Some (False, st\<lparr>errorNumber := ERR_WRONG_ALIGNMENT\<rparr>)
     else set_frames PMM_REGION_ANY (of_nat (unat a div 4096)) n PMM_STATE_FREE st)"
proof -
  note D = pmm_invD [OF inv]
  have "BYTES_TO_PAGEFRAMES_FLOOR a = of_nat (unat a div 4096)"
    by (rule word_unat_eq_iff [THEN iffD2]) (simp add: unat_kdefs unat_of_nat_word32 less_imp_le
        le_less_trans [OF div_le_dividend])
  then show ?thesis
    using n D(2) range_check [OF D(1) n nowrap]
    by (auto simp: kpmm_free_def kpmm_getUsableMemorySize_cached [OF D(1)] RETURN_ERROR_def
        unat_kdefs CONFIG_PAGE_FRAME_SIZE_BYTES_def)
qed

lemma kpmm_allocAt_cases:
  assumes inv: "pmm_inv st" and n: "0 < n" and nowrap: "unat a + unat n * 4096 \<le> 2 ^ 32"
  shows "kpmm_allocAt a n reg st =
    (if nat (regionLength st) < unat a + unat n * 4096
     then Some (False, st\<lparr>errorNumber := ERR_OUTSIDE_ADDRESSABLE_RANGE\<rparr>)
     else if unat a mod 4096 \<noteq> 0 then Some (False, st\<lparr>errorNumber := ERR_WRONG_ALIGNMENT\<rparr>)
     else if \<not> run_at (frames st) PMM_STATE_FREE (unat a div 4096) (unat n)
     then Some (False, st\<lparr>errorNumber := ERR_DOUBLE_ALLOC\<rparr>)
     else set_frames PMM_REGION_ANY (of_nat (unat a div 4096)) n PMM_STATE_USED st)"
proof -
  note D = pmm_invD [OF inv]
  have reg: "reg = PMM_REGION_ANY"
    by (cases reg) simp
  have u: "unat (of_nat (unat a div 4096) :: UINT) = unat a div 4096"
    by (simp add: unat_of_nat_word32 le_less_trans [OF div_le_dividend])
  then have f: "BYTES_TO_PAGEFRAMES_FLOOR a = of_nat (unat a div 4096)"
    by (simp add: word_unat_eq_iff unat_kdefs)
  have small: "unat (of_nat (unat a div 4096) :: UINT) + unat n < 2 ^ 32"
    using nowrap n u by (simp add: word_less_nat_alt)
  have "bitmap_findContinousAt (s_getBitmapFromRegion PMM_REGION_ANY st) PMM_STATE_FREE n
      (of_nat (unat a div 4096)) = Some (run_at (frames st) PMM_STATE_FREE (unat a div 4096) (unat n))"
    using bm.find_at_spec [OF pmm_wf_bitmap(1) [OF D(1)] _ n small] by (simp add: u frames_def)
  then show ?thesis
    using n D(2) range_check [OF D(1) n nowrap]
    by (auto simp: kpmm_allocAt_def kpmm_getUsableMemorySize_cached [OF D(1)] RETURN_ERROR_def f reg
        unat_kdefs CONFIG_PAGE_FRAME_SIZE_BYTES_def)
qed


section \<open>Properties of the initialized manager\<close>

text \<open>
  A small manager for the examples: a bitmap of the given bytes, all of whose frames are usable.
\<close>

definition sample_boot :: BootLoaderInfo where
  "sample_boot = \<lparr>font_data = [], gxInfo = \<lparr>xResolution = 0, yResolution = 0, bitsPerPixel = 0,
     graphicsMode = 0, vbeVersion = 0, framebufferPhysicalPtr = 0, bytesPerScanLine = 0\<rparr>,
     filecount = 0, files = [], count = 0, items = []\<rparr>"

definition sample_pmm :: "U8 list \<Rightarrow> pmm_state" where
  "sample_pmm bytes = \<lparr>graphics_enabled = False, phase = KERNEL_READY, errorNumber = ERR_NONE,
     boot = sample_boot, s_pab = bytes,
     s_pmm_completeRegion = \<lparr>reg_size = of_nat (length bytes), reg_bitsPerState = 2,
       reg_allow = True, reg_start = 0, reg_length = of_nat (length bytes) * 16384\<rparr>,
     regionLength = int (length bytes) * 16384\<rparr>"

lemma usable_pages_sample [simp]: "usable_pages (sample_pmm bytes) = 4 * length bytes"
  by (simp add: usable_pages_def sample_pmm_def nat_mult_distrib)

lemma sample_pmm_inv:
  assumes "length bytes < 2 ^ 16"
  shows "pmm_inv (sample_pmm bytes)"
proof -
  have wf: "pmm_wf (sample_pmm bytes)"
    using assms by (simp add: pmm_wf_def sample_pmm_def unat_of_nat_word32 unat_word_ariths)
  then show ?thesis
    using length_frames [OF wf] by (simp add: pmm_inv_def) (simp add: sample_pmm_def)
qed

lemma frames_sample_1:
  "frames (sample_pmm [b]) = map (\<lambda>i. take_bit 2 (drop_bit (2 * i) b)) [0, 1, 2, 3]"
  by (simp add: frames_def bitmap_states_def capacity_def state_at_def s_getBitmapFromRegion_def
      sample_pmm_def bps_def upt_rec)

text \<open>
  C3. \<open>kpmm_alloc\<close> is a first fit allocator and never panics: from a state that satisfies the
  invariant it returns; it returns false exactly when no run of \<open>n\<close> free frames exists, with error
  \<open>ERR_OUT_OF_MEM\<close> and nothing else changed; otherwise the address is page aligned, its frame is the
  lowest that starts a run of \<open>n\<close> free frames, exactly those frames become used, nothing but the
  bitmap changes, and the invariant holds again.
\<close>

theorem kpmm_alloc_first_fit:
  assumes "pmm_inv st" "0 < n" "unat n < 2 ^ 31"
  shows "\<exists>r st'. kpmm_alloc n reg st = Some (r, st') \<and> pmm_inv st' \<and>
    (case r of
       None \<Rightarrow> (\<forall>k. \<not> run_at (frames st) PMM_STATE_FREE k (unat n))
         \<and> st' = st\<lparr>errorNumber := ERR_OUT_OF_MEM\<rparr>
     | Some a \<Rightarrow> unat a mod 4096 = 0
         \<and> run_at (frames st) PMM_STATE_FREE (unat a div 4096) (unat n)
         \<and> (\<forall>k < unat a div 4096. \<not> run_at (frames st) PMM_STATE_FREE k (unat n))
         \<and> frames st' = set_run (frames st) (unat a div 4096) (unat n) PMM_STATE_USED
         \<and> st' = st\<lparr>s_pab := s_pab st'\<rparr>)"
  using assms
proof (cases rule: kpmm_alloc_cases [where reg = reg])
  case out_of_mem
  with assms(1) show ?thesis by simp
next
  case (allocated f st')
  have "unat (PAGEFRAMES_TO_BYTES f) = unat f * 4096"
    using allocated(4) usable_pages_bound [OF pmm_invD(1) [OF assms(1)]]
    by (simp add: unat_PAGEFRAMES_TO_BYTES)
  with allocated show ?thesis by auto
qed

theorem kpmm_alloc_first_fit_witness:
  "\<exists>st'. kpmm_alloc 2 PMM_REGION_ANY (sample_pmm [1]) = Some (Some 4096, st')
    \<and> frames st' = [1, 1, 1, 0]"
proof -
  have fr: "frames (sample_pmm [1]) = [1, 0, 0, 0]"
    by (simp add: frames_sample_1)
  have run: "run_at [1, 0, 0, 0 :: U8] 0 k 2 \<longleftrightarrow> k = 1 \<or> k = 2" for k
    by (auto simp: run_at_def numeral_2_eq_2 All_less_Suc2 le_Suc_eq nth_Cons split: nat.splits)
  note fit = kpmm_alloc_first_fit [OF sample_pmm_inv, of "[1]" 2 PMM_REGION_ANY]
  obtain r st' where alloc: "kpmm_alloc 2 PMM_REGION_ANY (sample_pmm [1]) = Some (r, st')"
    and r: "\<And>a. r = Some a \<Longrightarrow> unat a mod 4096 = 0 \<and> run_at [1, 0, 0, 0 :: U8] 0 (unat a div 4096) 2
      \<and> (\<forall>k < unat a div 4096. \<not> run_at [1, 0, 0, 0 :: U8] 0 k 2)
      \<and> frames st' = set_run [1, 0, 0, 0] (unat a div 4096) 2 1" "r \<noteq> None"
    using fit by (fastforce simp: fr run split: option.splits)
  obtain a where a: "r = Some a" "unat a mod 4096 = 0" "unat a div 4096 = 1"
      "frames st' = set_run [1, 0, 0, 0] 1 2 1"
    using r by (cases r) (auto simp: run dest!: spec [of _ 1])
  then have "unat a = unat (4096 :: UINT)"
    using div_mult_mod_eq [of "unat a" 4096] by simp
  then have "a = 4096"
    by (simp only: word_unat_eq_iff)
  with alloc a show ?thesis
    by (simp add: numeral_2_eq_2)
qed

text \<open>
  What \<open>kpmm_alloc\<close> gives, \<open>kpmm_free\<close> takes back: freeing the same address and page count
  right after the allocation succeeds and restores the state of every frame.
\<close>

theorem kpmm_alloc_free_roundtrip:
  assumes "pmm_inv st" "0 < n" "unat n < 2 ^ 31" and "kpmm_alloc n reg st = Some (Some a, st1)"
  shows "\<exists>st2. kpmm_free a n st1 = Some (True, st2) \<and> pmm_inv st2 \<and> frames st2 = frames st"
  using assms(1-3)
proof (cases rule: kpmm_alloc_cases [where reg = reg])
  case out_of_mem
  with assms(4) show ?thesis by simp
next
  case (allocated f st')
  note wf = pmm_invD(1) [OF assms(1)]
  have st1: "st1 = st'" "a = PAGEFRAMES_TO_BYTES f"
    using allocated(1) assms(4) by simp_all
  have len: "length (frames st') = length (frames st)"
    using allocated(6) by simp
  have ua: "unat a = unat f * 4096"
    using allocated(4) usable_pages_bound [OF wf] st1 by (simp add: unat_PAGEFRAMES_TO_BYTES)
  have run: "run_at (frames st') PMM_STATE_USED (unat f) (unat n)"
    using allocated(2,6) by (auto simp: run_at_def nth_set_run)
  have n0: "0 < unat n"
    using assms(2) by (simp add: word_less_nat_alt)
  then have "frames st ! (unat f + (unat n - 1)) = PMM_STATE_FREE"
    using allocated(2) by (simp only: run_at_def)
  then have "unat f + unat n - 1 < usable_pages st"
    using allocated(2) pmm_invD(3) [OF assms(1), of "unat f + (unat n - 1)"] n0
    by (auto simp: run_at_def)
  then have top: "(unat f + unat n) * 4096 \<le> nat (regionLength st)"
    by (simp add: usable_pages_def)
  have rl: "regionLength st' = regionLength st"
    by (subst allocated(7)) simp
  have "unat a + unat n * 4096 \<le> 2 ^ 32"
    using top regionLength_bound(2) [OF wf] ua by simp
  from kpmm_free_cases [OF allocated(5) assms(2) this]
  have "kpmm_free a n st1 = set_frames PMM_REGION_ANY f n PMM_STATE_FREE st'"
    using top ua st1 rl by (simp add: algebra_simps)
  moreover obtain st2 where "set_frames PMM_REGION_ANY f n PMM_STATE_FREE st' = Some (True, st2)"
      "pmm_inv st2" "frames st2 = set_run (frames st') (unat f) (unat n) PMM_STATE_FREE"
    using set_frames_flip [OF allocated(5) assms(2) run] by blast
  moreover have "set_run (frames st') (unat f) (unat n) PMM_STATE_FREE = frames st"
    by (rule nth_equalityI) (use allocated(2,6) in \<open>auto simp: nth_set_run run_at_nth\<close>)
  ultimately show ?thesis
    by auto
qed

theorem kpmm_alloc_free_roundtrip_witness:
  "\<exists>st1 st2. kpmm_alloc 2 PMM_REGION_ANY (sample_pmm [1]) = Some (Some 4096, st1)
    \<and> kpmm_free 4096 2 st1 = Some (True, st2) \<and> frames st2 = [1, 0, 0, 0]"
proof -
  have "kpmm_alloc 2 PMM_REGION_ANY (sample_pmm [1]) = Some (Some 4096, sample_pmm [0x15])"
    by code_simp
  moreover from kpmm_alloc_free_roundtrip [OF sample_pmm_inv _ _ this]
  obtain st2 where "kpmm_free 4096 2 (sample_pmm [0x15]) = Some (True, st2)"
      "frames st2 = frames (sample_pmm [1])"
    by auto
  ultimately show ?thesis
    by (simp add: frames_sample_1)
qed

end
