(* ===== verification/Static_Alloc.thy ===== *)
theory Static_Alloc
  imports Physical_Memory Kstdlib
begin

text \<open>
  Permanent allocations of kernel memory: \<open>src/kernel/salloc.c\<close>. The state is the pointer to the
  next free byte; \<open>kmem\<close> is the byte addressed virtual memory of the kernel, which \<open>kscalloc\<close> clears
  and the handle table lives in.
\<close>

section \<open>Operations\<close>

record salloc_state = pmm_state +
  kmem :: memory
  s_next :: PTR
  s_start :: PTR

definition ARCH_MEM_START_SALLOC :: PTR where
  "ARCH_MEM_START_SALLOC = 0xC0026000"

definition ARCH_MEM_LEN_BYTES_SALLOC :: UINT where
  "ARCH_MEM_LEN_BYTES_SALLOC = 128 * 1024"

definition SALLOC_GRANUALITY :: UINT where
  "SALLOC_GRANUALITY = 8"

definition SPACE_USED :: "'a salloc_state_scheme \<Rightarrow> UINT" where
  "SPACE_USED st = s_next st - s_start st"

definition IS_SPACE_AVAILABLE :: "UINT \<Rightarrow> 'a salloc_state_scheme \<Rightarrow> bool" where
  "IS_SPACE_AVAILABLE sz_bytes st \<longleftrightarrow> SPACE_USED st + sz_bytes - 1 < ARCH_MEM_LEN_BYTES_SALLOC"

definition ksalloc_init :: "'a salloc_state_scheme \<Rightarrow> 'a salloc_state_scheme option" where
  "ksalloc_init st =
     KERNEL_PHASE_SET SALLOC_READY
       (st\<lparr>s_start := ARCH_MEM_START_SALLOC, s_next := ARCH_MEM_START_SALLOC\<rparr>)"

definition ksalloc :: "UINT \<Rightarrow> 'a salloc_state_scheme \<Rightarrow> (PTR \<times> 'a salloc_state_scheme) option" where
  "ksalloc bytes st = do {
     KERNEL_PHASE_VALIDATE SALLOC_READY st;
     if bytes = 0 \<or> bytes > ARCH_MEM_LEN_BYTES_SALLOC then RETURN_ERROR ERR_INVALID_RANGE 0 st
     else
       let allocSize = ALIGN_UP bytes SALLOC_GRANUALITY
       in if \<not> IS_SPACE_AVAILABLE allocSize st then RETURN_ERROR ERR_OUT_OF_MEM 0 st
          else
            let st = st\<lparr>s_next := s_next st + allocSize\<rparr>
            in Some (s_next st - allocSize, st)
   }"

definition kscalloc :: "UINT \<Rightarrow> 'a salloc_state_scheme \<Rightarrow> (PTR \<times> 'a salloc_state_scheme) option" where
  "kscalloc bytes st = do {
     KERNEL_PHASE_VALIDATE SALLOC_READY st;
     if bytes = 0 \<or> bytes > ARCH_MEM_LEN_BYTES_SALLOC then RETURN_ERROR ERR_INVALID_RANGE 0 st
     else
       let allocSize = ALIGN_UP bytes SALLOC_GRANUALITY
       in do {
         (mem, st) \<leftarrow> ksalloc allocSize st;
         Some (mem, if mem \<noteq> 0 then st\<lparr>kmem := k_memset mem 0 allocSize (kmem st)\<rparr> else st)
       }
   }"

definition ksalloc_getUsedMemory :: "'a salloc_state_scheme \<Rightarrow> SIZE option" where
  "ksalloc_getUsedMemory st = do {
     KERNEL_PHASE_VALIDATE SALLOC_READY st;
     Some (s_next st - s_start st)
   }"

section \<open>Invariant and behaviour\<close>

definition salloc_used :: "'a salloc_state_scheme \<Rightarrow> nat" where
  "salloc_used st = unat (s_next st) - 0xC0026000"

definition salloc_inv :: "'a salloc_state_scheme \<Rightarrow> bool" where
  "salloc_inv st \<longleftrightarrow> SALLOC_READY \<le> phase st \<and> s_start st = ARCH_MEM_START_SALLOC
     \<and> 0xC0026000 \<le> unat (s_next st) \<and> unat (s_next st) \<le> 0xC0046000 \<and> unat (s_next st) mod 8 = 0"

definition round8 :: "UINT \<Rightarrow> nat" where
  "round8 n = (unat n + 7) div 8 * 8"

lemma round8_bounds: "unat n \<le> round8 n" "round8 n \<le> unat n + 7" "round8 n mod 8 = 0"
  unfolding round8_def by (linarith, linarith, simp)

lemma unat_ALIGN_UP_round8:
  "n \<le> ARCH_MEM_LEN_BYTES_SALLOC \<Longrightarrow> unat (ALIGN_UP n SALLOC_GRANUALITY) = round8 n"
  by (simp add: SALLOC_GRANUALITY_def unat_kdefs round8_def ARCH_MEM_LEN_BYTES_SALLOC_def word_le_nat_alt)

lemma salloc_start_at: "0xC0026000 = unat ARCH_MEM_START_SALLOC"
  by (simp add: ARCH_MEM_START_SALLOC_def)

text \<open>After \<open>ksalloc_init\<close> the allocator is empty and its invariant holds.\<close>

lemma ksalloc_init_inv:
  assumes "phase st = PMM_READY"
  shows "\<exists>st'. ksalloc_init st = Some st' \<and> salloc_inv st' \<and> salloc_used st' = 0"
  using assms
  by (simp add: ksalloc_init_def KERNEL_PHASE_SET_def salloc_inv_def salloc_used_def
      ARCH_MEM_START_SALLOC_def)

lemma space_available_iff:
  assumes "salloc_inv st" "0 < n" "n \<le> ARCH_MEM_LEN_BYTES_SALLOC"
  shows "IS_SPACE_AVAILABLE (ALIGN_UP n SALLOC_GRANUALITY) st \<longleftrightarrow> salloc_used st + round8 n \<le> 0x20000"
proof -
  let ?a = "ALIGN_UP n SALLOC_GRANUALITY"
  have used: "unat (SPACE_USED st) = salloc_used st"
    using assms(1) by (simp add: SPACE_USED_def salloc_inv_def salloc_used_def unat_sub
        word_le_nat_alt ARCH_MEM_START_SALLOC_def)
  have r: "unat ?a = round8 n" "0 < round8 n" "round8 n \<le> 0x20007"
    using unat_ALIGN_UP_round8 [OF assms(3)] round8_bounds [of n] assms(2,3)
    by (simp_all add: word_less_nat_alt word_le_nat_alt ARCH_MEM_LEN_BYTES_SALLOC_def)
  have u: "salloc_used st \<le> 0x20000"
    using assms(1) by (auto simp: salloc_inv_def salloc_used_def)
  have "unat (SPACE_USED st + ?a) = salloc_used st + round8 n"
    using used r u by (simp add: unat_add_word32)
  then have "unat (SPACE_USED st + ?a - 1) = salloc_used st + round8 n - 1"
    using r(2) by (simp add: unat_sub word_le_nat_alt)
  then show ?thesis
    using r(2) by (auto simp: IS_SPACE_AVAILABLE_def word_less_nat_alt ARCH_MEM_LEN_BYTES_SALLOC_def)
qed

lemma ksalloc_cases:
  assumes inv: "salloc_inv st"
  shows "ksalloc n st =
    (if n = 0 \<or> n > ARCH_MEM_LEN_BYTES_SALLOC then Some (0, st\<lparr>errorNumber := ERR_INVALID_RANGE\<rparr>)
     else if salloc_used st + round8 n \<le> 0x20000
     then Some (s_next st, st\<lparr>s_next := s_next st + ALIGN_UP n SALLOC_GRANUALITY\<rparr>)
     else Some (0, st\<lparr>errorNumber := ERR_OUT_OF_MEM\<rparr>))"
  using inv space_available_iff [OF inv, of n]
  by (auto simp: ksalloc_def salloc_inv_def RETURN_ERROR_def word_neq_0_conv not_less)

lemma ksalloc_success_inv:
  assumes inv: "salloc_inv st" and n: "n \<le> ARCH_MEM_LEN_BYTES_SALLOC"
    and fits: "salloc_used st + round8 n \<le> 0x20000"
  defines "st' \<equiv> st\<lparr>s_next := s_next st + ALIGN_UP n SALLOC_GRANUALITY\<rparr>"
  shows "salloc_inv st'" "unat (s_next st') = unat (s_next st) + round8 n"
proof -
  show next_st': "unat (s_next st') = unat (s_next st) + round8 n"
    using inv fits unat_ALIGN_UP_round8 [OF n]
    by (simp add: st'_def unat_add_word32 salloc_inv_def salloc_used_def)
  show "salloc_inv st'"
    unfolding salloc_inv_def next_st' using inv fits round8_bounds(3) [of n]
    by (auto simp: st'_def salloc_inv_def salloc_used_def mod_eq_0_iff_dvd)
qed

text \<open>
  A run of the allocator: the addresses and sizes of the blocks a sequence of requests obtains, the
  failed requests left out.
\<close>

fun ksalloc_run ::
  "UINT list \<Rightarrow> 'a salloc_state_scheme \<Rightarrow> ((PTR \<times> UINT) list \<times> 'a salloc_state_scheme) option" where
  "ksalloc_run [] st = Some ([], st)"
| "ksalloc_run (n # ns) st = do {
     (p, st) \<leftarrow> ksalloc n st;
     (bs, st) \<leftarrow> ksalloc_run ns st;
     Some (if p = 0 then bs else (p, n) # bs, st)
   }"

abbreviation (input) block_below :: "PTR \<times> UINT \<Rightarrow> PTR \<times> UINT \<Rightarrow> bool" where
  "block_below b c \<equiv> unat (fst b) + unat (snd b) \<le> unat (fst c)"

lemma ksalloc_run_spec:
  assumes "salloc_inv st"
  shows "\<exists>bs st'. ksalloc_run ns st = Some (bs, st') \<and> salloc_inv st' \<and> sorted_wrt block_below bs
    \<and> (\<forall>b \<in> set bs. unat (s_next st) \<le> unat (fst b) \<and> unat (fst b) mod 8 = 0
         \<and> unat (fst b) + unat (snd b) \<le> 0xC0046000 \<and> snd b \<noteq> 0)"
  using assms
proof (induction ns arbitrary: st)
  case Nil
  then show ?case by simp
next
  case (Cons n ns)
  show ?case
  proof (cases "n \<noteq> 0 \<and> n \<le> ARCH_MEM_LEN_BYTES_SALLOC \<and> salloc_used st + round8 n \<le> 0x20000")
    case True
    let ?st = "st\<lparr>s_next := s_next st + ALIGN_UP n SALLOC_GRANUALITY\<rparr>"
    have inv: "salloc_inv ?st" "unat (s_next ?st) = unat (s_next st) + round8 n"
      using ksalloc_success_inv [OF Cons.prems] True by blast+
    obtain bs st' where bs: "ksalloc_run ns ?st = Some (bs, st')" "salloc_inv st'"
      "sorted_wrt block_below bs" "\<forall>b \<in> set bs. unat (s_next ?st) \<le> unat (fst b)
        \<and> unat (fst b) mod 8 = 0 \<and> unat (fst b) + unat (snd b) \<le> 0xC0046000 \<and> snd b \<noteq> 0"
      using Cons.IH [OF inv(1)] by blast
    have "s_next st \<noteq> 0" "unat (s_next st) + unat n \<le> 0xC0046000" "unat (s_next st) mod 8 = 0" "n \<noteq> 0"
      using Cons.prems True round8_bounds(1) [of n]
      by (auto simp: salloc_inv_def salloc_used_def simp flip: unat_gt_0)
    then show ?thesis
      using bs inv(2) True round8_bounds(1) [of n] by (auto simp: ksalloc_cases [OF Cons.prems])
  next
    case False
    then have "\<exists>e. ksalloc n st = Some (0, st\<lparr>errorNumber := e\<rparr>)"
      unfolding ksalloc_cases [OF Cons.prems] by (auto simp: not_le)
    then obtain e where e: "ksalloc n st = Some (0, st\<lparr>errorNumber := e\<rparr>)"
      by blast
    have "salloc_inv (st\<lparr>errorNumber := e\<rparr>)"
      using Cons.prems by (simp add: salloc_inv_def)
    from Cons.IH [OF this] show ?thesis
      using e by auto
  qed
qed

text \<open>
  C23. Static allocations are safe: however many requests of whatever size are made, none panics, and
  the blocks obtained are non empty, 8 byte aligned, inside the salloc region (\<open>0xC0026000\<close> to
  \<open>0xC0046000\<close>) and pairwise disjoint.
\<close>

theorem ksalloc_blocks_disjoint:
  assumes "salloc_inv st"
  shows "\<exists>bs st'. ksalloc_run ns st = Some (bs, st') \<and> salloc_inv st'
    \<and> sorted_wrt (\<lambda>b c. unat (fst b) + unat (snd b) \<le> unat (fst c)) bs
    \<and> (\<forall>b \<in> set bs. 0xC0026000 \<le> unat (fst b) \<and> unat (fst b) + unat (snd b) \<le> 0xC0046000
         \<and> unat (fst b) mod 8 = 0 \<and> snd b \<noteq> 0)"
proof -
  have "0xC0026000 \<le> unat (s_next st)"
    using assms by (simp add: salloc_inv_def)
  then show ?thesis
    using ksalloc_run_spec [OF assms, of ns] by (fastforce intro: order_trans)
qed

definition sample_salloc :: salloc_state where
  "sample_salloc = pmm_state.extend (sample_pmm [1])
     \<lparr>kmem = \<lambda>_. 0, s_next = 0xC0026000, s_start = 0xC0026000\<rparr>"

lemma sample_salloc_inv: "salloc_inv sample_salloc"
  by (simp add: salloc_inv_def sample_salloc_def pmm_state.defs sample_pmm_def
      ARCH_MEM_START_SALLOC_def)

theorem ksalloc_blocks_disjoint_witness:
  "ksalloc_run [12, 0, 4] sample_salloc = Some ([(0xC0026000, 12), (0xC0026010, 4)],
     sample_salloc\<lparr>errorNumber := ERR_INVALID_RANGE, s_next := 0xC0026018\<rparr>)
   \<and> unat (0xC0026000 :: PTR) + unat (12 :: UINT) \<le> unat (0xC0026010 :: PTR)"
proof -
  have run: "ksalloc_run [12, 0, 4] sample_salloc = Some ([(0xC0026000, 12), (0xC0026010, 4)],
     sample_salloc\<lparr>errorNumber := ERR_INVALID_RANGE, s_next := 0xC0026018\<rparr>)"
    by (simp add: ksalloc_def ALIGN_UP_def IS_ALIGNED_def IS_SPACE_AVAILABLE_def SPACE_USED_def
        SALLOC_GRANUALITY_def ARCH_MEM_LEN_BYTES_SALLOC_def sample_salloc_def sample_pmm_def
        pmm_state.defs RETURN_ERROR_def)
  show ?thesis
    using ksalloc_blocks_disjoint [OF sample_salloc_inv, of "[12, 0, 4]"] run by simp
qed

text \<open>\<open>kscalloc\<close> is \<open>ksalloc\<close> of the rounded size, and clears the block it returns.\<close>

lemma kscalloc_success:
  assumes inv: "salloc_inv st" and n: "n \<noteq> 0" "n \<le> ARCH_MEM_LEN_BYTES_SALLOC"
    and fits: "salloc_used st + round8 n \<le> 0x20000"
  shows "\<exists>st'. kscalloc n st = Some (s_next st, st') \<and> salloc_inv st'
    \<and> s_next st \<noteq> 0
    \<and> kmem st' = k_memset (s_next st) 0 (ALIGN_UP n SALLOC_GRANUALITY) (kmem st)
    \<and> st' = st\<lparr>kmem := kmem st', s_next := s_next st'\<rparr>"
proof -
  let ?a = "ALIGN_UP n SALLOC_GRANUALITY"
  note a = unat_ALIGN_UP_round8 [OF n(2)]
  have le: "round8 n \<le> 0x20000" "round8 n mod 8 = 0" "0 < round8 n"
    using fits round8_bounds [of n] n(1) by (auto simp flip: unat_gt_0)
  have a': "?a \<noteq> 0" "?a \<le> ARCH_MEM_LEN_BYTES_SALLOC"
    using a le by (auto simp: word_le_nat_alt ARCH_MEM_LEN_BYTES_SALLOC_def)
  have "round8 ?a = round8 n"
    using a le(2) by (auto simp: round8_def [of ?a] elim!: dvdE simp: mod_eq_0_iff_dvd)
  then have fits': "salloc_used st + round8 ?a \<le> 0x20000"
    using fits by simp
  have "s_next st \<noteq> 0" "SALLOC_READY \<le> phase st"
    using inv by (auto simp: salloc_inv_def)
  moreover have "salloc_inv (st\<lparr>s_next := s_next st + ALIGN_UP ?a SALLOC_GRANUALITY, kmem := m\<rparr>)" for m
    using ksalloc_success_inv(1) [OF inv a'(2) fits'] by (simp add: salloc_inv_def)
  ultimately show ?thesis
    using n a' fits' by (auto simp: kscalloc_def ksalloc_cases [OF inv] Let_def not_less)
qed

end
