(* ===== verification/Handle_Table.thy ===== *)
theory Handle_Table
  imports Static_Alloc
begin

text \<open>
  Kernel object handles: \<open>src/kernel/handle.c\<close>. The table is an array of 1000 pointers in the static
  memory of the kernel and a handle is an index into it, of the signed type \<open>INT\<close>. Array accesses
  are modelled as what they are, loads and stores at an address computed from the index, so that
  the model also says what an index outside the array does.
\<close>

section \<open>Operations\<close>

record handle_state = salloc_state +
  handles :: PTR

definition CONFIG_HANDLES_ARRAY_ITEM_COUNT :: nat where
  "CONFIG_HANDLES_ARRAY_ITEM_COUNT = 1000"

definition INVALID_HANDLE :: UINT where
  "INVALID_HANDLE = KERNEL_EXIT_FAILURE"

text \<open>\<open>&handles[h]\<close> and \<open>handles[h]\<close>.\<close>

definition slot_addr :: "UINT \<Rightarrow> 'a handle_state_scheme \<Rightarrow> PTR" where
  "slot_addr h st = handles st + 4 * h"

definition slot :: "UINT \<Rightarrow> 'a handle_state_scheme \<Rightarrow> PTR" where
  "slot h st = load32 (kmem st) (slot_addr h st)"

definition set_slot :: "UINT \<Rightarrow> PTR \<Rightarrow> 'a handle_state_scheme \<Rightarrow> 'a handle_state_scheme" where
  "set_slot h p st = st\<lparr>kmem := store32 (slot_addr h st) p (kmem st)\<rparr>"

text \<open>The result is the address of the slot, 0 for \<open>NULL\<close>. The comparison of the index is signed.\<close>

definition getObjectPtr :: "UINT \<Rightarrow> 'a handle_state_scheme \<Rightarrow> (PTR \<times> 'a handle_state_scheme) option" where
  "getObjectPtr h st = do {
     k_assert (handles st \<noteq> 0);
     if sint h \<ge> int CONFIG_HANDLES_ARRAY_ITEM_COUNT then RETURN_ERROR ERR_INVALID_HANDLE 0 st
     else if slot h st = 0 then RETURN_ERROR ERR_INVALID_HANDLE 0 st
     else Some (slot_addr h st, st)
   }"

definition khandle_init :: "'a handle_state_scheme \<Rightarrow> 'a handle_state_scheme option" where
  "khandle_init st = do {
     KERNEL_PHASE_VALIDATE SALLOC_READY st;
     (mem, st) \<leftarrow> kscalloc (of_nat CONFIG_HANDLES_ARRAY_ITEM_COUNT * 4) st;
     if mem = 0 then None else Some (st\<lparr>handles := mem\<rparr>)
   }"

fun createHandle_loop ::
  "PTR \<Rightarrow> nat \<Rightarrow> UINT \<Rightarrow> 'a handle_state_scheme \<Rightarrow> (UINT \<times> 'a handle_state_scheme) option" where
  "createHandle_loop obj 0 i st = RETURN_ERROR ERR_OUT_OF_MEM INVALID_HANDLE st"
| "createHandle_loop obj (Suc n) i st =
     (if slot i st = 0 then Some (i, set_slot i obj st) else createHandle_loop obj n (i + 1) st)"

definition khandle_createHandle ::
  "PTR \<Rightarrow> 'a handle_state_scheme \<Rightarrow> (UINT \<times> 'a handle_state_scheme) option" where
  "khandle_createHandle obj st = do {
     k_assert (handles st \<noteq> 0);
     if obj = 0 then RETURN_ERROR ERR_INVALID_ARGUMENT INVALID_HANDLE st
     else createHandle_loop obj CONFIG_HANDLES_ARRAY_ITEM_COUNT 0 st
   }"

definition khandle_freeHandle ::
  "UINT \<Rightarrow> 'a handle_state_scheme \<Rightarrow> (bool \<times> 'a handle_state_scheme) option" where
  "khandle_freeHandle h st = do {
     (objptr, st) \<leftarrow> getObjectPtr h st;
     if objptr = 0 then RETURN_ERROR (errorNumber st) False st
     else Some (True, st\<lparr>kmem := store32 objptr 0 (kmem st)\<rparr>)
   }"

definition khandle_getObject ::
  "UINT \<Rightarrow> 'a handle_state_scheme \<Rightarrow> (PTR \<times> 'a handle_state_scheme) option" where
  "khandle_getObject h st = do {
     (objptr, st) \<leftarrow> getObjectPtr h st;
     if objptr = 0 then RETURN_ERROR (errorNumber st) 0 st
     else Some (load32 (kmem st) objptr, st)
   }"

section \<open>The table as a list\<close>

definition handle_slots :: "'a handle_state_scheme \<Rightarrow> PTR list" where
  "handle_slots st = map (\<lambda>i. slot (of_nat i) st) [0..<1000]"

definition handle_inv :: "'a handle_state_scheme \<Rightarrow> bool" where
  "handle_inv st \<longleftrightarrow> handles st \<noteq> 0 \<and> unat (handles st) + 4000 \<le> 2 ^ 32"

lemma length_handle_slots [simp]: "length (handle_slots st) = 1000"
  by (simp add: handle_slots_def)

lemma nth_handle_slots: "i < 1000 \<Longrightarrow> handle_slots st ! i = slot (of_nat i) st"
  by (simp add: handle_slots_def)

lemma unat_slot_addr:
  assumes "handle_inv st" "i < 1000"
  shows "unat (slot_addr (of_nat i) st) = unat (handles st) + 4 * i"
proof -
  have "unat (4 * of_nat i :: PTR) = 4 * i"
    using assms(2) by (simp add: unat_word_ariths unat_of_nat_word32)
  then show ?thesis
    using assms by (simp add: slot_addr_def unat_add_word32 handle_inv_def)
qed

lemma slot_set_slot:
  assumes "handle_inv st" "i < 1000" "j < 1000"
  shows "slot (of_nat i) (set_slot (of_nat j) p st) = (if i = j then p else slot (of_nat i) st)"
proof (cases "i = j")
  case True
  then show ?thesis
    by (simp add: slot_def set_slot_def slot_addr_def)
next
  case False
  have "unat (slot_addr (of_nat i) st - slot_addr (of_nat j) st) =
      (if j \<le> i then 4 * (i - j) else 4294967296 - 4 * (j - i))"
    using unat_sub_cases [of "slot_addr (of_nat i) st" "slot_addr (of_nat j) st"]
      unat_slot_addr [OF assms(1,2)] unat_slot_addr [OF assms(1,3)] assms(2,3) by auto
  then have "load32 (store32 (slot_addr (of_nat j) st) p (kmem st)) (slot_addr (of_nat i) st)
      = load32 (kmem st) (slot_addr (of_nat i) st)"
    using False assms(2,3) by (intro load32_store32_other) auto
  then show ?thesis
    using False by (simp add: slot_def set_slot_def slot_addr_def)
qed

lemma handle_slots_set_slot:
  assumes "handle_inv st" "i < 1000"
  shows "handle_slots (set_slot (of_nat i) p st) = (handle_slots st)[i := p]"
  by (rule nth_equalityI) (use assms in \<open>auto simp: nth_handle_slots slot_set_slot nth_list_update\<close>)

lemma handle_inv_simps [simp]:
  "handle_inv (set_slot h p st) \<longleftrightarrow> handle_inv st"
  "handle_inv (st\<lparr>errorNumber := e\<rparr>) \<longleftrightarrow> handle_inv st"
  by (simp_all add: handle_inv_def set_slot_def)

lemma handle_slots_error [simp]: "handle_slots (st\<lparr>errorNumber := e\<rparr>) = handle_slots st"
  by (simp add: handle_slots_def slot_def slot_addr_def)

lemma slot_addr_nonzero:
  assumes "handle_inv st" "i < 1000"
  shows "slot_addr (of_nat i) st \<noteq> 0"
proof -
  have "0 < unat (handles st)"
    using assms(1) by (simp add: handle_inv_def unat_gt_0)
  then have "unat (slot_addr (of_nat i) st) \<noteq> 0"
    using unat_slot_addr [OF assms] by simp
  then show ?thesis
    by auto
qed

lemma sint_small: "i < 1000 \<Longrightarrow> sint (of_nat i :: UINT) = int i"
  by (simp add: sint_uint uint_nat unat_of_nat_word32 signed_take_bit_int_eq_self)

lemma getObjectPtr_slot:
  assumes "handle_inv st" "i < 1000"
  shows "getObjectPtr (of_nat i) st =
    (if handle_slots st ! i = 0 then Some (0, st\<lparr>errorNumber := ERR_INVALID_HANDLE\<rparr>)
     else Some (slot_addr (of_nat i) st, st))"
  using assms by (simp add: getObjectPtr_def nth_handle_slots sint_small RETURN_ERROR_def
      CONFIG_HANDLES_ARRAY_ITEM_COUNT_def handle_inv_def)

lemma createHandle_loop_skip:
  assumes "\<forall>j < k. slot (i + of_nat j) st \<noteq> 0"
  shows "createHandle_loop obj (k + n) i st = createHandle_loop obj n (i + of_nat k) st"
  using assms
proof (induction k arbitrary: i)
  case 0
  then show ?case by simp
next
  case (Suc k)
  have "\<forall>j < k. slot (i + 1 + of_nat j) st \<noteq> 0"
    using Suc.prems by (auto simp: add.assoc dest: spec [of _ "Suc _"])
  then show ?case
    using Suc.IH [of "i + 1"] Suc.prems by (auto simp: add.assoc dest: spec [of _ 0])
qed

section \<open>What clients rely on\<close>

text \<open>
  A table of numbered slots that hold object pointers, 0 marking a free slot: what the callers of
  the handle functions assume of them.
\<close>

locale slot_table =
  fixes inv :: "'s \<Rightarrow> bool" and slots :: "'s \<Rightarrow> PTR list"
    and create :: "PTR \<Rightarrow> 's \<Rightarrow> (UINT \<times> 's) option"
    and get :: "UINT \<Rightarrow> 's \<Rightarrow> (PTR \<times> 's) option"
    and release :: "UINT \<Rightarrow> 's \<Rightarrow> (bool \<times> 's) option"
  assumes create_spec: "inv st \<Longrightarrow> obj \<noteq> 0 \<Longrightarrow> i < length (slots st) \<Longrightarrow> slots st ! i = 0 \<Longrightarrow>
      \<forall>j < i. slots st ! j \<noteq> 0 \<Longrightarrow>
      \<exists>st'. create obj st = Some (of_nat i, st') \<and> inv st' \<and> slots st' = (slots st)[i := obj]"
    and get_spec: "inv st \<Longrightarrow> i < length (slots st) \<Longrightarrow>
      \<exists>st'. get (of_nat i) st = Some (slots st ! i, st') \<and> inv st' \<and> slots st' = slots st"
    and release_spec: "inv st \<Longrightarrow> i < length (slots st) \<Longrightarrow>
      \<exists>st'. release (of_nat i) st = Some (slots st ! i \<noteq> 0, st') \<and> inv st'
        \<and> slots st' = (slots st)[i := 0]"
begin

lemma create_get:
  assumes "inv st" "obj \<noteq> 0" "0 \<in> set (slots st)"
  shows "\<exists>i st'. create obj st = Some (of_nat i, st') \<and> inv st' \<and> i < length (slots st)
    \<and> slots st ! i = 0 \<and> slots st' = (slots st)[i := obj]
    \<and> (\<exists>st''. get (of_nat i) st' = Some (obj, st''))
    \<and> (\<forall>j < length (slots st). j \<noteq> i \<longrightarrow> (\<exists>st''. get (of_nat j) st' = Some (slots st ! j, st'')))"
proof -
  define i where "i = (LEAST i. i < length (slots st) \<and> slots st ! i = 0)"
  have "\<exists>i. i < length (slots st) \<and> slots st ! i = 0"
    using assms(3) by (auto simp: in_set_conv_nth)
  then have i: "i < length (slots st)" "slots st ! i = 0"
    unfolding i_def by (rule LeastI2_ex, simp)+
  have "\<forall>j < i. slots st ! j \<noteq> 0"
    using i(1) not_less_Least [of _ "\<lambda>i. i < length (slots st) \<and> slots st ! i = 0"]
    unfolding i_def [symmetric] by auto
  from create_spec [OF assms(1,2) i this] obtain st' where
    st': "create obj st = Some (of_nat i, st')" "inv st'" "slots st' = (slots st)[i := obj]"
    by blast
  have "\<exists>st''. get (of_nat j) st' = Some ((slots st)[i := obj] ! j, st'')" if "j < length (slots st)" for j
    using get_spec [OF st'(2), of j] that st'(3) by auto
  then have "\<exists>st''. get (of_nat i) st' = Some (obj, st'')"
      "\<forall>j < length (slots st). j \<noteq> i \<longrightarrow> (\<exists>st''. get (of_nat j) st' = Some (slots st ! j, st''))"
    using i by (metis nth_list_update_eq, metis nth_list_update_neq)
  with i st' show ?thesis
    by blast
qed

lemma release_get:
  assumes "inv st" "i < length (slots st)"
  shows "\<exists>st'. release (of_nat i) st = Some (slots st ! i \<noteq> 0, st') \<and> inv st'
    \<and> slots st' = (slots st)[i := 0] \<and> (\<exists>st''. get (of_nat i) st' = Some (0, st''))
    \<and> (\<exists>st''. release (of_nat i) st' = Some (False, st''))"
proof -
  obtain st' where st': "release (of_nat i) st = Some (slots st ! i \<noteq> 0, st')" "inv st'"
      "slots st' = (slots st)[i := 0]"
    using release_spec [OF assms] by blast
  then show ?thesis
    using get_spec [OF st'(2), of i] release_spec [OF st'(2), of i] assms(2) by auto
qed

end

interpretation ht: slot_table handle_inv handle_slots khandle_createHandle khandle_getObject
  khandle_freeHandle
proof
  fix st :: "'a handle_state_scheme" and obj i
  assume inv: "handle_inv st"
  show "\<exists>st'. khandle_createHandle obj st = Some (of_nat i, st') \<and> handle_inv st'
      \<and> handle_slots st' = (handle_slots st)[i := obj]"
    if "obj \<noteq> 0" "i < length (handle_slots st)" "handle_slots st ! i = 0"
      "\<forall>j < i. handle_slots st ! j \<noteq> 0"
  proof -
    have i: "i < 1000"
      using that(2) by simp
    have "\<forall>j < i. slot (0 + of_nat j) st \<noteq> 0"
      using that(4) i by (auto simp: nth_handle_slots)
    from createHandle_loop_skip [OF this, of obj "Suc (999 - i)"]
    have "createHandle_loop obj (i + Suc (999 - i)) 0 st = Some (of_nat i, set_slot (of_nat i) obj st)"
      using that(3) i by (simp only: createHandle_loop.simps nth_handle_slots) simp
    moreover have "i + Suc (999 - i) = 1000"
      using i by simp
    ultimately have "createHandle_loop obj 1000 0 st = Some (of_nat i, set_slot (of_nat i) obj st)"
      by (simp only:)
    then show ?thesis
      using that(1) inv handle_slots_set_slot [OF inv i, of obj] handle_inv_simps(1) [of "of_nat i" obj st]
      by (simp add: khandle_createHandle_def CONFIG_HANDLES_ARRAY_ITEM_COUNT_def)
        (simp add: handle_inv_def)
  qed
  assume "i < length (handle_slots st)"
  then have i: "i < 1000"
    by simp
  note ptr = getObjectPtr_slot [OF inv i]
  note nz = slot_addr_nonzero [OF inv i]
  show "\<exists>st'. khandle_getObject (of_nat i) st = Some (handle_slots st ! i, st') \<and> handle_inv st'
      \<and> handle_slots st' = handle_slots st"
    using ptr nz inv i
    by (auto simp: khandle_getObject_def RETURN_ERROR_def nth_handle_slots slot_def)
  show "\<exists>st'. khandle_freeHandle (of_nat i) st = Some (handle_slots st ! i \<noteq> 0, st') \<and> handle_inv st'
      \<and> handle_slots st' = (handle_slots st)[i := 0]"
  proof (cases "handle_slots st ! i = 0")
    case True
    then show ?thesis
      using ptr nz inv i list_update_id [of "handle_slots st" i]
      by (simp add: khandle_freeHandle_def RETURN_ERROR_def)
  next
    case False
    then show ?thesis
      using ptr nz inv i handle_slots_set_slot [OF inv i, of 0] handle_inv_simps(1) [of "of_nat i" 0 st]
      by (auto simp: khandle_freeHandle_def set_slot_def)
  qed
qed


section \<open>Properties\<close>

text \<open>The table after \<open>khandle_init\<close>: all slots free.\<close>

lemma khandle_init_empty:
  assumes inv: "salloc_inv st" and room: "salloc_used st + 4000 \<le> 0x20000"
  shows "\<exists>st'. khandle_init st = Some st' \<and> handle_inv st' \<and> salloc_inv st'
    \<and> handle_slots st' = replicate 1000 0"
proof -
  have n: "4000 \<noteq> (0 :: UINT)" "4000 \<le> ARCH_MEM_LEN_BYTES_SALLOC" "round8 4000 = 4000"
    by (simp_all add: ARCH_MEM_LEN_BYTES_SALLOC_def round8_def)
  obtain st' where st': "kscalloc 4000 st = Some (s_next st, st')" "salloc_inv st'" "s_next st \<noteq> 0"
      "kmem st' = k_memset (s_next st) 0 (ALIGN_UP 4000 SALLOC_GRANUALITY) (kmem st)"
    using kscalloc_success [OF inv n(1,2)] room n(3) by auto
  let ?st = "st'\<lparr>handles := s_next st\<rparr>"
  have hinv: "handle_inv ?st"
    using inv room st'(3) by (simp add: handle_inv_def salloc_inv_def salloc_used_def)
  have al: "unat (ALIGN_UP 4000 SALLOC_GRANUALITY) = 4000"
    using unat_ALIGN_UP_round8 [OF n(2)] n(3) by simp
  have "slot (of_nat i) ?st = 0" if i: "i < 1000" for i
  proof -
    have "kmem st' (slot_addr (of_nat i) ?st + of_nat k) = 0" if "k < 4" for k
    proof -
      have "unat (4 * of_nat i + of_nat k :: PTR) = 4 * i + k"
        using i that by (simp add: unat_word_ariths unat_of_nat_word32)
      then show ?thesis
        using i that al by (simp add: st'(4) k_memset_def memset_loop_eq slot_addr_def add.assoc)
    qed
    from this [of 0] this [of 1] this [of 2] this [of 3] show ?thesis
      by (simp add: slot_def load32_def)
  qed
  then have "handle_slots ?st = replicate 1000 0"
    by (intro nth_equalityI) (simp_all add: nth_handle_slots)
  then show ?thesis
    using st' hinv inv
    by (simp add: khandle_init_def CONFIG_HANDLES_ARRAY_ITEM_COUNT_def salloc_inv_def)
qed

text \<open>
  C20. Handles work as a table. While a slot is free, \<open>khandle_createHandle\<close> puts a non null object
  into a free slot and returns its index; \<open>khandle_getObject\<close> of that handle then returns the object,
  every other handle returns what it did before, and freeing the handle makes it invalid again and
  restores the table.
\<close>

theorem khandle_create_get_free:
  assumes "handle_inv st" "obj \<noteq> 0" "0 \<in> set (handle_slots st)"
  shows "\<exists>i st1. i < 1000 \<and> handle_slots st ! i = 0 \<and> khandle_createHandle obj st = Some (of_nat i, st1)
    \<and> (\<exists>st2. khandle_getObject (of_nat i) st1 = Some (obj, st2))
    \<and> (\<forall>j < 1000. j \<noteq> i \<longrightarrow> (\<exists>st2. khandle_getObject (of_nat j) st1 = Some (handle_slots st ! j, st2)))
    \<and> (\<exists>st2. khandle_freeHandle (of_nat i) st1 = Some (True, st2) \<and> handle_slots st2 = handle_slots st
        \<and> (\<exists>st3. khandle_getObject (of_nat i) st2 = Some (0, st3)))"
proof -
  obtain i st1 where st1: "khandle_createHandle obj st = Some (of_nat i, st1)" "handle_inv st1"
      "i < 1000" "handle_slots st ! i = 0" "handle_slots st1 = (handle_slots st)[i := obj]"
      "\<exists>st2. khandle_getObject (of_nat i) st1 = Some (obj, st2)"
      "\<forall>j < 1000. j \<noteq> i \<longrightarrow> (\<exists>st2. khandle_getObject (of_nat j) st1 = Some (handle_slots st ! j, st2))"
    using ht.create_get [OF assms] by auto
  have "handle_slots st1 ! i \<noteq> 0" "(handle_slots st1)[i := 0] = handle_slots st"
    using st1(3-5) assms(2) by (auto simp: list_update_same_conv)
  with ht.release_get [OF st1(2), of i] st1(3)
  have "\<exists>st2. khandle_freeHandle (of_nat i) st1 = Some (True, st2) \<and> handle_slots st2 = handle_slots st
      \<and> (\<exists>st3. khandle_getObject (of_nat i) st2 = Some (0, st3))"
    by auto
  with st1 show ?thesis
    by blast
qed

text \<open>
  The bounds check of a handle is signed and one sided. Handle -1, which is also
  \<open>INVALID_HANDLE\<close>, passes it: \<open>khandle_getObject\<close> returns the word just before the table if that is
  not zero, and \<open>khandle_freeHandle\<close> clears it.
\<close>

theorem khandle_negative_handle:
  assumes "handles st \<noteq> 0" "handles st \<noteq> 4" "load32 (kmem st) (handles st - 4) \<noteq> 0"
  shows "khandle_getObject INVALID_HANDLE st = Some (load32 (kmem st) (handles st - 4), st)
    \<and> khandle_freeHandle INVALID_HANDLE st
        = Some (True, st\<lparr>kmem := store32 (handles st - 4) 0 (kmem st)\<rparr>)"
proof -
  have "handles st - 4 \<noteq> 0"
    using assms(2) by auto
  then show ?thesis
    using assms(1,3)
    by (simp add: khandle_getObject_def khandle_freeHandle_def getObjectPtr_def INVALID_HANDLE_def
        KERNEL_EXIT_FAILURE_def slot_def slot_addr_def CONFIG_HANDLES_ARRAY_ITEM_COUNT_def)
qed

definition sample_handles :: handle_state where
  "sample_handles = salloc_state.extend
     (sample_salloc\<lparr>kmem := store32 0xC0025FFC 7 (\<lambda>_. 0)\<rparr>) \<lparr>handles = 0xC0026000\<rparr>"

lemma sample_handles_simps:
  "handles sample_handles = 0xC0026000" "kmem sample_handles = store32 0xC0025FFC 7 (\<lambda>_. 0)"
  by (simp_all add: sample_handles_def salloc_state.defs)

lemma sample_handles_free: "handle_slots sample_handles ! 0 = 0"
  using load32_store32_other [of "0xC0026000" "0xC0025FFC" 7 "\<lambda>_. 0"]
  by (simp add: nth_handle_slots slot_def slot_addr_def sample_handles_simps load32_def)

theorem khandle_create_get_free_witness:
  "\<exists>i st1 st2. khandle_createHandle 0xC0100000 sample_handles = Some (of_nat i, st1)
    \<and> khandle_getObject (of_nat i) st1 = Some (0xC0100000, st2)"
proof -
  have "0 \<in> set (handle_slots sample_handles)"
    using sample_handles_free by (metis length_handle_slots nth_mem zero_less_numeral)
  from khandle_create_get_free [OF _ _ this, of "0xC0100000"] show ?thesis
    by (auto simp: handle_inv_def sample_handles_simps)
qed

theorem khandle_negative_handle_witness:
  "khandle_getObject INVALID_HANDLE sample_handles = Some (7, sample_handles)"
  using khandle_negative_handle [of sample_handles] by (simp add: sample_handles_simps)

end
