(* ===== verification/Kernel_Heap.thy ===== *)
theory Kernel_Heap
  imports Heap_Core Handle_Table
begin

text \<open>
  The kernel heap: \<open>kmalloc\<close>, \<open>kmallocz\<close>, \<open>kfree\<close> and \<open>kmalloc_getUsedMemory\<close> of
  \<open>src/kernel/kmalloc.c\<close>, over the common allocator of theory \<open>Heap_Core\<close>. \<open>kmalloc_init\<close> needs the
  virtual memory manager and is modelled with it.
\<close>

section \<open>Operations\<close>

record kmalloc_state = handle_state +
  kheap :: heap

definition ARCH_MEM_LEN_BYTES_KMALLOC :: SIZE where
  "ARCH_MEM_LEN_BYTES_KMALLOC = 128 * 1024"

definition kmalloc :: "SIZE \<Rightarrow> 'a kmalloc_state_scheme \<Rightarrow> (PTR \<times> 'a kmalloc_state_scheme) option" where
  "kmalloc bytes st = do {
     KERNEL_PHASE_VALIDATE KMALLOC_READY st;
     (p, h) \<leftarrow> heap_alloc ARCH_MEM_LEN_BYTES_KMALLOC bytes (kheap st);
     if p \<noteq> 0 then Some (p, st\<lparr>kheap := h\<rparr>) else RETURN_ERROR ERR_OUT_OF_MEM 0 st
   }"

definition kmallocz :: "SIZE \<Rightarrow> 'a kmalloc_state_scheme \<Rightarrow> (PTR \<times> 'a kmalloc_state_scheme) option" where
  "kmallocz bytes st = do {
     (addr, st) \<leftarrow> kmalloc bytes st;
     Some (addr, if addr \<noteq> 0 then st\<lparr>kmem := k_memset addr 0 bytes (kmem st)\<rparr> else st)
   }"

definition kfree :: "PTR \<Rightarrow> 'a kmalloc_state_scheme \<Rightarrow> (bool \<times> 'a kmalloc_state_scheme) option" where
  "kfree addr st = do {
     KERNEL_PHASE_VALIDATE KMALLOC_READY st;
     (found, h) \<leftarrow> heap_free addr (kheap st);
     if found then Some (True, st\<lparr>kheap := h\<rparr>) else RETURN_ERROR ERR_DOUBLE_FREE False st
   }"

fun usedMemory_loop :: "heap \<Rightarrow> PTR list \<Rightarrow> SIZE \<Rightarrow> SIZE option" where
  "usedMemory_loop h [] usedSz = Some usedSz"
| "usedMemory_loop h (header # rest) usedSz = do {
     k_assert (header \<noteq> 0 \<and> netNodeSize h header < ARCH_MEM_LEN_BYTES_KMALLOC);
     usedMemory_loop h rest (usedSz + netNodeSize h header)
   }"

definition kmalloc_getUsedMemory :: "'a kmalloc_state_scheme \<Rightarrow> SIZE option" where
  "kmalloc_getUsedMemory st = do {
     KERNEL_PHASE_VALIDATE KMALLOC_READY st;
     nodes \<leftarrow> list_for_each (allocnode (kheap st));
     usedMemory_loop (kheap st) nodes 0
   }"

section \<open>The contract\<close>

definition kmalloc_inv :: "'a kmalloc_state_scheme \<Rightarrow> bool" where
  "kmalloc_inv st \<longleftrightarrow> KMALLOC_READY \<le> phase st \<and> heap_inv (kheap st) ARCH_MEM_LEN_BYTES_KMALLOC"

definition kmalloc_segments :: "'a kmalloc_state_scheme \<Rightarrow> (PTR \<times> SIZE \<times> bool) list" where
  "kmalloc_segments st = segments (kheap st)"

text \<open>Requests whose size with two headers does not wrap around.\<close>

definition small_request :: "SIZE \<Rightarrow> bool" where
  "small_request bytes \<longleftrightarrow> unat bytes + 64 < 2 ^ 32"

lemma kmalloc_inv_error [simp]: "kmalloc_inv (st\<lparr>errorNumber := e\<rparr>) \<longleftrightarrow> kmalloc_inv st"
  by (simp add: kmalloc_inv_def)

lemma kmalloc_segments_error [simp]: "kmalloc_segments (st\<lparr>errorNumber := e\<rparr>) = kmalloc_segments st"
  by (simp add: kmalloc_segments_def)

interpretation km: segment_allocator kmalloc_inv kmalloc_segments small_request kmalloc kfree
proof
  fix st :: "'a kmalloc_state_scheme" and bytes p n x y m a b
  assume inv: "kmalloc_inv st"
  then have h: "heap_inv (kheap st) ARCH_MEM_LEN_BYTES_KMALLOC" and ph: "KMALLOC_READY \<le> phase st"
    by (simp_all add: kmalloc_inv_def)
  show "coalesce (kmalloc_segments st) = kmalloc_segments st"
    unfolding kmalloc_segments_def by (rule heap_inv_coalesce [OF h])
  show "distinct (map fst (kmalloc_segments st))"
    unfolding kmalloc_segments_def by (rule heap_inv_segments [OF h])
  show "(x, n, a) \<in> set (kmalloc_segments st) \<Longrightarrow> (y, m, b) \<in> set (kmalloc_segments st) \<Longrightarrow> x \<noteq> y \<Longrightarrow>
      unat x + unat n \<le> unat y \<or> unat y + unat m \<le> unat x"
    unfolding kmalloc_segments_def by (rule heap_inv_segments [OF h])
  show "(x, n, a) \<in> set (kmalloc_segments st) \<Longrightarrow> unat x + unat n < 2 ^ 32"
    unfolding kmalloc_segments_def using heap_inv_segments(1,4) [OF h] by fastforce
  show "\<exists>st'. kfree p st = Some (True, st') \<and> kmalloc_inv st'
      \<and> kmalloc_segments st' = coalesce (mark_free (p - 32) (kmalloc_segments st))"
    if "(p - 32, n, True) \<in> set (kmalloc_segments st)"
    using heap_free_spec [OF h, of p] that ph
    by (auto simp: kmalloc_segments_def kfree_def kmalloc_inv_def split: if_splits)
  assume "small_request bytes"
  then have small: "unat bytes + 64 < 2 ^ 32"
    by (simp add: small_request_def)
  show "\<exists>p st'. kmalloc bytes st = Some (p, st') \<and> kmalloc_inv st' \<and>
      (if p = 0 then kmalloc_segments st' = kmalloc_segments st
         \<and> (\<forall>(x, n, a) \<in> set (kmalloc_segments st). a \<or> unat n < unat bytes + 64)
       else \<exists>us x n vs. p = x + 32 \<and> kmalloc_segments st = us @ (x, n, False) # vs
         \<and> unat bytes + 64 \<le> unat n \<and> kmalloc_segments st' =
           us @ (x, bytes + 32, True) # (x + (bytes + 32), n - (bytes + 32), False) # vs)"
    using h small
  proof (cases rule: heap_alloc_spec)
    case full
    then show ?thesis
      using inv ph by (simp add: kmalloc_def RETURN_ERROR_def kmalloc_segments_def)
  next
    case (alloc us x n vs h')
    then show ?thesis
      using ph by (auto simp: kmalloc_def kmalloc_segments_def kmalloc_inv_def)
  qed
qed

section \<open>Properties\<close>

text \<open>
  C1. \<open>kmalloc\<close> is safe. It never panics on a well formed heap; a block it returns lies, with its
  header, in a segment of its own which is now allocated, disjoint from every segment allocated
  before, all of which stay as they are. It fails only when no free segment has room for the request
  and two headers.
\<close>

theorem kmalloc_correct:
  assumes "kmalloc_inv st" "unat bytes + 64 < 2 ^ 32"
  shows "\<exists>p st'. kmalloc bytes st = Some (p, st') \<and> kmalloc_inv st' \<and>
    (if p = 0 then errorNumber st' = ERR_OUT_OF_MEM \<and> kmalloc_segments st' = kmalloc_segments st
       \<and> (\<forall>(x, n, a) \<in> set (kmalloc_segments st). a \<or> unat n < unat bytes + 64)
     else 32 \<le> unat p \<and> unat p + unat bytes < 2 ^ 32
       \<and> (p - 32, bytes + 32, True) \<in> set (kmalloc_segments st')
       \<and> (\<forall>x n. (x, n, True) \<in> set (kmalloc_segments st) \<longrightarrow> (x, n, True) \<in> set (kmalloc_segments st')
            \<and> (unat x + unat n \<le> unat p - 32 \<or> unat p + unat bytes \<le> unat x)))"
proof -
  have ok: "small_request bytes"
    using assms(2) by (simp add: small_request_def)
  obtain p st' where k: "kmalloc bytes st = Some (p, st')"
    using km.malloc_law [OF assms(1) ok] by blast
  show ?thesis
  proof (cases "p = 0")
    case True
    then have "errorNumber st' = ERR_OUT_OF_MEM"
      using k by (auto simp: kmalloc_def split: bind_splits if_splits)
    then show ?thesis
      using km.malloc_law [OF assms(1) ok] k True by auto
  next
    case False
    then show ?thesis
      using km.malloc_safe [OF assms(1) ok k] k by auto
  qed
qed

text \<open>
  C14. \<open>kfree\<close> undoes \<open>kmalloc\<close>: freeing a block right after it was obtained succeeds and restores the
  segments of the heap exactly, so that no memory is lost to fragmentation.
\<close>

theorem kmalloc_kfree_roundtrip:
  assumes "kmalloc_inv st" "unat bytes + 64 < 2 ^ 32" "kmalloc bytes st = Some (p, st1)" "p \<noteq> 0"
  shows "\<exists>st2. kfree p st1 = Some (True, st2) \<and> kmalloc_inv st2 \<and> kmalloc_segments st2 = kmalloc_segments st"
  using assms km.malloc_free [of st bytes p st1] by (simp add: small_request_def)

text \<open>
  C17. \<open>kfree\<close> in general: it accepts exactly the addresses of allocated blocks. The block becomes free
  and is combined with its free neighbours, every other segment stays, and the heap stays coalesced;
  for any other address it returns false with \<open>ERR_DOUBLE_FREE\<close> and changes nothing else.
\<close>

theorem kfree_correct:
  assumes "kmalloc_inv st"
  shows "if \<exists>n. (p - 32, n, True) \<in> set (kmalloc_segments st)
    then \<exists>st'. kfree p st = Some (True, st') \<and> kmalloc_inv st'
      \<and> kmalloc_segments st' = coalesce (mark_free (p - 32) (kmalloc_segments st))
      \<and> coalesce (kmalloc_segments st') = kmalloc_segments st'
    else kfree p st = Some (False, st\<lparr>errorNumber := ERR_DOUBLE_FREE\<rparr>)"
proof (cases "\<exists>n. (p - 32, n, True) \<in> set (kmalloc_segments st)")
  case True
  then obtain n where n: "(p - 32, n, True) \<in> set (kmalloc_segments st)"
    by blast
  show ?thesis
    using km.free_law [OF assms n] True km.segs_coalesced by auto
next
  case False
  then have "heap_free p (kheap st) = Some (False, kheap st)"
    using heap_free_spec [of "kheap st" ARCH_MEM_LEN_BYTES_KMALLOC p] assms
    by (auto simp: kmalloc_inv_def kmalloc_segments_def split: if_splits)
  then show ?thesis
    using False assms by (auto simp: kfree_def kmalloc_inv_def RETURN_ERROR_def)
qed

text \<open>The state of the examples: the heap as \<open>kmalloc_init\<close> leaves it.\<close>

definition sample_kmalloc :: kmalloc_state where
  "sample_kmalloc = handle_state.extend sample_handles
     \<lparr>kheap = the (heap_init ARCH_MEM_LEN_BYTES_KMALLOC 0xC0200000 blank_heap)\<rparr>"

lemma sample_kmalloc_ok:
  "kmalloc_inv sample_kmalloc" "kmalloc_segments sample_kmalloc = [(0xC0200000, 0x20000, False)]"
proof -
  have "phase sample_kmalloc = KERNEL_READY"
    by (simp add: sample_kmalloc_def handle_state.defs sample_handles_def salloc_state.defs
        sample_salloc_def pmm_state.defs sample_pmm_def)
  then show "kmalloc_inv sample_kmalloc" "kmalloc_segments sample_kmalloc = [(0xC0200000, 0x20000, False)]"
    using heap_init_spec [of "0xC0200000" ARCH_MEM_LEN_BYTES_KMALLOC blank_heap]
    by (auto simp: kmalloc_inv_def kmalloc_segments_def sample_kmalloc_def handle_state.defs
        ARCH_MEM_LEN_BYTES_KMALLOC_def)
qed

text \<open>A request of 100 bytes on the empty heap.\<close>

lemma sample_kmalloc_100:
  "\<exists>st'. kmalloc 100 sample_kmalloc = Some (0xC0200020, st')"
proof -
  obtain p st' where k: "kmalloc 100 sample_kmalloc = Some (p, st')" and
    l: "if p = 0 then \<forall>(x, n, a) \<in> set (kmalloc_segments sample_kmalloc). a \<or> unat n < unat (100 :: SIZE) + 64
      else \<exists>us x n vs. p = x + 32 \<and> kmalloc_segments sample_kmalloc = us @ (x, n, False) # vs"
    using km.malloc_law [OF sample_kmalloc_ok(1), of 100] by (fastforce simp: small_request_def split: if_splits)
  then have "p = 0xC0200020"
    by (auto simp: sample_kmalloc_ok(2) Cons_eq_append_conv split: if_splits)
  with k show ?thesis
    by blast
qed

theorem kmalloc_correct_witness:
  "\<exists>st'. kmalloc 100 sample_kmalloc = Some (0xC0200020, st') \<and> kmalloc_inv st'
    \<and> (0xC0200000, 132, True) \<in> set (kmalloc_segments st')"
  using kmalloc_correct [OF sample_kmalloc_ok(1), of 100] sample_kmalloc_100 by auto

theorem kmalloc_kfree_roundtrip_witness:
  "\<exists>st1 st2. kmalloc 100 sample_kmalloc = Some (0xC0200020, st1) \<and> kfree 0xC0200020 st1 = Some (True, st2)
    \<and> kmalloc_segments st2 = [(0xC0200000, 0x20000, False)]"
proof -
  obtain st1 where 1: "kmalloc 100 sample_kmalloc = Some (0xC0200020, st1)"
    using sample_kmalloc_100 by blast
  from kmalloc_kfree_roundtrip [OF sample_kmalloc_ok(1) _ this] show ?thesis
    using 1 by (auto simp: sample_kmalloc_ok(2))
qed

theorem kfree_correct_witness:
  "kfree 0xC0200020 sample_kmalloc = Some (False, sample_kmalloc\<lparr>errorNumber := ERR_DOUBLE_FREE\<rparr>)"
  using kfree_correct [OF sample_kmalloc_ok(1), of "0xC0200020"] by (simp add: sample_kmalloc_ok(2))

text \<open>
  The bound on the request size in the properties above is needed. The size computations of
  \<open>kmalloc\<close> are not checked for overflow: a request of \<open>2 ^ 32 - 1\<close> bytes, which no heap can serve,
  succeeds. The node of the new allocation is then 31 bytes long, so that the header of the free
  remainder overlaps the header of the allocation.
\<close>

theorem kmalloc_request_wraps:
  "case kmalloc 0xFFFFFFFF sample_kmalloc of
     None \<Rightarrow> False
   | Some (p, st') \<Rightarrow> p = 0xC0200020 \<and> netNodeSize (kheap st') 0xC0200000 = 31
       \<and> nxt (adjnode (kheap st')) (NodeOf 0xC0200000) = NodeOf 0xC020001F"
  by code_simp

end
