(* ===== verification/Paging.thy ===== *)
theory Paging
  imports Kernel_Heap
begin

text \<open>
  The paging module: \<open>src/kernel/x86/paging.c\<close>, \<open>include/paging.h\<close>, \<open>include/x86/paging.h\<close>.

  Page directories and page tables are words in physical memory, \<open>pm frame index\<close>. The kernel reads
  and writes them through virtual addresses, so the model has the address translation of the
  processor: \<open>walk\<close> follows a page directory, and an access to a virtual address goes to the frame
  the current directory, \<open>cr3\<close>, translates it to. The recursive map and the two temporary map slots
  are then not assumptions but entries in physical memory, and the functions below are the C code
  statement by statement. An access through an address that is not mapped is a page fault in the
  kernel, modelled as a panic. The translation is always up to date: the code flushes the TLB entry
  of every entry it changes.
\<close>

section \<open>Entries and address translation\<close>

record paging_state = kmalloc_state +
  pm :: "UINT \<Rightarrow> UINT \<Rightarrow> U32"
  cr3 :: UINT

text \<open>
  \<open>ArchPageTableEntry\<close> and \<open>ArchPageDirectoryEntry\<close> share the bits the code uses: present (0),
  write allowed (1), user accessible (2), cache disabled (4) and the frame (12 to 31).
\<close>

definition entry_present :: "U32 \<Rightarrow> bool" where
  "entry_present w \<longleftrightarrow> bit w 0"

definition entry_frame :: "U32 \<Rightarrow> UINT" where
  "entry_frame w = drop_bit 12 w"

definition clear_present :: "U32 \<Rightarrow> U32" where
  "clear_present w = w AND NOT 1"

definition set_entry_frame :: "UINT \<Rightarrow> U32 \<Rightarrow> U32" where
  "set_entry_frame f w = push_bit 12 f OR take_bit 12 w"

text \<open>The frame that a page directory, given by its frame, maps the page of an address to.\<close>

definition walk :: "(UINT \<Rightarrow> UINT \<Rightarrow> U32) \<Rightarrow> UINT \<Rightarrow> PTR \<Rightarrow> UINT option" where
  "walk m dir va =
     (let pde = m dir (drop_bit 22 va)
      in if \<not> entry_present pde then None
         else
           let pte = m (entry_frame pde) (take_bit 10 (drop_bit 12 va))
           in if entry_present pte then Some (entry_frame pte) else None)"

definition mmu :: "'a paging_state_scheme \<Rightarrow> PTR \<Rightarrow> (UINT \<times> UINT) option" where
  "mmu st va = do {
     f \<leftarrow> walk (pm st) (cr3 st) va;
     Some (f, drop_bit 2 (take_bit 12 va))
   }"

definition vread :: "PTR \<Rightarrow> 'a paging_state_scheme \<Rightarrow> U32 option" where
  "vread va st = do { (f, i) \<leftarrow> mmu st va; Some (pm st f i) }"

definition set_word :: "UINT \<Rightarrow> UINT \<Rightarrow> U32 \<Rightarrow> 'a paging_state_scheme \<Rightarrow> 'a paging_state_scheme" where
  "set_word f i w st = st\<lparr>pm := (pm st)(f := (pm st f)(i := w))\<rparr>"

definition vwrite :: "PTR \<Rightarrow> U32 \<Rightarrow> 'a paging_state_scheme \<Rightarrow> 'a paging_state_scheme option" where
  "vwrite va w st = do { (f, i) \<leftarrow> mmu st va; Some (set_word f i w st) }"

text \<open>\<open>k_memset\<close> of a whole page with 0.\<close>

definition clear_page :: "PTR \<Rightarrow> 'a paging_state_scheme \<Rightarrow> 'a paging_state_scheme option" where
  "clear_page va st = do { (f, i) \<leftarrow> mmu st va; Some (st\<lparr>pm := (pm st)(f := \<lambda>_. 0)\<rparr>) }"

section \<open>Constants and small functions\<close>

definition PG_MAP_FLAG_KERNEL :: UINT where "PG_MAP_FLAG_KERNEL = 1"
definition PG_MAP_FLAG_CACHE_ENABLED :: UINT where "PG_MAP_FLAG_CACHE_ENABLED = 2"
definition PG_MAP_FLAG_WRITABLE :: UINT where "PG_MAP_FLAG_WRITABLE = 4"
definition PG_MAP_FLAG_NOT_PRESENT :: UINT where "PG_MAP_FLAG_NOT_PRESENT = 8"
definition PG_MAP_FLAG_DEFAULT :: UINT where "PG_MAP_FLAG_DEFAULT = PG_MAP_FLAG_CACHE_ENABLED"

definition PG_NEWPD_FLAG_COPY_KERNEL_PAGES :: UINT where "PG_NEWPD_FLAG_COPY_KERNEL_PAGES = 1"
definition PG_NEWPD_FLAG_RECURSIVE_MAP :: UINT where "PG_NEWPD_FLAG_RECURSIVE_MAP = 2"
definition PG_DELPD_FLAG_KEEP_KERNEL_PAGES :: UINT where "PG_DELPD_FLAG_KEEP_KERNEL_PAGES = 4"
definition PG_NEWPD_FLAG_CREATE_NEW :: UINT where "PG_NEWPD_FLAG_CREATE_NEW = 8"

definition PDE_MASK :: UINT where "PDE_MASK = 0xFFC00000"
definition PTE_MASK :: UINT where "PTE_MASK = 0x003FF000"
definition OFFSET_MASK :: UINT where "OFFSET_MASK = 0x00000FFF"

definition RECURSIVE_PDE_INDEX :: UINT where
  [kdefs]: "RECURSIVE_PDE_INDEX = drop_bit 22 (0xFFC00000 AND 0xFFC00000)"

definition KERNEL_PDE_INDEX :: UINT where
  [kdefs]: "KERNEL_PDE_INDEX = drop_bit 22 (0xC0000000 AND 0xFFC00000)"

definition TEMPORARY_PTE_INDEX_EXTERN :: UINT where
  [kdefs]: "TEMPORARY_PTE_INDEX_EXTERN = drop_bit 12 (0xC03FE000 AND 0x003FF000)"

definition TEMPORARY_PTE_INDEX_INTERNAL :: UINT where
  [kdefs]: "TEMPORARY_PTE_INDEX_INTERNAL = drop_bit 12 (0xC03FF000 AND 0x003FF000)"

definition LINEAR_ADDR :: "UINT \<Rightarrow> UINT \<Rightarrow> UINT \<Rightarrow> PTR" where
  "LINEAR_ADDR pde_idx pte_idx offset = push_bit 22 pde_idx OR push_bit 12 pte_idx OR offset"

abbreviation (input) PAGEFRAME_TO_PHYSICAL :: "UINT \<Rightarrow> Physical" where
  "PAGEFRAME_TO_PHYSICAL \<equiv> PAGEFRAMES_TO_BYTES"

abbreviation (input) PHYSICAL_TO_PAGEFRAME :: "Physical \<Rightarrow> UINT" where
  "PHYSICAL_TO_PAGEFRAME \<equiv> BYTES_TO_PAGEFRAMES_FLOOR"

record IndexInfo =
  pdeIndex :: UINT
  pteIndex :: UINT
  offset :: UINT

definition s_getTableIndices :: "PTR \<Rightarrow> IndexInfo option" where
  "s_getTableIndices va =
     (let info = \<lparr>pdeIndex = drop_bit 22 (va AND PDE_MASK), pteIndex = drop_bit 12 (va AND PTE_MASK),
                  offset = drop_bit 0 (va AND OFFSET_MASK)\<rparr>
      in do {
        k_assert (pdeIndex info < 1024 \<and> pteIndex info < 1024 \<and> offset info < 4096);
        Some info
      })"

definition s_getPdeFromCurrentPd :: "UINT \<Rightarrow> PTR option" where
  "s_getPdeFromCurrentPd pdeIdx = do {
     k_assert (pdeIdx < 1024);
     Some (LINEAR_ADDR RECURSIVE_PDE_INDEX RECURSIVE_PDE_INDEX (pdeIdx * 4))
   }"

definition s_getPteFromCurrentPd :: "UINT \<Rightarrow> UINT \<Rightarrow> PTR option" where
  "s_getPteFromCurrentPd pdeIdx pteIdx = do {
     k_assert (pdeIdx < 1024 \<and> pteIdx < 1024);
     Some (LINEAR_ADDR RECURSIVE_PDE_INDEX pdeIdx (pteIdx * 4))
   }"

definition s_getLinearAddress :: "UINT \<Rightarrow> UINT \<Rightarrow> UINT \<Rightarrow> PTR" where
  "s_getLinearAddress pdeIdx pteIdx off = LINEAR_ADDR pdeIdx pteIdx off"

text \<open>The entry that \<open>s_setupPTE\<close> and \<open>s_setupPDE\<close> build: the same fields in both structures.\<close>

definition new_entry :: "Physical \<Rightarrow> UINT \<Rightarrow> U32" where
  "new_entry pa flags =
     push_bit 12 (PHYSICAL_TO_PAGEFRAME pa)
     OR (if BIT_ISUNSET flags PG_MAP_FLAG_NOT_PRESENT then 1 else 0)
     OR (if BIT_ISSET flags PG_MAP_FLAG_WRITABLE then 2 else 0)
     OR (if BIT_ISUNSET flags PG_MAP_FLAG_KERNEL then 4 else 0)
     OR (if BIT_ISUNSET flags PG_MAP_FLAG_CACHE_ENABLED then 16 else 0)"

definition s_setupPTE ::
  "PTR \<Rightarrow> Physical \<Rightarrow> UINT \<Rightarrow> 'a paging_state_scheme \<Rightarrow> 'a paging_state_scheme option" where
  "s_setupPTE pte pa flags st = do {
     k_assert (IS_ALIGNED pa CONFIG_PAGE_FRAME_SIZE_BYTES);
     vwrite pte (new_entry pa flags) st
   }"

definition s_setupPDE ::
  "PTR \<Rightarrow> Physical \<Rightarrow> UINT \<Rightarrow> 'a paging_state_scheme \<Rightarrow> 'a paging_state_scheme option" where
  "s_setupPDE pde pa flags st = do {
     k_assert (IS_ALIGNED pa CONFIG_PAGE_FRAME_SIZE_BYTES);
     vwrite pde (new_entry pa flags) st
   }"

section \<open>Temporary mappings\<close>

definition s_temporaryMap ::
  "Physical \<Rightarrow> UINT \<Rightarrow> 'a paging_state_scheme \<Rightarrow> (PTR \<times> 'a paging_state_scheme) option" where
  "s_temporaryMap pa pte_index st =
     (if \<not> IS_ALIGNED pa CONFIG_PAGE_FRAME_SIZE_BYTES then RETURN_ERROR ERR_WRONG_ALIGNMENT 0 st
      else
        let temporaryAddress = s_getLinearAddress KERNEL_PDE_INDEX pte_index 0
        in do {
          pte \<leftarrow> s_getPteFromCurrentPd KERNEL_PDE_INDEX pte_index;
          w \<leftarrow> vread pte st;
          if entry_present w then None
          else do {
            st \<leftarrow> s_setupPTE pte pa
                   (PG_MAP_FLAG_KERNEL OR PG_MAP_FLAG_WRITABLE OR PG_MAP_FLAG_CACHE_ENABLED) st;
            Some (temporaryAddress, st)
          }
        })"

definition s_temporaryUnmap :: "UINT \<Rightarrow> 'a paging_state_scheme \<Rightarrow> 'a paging_state_scheme option" where
  "s_temporaryUnmap pte_index st = do {
     pte \<leftarrow> s_getPteFromCurrentPd KERNEL_PDE_INDEX pte_index;
     w \<leftarrow> vread pte st;
     if \<not> entry_present w then None
     else vwrite pte (clear_present w) st
   }"

definition s_internal_temporaryMap ::
  "Physical \<Rightarrow> 'a paging_state_scheme \<Rightarrow> (PTR \<times> 'a paging_state_scheme) option" where
  "s_internal_temporaryMap pa st = s_temporaryMap pa TEMPORARY_PTE_INDEX_INTERNAL st"

definition s_internal_temporaryUnmap :: "'a paging_state_scheme \<Rightarrow> 'a paging_state_scheme option" where
  "s_internal_temporaryUnmap st = s_temporaryUnmap TEMPORARY_PTE_INDEX_INTERNAL st"

definition kpg_temporaryMap ::
  "Physical \<Rightarrow> 'a paging_state_scheme \<Rightarrow> (PTR \<times> 'a paging_state_scheme) option" where
  "kpg_temporaryMap pa st = s_temporaryMap pa TEMPORARY_PTE_INDEX_EXTERN st"

definition kpg_temporaryUnmap :: "'a paging_state_scheme \<Rightarrow> 'a paging_state_scheme option" where
  "kpg_temporaryUnmap st = s_temporaryUnmap TEMPORARY_PTE_INDEX_EXTERN st"

definition kpg_getcurrentpd :: "PTR option" where
  "kpg_getcurrentpd = s_getPdeFromCurrentPd 0"

section \<open>Mapping\<close>

definition kpg_unmap :: "PTR \<Rightarrow> PTR \<Rightarrow> 'a paging_state_scheme \<Rightarrow> (bool \<times> 'a paging_state_scheme) option" where
  "kpg_unmap pd va st = do {
     k_assert (pd \<noteq> 0);
     if \<not> IS_ALIGNED va CONFIG_PAGE_FRAME_SIZE_BYTES then RETURN_ERROR ERR_WRONG_ALIGNMENT False st
     else do {
       info \<leftarrow> s_getTableIndices va;
       pde \<leftarrow> vread (pd + 4 * pdeIndex info) st;
       if \<not> entry_present pde then RETURN_ERROR ERR_DOUBLE_FREE False st
       else do {
         (pt, st) \<leftarrow> s_internal_temporaryMap (PAGEFRAME_TO_PHYSICAL (entry_frame pde)) st;
         pte \<leftarrow> vread (pt + 4 * pteIndex info) st;
         if \<not> entry_present pte then do {
           st \<leftarrow> s_internal_temporaryUnmap st;
           RETURN_ERROR ERR_DOUBLE_FREE False st
         }
         else do {
           st \<leftarrow> vwrite (pt + 4 * pteIndex info) (clear_present pte) st;
           st \<leftarrow> s_internal_temporaryUnmap st;
           Some (True, st)
         }
       }
     }
   }"

fun unmapContinous_loop ::
  "nat \<Rightarrow> PTR \<Rightarrow> PTR \<Rightarrow> 'a paging_state_scheme \<Rightarrow> (bool \<times> 'a paging_state_scheme) option" where
  "unmapContinous_loop 0 pd va st = Some (True, st)"
| "unmapContinous_loop (Suc n) pd va st = do {
     (success, st) \<leftarrow> kpg_unmap pd va st;
     if \<not> success then RETURN_ERROR (errorNumber st) False st
     else unmapContinous_loop n pd (va + CONFIG_PAGE_FRAME_SIZE_BYTES) st
   }"

definition kpg_unmapContinous ::
  "PTR \<Rightarrow> PTR \<Rightarrow> SIZE \<Rightarrow> 'a paging_state_scheme \<Rightarrow> (bool \<times> 'a paging_state_scheme) option" where
  "kpg_unmapContinous pd vaStart numPages st =
     (if numPages = 0 then RETURN_ERROR ERR_INVALID_ARGUMENT False st
      else unmapContinous_loop (unat numPages) pd vaStart st)"

definition kpg_map ::
  "PTR \<Rightarrow> PTR \<Rightarrow> Physical \<Rightarrow> UINT \<Rightarrow> 'a paging_state_scheme \<Rightarrow> (bool \<times> 'a paging_state_scheme) option" where
  "kpg_map pd va pa flags st = do {
     k_assert (pd \<noteq> 0);
     if \<not> IS_ALIGNED va CONFIG_PAGE_FRAME_SIZE_BYTES \<or> \<not> IS_ALIGNED pa CONFIG_PAGE_FRAME_SIZE_BYTES
     then RETURN_ERROR ERR_WRONG_ALIGNMENT False st
     else do {
       info \<leftarrow> s_getTableIndices va;
       pde \<leftarrow> vread (pd + 4 * pdeIndex info) st;
       st \<leftarrow>
         (if \<not> entry_present pde then do {
            (r, st) \<leftarrow> kpmm_alloc 1 PMM_REGION_ANY st;
            pa_new \<leftarrow> r;
            (tempva, st) \<leftarrow> s_internal_temporaryMap pa_new st;
            st \<leftarrow> clear_page tempva st;
            st \<leftarrow> s_internal_temporaryUnmap st;
            s_setupPDE (pd + 4 * pdeIndex info) pa_new flags st
          }
          else Some st);
       pde \<leftarrow> vread (pd + 4 * pdeIndex info) st;
       (tempva, st) \<leftarrow> s_internal_temporaryMap (PAGEFRAME_TO_PHYSICAL (entry_frame pde)) st;
       pte \<leftarrow> vread (tempva + 4 * pteIndex info) st;
       if entry_present pte then do {
         st \<leftarrow> s_internal_temporaryUnmap st;
         RETURN_ERROR ERR_DOUBLE_ALLOC False st
       }
       else do {
         st \<leftarrow> s_setupPTE (tempva + 4 * pteIndex info) pa flags st;
         st \<leftarrow> s_internal_temporaryUnmap st;
         Some (True, st)
       }
     }
   }"

fun mapContinous_loop ::
  "nat \<Rightarrow> PTR \<Rightarrow> PTR \<Rightarrow> Physical \<Rightarrow> UINT \<Rightarrow> 'a paging_state_scheme \<Rightarrow> (bool \<times> 'a paging_state_scheme) option" where
  "mapContinous_loop 0 pd va pa flags st = Some (True, st)"
| "mapContinous_loop (Suc n) pd va pa flags st = do {
     (success, st) \<leftarrow> kpg_map pd va pa flags st;
     if \<not> success then RETURN_ERROR (errorNumber st) False st
     else mapContinous_loop n pd (va + CONFIG_PAGE_FRAME_SIZE_BYTES) (pa + CONFIG_PAGE_FRAME_SIZE_BYTES) flags st
   }"

definition kpg_mapContinous ::
  "PTR \<Rightarrow> PTR \<Rightarrow> Physical \<Rightarrow> SIZE \<Rightarrow> UINT \<Rightarrow> 'a paging_state_scheme \<Rightarrow> (bool \<times> 'a paging_state_scheme) option" where
  "kpg_mapContinous pd vaStart paStart numPages flags st =
     (if numPages = 0 then RETURN_ERROR ERR_INVALID_ARGUMENT False st
      else mapContinous_loop (unat numPages) pd vaStart paStart flags st)"

text \<open>The result is the physical address stored through the pointer, \<open>None\<close> when there is no mapping.\<close>

definition kpg_doesMappingExists ::
  "PTR \<Rightarrow> PTR \<Rightarrow> 'a paging_state_scheme \<Rightarrow> (Physical option \<times> 'a paging_state_scheme) option" where
  "kpg_doesMappingExists pd va st = do {
     k_assert (pd \<noteq> 0);
     info \<leftarrow> s_getTableIndices va;
     pde \<leftarrow> vread (pd + 4 * pdeIndex info) st;
     if entry_present pde then do {
       (pt_vaddr, st) \<leftarrow> s_internal_temporaryMap (PAGEFRAME_TO_PHYSICAL (entry_frame pde)) st;
       pte \<leftarrow> vread (pt_vaddr + 4 * pteIndex info) st;
       let r = (if entry_present pte
                then Some (PAGEFRAME_TO_PHYSICAL (entry_frame pte) OR offset info) else None)
       in do {
         st \<leftarrow> s_internal_temporaryUnmap st;
         Some (r, st)
       }
     }
     else Some (None, st)
   }"

section \<open>Page directories\<close>

fun copyKernel_loop :: "nat \<Rightarrow> UINT \<Rightarrow> PTR \<Rightarrow> PTR \<Rightarrow> 'a paging_state_scheme \<Rightarrow> 'a paging_state_scheme option" where
  "copyKernel_loop 0 pdi l_pd l_kernelPD st = Some st"
| "copyKernel_loop (Suc n) pdi l_pd l_kernelPD st = do {
     w \<leftarrow> vread (l_kernelPD + 4 * pdi) st;
     st \<leftarrow> vwrite (l_pd + 4 * pdi) w st;
     copyKernel_loop n (pdi + 1) l_pd l_kernelPD st
   }"

text \<open>
  \<open>pd\<close> is the physical address the caller passes in; a new directory replaces it. The result is the
  address the caller then has, \<open>None\<close> for false.
\<close>

definition kpg_setupPageDirectory ::
  "Physical \<Rightarrow> UINT \<Rightarrow> Physical option \<Rightarrow> 'a paging_state_scheme
   \<Rightarrow> (Physical option \<times> 'a paging_state_scheme) option" where
  "kpg_setupPageDirectory pd flags kernelPD st = do {
     (r, st) \<leftarrow> (if BIT_ISSET flags PG_NEWPD_FLAG_CREATE_NEW then kpmm_alloc 1 PMM_REGION_ANY st
                 else Some (Some pd, st));
     case r of None \<Rightarrow> RETURN_ERROR (errorNumber st) None st
     | Some pd \<Rightarrow> do {
         (l_pd, st) \<leftarrow> s_internal_temporaryMap pd st;
         st \<leftarrow> (if BIT_ISSET flags PG_NEWPD_FLAG_CREATE_NEW then clear_page l_pd st else Some st);
         st \<leftarrow> (if BIT_ISSET flags PG_NEWPD_FLAG_COPY_KERNEL_PAGES then do {
                  kpd \<leftarrow> kernelPD;
                  (l_kernelPD, st) \<leftarrow> kpg_temporaryMap kpd st;
                  st \<leftarrow> copyKernel_loop (1024 - unat KERNEL_PDE_INDEX) KERNEL_PDE_INDEX l_pd l_kernelPD st;
                  kpg_temporaryUnmap st
                }
                else Some st);
         st \<leftarrow> (if BIT_ISSET flags PG_NEWPD_FLAG_RECURSIVE_MAP then do {
                  w \<leftarrow> vread (l_pd + 4 * RECURSIVE_PDE_INDEX) st;
                  vwrite (l_pd + 4 * RECURSIVE_PDE_INDEX) (set_entry_frame (PHYSICAL_TO_PAGEFRAME pd) w) st
                }
                else Some st);
         st \<leftarrow> s_internal_temporaryUnmap st;
         Some (Some pd, st)
       }
   }"

text \<open>The loop of \<open>kpg_deletePageDirectory\<close>; false when a page table could not be freed.\<close>

fun deletePD_loop :: "nat \<Rightarrow> UINT \<Rightarrow> PTR \<Rightarrow> 'a paging_state_scheme \<Rightarrow> (bool \<times> 'a paging_state_scheme) option" where
  "deletePD_loop 0 i pd_vaddr st = Some (True, st)"
| "deletePD_loop (Suc n) i pd_vaddr st = do {
     pde \<leftarrow> vread (pd_vaddr + 4 * i) st;
     if entry_present pde then do {
       (success, st) \<leftarrow> kpmm_free (PAGEFRAME_TO_PHYSICAL (entry_frame pde)) 1 st;
       if \<not> success then RETURN_ERROR (errorNumber st) False st
       else deletePD_loop n (i + 1) pd_vaddr st
     }
     else deletePD_loop n (i + 1) pd_vaddr st
   }"

definition kpg_deletePageDirectory ::
  "Physical \<Rightarrow> UINT \<Rightarrow> 'a paging_state_scheme \<Rightarrow> (bool \<times> 'a paging_state_scheme) option" where
  "kpg_deletePageDirectory pd flags st = do {
     k_assert (pd \<noteq> PAGEFRAME_TO_PHYSICAL (cr3 st));
     (pd_vaddr, st) \<leftarrow> s_internal_temporaryMap pd st;
     let endIndex = (if BIT_ISSET flags PG_DELPD_FLAG_KEEP_KERNEL_PAGES then KERNEL_PDE_INDEX else 1024)
     in do {
       (success, st) \<leftarrow> deletePD_loop (unat endIndex) 0 pd_vaddr st;
       if \<not> success then Some (False, st)
       else do {
         st \<leftarrow> s_internal_temporaryUnmap st;
         (success, st) \<leftarrow> kpmm_free pd 1 st;
         if \<not> success then RETURN_ERROR (errorNumber st) False st else Some (True, st)
       }
     }
   }"

end
