(* ===== verification/Paging_Map.thy ===== *)
theory Paging_Map
  imports Paging
begin

text \<open>
  Correctness of the paging module: what \<open>kpg_map\<close>, \<open>kpg_unmap\<close> and \<open>kpg_doesMappingExists\<close> do to the
  translation of a page directory. The state is assumed to be as the boot code sets it up
  (\<open>kernel_maps\<close>): the current directory has its recursive entry and a kernel page table, which holds
  the two temporary map slots.
\<close>

section \<open>Addresses and entries\<close>

lemma unat_drop_bit32: "unat (drop_bit n (w :: UINT)) = unat w div 2 ^ n"
  using drop_bit_eq_div [of n "unat w"] by (simp only: unat_drop_bit_eq)

lemma page_index:
  assumes "unat p mod 4096 = 0" "i < (1024 :: UINT)"
  shows "drop_bit 12 (p + 4 * i) = drop_bit 12 p" "drop_bit 22 (p + 4 * i) = drop_bit 22 p"
    "drop_bit 2 (take_bit 12 (p + 4 * i)) = i"
proof -
  have i: "unat i < 1024"
    using assms(2) by (simp add: word_less_nat_alt)
  have four: "unat (4 * i) = 4 * unat i"
    using i by (simp add: unat_word_ariths)
  obtain q where q: "unat p = 4096 * q"
    using assms(1) by auto
  have "q < 1048576"
    using q unat_less_2p32 [of p] by simp
  then have sum: "unat (p + 4 * i) = 4096 * q + 4 * unat i"
    using q i by (simp add: unat_add_word32 four)
  show "drop_bit 12 (p + 4 * i) = drop_bit 12 p" "drop_bit 22 (p + 4 * i) = drop_bit 22 p"
    using i by (simp_all add: word_unat_eq_iff unat_drop_bit32 sum q)
  have "unat (take_bit 12 (p + 4 * i)) = 4 * unat i"
    unfolding unsigned_take_bit_eq sum using i by (simp add: take_bit_eq_mod)
  then show "drop_bit 2 (take_bit 12 (p + 4 * i)) = i"
    by (simp add: word_unat_eq_iff unat_drop_bit32)
qed

lemma PAGEFRAMES_FLOOR_drop_bit: "BYTES_TO_PAGEFRAMES_FLOOR pa = drop_bit 12 pa"
  by (simp add: word_unat_eq_iff unat_kdefs unat_drop_bit32)

lemma PAGEFRAMES_TO_BYTES_push_bit: "PAGEFRAMES_TO_BYTES f = push_bit 12 f"
  by (simp add: PAGEFRAMES_TO_BYTES_def CONFIG_PAGE_SIZE_BITS_def)

lemma drop_push_drop [simp]: "drop_bit 12 (push_bit 12 (drop_bit 12 (w :: U32))) = drop_bit 12 w"
  by (rule bit_word_eqI) (auto simp: bit_simps dest: bit_imp_le_length)

lemma frame_of_frame_address [simp]:
  "drop_bit 12 (PAGEFRAMES_TO_BYTES (entry_frame w)) = entry_frame w"
  by (simp add: PAGEFRAMES_TO_BYTES_push_bit entry_frame_def)

lemma new_entry_fields:
  "entry_frame (new_entry pa flags) = drop_bit 12 pa"
  "entry_present (new_entry pa flags) \<longleftrightarrow> BIT_ISUNSET flags PG_MAP_FLAG_NOT_PRESENT"
  unfolding new_entry_def PAGEFRAMES_FLOOR_drop_bit entry_frame_def entry_present_def
  by (simp_all add: drop_bit_or bit_simps)

lemma clear_present_fields [simp]:
  "\<not> entry_present (clear_present w)" "entry_frame (clear_present w) = entry_frame w"
  unfolding entry_present_def clear_present_def entry_frame_def
  by (simp add: bit_simps)
    (rule bit_word_eqI, auto simp only: bit_drop_bit_eq comp_apply bit_and_iff bit_not_iff bit_1_iff
      dest: bit_imp_possible_bit)

lemma walk_page:
  assumes "unat p mod 4096 = 0" "i < 1024"
  shows "walk m d (p + 4 * i) = walk m d p"
  using page_index [OF assms] by (simp add: walk_def Let_def)

lemma vread_page:
  assumes "unat p mod 4096 = 0" "i < 1024" "walk (pm st) (cr3 st) p = Some f"
  shows "vread (p + 4 * i) st = Some (pm st f i)"
  using assms page_index [OF assms(1,2)] by (simp add: vread_def mmu_def walk_page)

lemma vwrite_page:
  assumes "unat p mod 4096 = 0" "i < 1024" "walk (pm st) (cr3 st) p = Some f"
  shows "vwrite (p + 4 * i) w st = Some (set_word f i w st)"
  using assms page_index [OF assms(1,2)] by (simp add: vwrite_def mmu_def walk_page)

lemma set_word_simps [simp]:
  "pm (set_word f i w st) = (pm st)(f := (pm st f)(i := w))" "cr3 (set_word f i w st) = cr3 st"
  "s_pab (set_word f i w st) = s_pab st" "boot (set_word f i w st) = boot st"
  "phase (set_word f i w st) = phase st" "errorNumber (set_word f i w st) = errorNumber st"
  "kheap (set_word f i w st) = kheap st"
  by (simp_all add: set_word_def)

section \<open>The kernel's own mappings\<close>

text \<open>The page table of the kernel, which holds the temporary map slots.\<close>

definition kernel_pt :: "'a paging_state_scheme \<Rightarrow> UINT" where
  "kernel_pt st = entry_frame (pm st (cr3 st) 768)"

definition kernel_maps :: "'a paging_state_scheme \<Rightarrow> bool" where
  "kernel_maps st \<longleftrightarrow> entry_present (pm st (cr3 st) 1023) \<and> entry_frame (pm st (cr3 st) 1023) = cr3 st
     \<and> entry_present (pm st (cr3 st) 768) \<and> kernel_pt st \<noteq> cr3 st"

definition slot_used :: "UINT \<Rightarrow> 'a paging_state_scheme \<Rightarrow> bool" where
  "slot_used s st \<longleftrightarrow> entry_present (pm st (kernel_pt st) s)"

lemma kernel_pt_set_word:
  "f \<noteq> cr3 st \<or> i \<noteq> 768 \<Longrightarrow> kernel_pt (set_word f i w st) = kernel_pt st"
  by (auto simp: kernel_pt_def)

lemma kernel_maps_set_word:
  "kernel_maps st \<Longrightarrow> f \<noteq> cr3 st \<or> i \<noteq> 768 \<and> i \<noteq> 1023 \<Longrightarrow> kernel_maps (set_word f i w st)"
  by (auto simp: kernel_maps_def kernel_pt_def)

text \<open>
  Three pages of the kernel's address space: the slots of internal and external temporary maps, and
  the kernel page table through the recursive entry.
\<close>

lemma walk_recursive_pt:
  assumes "kernel_maps st"
  shows "walk (pm st) (cr3 st) 0xFFF00000 = Some (kernel_pt st)"
  using assms by (simp add: walk_def kernel_maps_def kernel_pt_def)

lemma walk_recursive_pd:
  assumes "kernel_maps st"
  shows "walk (pm st) (cr3 st) 0xFFFFF000 = Some (cr3 st)"
  using assms by (simp add: walk_def kernel_maps_def)

lemma walk_slot:
  assumes "kernel_maps st"
  shows "walk (pm st) (cr3 st) 0xC03FF000 =
      (if slot_used 1023 st then Some (entry_frame (pm st (kernel_pt st) 1023)) else None)"
    "walk (pm st) (cr3 st) 0xC03FE000 =
      (if slot_used 1022 st then Some (entry_frame (pm st (kernel_pt st) 1022)) else None)"
  using assms by (simp_all add: walk_def kernel_maps_def kernel_pt_def slot_used_def)

lemma slot_pte_address:
  "s = 1022 \<or> s = 1023 \<Longrightarrow> s_getPteFromCurrentPd KERNEL_PDE_INDEX s = Some (0xFFF00000 + 4 * s)"
  by (auto simp: s_getPteFromCurrentPd_def LINEAR_ADDR_def kdefs)

definition slot_address :: "UINT \<Rightarrow> PTR" where
  "slot_address s = 0xC0000000 + 4096 * s"

lemma slot_entry:
  assumes "kernel_maps st" "s = 1022 \<or> s = 1023"
  shows "vread (0xFFF00000 + 4 * s) st = Some (pm st (kernel_pt st) s)"
    "vwrite (0xFFF00000 + 4 * s) w st = Some (set_word (kernel_pt st) s w st)"
  by (rule vread_page vwrite_page; use assms walk_recursive_pt [OF assms(1)] in auto)+

lemma s_temporaryMap_eq:
  assumes km: "kernel_maps st" and s: "s = 1022 \<or> s = 1023" and free: "\<not> slot_used s st"
    and al: "IS_ALIGNED pa 4096"
  shows "s_temporaryMap pa s st = Some (slot_address s, set_word (kernel_pt st) s (new_entry pa 7) st)"
proof -
  have "s_getLinearAddress KERNEL_PDE_INDEX s 0 = slot_address s"
    using s by (auto simp: s_getLinearAddress_def LINEAR_ADDR_def kdefs slot_address_def)
  then show ?thesis
    using al free slot_entry [OF km s] slot_pte_address [OF s]
    by (simp add: s_temporaryMap_def s_setupPTE_def slot_used_def kdefs PG_MAP_FLAG_KERNEL_def
        PG_MAP_FLAG_WRITABLE_def PG_MAP_FLAG_CACHE_ENABLED_def CONFIG_PAGE_FRAME_SIZE_BYTES_def)
qed

lemma s_temporaryUnmap_eq:
  assumes km: "kernel_maps st" and s: "s = 1022 \<or> s = 1023" and used: "slot_used s st"
  shows "s_temporaryUnmap s st =
    Some (set_word (kernel_pt st) s (clear_present (pm st (kernel_pt st) s)) st)"
  using used slot_entry [OF km s] slot_pte_address [OF s]
  by (simp add: s_temporaryUnmap_def slot_used_def)

lemma new_entry_7: "entry_present (new_entry pa 7)"
  by (simp add: new_entry_fields BIT_ISUNSET_def BIT_ISSET_def PG_MAP_FLAG_NOT_PRESENT_def)

lemma s_getTableIndices_eq:
  "s_getTableIndices va = Some \<lparr>pdeIndex = drop_bit 22 va, pteIndex = take_bit 10 (drop_bit 12 va),
     offset = take_bit 12 va\<rparr>"
  "drop_bit 22 va < (1024 :: UINT)" "take_bit 10 (drop_bit 12 va) < (1024 :: UINT)"
proof -
  have 1: "drop_bit 22 (va AND PDE_MASK) = drop_bit 22 va" for va :: PTR
  proof (rule bit_word_eqI)
    fix n
    have m: "PDE_MASK = push_bit 22 (mask 10)"
      by (simp add: PDE_MASK_def mask_eq_exp_minus_1)
    show "bit (drop_bit 22 (va AND PDE_MASK)) n = bit (drop_bit 22 va) n"
      unfolding m by (auto simp: bit_drop_bit_eq bit_and_iff bit_push_bit_iff bit_mask_iff
          dest: bit_imp_le_length)
  qed
  have 2: "drop_bit 12 (va AND PTE_MASK) = take_bit 10 (drop_bit 12 va)" for va :: PTR
  proof (rule bit_word_eqI)
    fix n
    have m: "PTE_MASK = push_bit 12 (mask 10)"
      by (simp add: PTE_MASK_def mask_eq_exp_minus_1)
    show "bit (drop_bit 12 (va AND PTE_MASK)) n = bit (take_bit 10 (drop_bit 12 va)) n"
      unfolding m by (auto simp: bit_drop_bit_eq bit_and_iff bit_push_bit_iff bit_mask_iff
          bit_take_bit_iff dest: bit_imp_le_length)
  qed
  have 3: "va AND OFFSET_MASK = take_bit 12 va" for va :: PTR
    using and_pow2_minus_1 [of va 12] by (simp add: OFFSET_MASK_def)
  show b1: "drop_bit 22 va < (1024 :: UINT)"
    using unat_le_word32 [of va] by (simp add: word_less_nat_alt unat_drop_bit32)
  show b2: "take_bit 10 (drop_bit 12 va) < (1024 :: UINT)"
    using take_bit_nat_less_exp [of 10 "unat (drop_bit 12 va)"]
    by (simp add: word_less_nat_alt unsigned_take_bit_eq)
  have b3: "take_bit 12 va < (4096 :: UINT)"
    using take_bit_nat_less_exp [of 12 "unat va"] by (simp add: word_less_nat_alt unsigned_take_bit_eq)
  show "s_getTableIndices va = Some \<lparr>pdeIndex = drop_bit 22 va, pteIndex = take_bit 10 (drop_bit 12 va),
     offset = take_bit 12 va\<rparr>"
    using b1 b2 b3 unfolding s_getTableIndices_def 1 2 3 by simp
qed

section \<open>Access to a directory and to its page tables\<close>

text \<open>
  The two ways callers name a page directory: the external temporary map, or the recursive map of the
  current directory.
\<close>

definition dir_ptr :: "'a paging_state_scheme \<Rightarrow> PTR \<Rightarrow> UINT \<Rightarrow> bool" where
  "dir_ptr st pd f \<longleftrightarrow>
     pd = 0xC03FE000 \<and> slot_used 1022 st \<and> entry_frame (pm st (kernel_pt st) 1022) = f
     \<or> pd = 0xFFFFF000 \<and> f = cr3 st"

lemma dir_ptr_access:
  assumes km: "kernel_maps st" and d: "dir_ptr st pd f" and i: "i < 1024"
  shows "vread (pd + 4 * i) st = Some (pm st f i)" "vwrite (pd + 4 * i) w st = Some (set_word f i w st)"
    "pd \<noteq> 0"
proof -
  have w: "walk (pm st) (cr3 st) pd = Some f" and al: "unat pd mod 4096 = 0"
    using d walk_slot(2) [OF km] walk_recursive_pd [OF km] by (auto simp: dir_ptr_def)
  show "vread (pd + 4 * i) st = Some (pm st f i)" "vwrite (pd + 4 * i) w st = Some (set_word f i w st)"
    using vread_page [OF al i w] vwrite_page [OF al i w] by auto
  show "pd \<noteq> 0"
    using d by (auto simp: dir_ptr_def)
qed

lemma dir_ptr_set_word:
  assumes "dir_ptr st pd f" "g \<noteq> cr3 st \<or> i \<noteq> 768" "g \<noteq> kernel_pt st \<or> i \<noteq> 1022"
  shows "dir_ptr (set_word g i w st) pd f"
  using assms kernel_pt_set_word [OF assms(2), of w] by (auto simp: dir_ptr_def slot_used_def)

text \<open>Mapping a page table into the internal slot, and what the code can do then.\<close>

lemma table_access:
  fixes st :: "'a paging_state_scheme" and e :: U32
  assumes km: "kernel_maps st" and free: "\<not> slot_used 1023 st"
  defines "st1 \<equiv> set_word (kernel_pt st) 1023 (new_entry (PAGEFRAMES_TO_BYTES (entry_frame e)) 7) st"
  shows "s_internal_temporaryMap (PAGEFRAMES_TO_BYTES (entry_frame e)) st = Some (0xC03FF000, st1)"
    "kernel_maps st1" "kernel_pt st1 = kernel_pt st" "slot_used 1023 st1"
    "walk (pm st1) (cr3 st1) 0xC03FF000 = Some (entry_frame e)"
proof -
  have neq: "kernel_pt st \<noteq> cr3 st"
    using km by (simp add: kernel_maps_def)
  show "s_internal_temporaryMap (PAGEFRAMES_TO_BYTES (entry_frame e)) st = Some (0xC03FF000, st1)"
    using s_temporaryMap_eq [OF km _ free, of "PAGEFRAMES_TO_BYTES (entry_frame e)"]
    by (simp add: s_internal_temporaryMap_def kdefs slot_address_def st1_def)
  show km1: "kernel_maps st1" and pt1: "kernel_pt st1 = kernel_pt st"
    using km neq by (simp_all add: st1_def kernel_maps_set_word kernel_pt_set_word)
  show used: "slot_used 1023 st1"
    unfolding slot_used_def pt1 by (simp add: st1_def new_entry_7)
  show "walk (pm st1) (cr3 st1) 0xC03FF000 = Some (entry_frame e)"
    unfolding walk_slot(1) [OF km1] pt1 using used by (simp add: st1_def new_entry_fields)
qed

text \<open>
  Releasing the slot: the word that held the mapping has its present bit cleared. Apart from it the
  state is as before.
\<close>

lemma table_release:
  assumes "kernel_maps st" "slot_used 1023 st"
  obtains w where "\<not> entry_present w"
    "s_internal_temporaryUnmap st = Some (set_word (kernel_pt st) 1023 w st)"
  using s_temporaryUnmap_eq [OF assms(1) _ assms(2)] that [OF clear_present_fields(1)]
  by (simp add: s_internal_temporaryUnmap_def kdefs)

text \<open>The addresses outside the recursive map and the temporary map slots.\<close>

definition managed_va :: "PTR \<Rightarrow> bool" where
  "managed_va va \<longleftrightarrow> drop_bit 22 va \<noteq> 1023 \<and> drop_bit 12 va \<noteq> 0xC03FE \<and> drop_bit 12 va \<noteq> 0xC03FF"

lemma page_of_indices:
  fixes va va' :: PTR
  assumes "drop_bit 22 va = drop_bit 22 va'" "take_bit 10 (drop_bit 12 va) = take_bit 10 (drop_bit 12 va')"
  shows "drop_bit 12 va = drop_bit 12 va'"
proof (rule bit_word_eqI)
  fix n assume "n < LENGTH(32)"
  show "bit (drop_bit 12 va) n = bit (drop_bit 12 va') n"
  proof (cases "n < 10")
    case True
    have "bit (take_bit 10 (drop_bit 12 va)) n = bit (take_bit 10 (drop_bit 12 va')) n"
      by (simp only: assms(2))
    with True show ?thesis
      by (simp add: bit_simps)
  next
    case False
    have "bit (drop_bit 22 va) (n - 10) = bit (drop_bit 22 va') (n - 10)"
      by (simp only: assms(1))
    with False show ?thesis
      by (simp add: bit_simps)
  qed
qed

lemma managed_va_pde: "managed_va va \<Longrightarrow> drop_bit 22 va < 1023"
  using s_getTableIndices_eq(2) [of va]
  by (auto simp: managed_va_def word_less_nat_alt word_unat_eq_iff)

lemma managed_va_indices:
  "managed_va va \<Longrightarrow> drop_bit 22 va = 768 \<Longrightarrow>
   take_bit 10 (drop_bit 12 va) \<noteq> 1022 \<and> take_bit 10 (drop_bit 12 va) \<noteq> 1023"
  using page_of_indices [of va "0xC03FE000"] page_of_indices [of va "0xC03FF000"]
  by (auto simp: managed_va_def)

section \<open>Well formed directories\<close>

text \<open>
  No aliasing among the paging structures: the page tables of the directory \<open>f\<close> are distinct from each
  other and from the directories, and the kernel page table is in its place. The recursive entry
  (1023) is left out.
\<close>

definition dir_wf :: "'a paging_state_scheme \<Rightarrow> UINT \<Rightarrow> bool" where
  "dir_wf st f \<longleftrightarrow> f \<noteq> kernel_pt st \<and> entry_present (pm st f 768)
     \<and> (\<forall>i < 1023. entry_present (pm st f i) \<longrightarrow>
          entry_frame (pm st f i) \<noteq> f \<and> entry_frame (pm st f i) \<noteq> cr3 st
          \<and> (entry_frame (pm st f i) = kernel_pt st \<longleftrightarrow> i = 768)
          \<and> (\<forall>j < 1023. entry_present (pm st f j) \<longrightarrow>
               entry_frame (pm st f j) = entry_frame (pm st f i) \<longrightarrow> j = i))"

text \<open>The frames of paging structures are not free in the physical memory manager.\<close>

definition not_free :: "'a pmm_state_scheme \<Rightarrow> UINT \<Rightarrow> bool" where
  "not_free st f \<longleftrightarrow> \<not> (unat f < length (frames st) \<and> frames st ! unat f = PMM_STATE_FREE)"

definition structs_used :: "'a paging_state_scheme \<Rightarrow> UINT \<Rightarrow> bool" where
  "structs_used st f \<longleftrightarrow> not_free st f \<and> not_free st (cr3 st) \<and> not_free st (kernel_pt st)
     \<and> (\<forall>i < 1023. entry_present (pm st f i) \<longrightarrow> not_free st (entry_frame (pm st f i)))"

definition paging_ok :: "PTR \<Rightarrow> UINT \<Rightarrow> 'a paging_state_scheme \<Rightarrow> bool" where
  "paging_ok pd f st \<longleftrightarrow> kernel_maps st \<and> dir_ptr st pd f \<and> \<not> slot_used 1023 st \<and> dir_wf st f
     \<and> structs_used st f \<and> pmm_inv st"

lemma paging_okD:
  assumes "paging_ok pd f st"
  shows "kernel_maps st" "dir_ptr st pd f" "\<not> slot_used 1023 st" "dir_wf st f" "structs_used st f"
    "pmm_inv st" "kernel_pt st \<noteq> cr3 st" "f \<noteq> kernel_pt st"
  using assms by (simp_all add: paging_ok_def kernel_maps_def dir_wf_def)

lemma frames_set_word [simp]: "frames (set_word g i w st) = frames st"
  unfolding frames_def by (rule bitmap_states_cong) (simp_all add: s_getBitmapFromRegion_def set_word_def Let_def)

lemma pmm_inv_set_word [simp]: "pmm_inv (set_word g i w st) \<longleftrightarrow> pmm_inv st"
  by (simp add: pmm_inv_def pmm_wf_def usable_pages_def) (simp add: set_word_def)

lemma not_free_set_word [simp]: "not_free (set_word g i w st) = not_free st"
  by (rule ext) (simp add: not_free_def)

text \<open>Changing a word outside the two directories and the slots keeps everything.\<close>

lemma paging_ok_set_word:
  assumes ok: "paging_ok pd f st" and g: "g \<noteq> f" "g \<noteq> cr3 st"
    and slots: "g = kernel_pt st \<Longrightarrow> i \<noteq> 1022 \<and> (i = 1023 \<longrightarrow> \<not> entry_present w)"
  shows "paging_ok pd f (set_word g i w st)"
proof -
  note D = paging_okD [OF ok]
  have pt: "kernel_pt (set_word g i w st) = kernel_pt st"
    using g by (simp add: kernel_pt_set_word)
  have "\<not> slot_used 1023 (set_word g i w st)"
    using D(3) slots unfolding slot_used_def pt by auto
  moreover have "dir_wf (set_word g i w st) f"
    using D(4) g unfolding dir_wf_def pt by simp
  moreover have "structs_used (set_word g i w st) f"
    using D(5) g unfolding structs_used_def pt by simp
  moreover have "dir_ptr (set_word g i w st) pd f"
    using D(2) g slots by (intro dir_ptr_set_word) auto
  ultimately show ?thesis
    using D(1,6) g by (simp add: paging_ok_def kernel_maps_set_word)
qed

text \<open>How changing a word of a page table changes the translation.\<close>

lemma walk_set_word_other:
  assumes "g \<noteq> f" "\<And>i. drop_bit 22 va = i \<Longrightarrow> entry_present (m f i) \<Longrightarrow> entry_frame (m f i) = g
    \<Longrightarrow> take_bit 10 (drop_bit 12 va) \<noteq> j"
  shows "walk (m(g := (m g)(j := w))) f va = walk m f va"
  using assms by (auto simp: walk_def Let_def)

lemma walk_kernel_slot:
  assumes ok: "paging_ok pd f st" and va: "managed_va va"
  shows "walk ((pm st)(kernel_pt st := (pm st (kernel_pt st))(1023 := w))) f va = walk (pm st) f va"
proof (rule walk_set_word_other)
  show "kernel_pt st \<noteq> f"
    using paging_okD(8) [OF ok] by simp
next
  fix i assume i: "drop_bit 22 va = i" "entry_present (pm st f i)" "entry_frame (pm st f i) = kernel_pt st"
  have "i < 1023"
    using managed_va_pde [OF va] i(1) by simp
  then have "i = 768"
    using paging_okD(4) [OF ok] i by (simp add: dir_wf_def)
  then show "take_bit 10 (drop_bit 12 va) \<noteq> 1023"
    using managed_va_indices [OF va] i(1) by simp
qed

section \<open>The operations\<close>

text \<open>
  The page table of a managed address, in the internal slot: reading an entry of it, and what is left
  when the slot is released, with and without an entry changed before.
\<close>

lemma table_facts:
  assumes ok: "paging_ok pd f st" and va: "managed_va va"
    and pde: "entry_present (pm st f (drop_bit 22 va))"
  defines "t \<equiv> entry_frame (pm st f (drop_bit 22 va))" and "j \<equiv> take_bit 10 (drop_bit 12 va)"
  shows "t \<noteq> f" "t \<noteq> cr3 st" "t = kernel_pt st \<Longrightarrow> j \<noteq> 1022 \<and> j \<noteq> 1023" "j < 1024"
    "walk (pm st) f va = (if entry_present (pm st t j) then Some (entry_frame (pm st t j)) else None)"
proof -
  have "dir_wf st f"
    by (rule paging_okD [OF ok])
  then show "t \<noteq> f" "t \<noteq> cr3 st"
    using managed_va_pde [OF va] pde by (auto simp: dir_wf_def t_def)
  show "t = kernel_pt st \<Longrightarrow> j \<noteq> 1022 \<and> j \<noteq> 1023"
    using \<open>dir_wf st f\<close> managed_va_pde [OF va] managed_va_indices [OF va] pde
    by (auto simp: dir_wf_def t_def j_def)
  show "j < 1024"
    unfolding j_def by (rule s_getTableIndices_eq)
  show "walk (pm st) f va = (if entry_present (pm st t j) then Some (entry_frame (pm st t j)) else None)"
    using pde by (simp add: walk_def Let_def t_def j_def)
qed

lemma table_ops:
  assumes ok: "paging_ok pd f st" and va: "managed_va va"
    and pde: "entry_present (pm st f (drop_bit 22 va))"
  defines "t \<equiv> entry_frame (pm st f (drop_bit 22 va))" and "j \<equiv> take_bit 10 (drop_bit 12 va)"
  obtains st1 where
    "s_internal_temporaryMap (PAGEFRAMES_TO_BYTES t) st = Some (0xC03FF000, st1)"
    "vread (0xC03FF000 + 4 * j) st1 = Some (pm st t j)"
    "\<exists>w'. \<not> entry_present w' \<and> s_internal_temporaryUnmap st1 = Some (set_word (kernel_pt st) 1023 w' st)"
    "\<And>w. \<exists>st2 w'. vwrite (0xC03FF000 + 4 * j) w st1 = Some st2 \<and> \<not> entry_present w'
       \<and> s_internal_temporaryUnmap st2 = Some (set_word (kernel_pt st) 1023 w' (set_word t j w st))"
proof -
  note D = paging_okD [OF ok]
  note F = table_facts [OF ok va pde, folded t_def j_def]
  define st1 where "st1 = set_word (kernel_pt st) 1023 (new_entry (PAGEFRAMES_TO_BYTES t) 7) st"
  note T = table_access [OF D(1,3), of "pm st f (drop_bit 22 va)", folded t_def, folded st1_def]
  have al: "unat (0xC03FF000 :: PTR) mod 4096 = 0"
    by simp
  have sw: "cr3 st1 = cr3 st"
    by (simp add: st1_def)
  have "vread (0xC03FF000 + 4 * j) st1 = Some (pm st t j)"
    using vread_page [OF al F(4) T(5)] F(3) by (auto simp: st1_def)
  moreover have "\<exists>w'. \<not> entry_present w' \<and> s_internal_temporaryUnmap st1 = Some (set_word (kernel_pt st) 1023 w' st)"
  proof (rule table_release [OF T(2,4)])
    fix w' assume "\<not> entry_present w'" "s_internal_temporaryUnmap st1 = Some (set_word (kernel_pt st1) 1023 w' st1)"
    moreover have "set_word (kernel_pt st) 1023 w' st1 = set_word (kernel_pt st) 1023 w' st"
      by (simp add: st1_def set_word_def)
    ultimately show ?thesis
      using T(3) by auto
  qed
  moreover have "\<exists>st2 w'. vwrite (0xC03FF000 + 4 * j) w st1 = Some st2 \<and> \<not> entry_present w'
      \<and> s_internal_temporaryUnmap st2 = Some (set_word (kernel_pt st) 1023 w' (set_word t j w st))" for w
  proof -
    let ?st2 = "set_word t j w st1"
    have km2: "kernel_maps ?st2" and pt2: "kernel_pt ?st2 = kernel_pt st"
      using T(2,3) F(2) sw by (simp_all add: kernel_maps_set_word kernel_pt_set_word)
    have "slot_used 1023 ?st2"
      using T(4) F(3) unfolding slot_used_def pt2 T(3) by auto
    from table_release [OF km2 this] obtain w' where w': "\<not> entry_present w'"
        "s_internal_temporaryUnmap ?st2 = Some (set_word (kernel_pt st) 1023 w' ?st2)"
      using pt2 by metis
    moreover have "set_word (kernel_pt st) 1023 w' ?st2 = set_word (kernel_pt st) 1023 w' (set_word t j w st)"
      using F(3) by (cases "t = kernel_pt st") (auto simp: st1_def set_word_def fun_upd_twist)
    ultimately show ?thesis
      using vwrite_page [OF al F(4) T(5), of w] by auto
  qed
  ultimately show thesis
    using T(1) that by blast
qed

lemma slot_cleared:
  assumes ok: "paging_ok pd f st" and w: "\<not> entry_present w"
  shows "paging_ok pd f (set_word (kernel_pt st) 1023 w st)"
    and "managed_va va \<Longrightarrow> walk (pm (set_word (kernel_pt st) 1023 w st)) f va = walk (pm st) f va"
  using paging_ok_set_word [OF ok, of "kernel_pt st" 1023 w] paging_okD [OF ok] w walk_kernel_slot [OF ok]
  by auto

lemma kpg_doesMappingExists_spec:
  assumes ok: "paging_ok pd f st" and va: "managed_va va"
  shows "\<exists>st'. kpg_doesMappingExists pd va st =
      Some (map_option (\<lambda>fr. push_bit 12 fr OR take_bit 12 va) (walk (pm st) f va), st')
    \<and> paging_ok pd f st' \<and> (\<forall>va'. managed_va va' \<longrightarrow> walk (pm st') f va' = walk (pm st) f va')"
proof -
  note D = paging_okD [OF ok]
  note A = dir_ptr_access [OF D(1,2) s_getTableIndices_eq(2) [of va]]
  show ?thesis
  proof (cases "entry_present (pm st f (drop_bit 22 va))")
    case False
    then have "walk (pm st) f va = None"
      by (simp add: walk_def Let_def)
    with False show ?thesis
      using A ok by (simp add: kpg_doesMappingExists_def s_getTableIndices_eq(1))
  next
    case True
    note F = table_facts [OF ok va True]
    obtain st1 w where T: "s_internal_temporaryMap (PAGEFRAMES_TO_BYTES (entry_frame (pm st f (drop_bit 22 va)))) st
          = Some (0xC03FF000, st1)"
        "vread (0xC03FF000 + 4 * take_bit 10 (drop_bit 12 va)) st1
          = Some (pm st (entry_frame (pm st f (drop_bit 22 va))) (take_bit 10 (drop_bit 12 va)))"
        "\<not> entry_present w" "s_internal_temporaryUnmap st1 = Some (set_word (kernel_pt st) 1023 w st)"
      by (rule table_ops [OF ok va True]) blast
    show ?thesis
      using True A T F(5) slot_cleared [OF ok T(3)]
      by (simp add: kpg_doesMappingExists_def s_getTableIndices_eq(1) PAGEFRAMES_TO_BYTES_push_bit)
  qed
qed

lemma paging_error_simps [simp]:
  "paging_ok pd f (st\<lparr>errorNumber := e\<rparr>) \<longleftrightarrow> paging_ok pd f st"
  by (simp add: paging_ok_def kernel_maps_def kernel_pt_def dir_ptr_def slot_used_def dir_wf_def
      structs_used_def not_free_def)

text \<open>The translation after the entry of a managed address has been changed in its page table.\<close>

lemma walk_table_update:
  assumes ok: "paging_ok pd f st" and va: "managed_va va"
    and pde: "entry_present (pm st f (drop_bit 22 va))"
  defines "t \<equiv> entry_frame (pm st f (drop_bit 22 va))" and "j \<equiv> take_bit 10 (drop_bit 12 va)"
  shows "walk (pm (set_word t j w st)) f va = (if entry_present w then Some (entry_frame w) else None)"
    and "managed_va va' \<Longrightarrow> drop_bit 12 va' \<noteq> drop_bit 12 va \<Longrightarrow>
      walk (pm (set_word t j w st)) f va' = walk (pm st) f va'"
    and "paging_ok pd f (set_word t j w st)"
proof -
  note F = table_facts [OF ok va pde, folded t_def j_def]
  show "walk (pm (set_word t j w st)) f va = (if entry_present w then Some (entry_frame w) else None)"
    using pde F(1) by (simp add: walk_def Let_def t_def j_def)
  show "paging_ok pd f (set_word t j w st)"
    using F by (intro paging_ok_set_word [OF ok]) auto
  assume va': "managed_va va'" "drop_bit 12 va' \<noteq> drop_bit 12 va"
  show "walk (pm (set_word t j w st)) f va' = walk (pm st) f va'"
    unfolding set_word_simps
  proof (rule walk_set_word_other [OF F(1)])
    fix i assume i: "drop_bit 22 va' = i" "entry_present (pm st f i)" "entry_frame (pm st f i) = t"
    then have "i = drop_bit 22 va"
      using paging_okD(4) [OF ok] managed_va_pde [OF va] managed_va_pde [OF va'(1)] pde
      unfolding dir_wf_def t_def by blast
    then show "take_bit 10 (drop_bit 12 va') \<noteq> j"
      using page_of_indices [of va' va] i(1) va'(2) by (auto simp: j_def)
  qed
qed

lemma kpg_unmap_spec:
  assumes ok: "paging_ok pd f st" and va: "managed_va va" and al: "IS_ALIGNED va 4096"
  shows "\<exists>st'. kpg_unmap pd va st = Some (walk (pm st) f va \<noteq> None, st') \<and> paging_ok pd f st'
    \<and> (walk (pm st) f va = None \<longrightarrow> errorNumber st' = ERR_DOUBLE_FREE) \<and> walk (pm st') f va = None
    \<and> (\<forall>va'. managed_va va' \<longrightarrow> drop_bit 12 va' \<noteq> drop_bit 12 va \<longrightarrow>
          walk (pm st') f va' = walk (pm st) f va')"
proof -
  note D = paging_okD [OF ok]
  note A = dir_ptr_access [OF D(1,2) s_getTableIndices_eq(2) [of va]]
  show ?thesis
  proof (cases "entry_present (pm st f (drop_bit 22 va))")
    case False
    then have "walk (pm st) f va = None"
      by (simp add: walk_def Let_def)
    with False show ?thesis
      using A ok al by (simp add: kpg_unmap_def s_getTableIndices_eq(1) RETURN_ERROR_def
          CONFIG_PAGE_FRAME_SIZE_BYTES_def)
  next
    case True
    let ?t = "entry_frame (pm st f (drop_bit 22 va))" and ?j = "take_bit 10 (drop_bit 12 va)"
    note F = table_facts [OF ok va True]
    obtain st1 where T: "s_internal_temporaryMap (PAGEFRAMES_TO_BYTES ?t) st = Some (0xC03FF000, st1)"
        "vread (0xC03FF000 + 4 * ?j) st1 = Some (pm st ?t ?j)"
      and T3: "\<exists>w'. \<not> entry_present w' \<and> s_internal_temporaryUnmap st1 = Some (set_word (kernel_pt st) 1023 w' st)"
      and T4: "\<And>w. \<exists>st2 w'. vwrite (0xC03FF000 + 4 * ?j) w st1 = Some st2 \<and> \<not> entry_present w'
       \<and> s_internal_temporaryUnmap st2 = Some (set_word (kernel_pt st) 1023 w' (set_word ?t ?j w st))"
      by (rule table_ops [OF ok va True]) blast
    show ?thesis
    proof (cases "entry_present (pm st ?t ?j)")
      case False
      obtain w' where w': "\<not> entry_present w'"
          "s_internal_temporaryUnmap st1 = Some (set_word (kernel_pt st) 1023 w' st)"
        using T3 by blast
      then show ?thesis
        using False True A T F(5) al va slot_cleared [OF ok w'(1)]
        by (simp add: kpg_unmap_def s_getTableIndices_eq(1) RETURN_ERROR_def CONFIG_PAGE_FRAME_SIZE_BYTES_def)
    next
      case present: True
      let ?st = "set_word ?t ?j (clear_present (pm st ?t ?j)) st"
      obtain st2 w' where w': "vwrite (0xC03FF000 + 4 * ?j) (clear_present (pm st ?t ?j)) st1 = Some st2"
          "\<not> entry_present w'" "s_internal_temporaryUnmap st2 = Some (set_word (kernel_pt st) 1023 w' ?st)"
        using T4 by blast
      note U = walk_table_update [OF ok va True, where w = "clear_present (pm st ?t ?j)"]
      have pt: "kernel_pt ?st = kernel_pt st"
        using F(2) by (simp add: kernel_pt_set_word)
      have "kpg_unmap pd va st = Some (True, set_word (kernel_pt st) 1023 w' ?st)"
        using present True A T(1,2) w' al
        by (simp add: kpg_unmap_def s_getTableIndices_eq(1) CONFIG_PAGE_FRAME_SIZE_BYTES_def)
      then show ?thesis
        using slot_cleared [OF U(3) w'(2), unfolded pt] U(1,2) F(5) present va
        by (simp del: set_word_simps)
    qed
  qed
qed

text \<open>Adding an empty page table to a directory.\<close>

definition fresh :: "'a paging_state_scheme \<Rightarrow> UINT \<Rightarrow> UINT \<Rightarrow> bool" where
  "fresh st f t \<longleftrightarrow> t \<noteq> f \<and> t \<noteq> cr3 st \<and> t \<noteq> kernel_pt st
     \<and> (\<forall>i < 1023. entry_present (pm st f i) \<longrightarrow> entry_frame (pm st f i) \<noteq> t)"

definition clear_frame :: "UINT \<Rightarrow> 'a paging_state_scheme \<Rightarrow> 'a paging_state_scheme" where
  "clear_frame t st = st\<lparr>pm := (pm st)(t := \<lambda>_. 0)\<rparr>"

lemma clear_frame_simps [simp]:
  "pm (clear_frame t st) = (pm st)(t := \<lambda>_. 0)" "cr3 (clear_frame t st) = cr3 st"
  by (simp_all add: clear_frame_def)

lemma frames_clear_frame [simp]: "frames (clear_frame t st) = frames st"
  unfolding frames_def
  by (rule bitmap_states_cong) (simp_all add: s_getBitmapFromRegion_def clear_frame_def Let_def)

lemma not_free_clear_frame [simp]: "not_free (clear_frame t st) = not_free st"
  by (simp add: not_free_def fun_eq_iff)

lemma pmm_inv_clear_frame [simp]: "pmm_inv (clear_frame t st) \<longleftrightarrow> pmm_inv st"
  by (simp add: pmm_inv_def) (simp add: pmm_wf_def usable_pages_def clear_frame_def)

lemma clear_frame_ok:
  assumes ok: "paging_ok pd f st" and t: "fresh st f t"
  shows "paging_ok pd f (clear_frame t st)" "kernel_pt (clear_frame t st) = kernel_pt st"
    "managed_va va \<Longrightarrow> walk (pm (clear_frame t st)) f va = walk (pm st) f va"
    "fresh (clear_frame t st) f t"
proof -
  show pt: "kernel_pt (clear_frame t st) = kernel_pt st"
    using t by (auto simp: kernel_pt_def fresh_def)
  have rows: "pm (clear_frame t st) f = pm st f" "pm (clear_frame t st) (cr3 st) = pm st (cr3 st)"
      "pm (clear_frame t st) (kernel_pt st) = pm st (kernel_pt st)"
    using t by (auto simp: fresh_def)
  show "paging_ok pd f (clear_frame t st)"
    using ok unfolding paging_ok_def kernel_maps_def dir_ptr_def slot_used_def dir_wf_def structs_used_def
      pt clear_frame_simps(2) rows not_free_clear_frame pmm_inv_clear_frame by blast
  show "managed_va va \<Longrightarrow> walk (pm (clear_frame t st)) f va = walk (pm st) f va"
    using t managed_va_pde [of va] by (auto simp: walk_def Let_def fresh_def)
  show "fresh (clear_frame t st) f t"
    using t unfolding fresh_def pt by auto
qed

lemma add_table_ok:
  assumes ok: "paging_ok pd f st" and t: "fresh st f t" "not_free st t" "\<forall>j. \<not> entry_present (pm st t j)"
    and i: "i < 1023" "\<not> entry_present (pm st f i)" and w: "entry_present w" "entry_frame w = t"
  shows "paging_ok pd f (set_word f i w st)"
    "managed_va va \<Longrightarrow> walk (pm (set_word f i w st)) f va = walk (pm st) f va"
proof -
  note D = paging_okD [OF ok]
  have i': "i \<noteq> 768" "i \<noteq> 1023"
    using i D(4) by (auto simp: dir_wf_def)
  have pt: "kernel_pt (set_word f i w st) = kernel_pt st"
    using i' by (simp add: kernel_pt_set_word)
  have "dir_wf (set_word f i w st) f"
    using D(4) t(1) w i' unfolding dir_wf_def pt by (auto simp: fresh_def)
  moreover have "structs_used (set_word f i w st) f"
    using D(5) t(2) w unfolding structs_used_def pt by simp
  moreover have "\<not> slot_used 1023 (set_word f i w st)"
    using D(3,8) unfolding slot_used_def pt by simp
  moreover have "dir_ptr (set_word f i w st) pd f"
    using D(2,8) i' by (intro dir_ptr_set_word) auto
  ultimately show "paging_ok pd f (set_word f i w st)"
    using D(1,6) i' by (simp add: paging_ok_def kernel_maps_set_word)
  have "f \<noteq> t"
    using t(1) by (auto simp: fresh_def)
  assume va: "managed_va va"
  show "walk (pm (set_word f i w st)) f va = walk (pm st) f va"
  proof (cases "drop_bit 22 va = i")
    case True
    then show ?thesis
      using i(2) w t(3) \<open>f \<noteq> t\<close> by (simp add: walk_def Let_def)
  next
    case False
    then show ?thesis
      using D(4) managed_va_pde [OF va] by (auto simp: walk_def Let_def dir_wf_def)
  qed
qed

text \<open>A frame that the physical memory manager hands out is fresh.\<close>

lemma alloc_fresh:
  assumes ok: "paging_ok pd f st" and run: "run_at (frames st) PMM_STATE_FREE (unat t) (unat (1 :: UINT))"
  shows "fresh st f t"
proof -
  have "\<not> not_free st t"
    using run by (auto simp: not_free_def run_at_def)
  then show ?thesis
    using paging_okD(5) [OF ok] by (auto simp: fresh_def structs_used_def)
qed

lemma paging_ok_alloc:
  assumes ok: "paging_ok pd f st" and st': "st' = st\<lparr>s_pab := s_pab st'\<rparr>" and inv: "pmm_inv st'"
    and fr: "frames st' = set_run (frames st) k n PMM_STATE_USED"
  shows "paging_ok pd f st'" "pm st' = pm st" "cr3 st' = cr3 st" "kernel_pt st' = kernel_pt st"
proof -
  show pm: "pm st' = pm st" and cr3: "cr3 st' = cr3 st"
    by (subst st', simp)+
  then show pt: "kernel_pt st' = kernel_pt st"
    by (simp add: kernel_pt_def)
  have "not_free st' x" if "not_free st x" for x
    using that by (auto simp: not_free_def fr nth_set_run)
  then show "paging_ok pd f st'"
    using ok inv unfolding paging_ok_def kernel_maps_def dir_ptr_def slot_used_def dir_wf_def structs_used_def pt pm cr3
    by blast
qed

text \<open>The first half of \<open>kpg_map\<close>: after it the page table of the address exists.\<close>

definition ensure_table :: "PTR \<Rightarrow> UINT \<Rightarrow> UINT \<Rightarrow> 'a paging_state_scheme \<Rightarrow> 'a paging_state_scheme option" where
  "ensure_table pd i flags st = do {
     (r, st) \<leftarrow> kpmm_alloc 1 PMM_REGION_ANY st;
     pa_new \<leftarrow> r;
     (tempva, st) \<leftarrow> s_internal_temporaryMap pa_new st;
     st \<leftarrow> clear_page tempva st;
     st \<leftarrow> s_internal_temporaryUnmap st;
     s_setupPDE (pd + 4 * i) pa_new flags st
   }"

lemma new_table_steps:
  assumes ok: "paging_ok pd f st" and t: "fresh st f t" "unat t < 1048576"
  shows "\<exists>st1 st2 w'. s_internal_temporaryMap (PAGEFRAMES_TO_BYTES t) st = Some (0xC03FF000, st1)
    \<and> clear_page 0xC03FF000 st1 = Some st2 \<and> \<not> entry_present w'
    \<and> s_internal_temporaryUnmap st2 = Some (set_word (kernel_pt st) 1023 w' (clear_frame t st))"
proof -
  note D = paging_okD [OF ok]
  have e: "entry_frame (PAGEFRAMES_TO_BYTES t) = t"
    using PAGEFRAMES_roundtrip [OF t(2)] by (simp add: entry_frame_def PAGEFRAMES_FLOOR_drop_bit)
  define st1 where "st1 = set_word (kernel_pt st) 1023 (new_entry (PAGEFRAMES_TO_BYTES t) 7) st"
  note T = table_access [OF D(1,3), of "PAGEFRAMES_TO_BYTES t", unfolded e, folded st1_def]
  let ?st2 = "clear_frame t st1"
  have tk: "t \<noteq> kernel_pt st" "t \<noteq> cr3 st"
    using t(1) by (auto simp: fresh_def)
  have c: "clear_page 0xC03FF000 st1 = Some ?st2"
    using T(5) by (simp add: clear_page_def mmu_def clear_frame_def)
  have pt2: "kernel_pt ?st2 = kernel_pt st" and km2: "kernel_maps ?st2" and used2: "slot_used 1023 ?st2"
    using T(2-4) tk by (auto simp: kernel_pt_def kernel_maps_def slot_used_def st1_def)
  obtain w' where w': "\<not> entry_present w'"
      "s_internal_temporaryUnmap ?st2 = Some (set_word (kernel_pt st) 1023 w' ?st2)"
    using table_release [OF km2 used2] pt2 by metis
  have "set_word (kernel_pt st) 1023 w' ?st2 = set_word (kernel_pt st) 1023 w' (clear_frame t st)"
    using tk by (simp add: st1_def set_word_def clear_frame_def fun_upd_twist)
  then show ?thesis
    using T(1) c w' by metis
qed

lemma ensure_table_spec:
  assumes ok: "paging_ok pd f st" and va: "i < 1023" "\<not> entry_present (pm st f i)"
    and mem: "\<exists>k. run_at (frames st) PMM_STATE_FREE k 1" and fl: "BIT_ISUNSET flags PG_MAP_FLAG_NOT_PRESENT"
  shows "\<exists>st'. ensure_table pd i flags st = Some st' \<and> paging_ok pd f st' \<and> entry_present (pm st' f i)
    \<and> (\<forall>va'. managed_va va' \<longrightarrow> walk (pm st') f va' = walk (pm st) f va')"
proof -
  have one: "0 < (1 :: UINT)" "unat (1 :: UINT) < 2 ^ 31"
    by simp_all
  from paging_okD(6) [OF ok] one show ?thesis
  proof (cases rule: kpmm_alloc_cases [where reg = PMM_REGION_ANY])
    case out_of_mem
    then show ?thesis
      using mem by auto
  next
    case (allocated t sta)
    note A = paging_ok_alloc [OF ok allocated(7,5,6)]
    have fresh: "fresh sta f t"
      using alloc_fresh [OF ok allocated(2)] by (simp add: fresh_def A)
    have small: "unat t < 1048576"
      using allocated(4) usable_pages_bound(1,2) [OF pmm_invD(1) [OF paging_okD(6) [OF ok]]] by simp
    have used: "not_free sta t"
      using allocated(2) by (auto simp: not_free_def allocated(6) nth_set_run run_at_def)
    obtain st1 st2 w' where S: "s_internal_temporaryMap (PAGEFRAMES_TO_BYTES t) sta = Some (0xC03FF000, st1)"
        "clear_page 0xC03FF000 st1 = Some st2" "\<not> entry_present w'"
        "s_internal_temporaryUnmap st2 = Some (set_word (kernel_pt sta) 1023 w' (clear_frame t sta))"
      using new_table_steps [OF A(1) fresh small] by blast
    note C = clear_frame_ok [OF A(1) fresh]
    define st3 where "st3 = set_word (kernel_pt sta) 1023 w' (clear_frame t sta)"
    note ok3 = slot_cleared [OF C(1) S(3), unfolded C(2), folded st3_def]
    have e: "entry_frame (new_entry (PAGEFRAMES_TO_BYTES t) flags) = t"
      using PAGEFRAMES_roundtrip [OF small] by (simp add: new_entry_fields PAGEFRAMES_FLOOR_drop_bit)
    have rows: "pm st3 f = pm st f" "pm st3 t = (\<lambda>_. 0)" "cr3 st3 = cr3 st" "kernel_pt st3 = kernel_pt st"
      using fresh paging_okD(7,8) [OF A(1)] A by (auto simp: st3_def fresh_def kernel_pt_def)
    have "fresh st3 f t" "not_free st3 t"
      using fresh used by (simp_all add: fresh_def rows A) (simp add: st3_def)
    note add = add_table_ok [OF ok3(1) this _ va(1) _ _ e]
    have "ensure_table pd i flags st = Some (set_word f i (new_entry (PAGEFRAMES_TO_BYTES t) flags) st3)"
      using allocated(1) S dir_ptr_access(2) [OF paging_okD(1,2) [OF ok3(1)], of i] va(1)
      by (simp add: ensure_table_def s_setupPDE_def st3_def CONFIG_PAGE_FRAME_SIZE_BYTES_def word_less_nat_alt)
    moreover have "entry_present (new_entry (PAGEFRAMES_TO_BYTES t) flags)"
      using fl by (simp add: new_entry_fields)
    ultimately show ?thesis
      using add rows va(2) ok3(2) C(3) A(2) by (auto simp: entry_present_def simp del: set_word_simps) simp
  qed
qed

lemma kpg_map_eq:
  assumes "IS_ALIGNED va 4096" "IS_ALIGNED pa 4096" "pd \<noteq> 0"
  shows "kpg_map pd va pa flags st = do {
     pde \<leftarrow> vread (pd + 4 * drop_bit 22 va) st;
     st \<leftarrow> (if \<not> entry_present pde then ensure_table pd (drop_bit 22 va) flags st else Some st);
     pde \<leftarrow> vread (pd + 4 * drop_bit 22 va) st;
     (tempva, st) \<leftarrow> s_internal_temporaryMap (PAGEFRAMES_TO_BYTES (entry_frame pde)) st;
     pte \<leftarrow> vread (tempva + 4 * take_bit 10 (drop_bit 12 va)) st;
     if entry_present pte then do {
       st \<leftarrow> s_internal_temporaryUnmap st;
       RETURN_ERROR ERR_DOUBLE_ALLOC False st
     }
     else do {
       st \<leftarrow> vwrite (tempva + 4 * take_bit 10 (drop_bit 12 va)) (new_entry pa flags) st;
       st \<leftarrow> s_internal_temporaryUnmap st;
       Some (True, st)
     }
   }"
  using assms by (simp add: kpg_map_def s_getTableIndices_eq(1) CONFIG_PAGE_FRAME_SIZE_BYTES_def
      ensure_table_def s_setupPTE_def cong: if_cong)

text \<open>The second half of \<open>kpg_map\<close>, when the page table exists.\<close>

lemma kpg_map_present:
  assumes ok: "paging_ok pd f st" and va: "managed_va va" "IS_ALIGNED va 4096" "IS_ALIGNED pa 4096"
    and pde: "entry_present (pm st f (drop_bit 22 va))" and fl: "BIT_ISUNSET flags PG_MAP_FLAG_NOT_PRESENT"
  shows "\<exists>st'. kpg_map pd va pa flags st = Some (walk (pm st) f va = None, st') \<and> paging_ok pd f st'
    \<and> (walk (pm st) f va \<noteq> None \<longrightarrow> errorNumber st' = ERR_DOUBLE_ALLOC)
    \<and> walk (pm st') f va = (case walk (pm st) f va of None \<Rightarrow> Some (drop_bit 12 pa) | Some fr \<Rightarrow> Some fr)
    \<and> (\<forall>va'. managed_va va' \<longrightarrow> drop_bit 12 va' \<noteq> drop_bit 12 va \<longrightarrow>
          walk (pm st') f va' = walk (pm st) f va')"
proof -
  note D = paging_okD [OF ok]
  note A = dir_ptr_access [OF D(1,2) s_getTableIndices_eq(2) [of va]]
  let ?t = "entry_frame (pm st f (drop_bit 22 va))" and ?j = "take_bit 10 (drop_bit 12 va)"
  note F = table_facts [OF ok va(1) pde]
  obtain st1 where T: "s_internal_temporaryMap (PAGEFRAMES_TO_BYTES ?t) st = Some (0xC03FF000, st1)"
      "vread (0xC03FF000 + 4 * ?j) st1 = Some (pm st ?t ?j)"
    and T3: "\<exists>w'. \<not> entry_present w' \<and> s_internal_temporaryUnmap st1 = Some (set_word (kernel_pt st) 1023 w' st)"
    and T4: "\<And>w. \<exists>st2 w'. vwrite (0xC03FF000 + 4 * ?j) w st1 = Some st2 \<and> \<not> entry_present w'
     \<and> s_internal_temporaryUnmap st2 = Some (set_word (kernel_pt st) 1023 w' (set_word ?t ?j w st))"
    by (rule table_ops [OF ok va(1) pde]) blast
  show ?thesis
  proof (cases "entry_present (pm st ?t ?j)")
    case True
    obtain w' where w': "\<not> entry_present w'"
        "s_internal_temporaryUnmap st1 = Some (set_word (kernel_pt st) 1023 w' st)"
      using T3 by blast
    then show ?thesis
      using True pde A T F(5) va slot_cleared [OF ok w'(1)]
      by (simp add: kpg_map_eq RETURN_ERROR_def)
  next
    case False
    let ?st = "set_word ?t ?j (new_entry pa flags) st"
    obtain st2 w' where w': "vwrite (0xC03FF000 + 4 * ?j) (new_entry pa flags) st1 = Some st2"
        "\<not> entry_present w'" "s_internal_temporaryUnmap st2 = Some (set_word (kernel_pt st) 1023 w' ?st)"
      using T4 by blast
    note U = walk_table_update [OF ok va(1) pde, where w = "new_entry pa flags"]
    have pt: "kernel_pt ?st = kernel_pt st"
      using F(2) by (simp add: kernel_pt_set_word)
    have "kpg_map pd va pa flags st = Some (True, set_word (kernel_pt st) 1023 w' ?st)"
      using False pde A T(1,2) w' va by (simp add: kpg_map_eq)
    then show ?thesis
      using slot_cleared [OF U(3) w'(2), unfolded pt] U(1,2) F(5) False va fl
      by (simp add: new_entry_fields del: set_word_simps)
  qed
qed

lemma kpg_map_spec:
  assumes ok: "paging_ok pd f st" and va: "managed_va va" "IS_ALIGNED va 4096" "IS_ALIGNED pa 4096"
    and mem: "\<exists>k. run_at (frames st) PMM_STATE_FREE k 1" and fl: "BIT_ISUNSET flags PG_MAP_FLAG_NOT_PRESENT"
  shows "\<exists>st'. kpg_map pd va pa flags st = Some (walk (pm st) f va = None, st') \<and> paging_ok pd f st'
    \<and> (walk (pm st) f va \<noteq> None \<longrightarrow> errorNumber st' = ERR_DOUBLE_ALLOC)
    \<and> walk (pm st') f va = (case walk (pm st) f va of None \<Rightarrow> Some (drop_bit 12 pa) | Some fr \<Rightarrow> Some fr)
    \<and> (\<forall>va'. managed_va va' \<longrightarrow> drop_bit 12 va' \<noteq> drop_bit 12 va \<longrightarrow>
          walk (pm st') f va' = walk (pm st) f va')"
proof (cases "entry_present (pm st f (drop_bit 22 va))")
  case True
  then show ?thesis
    by (rule kpg_map_present [OF ok va _ fl])
next
  case False
  obtain st1 where st1: "ensure_table pd (drop_bit 22 va) flags st = Some st1" "paging_ok pd f st1"
      "entry_present (pm st1 f (drop_bit 22 va))"
      "\<forall>va'. managed_va va' \<longrightarrow> walk (pm st1) f va' = walk (pm st) f va'"
    using ensure_table_spec [OF ok managed_va_pde [OF va(1)] False mem fl] by blast
  note A = dir_ptr_access [OF paging_okD(1,2) [OF ok] s_getTableIndices_eq(2) [of va]]
  note A1 = dir_ptr_access [OF paging_okD(1,2) [OF st1(2)] s_getTableIndices_eq(2) [of va]]
  have "kpg_map pd va pa flags st = kpg_map pd va pa flags st1"
    using False st1(1,3) A A1(1) va by (simp add: kpg_map_eq)
  then show ?thesis
    using kpg_map_present [OF st1(2) va st1(3) fl] st1(4) va(1) by auto
qed

section \<open>What clients rely on\<close>

text \<open>
  An address space, as the virtual memory manager sees it: a translation from pages to frames that
  three operations query, extend and shrink. \<open>room\<close> says that there is memory for a page table.
\<close>

locale address_space =
  fixes ok :: "'s \<Rightarrow> bool" and trans :: "'s \<Rightarrow> PTR \<Rightarrow> UINT option" and room :: "'s \<Rightarrow> bool"
    and addr :: "PTR \<Rightarrow> bool"
    and map_page :: "PTR \<Rightarrow> Physical \<Rightarrow> 's \<Rightarrow> (bool \<times> 's) option"
    and unmap_page :: "PTR \<Rightarrow> 's \<Rightarrow> (bool \<times> 's) option"
    and lookup :: "PTR \<Rightarrow> 's \<Rightarrow> (Physical option \<times> 's) option"
  assumes map_law: "ok st \<Longrightarrow> room st \<Longrightarrow> addr va \<Longrightarrow> IS_ALIGNED va 4096 \<Longrightarrow> IS_ALIGNED pa 4096 \<Longrightarrow>
      \<exists>st'. map_page va pa st = Some (trans st va = None, st') \<and> ok st'
        \<and> trans st' va = (case trans st va of None \<Rightarrow> Some (drop_bit 12 pa) | Some fr \<Rightarrow> Some fr)
        \<and> (\<forall>va'. addr va' \<longrightarrow> drop_bit 12 va' \<noteq> drop_bit 12 va \<longrightarrow> trans st' va' = trans st va')"
    and unmap_law: "ok st \<Longrightarrow> addr va \<Longrightarrow> IS_ALIGNED va 4096 \<Longrightarrow>
      \<exists>st'. unmap_page va st = Some (trans st va \<noteq> None, st') \<and> ok st' \<and> trans st' va = None
        \<and> (\<forall>va'. addr va' \<longrightarrow> drop_bit 12 va' \<noteq> drop_bit 12 va \<longrightarrow> trans st' va' = trans st va')"
    and lookup_law: "ok st \<Longrightarrow> addr va \<Longrightarrow>
      \<exists>st'. lookup va st = Some (map_option (\<lambda>fr. push_bit 12 fr OR take_bit 12 va) (trans st va), st')
        \<and> ok st' \<and> (\<forall>va'. addr va' \<longrightarrow> trans st' va' = trans st va')"
    and trans_page: "drop_bit 12 va = drop_bit 12 va' \<Longrightarrow> trans st va = trans st va'"
begin

lemma map_lookup_unmap:
  assumes "ok st" "room st" "addr va" "IS_ALIGNED va 4096" "IS_ALIGNED pa 4096" "trans st va = None"
  shows "\<exists>st1 st2 st3. map_page va pa st = Some (True, st1) \<and> lookup va st1 = Some (Some pa, st2)
    \<and> unmap_page va st2 = Some (True, st3) \<and> ok st3 \<and> (\<forall>va'. addr va' \<longrightarrow> trans st3 va' = trans st va')"
proof -
  obtain st1 where 1: "map_page va pa st = Some (True, st1)" "ok st1" "trans st1 va = Some (drop_bit 12 pa)"
      "\<forall>va'. addr va' \<longrightarrow> drop_bit 12 va' \<noteq> drop_bit 12 va \<longrightarrow> trans st1 va' = trans st va'"
    using map_law [OF assms(1-5)] assms(6) by auto
  have mask: "take_bit 12 va = 0" "push_bit 12 (drop_bit 12 pa) = pa"
  proof -
    have z: "take_bit 12 x = 0" if "IS_ALIGNED x 4096" for x
      using that and_pow2_minus_1 [of x 12] by (simp add: IS_ALIGNED_def)
    show "take_bit 12 va = 0"
      by (rule z [OF assms(4)])
    show "push_bit 12 (drop_bit 12 pa) = pa"
      using bits_ident [of 12 pa] z [OF assms(5)] by simp
  qed
  obtain st2 where 2: "lookup va st1 = Some (Some pa, st2)" "ok st2"
      "\<forall>va'. addr va' \<longrightarrow> trans st2 va' = trans st1 va'"
    using lookup_law [OF 1(2) assms(3)] 1(3) mask by auto
  obtain st3 where 3: "unmap_page va st2 = Some (True, st3)" "ok st3" "trans st3 va = None"
      "\<forall>va'. addr va' \<longrightarrow> drop_bit 12 va' \<noteq> drop_bit 12 va \<longrightarrow> trans st3 va' = trans st2 va'"
    using unmap_law [OF 2(2) assms(3,4)] 2(3) 1(3) assms(3) by auto
  have "\<forall>va'. addr va' \<longrightarrow> trans st3 va' = trans st va'"
    using 1(4) 2(3) 3(3,4) assms(6) trans_page by metis
  with 1 2 3 show ?thesis
    by blast
qed

end

lemma walk_same_page:
  assumes "drop_bit 12 va = drop_bit 12 (va' :: PTR)"
  shows "walk m f va = walk m f va'"
proof -
  have "drop_bit 10 (drop_bit 12 va) = drop_bit 10 (drop_bit 12 va')"
    by (simp only: assms)
  then have "drop_bit 22 va = drop_bit 22 va'"
    by simp
  then show ?thesis
    using assms by (simp add: walk_def Let_def)
qed

abbreviation (input) "has_free_frame st \<equiv> \<exists>k. run_at (frames st) PMM_STATE_FREE k 1"

abbreviation (input) "default_flags \<equiv> PG_MAP_FLAG_CACHE_ENABLED OR PG_MAP_FLAG_WRITABLE"

interpretation pg: address_space "paging_ok pd f" "\<lambda>st. walk (pm st) f" "\<lambda>st. has_free_frame st" managed_va
  "\<lambda>va pa. kpg_map pd va pa default_flags" "kpg_unmap pd" "kpg_doesMappingExists pd" for pd f
proof
  fix st :: "'a paging_state_scheme" and va va' pa
  show "drop_bit 12 va = drop_bit 12 va' \<Longrightarrow> walk (pm st) f va = walk (pm st) f va'"
    by (rule walk_same_page)
  assume ok: "paging_ok pd f st"
  assume va: "managed_va va"
  show "\<exists>st'. kpg_doesMappingExists pd va st =
      Some (map_option (\<lambda>fr. push_bit 12 fr OR take_bit 12 va) (walk (pm st) f va), st')
      \<and> paging_ok pd f st' \<and> (\<forall>va'. managed_va va' \<longrightarrow> walk (pm st') f va' = walk (pm st) f va')"
    by (rule kpg_doesMappingExists_spec [OF ok va])
  assume al: "IS_ALIGNED va 4096"
  show "\<exists>st'. kpg_unmap pd va st = Some (walk (pm st) f va \<noteq> None, st') \<and> paging_ok pd f st'
      \<and> walk (pm st') f va = None
      \<and> (\<forall>va'. managed_va va' \<longrightarrow> drop_bit 12 va' \<noteq> drop_bit 12 va \<longrightarrow>
            walk (pm st') f va' = walk (pm st) f va')"
    using kpg_unmap_spec [OF ok va al] by blast
  have fl: "BIT_ISUNSET default_flags PG_MAP_FLAG_NOT_PRESENT"
    by (simp add: BIT_ISUNSET_def BIT_ISSET_def PG_MAP_FLAG_NOT_PRESENT_def PG_MAP_FLAG_CACHE_ENABLED_def
        PG_MAP_FLAG_WRITABLE_def)
  assume "\<exists>k. run_at (frames st) PMM_STATE_FREE k 1" "IS_ALIGNED pa 4096"
  then show "\<exists>st'. kpg_map pd va pa default_flags st = Some (walk (pm st) f va = None, st') \<and> paging_ok pd f st'
      \<and> walk (pm st') f va = (case walk (pm st) f va of None \<Rightarrow> Some (drop_bit 12 pa) | Some fr \<Rightarrow> Some fr)
      \<and> (\<forall>va'. managed_va va' \<longrightarrow> drop_bit 12 va' \<noteq> drop_bit 12 va \<longrightarrow>
            walk (pm st') f va' = walk (pm st) f va')"
    using kpg_map_spec [OF ok va al _ _ fl] by blast
qed

section \<open>Properties\<close>

text \<open>
  C2. \<open>kpg_map\<close> does what it says. On well formed paging structures and with a free frame for a new
  page table, mapping an unmapped page succeeds, after which the directory translates the page to
  the given frame; mapping a mapped page fails with \<open>ERR_DOUBLE_ALLOC\<close> and keeps the old
  translation. In both cases no other page of the directory is affected, and the structures are
  well formed again, with the temporary map slot released.
\<close>

theorem kpg_map_correct:
  assumes "paging_ok pd f st" "managed_va va" "IS_ALIGNED va 4096" "IS_ALIGNED pa 4096"
    and "\<exists>k. run_at (frames st) PMM_STATE_FREE k 1" "BIT_ISUNSET flags PG_MAP_FLAG_NOT_PRESENT"
  shows "\<exists>st'. kpg_map pd va pa flags st = Some (walk (pm st) f va = None, st') \<and> paging_ok pd f st'
    \<and> (walk (pm st) f va \<noteq> None \<longrightarrow> errorNumber st' = ERR_DOUBLE_ALLOC)
    \<and> walk (pm st') f va = (case walk (pm st) f va of None \<Rightarrow> Some (drop_bit 12 pa) | Some fr \<Rightarrow> Some fr)
    \<and> (\<forall>va'. managed_va va' \<longrightarrow> drop_bit 12 va' \<noteq> drop_bit 12 va \<longrightarrow>
          walk (pm st') f va' = walk (pm st) f va')"
  by (rule kpg_map_spec [OF assms])

text \<open>
  C18. Mapping, querying and unmapping a page is a round trip: \<open>kpg_doesMappingExists\<close> returns the
  physical address that was mapped, \<open>kpg_unmap\<close> succeeds, and afterwards the directory translates
  every address as it did before.
\<close>

theorem kpg_map_unmap_roundtrip:
  assumes "paging_ok pd f st" "managed_va va" "IS_ALIGNED va 4096" "IS_ALIGNED pa 4096"
    and "\<exists>k. run_at (frames st) PMM_STATE_FREE k 1" "walk (pm st) f va = None"
  shows "\<exists>st1 st2 st3. kpg_map pd va pa (PG_MAP_FLAG_CACHE_ENABLED OR PG_MAP_FLAG_WRITABLE) st = Some (True, st1)
    \<and> kpg_doesMappingExists pd va st1 = Some (Some pa, st2) \<and> kpg_unmap pd va st2 = Some (True, st3)
    \<and> paging_ok pd f st3 \<and> (\<forall>va'. managed_va va' \<longrightarrow> walk (pm st3) f va' = walk (pm st) f va')"
  using pg.map_lookup_unmap [OF assms(1,5,2-4,6)] .

text \<open>
  The paging structures of the examples: the current directory is frame 1, with the kernel page table
  in frame 2 and its recursive entry; frame 3 is free.
\<close>

definition sample_paging :: paging_state where
  "sample_paging = kmalloc_state.extend (sample_kmalloc\<lparr>s_pab := [0x15]\<rparr>)
     \<lparr>pm = (\<lambda>_ _. 0)(1 := (\<lambda>_. 0)(768 := 0x2001, 1023 := 0x1001)), cr3 = 1\<rparr>"

lemma sample_paging_pmm:
  "frames sample_paging = [1, 1, 1, 0]" "pmm_inv sample_paging"
proof -
  have s: "s_pab sample_paging = [0x15]"
    "s_pmm_completeRegion sample_paging = s_pmm_completeRegion (sample_pmm [0x15])"
    "regionLength sample_paging = regionLength (sample_pmm [0x15])" "phase sample_paging = KERNEL_READY"
    by (simp_all add: sample_paging_def kmalloc_state.defs sample_kmalloc_def handle_state.defs
        sample_handles_def salloc_state.defs sample_salloc_def pmm_state.defs sample_pmm_def)
  have f: "frames sample_paging = frames (sample_pmm [0x15])"
    unfolding frames_def
    by (rule bitmap_states_cong) (simp_all add: s_getBitmapFromRegion_def Let_def s, simp add: sample_pmm_def)
  then show "frames sample_paging = [1, 1, 1, 0]"
    by (simp add: frames_sample_1)
  have "pmm_inv (sample_pmm [0x15])"
    by (rule sample_pmm_inv) simp
  then show "pmm_inv sample_paging"
    unfolding pmm_inv_def pmm_wf_def usable_pages_def f s by (simp add: sample_pmm_def)
qed

lemma sample_paging_ok: "paging_ok 0xFFFFF000 1 sample_paging"
proof -
  have pm: "pm sample_paging = (\<lambda>_ _. 0)(1 := (\<lambda>_. 0)(768 := 0x2001, 1023 := 0x1001))" "cr3 sample_paging = 1"
    by (simp_all add: sample_paging_def kmalloc_state.defs)
  have e: "entry_present 0x2001" "entry_present 0x1001" "entry_frame 0x2001 = 2" "entry_frame 0x1001 = 1"
      "\<not> entry_present 0"
    by (simp_all add: entry_present_def entry_frame_def)
  have pt: "kernel_pt sample_paging = 2"
    by (simp add: kernel_pt_def pm e)
  have nf: "not_free sample_paging 1" "not_free sample_paging 2"
    by (simp_all add: not_free_def sample_paging_pmm nth_Cons')
  show ?thesis
    using sample_paging_pmm(2) nf
    unfolding paging_ok_def kernel_maps_def dir_ptr_def slot_used_def dir_wf_def structs_used_def pt
    by (simp add: pm e)
qed

lemma sample_paging_walk: "walk (pm sample_paging) 1 0x400000 = None"
  by (simp add: walk_def sample_paging_def kmalloc_state.defs entry_present_def)

lemma sample_paging_free: "\<exists>k. run_at (frames sample_paging) PMM_STATE_FREE k 1"
  by (rule exI [of _ 3]) (simp add: run_at_def sample_paging_pmm)

theorem kpg_map_correct_witness:
  "\<exists>st'. kpg_map 0xFFFFF000 0x400000 0x5000 PG_MAP_FLAG_DEFAULT sample_paging = Some (True, st')
    \<and> walk (pm st') 1 0x400000 = Some 5"
proof -
  have fl: "BIT_ISUNSET PG_MAP_FLAG_DEFAULT PG_MAP_FLAG_NOT_PRESENT"
    by (simp add: BIT_ISUNSET_def BIT_ISSET_def PG_MAP_FLAG_NOT_PRESENT_def PG_MAP_FLAG_CACHE_ENABLED_def
        PG_MAP_FLAG_DEFAULT_def)
  show ?thesis
    using kpg_map_correct [OF sample_paging_ok _ _ _ sample_paging_free fl, of "0x400000" "0x5000"]
    by (auto simp: sample_paging_walk managed_va_def IS_ALIGNED_def)
qed

theorem kpg_map_unmap_roundtrip_witness:
  "\<exists>st1 st2 st3. kpg_map 0xFFFFF000 0x400000 0x5000 6 sample_paging = Some (True, st1)
    \<and> kpg_doesMappingExists 0xFFFFF000 0x400000 st1 = Some (Some 0x5000, st2)
    \<and> kpg_unmap 0xFFFFF000 0x400000 st2 = Some (True, st3) \<and> walk (pm st3) 1 0x400000 = None"
proof -
  have six: "PG_MAP_FLAG_CACHE_ENABLED OR PG_MAP_FLAG_WRITABLE = 6" and va: "managed_va 0x400000"
    by (simp_all add: PG_MAP_FLAG_CACHE_ENABLED_def PG_MAP_FLAG_WRITABLE_def managed_va_def)
  show ?thesis
    using kpg_map_unmap_roundtrip [OF sample_paging_ok va _ _ sample_paging_free sample_paging_walk, of "0x5000", unfolded six]
      sample_paging_walk va by (fastforce simp: IS_ALIGNED_def)
qed

end
