(* ===== verification/Page_Directory.thy ===== *)
theory Page_Directory
  imports Paging_Map
begin

text \<open>
  Creating and deleting page directories: what \<open>kpg_setupPageDirectory\<close> builds for a new process, and
  what \<open>kpg_deletePageDirectory\<close> leaves behind when it fails.
\<close>

section \<open>Two directories in the temporary map slots\<close>

definition set_row :: "UINT \<Rightarrow> (UINT \<Rightarrow> U32) \<Rightarrow> 'a paging_state_scheme \<Rightarrow> 'a paging_state_scheme" where
  "set_row t r st = st\<lparr>pm := (pm st)(t := r)\<rparr>"

lemma set_row_simps [simp]:
  "pm (set_row t r st) = (pm st)(t := r)" "cr3 (set_row t r st) = cr3 st"
  by (simp_all add: set_row_def)

lemma frames_set_row [simp]: "frames (set_row t r st) = frames st"
  unfolding frames_def by (rule bitmap_states_cong) (simp_all add: s_getBitmapFromRegion_def set_row_def Let_def)

lemma set_word_row: "set_word t i w st = set_row t ((pm st t)(i := w)) st"
  by (simp add: set_word_def set_row_def)

text \<open>\<open>both_slots t k\<close>: the directory \<open>t\<close> is in the internal slot and \<open>k\<close> in the external one.\<close>

definition both_slots :: "UINT \<Rightarrow> UINT \<Rightarrow> 'a paging_state_scheme \<Rightarrow> bool" where
  "both_slots t k st \<longleftrightarrow> kernel_maps st \<and> slot_used 1023 st \<and> entry_frame (pm st (kernel_pt st) 1023) = t
     \<and> slot_used 1022 st \<and> entry_frame (pm st (kernel_pt st) 1022) = k
     \<and> t \<noteq> cr3 st \<and> t \<noteq> kernel_pt st \<and> t \<noteq> k"

lemma both_slots_access:
  assumes "both_slots t k st" "i < 1024"
  shows "vread (0xC03FF000 + 4 * i) st = Some (pm st t i)"
    "vwrite (0xC03FF000 + 4 * i) w st = Some (set_word t i w st)"
    "vread (0xC03FE000 + 4 * i) st = Some (pm st k i)"
proof -
  have w: "walk (pm st) (cr3 st) 0xC03FF000 = Some t" "walk (pm st) (cr3 st) 0xC03FE000 = Some k"
    using assms(1) walk_slot [of st] by (auto simp: both_slots_def)
  show "vread (0xC03FF000 + 4 * i) st = Some (pm st t i)"
    "vwrite (0xC03FF000 + 4 * i) w st = Some (set_word t i w st)"
    "vread (0xC03FE000 + 4 * i) st = Some (pm st k i)"
    using vread_page [OF _ assms(2) w(1)] vwrite_page [OF _ assms(2) w(1)] vread_page [OF _ assms(2) w(2)]
    by simp_all
qed

lemma both_slots_set_row:
  assumes "both_slots t k st"
  shows "both_slots t k (set_row t r st)" "kernel_pt (set_row t r st) = kernel_pt st"
proof -
  have "t \<noteq> cr3 st" "t \<noteq> kernel_pt st"
    using assms by (simp_all add: both_slots_def)
  then show pt: "kernel_pt (set_row t r st) = kernel_pt st"
    by (auto simp: kernel_pt_def)
  show "both_slots t k (set_row t r st)"
    using assms unfolding both_slots_def kernel_maps_def slot_used_def pt by auto
qed

lemma unat_eq_word: "unat (a :: UINT) = unat b \<Longrightarrow> a = b"
  by (simp add: word_unat_eq_iff)

lemma copyKernel_loop_eq:
  assumes "both_slots t k st" "unat pdi + n \<le> 1024"
  shows "copyKernel_loop n pdi 0xC03FF000 0xC03FE000 st =
    Some (set_row t (\<lambda>i. if unat pdi \<le> unat i \<and> unat i < unat pdi + n then pm st k i else pm st t i) st)"
  using assms
proof (induction n arbitrary: pdi st)
  case 0
  then show ?case
    by (simp add: set_row_def flip: not_less)
next
  case (Suc n)
  have pdi: "pdi < 1024" "unat (pdi + 1) = unat pdi + 1"
    using Suc.prems(2) by (simp_all add: word_less_nat_alt unat_add_word32)
  have k: "t \<noteq> k"
    using Suc.prems(1) by (simp add: both_slots_def)
  let ?st = "set_word t pdi (pm st k pdi) st"
  have ok: "both_slots t k ?st"
    unfolding set_word_row by (rule both_slots_set_row [OF Suc.prems(1)])
  have rows: "pm ?st k = pm st k" "pm ?st t = (pm st t)(pdi := pm st k pdi)"
    using k by simp_all
  have "copyKernel_loop (Suc n) pdi 0xC03FF000 0xC03FE000 st
      = copyKernel_loop n (pdi + 1) 0xC03FF000 0xC03FE000 ?st"
    using both_slots_access [OF Suc.prems(1) pdi(1)] by simp
  also have "\<dots> = Some (set_row t (\<lambda>i. if unat pdi + 1 \<le> unat i \<and> unat i < unat pdi + 1 + n
      then pm ?st k i else pm ?st t i) ?st)"
    using Suc.IH [OF ok, of "pdi + 1"] Suc.prems(2) pdi(2) by simp
  also have "(\<lambda>i. if unat pdi + 1 \<le> unat i \<and> unat i < unat pdi + 1 + n then pm ?st k i else pm ?st t i)
      = (\<lambda>i. if unat pdi \<le> unat i \<and> unat i < unat pdi + Suc n then pm st k i else pm st t i)"
    unfolding rows by (rule ext) (auto simp: not_less_eq_eq le_Suc_eq dest: unat_eq_word)
  finally show ?case
    by (simp add: set_row_def set_word_def)
qed

section \<open>Creating a directory\<close>

text \<open>The row of a directory that \<open>kpg_setupPageDirectory\<close> builds from the kernel directory's row.\<close>

definition process_row :: "UINT \<Rightarrow> (UINT \<Rightarrow> U32) \<Rightarrow> UINT \<Rightarrow> U32" where
  "process_row t krow i =
     (if unat i < 768 then 0
      else if i = 1023 then set_entry_frame t (krow 1023)
      else if unat i < 1023 then krow i else 0)"

definition directory_room :: "UINT \<Rightarrow> 'a paging_state_scheme \<Rightarrow> bool" where
  "directory_room k st \<longleftrightarrow> kernel_maps st \<and> \<not> slot_used 1022 st \<and> \<not> slot_used 1023 st \<and> pmm_inv st
     \<and> not_free st (cr3 st) \<and> not_free st (kernel_pt st) \<and> not_free st k \<and> k \<noteq> kernel_pt st"

lemma entry_frame_bytes: "unat t < 1048576 \<Longrightarrow> entry_frame (PAGEFRAMES_TO_BYTES t) = t"
  using PAGEFRAMES_roundtrip [of t] by (simp add: entry_frame_def PAGEFRAMES_FLOOR_drop_bit)

lemma entry_frame_new: "entry_frame (new_entry pa flags) = entry_frame pa"
  unfolding new_entry_fields by (simp add: entry_frame_def)

text \<open>
  The steps after the allocation of the frame \<open>t\<close>: clear it, copy the kernel half, set the recursive
  entry. \<open>k\<close> is the frame of the kernel directory.
\<close>

lemma setup_steps:
  fixes st :: "'a paging_state_scheme"
  assumes km: "kernel_maps st" and free: "\<not> slot_used 1022 st" "\<not> slot_used 1023 st"
    and t: "t \<noteq> cr3 st" "t \<noteq> kernel_pt st" "t \<noteq> k" "unat t < 1048576"
    and k: "k \<noteq> kernel_pt st" "unat k < 1048576"
  shows "\<exists>st1 st2 st3 st4 st5 w1 w2.
    s_internal_temporaryMap (PAGEFRAMES_TO_BYTES t) st = Some (0xC03FF000, st1)
    \<and> clear_page 0xC03FF000 st1 = Some st2
    \<and> kpg_temporaryMap (PAGEFRAMES_TO_BYTES k) st2 = Some (0xC03FE000, st3)
    \<and> copyKernel_loop 256 768 0xC03FF000 0xC03FE000 st3 = Some st4
    \<and> kpg_temporaryUnmap st4 = Some st5
    \<and> vread (0xC03FF000 + 4 * 1023) st5 = Some (pm st k 1023)
    \<and> (\<forall>w. \<exists>st6. vwrite (0xC03FF000 + 4 * 1023) w st5 = Some st6
         \<and> s_internal_temporaryUnmap st6 = Some (set_word (kernel_pt st) 1023 w1 (set_word (kernel_pt st) 1022 w2
              (set_row t (\<lambda>i. if i = 1023 then w else if 768 \<le> unat i \<and> unat i < 1024 then pm st k i else 0) st))))
    \<and> \<not> entry_present w1 \<and> \<not> entry_present w2"
proof -
  let ?p = "kernel_pt st"
  have neq: "?p \<noteq> cr3 st"
    using km by (simp add: kernel_maps_def)
  define e1 where "e1 = new_entry (PAGEFRAMES_TO_BYTES t) 7"
  define e2 where "e2 = new_entry (PAGEFRAMES_TO_BYTES k) 7"
  have e: "entry_present e1" "entry_frame e1 = t" "entry_present e2" "entry_frame e2 = k"
    using entry_frame_bytes [OF t(4)] entry_frame_bytes [OF k(2)]
    by (simp_all add: e1_def e2_def new_entry_7) (simp_all add: entry_frame_new)
  define st1 where "st1 = set_word ?p 1023 e1 st"
  define st2 where "st2 = set_row t (\<lambda>_. 0) st1"
  define st3 where "st3 = set_word ?p 1022 e2 st2"
  define row where "row = (\<lambda>i. if 768 \<le> unat i \<and> unat i < 1024 then pm st k i else 0)"
  define st4 where "st4 = set_row t row st3"
  define st5 where "st5 = set_word ?p 1022 (clear_present e2) st4"
  note T1 = table_access [OF km free(2), of "PAGEFRAMES_TO_BYTES t", unfolded entry_frame_bytes [OF t(4)],
      folded e1_def, folded st1_def]
  have clear: "clear_page 0xC03FF000 st1 = Some st2"
    using T1(5) by (simp add: clear_page_def mmu_def st2_def set_row_def)
  have pt: "kernel_pt st2 = ?p" "kernel_pt st3 = ?p" "kernel_pt st4 = ?p" "kernel_pt st5 = ?p"
    using neq t by (auto simp: kernel_pt_def st1_def st2_def st3_def st4_def st5_def)
  have maps: "kernel_maps st2" "kernel_maps st3" "kernel_maps st4" "kernel_maps st5"
    using km neq t unfolding kernel_maps_def pt
    by (auto simp: st1_def st2_def st3_def st4_def st5_def)
  have free2: "\<not> slot_used 1022 st2"
    using free(1) t unfolding slot_used_def pt by (auto simp: st1_def st2_def)
  have map2: "kpg_temporaryMap (PAGEFRAMES_TO_BYTES k) st2 = Some (0xC03FE000, st3)"
    using s_temporaryMap_eq [OF maps(1) _ free2, of "PAGEFRAMES_TO_BYTES k"] pt(1)
    by (simp add: kpg_temporaryMap_def kdefs slot_address_def st3_def e2_def)
  have both3: "both_slots t k st3"
    using maps(2) t k e unfolding both_slots_def slot_used_def pt by (auto simp: st1_def st2_def st3_def)
  have rows3: "pm st3 k = pm st k" "pm st3 t = (\<lambda>_. 0)"
    using t k by (auto simp: st1_def st2_def st3_def)
  have copy: "copyKernel_loop 256 768 0xC03FF000 0xC03FE000 st3 = Some st4"
    using copyKernel_loop_eq [OF both3, of 768 256, unfolded rows3] by (simp add: st4_def row_def)
  have used4: "slot_used 1022 st4" "slot_used 1023 st4" "slot_used 1023 st5"
    using t e unfolding slot_used_def pt by (auto simp: st1_def st2_def st3_def st4_def st5_def)
  have unmap: "kpg_temporaryUnmap st4 = Some st5"
    using s_temporaryUnmap_eq [OF maps(3) _ used4(1)] pt(3) t
    by (simp add: kpg_temporaryUnmap_def kdefs st5_def st4_def st3_def)
  have walk5: "walk (pm st5) (cr3 st5) 0xC03FF000 = Some t"
    using walk_slot(1) [OF maps(4)] used4(3) e t unfolding pt
    by (simp add: st5_def st4_def st3_def st2_def st1_def)
  have rd: "vread (0xC03FF000 + 4 * 1023) st5 = Some (pm st k 1023)"
    using vread_page [OF _ _ walk5, of 1023] t by (simp add: st5_def st4_def row_def)
  have wr: "\<exists>st6. vwrite (0xC03FF000 + 4 * 1023) w st5 = Some st6
      \<and> s_internal_temporaryUnmap st6 = Some (set_word ?p 1023 (clear_present e1) (set_word ?p 1022 (clear_present e2)
          (set_row t (\<lambda>i. if i = 1023 then w else if 768 \<le> unat i \<and> unat i < 1024 then pm st k i else 0) st)))" for w
  proof -
    let ?st6 = "set_word t 1023 w st5"
    have pt6: "kernel_pt ?st6 = ?p" and maps6: "kernel_maps ?st6"
      using pt(4) maps(4) t by (simp_all add: kernel_pt_set_word kernel_maps_set_word st5_def st4_def st3_def st2_def st1_def)
    have used6: "slot_used 1023 ?st6"
      using used4(3) t unfolding slot_used_def pt6 pt by simp
    have "pm ?st6 ?p 1023 = e1"
      using t by (simp add: st5_def st4_def st3_def st2_def st1_def)
    then have "s_internal_temporaryUnmap ?st6 = Some (set_word ?p 1023 (clear_present e1) ?st6)"
      using s_temporaryUnmap_eq [OF maps6 _ used6] pt6 by (simp add: s_internal_temporaryUnmap_def kdefs)
    moreover have "pm (set_word ?p 1023 (clear_present e1) ?st6) = pm (set_word ?p 1023 (clear_present e1)
        (set_word ?p 1022 (clear_present e2) (set_row t (\<lambda>i. if i = 1023 then w
           else if 768 \<le> unat i \<and> unat i < 1024 then pm st k i else 0) st)))"
      using t by (auto simp: fun_eq_iff st5_def st4_def st3_def st2_def st1_def row_def)
    then have "set_word ?p 1023 (clear_present e1) ?st6 = set_word ?p 1023 (clear_present e1)
        (set_word ?p 1022 (clear_present e2) (set_row t (\<lambda>i. if i = 1023 then w
           else if 768 \<le> unat i \<and> unat i < 1024 then pm st k i else 0) st))"
      by (simp add: set_word_def set_row_def st5_def st4_def st3_def st2_def st1_def)
    moreover have "vwrite (0xC03FF000 + 4 * 1023) w st5 = Some ?st6"
      using vwrite_page [OF _ _ walk5, of 1023] by simp
    ultimately show ?thesis
      by auto
  qed
  show ?thesis
    using T1(1) clear map2 copy unmap rd wr clear_present_fields(1) by blast
qed

lemma state_frame:
  assumes "st' = st\<lparr>s_pab := s_pab st'\<rparr>"
  shows "pm st' = pm st" "cr3 st' = cr3 st" "kernel_pt st' = kernel_pt st" "kernel_maps st' = kernel_maps st"
    "slot_used i st' = slot_used i st"
proof -
  show pm: "pm st' = pm st" and cr3: "cr3 st' = cr3 st"
    by (subst assms, simp)+
  then show "kernel_pt st' = kernel_pt st" "kernel_maps st' = kernel_maps st" "slot_used i st' = slot_used i st"
    by (simp_all add: kernel_pt_def kernel_maps_def slot_used_def)
qed

lemma process_row_eq:
  "(\<lambda>i. if i = 1023 then set_entry_frame t (krow 1023) else if 768 \<le> unat i \<and> unat i < 1024 then krow i else 0)
   = process_row t krow"
proof
  fix i :: UINT
  have "i = 1023 \<longleftrightarrow> unat i = 1023"
    by (simp add: word_unat_eq_iff)
  then show "(if i = 1023 then set_entry_frame t (krow 1023)
      else if 768 \<le> unat i \<and> unat i < 1024 then krow i else 0) = process_row t krow i"
    unfolding process_row_def by auto
qed

abbreviation new_process_flags :: UINT where
  "new_process_flags \<equiv> PG_NEWPD_FLAG_CREATE_NEW OR PG_NEWPD_FLAG_COPY_KERNEL_PAGES OR PG_NEWPD_FLAG_RECURSIVE_MAP"

lemma new_process_flags_set:
  "BIT_ISSET new_process_flags PG_NEWPD_FLAG_CREATE_NEW"
  "BIT_ISSET new_process_flags PG_NEWPD_FLAG_COPY_KERNEL_PAGES"
  "BIT_ISSET new_process_flags PG_NEWPD_FLAG_RECURSIVE_MAP"
  by (simp_all add: BIT_ISSET_def PG_NEWPD_FLAG_CREATE_NEW_def PG_NEWPD_FLAG_COPY_KERNEL_PAGES_def
      PG_NEWPD_FLAG_RECURSIVE_MAP_def)

text \<open>
  C19. Creating the page directory of a process, with the flags \<open>s_setupProcessAddressSpace\<close> passes. The
  call does not panic. Either no frame is free, and the call returns false with the error of the
  physical memory manager and nothing changed, or the directory is the lowest free frame \<open>t\<close>: its
  user half is empty, its kernel half is the kernel's, its last entry points back at \<open>t\<close>, only \<open>t\<close> became
  used, both temporary slots are free again, and no word of another frame changed, the two slots of the
  kernel page table apart.
\<close>

theorem kpg_setupPageDirectory_correct:
  fixes st :: "'a paging_state_scheme"
  assumes room: "directory_room k st" and k: "unat k < 1048576"
  shows "(kpg_setupPageDirectory pd new_process_flags (Some (PAGEFRAMES_TO_BYTES k)) st
            = Some (None, st\<lparr>errorNumber := ERR_OUT_OF_MEM\<rparr>)
          \<and> (\<forall>x. \<not> run_at (frames st) PMM_STATE_FREE x 1))
      \<or> (\<exists>t st'. kpg_setupPageDirectory pd new_process_flags (Some (PAGEFRAMES_TO_BYTES k)) st
            = Some (Some (PAGEFRAMES_TO_BYTES t), st')
          \<and> frames st ! unat t = PMM_STATE_FREE \<and> unat t < length (frames st)
          \<and> (\<forall>x < unat t. \<not> run_at (frames st) PMM_STATE_FREE x 1)
          \<and> frames st' = (frames st)[unat t := PMM_STATE_USED]
          \<and> pm st' t = process_row t (pm st k)
          \<and> \<not> slot_used 1022 st' \<and> \<not> slot_used 1023 st'
          \<and> (\<forall>f i. f \<noteq> t \<longrightarrow> (f = kernel_pt st \<longrightarrow> i \<noteq> 1022 \<and> i \<noteq> 1023) \<longrightarrow> pm st' f i = pm st f i))"
proof -
  have R: "kernel_maps st" "\<not> slot_used 1022 st" "\<not> slot_used 1023 st" "pmm_inv st"
    "not_free st (cr3 st)" "not_free st (kernel_pt st)" "not_free st k" "k \<noteq> kernel_pt st"
    using room by (simp_all add: directory_room_def)
  have one: "(0 :: UINT) < 1" "unat (1 :: UINT) < 2 ^ 31"
    by simp_all
  show ?thesis
    using R(4) one
  proof (cases rule: kpmm_alloc_cases [where reg = PMM_REGION_ANY])
    case out_of_mem
    then show ?thesis
      by (simp add: kpg_setupPageDirectory_def new_process_flags_set RETURN_ERROR_def)
  next
    case (allocated t st1)
    note F = state_frame [OF allocated(7)]
    have t: "frames st ! unat t = PMM_STATE_FREE" "unat t < length (frames st)"
      using allocated(2) by (simp_all add: run_at_def)
    have small: "unat t < 1048576"
      using allocated(4) usable_pages_bound(1,2) [OF pmm_invD(1) [OF R(4)]] by simp
    have neq: "t \<noteq> cr3 st1" "t \<noteq> kernel_pt st1" "t \<noteq> k"
      using t R(5-7) unfolding F not_free_def by auto
    have pre: "kernel_maps st1" "\<not> slot_used 1022 st1" "\<not> slot_used 1023 st1"
      using R unfolding F by blast+
    obtain st2 st3 st4 st5 st6 w1 w2 where S:
      "s_internal_temporaryMap (PAGEFRAMES_TO_BYTES t) st1 = Some (0xC03FF000, st2)"
      "clear_page 0xC03FF000 st2 = Some st3"
      "kpg_temporaryMap (PAGEFRAMES_TO_BYTES k) st3 = Some (0xC03FE000, st4)"
      "copyKernel_loop 256 768 0xC03FF000 0xC03FE000 st4 = Some st5"
      "kpg_temporaryUnmap st5 = Some st6"
      "vread (0xC03FF000 + 4 * 1023) st6 = Some (pm st1 k 1023)"
      and W: "\<And>w. \<exists>st7. vwrite (0xC03FF000 + 4 * 1023) w st6 = Some st7
        \<and> s_internal_temporaryUnmap st7 = Some (set_word (kernel_pt st1) 1023 w1 (set_word (kernel_pt st1) 1022 w2
           (set_row t (\<lambda>i. if i = 1023 then w else if 768 \<le> unat i \<and> unat i < 1024 then pm st1 k i else 0) st1)))"
      and np: "\<not> entry_present w1" "\<not> entry_present w2"
      using setup_steps [OF pre neq small _ k] R(8) unfolding F(3) by blast
    let ?p = "kernel_pt st"
    let ?st' = "set_word ?p 1023 w1 (set_word ?p 1022 w2 (set_row t (process_row t (pm st k)) st1))"
    obtain st7 where st7: "vwrite (0xC03FF000 + 4 * 1023) (set_entry_frame t (pm st k 1023)) st6 = Some st7"
        "s_internal_temporaryUnmap st7 = Some ?st'"
      using W [of "set_entry_frame t (pm st k 1023)"] unfolding F process_row_eq by blast
    have pf: "PHYSICAL_TO_PAGEFRAME (PAGEFRAMES_TO_BYTES t) = t"
      using PAGEFRAMES_roundtrip [OF small] by (simp add: kdefs)
    have run: "kpg_setupPageDirectory pd new_process_flags (Some (PAGEFRAMES_TO_BYTES k)) st
        = Some (Some (PAGEFRAMES_TO_BYTES t), ?st')"
      using allocated(1) S st7 pf
      by (simp add: kpg_setupPageDirectory_def new_process_flags_set kdefs F del: set_word_simps)
    have fr: "frames ?st' = (frames st)[unat t := PMM_STATE_USED]"
      using allocated(6) by (simp add: numeral_eq_Suc)
    have "kernel_pt ?st' = ?p"
      using neq R(1) unfolding F by (auto simp: kernel_pt_def kernel_maps_def F)
    then have slots: "\<not> slot_used 1022 ?st'" "\<not> slot_used 1023 ?st'"
      using np by (simp_all add: slot_used_def)
    have rows: "pm ?st' t = process_row t (pm st k)"
      "\<forall>f i. f \<noteq> t \<longrightarrow> (f = ?p \<longrightarrow> i \<noteq> 1022 \<and> i \<noteq> 1023) \<longrightarrow> pm ?st' f i = pm st f i"
      using neq unfolding F by (auto simp: F)
    show ?thesis
      using run t allocated(3) fr rows slots by (intro disjI2 exI [of _ t] exI [of _ ?st']) simp
  qed
qed

lemma sample_paging_room: "directory_room 1 sample_paging"
proof -
  note P = sample_paging_ok [unfolded paging_ok_def]
  have pm: "pm sample_paging = (\<lambda>_ _. 0)(1 := (\<lambda>_. 0)(768 := 0x2001, 1023 := 0x1001))" "cr3 sample_paging = 1"
    by (simp_all add: sample_paging_def kmalloc_state.defs)
  have pt: "kernel_pt sample_paging = 2"
    by (simp add: kernel_pt_def pm entry_frame_def)
  have "not_free sample_paging 1" "not_free sample_paging 2"
    by (simp_all add: not_free_def sample_paging_pmm nth_Cons')
  moreover have "\<not> slot_used 1022 sample_paging"
    unfolding slot_used_def pt by (simp add: pm entry_present_def)
  ultimately show ?thesis
    using P unfolding directory_room_def pt by (simp add: pm)
qed

theorem kpg_setupPageDirectory_correct_witness:
  "\<exists>st'. kpg_setupPageDirectory 0 new_process_flags (Some 0x1000) sample_paging = Some (Some 0x3000, st')
    \<and> pm st' 3 768 = 0x2001 \<and> entry_frame (pm st' 3 1023) = 3 \<and> frames st' = [1, 1, 1, 1]"
proof -
  have pm: "pm sample_paging 1 = (\<lambda>_. 0)(768 := 0x2001, 1023 := 0x1001)"
    by (simp add: sample_paging_def kmalloc_state.defs)
  have k: "PAGEFRAMES_TO_BYTES 1 = 0x1000" "PAGEFRAMES_TO_BYTES 3 = 0x3000"
    by (simp_all add: PAGEFRAMES_TO_BYTES_def kdefs)
  have three: "unat t < 4 \<Longrightarrow> [1, 1, 1, 0] ! unat t = (0 :: U8) \<Longrightarrow> t = 3" for t :: UINT
    by (auto simp: nth_Cons' word_unat_eq_iff split: if_splits)
  obtain t st' where T: "kpg_setupPageDirectory 0 new_process_flags (Some 0x1000) sample_paging
        = Some (Some (PAGEFRAMES_TO_BYTES t), st')"
      "frames sample_paging ! unat t = PMM_STATE_FREE" "unat t < length (frames sample_paging)"
      "frames st' = (frames sample_paging)[unat t := PMM_STATE_USED]" "pm st' t = process_row t (pm sample_paging 1)"
    using kpg_setupPageDirectory_correct [OF sample_paging_room, of 0, unfolded k] sample_paging_free by auto
  have "t = 3"
    using T(2,3) three unfolding sample_paging_pmm by simp
  then show ?thesis
    using T(1,4,5) unfolding sample_paging_pmm
    by (simp add: pm process_row_def entry_frame_def set_entry_frame_def k)
qed

end
