(* ===== verification/VMM.thy ===== *)
theory VMM
  imports Page_Directory
begin

text \<open>
  The virtual memory manager, \<open>src/kernel/vmm.c\<close> with \<open>include/vmm.h\<close> and \<open>include/vmm_struct.h\<close>,
  and \<open>kmalloc_init\<close>, which reserves the kernel heap through it. Two fields of an address space,
  \<open>processID\<close> and \<open>purpose\<close>, are notes for debugging that no operation reads; they count in the size
  of the structure and are left out otherwise.

  Managers, address spaces and shares are objects in kernel memory, found by their address. The
  \<open>adjMappingNode\<close> fields of the address spaces of a manager and its \<open>head\<close> are one intrusive list.
\<close>

section \<open>Data\<close>

definition VMM_MEMMAP_FLAG_NONE :: UINT where "VMM_MEMMAP_FLAG_NONE = 0"
definition VMM_MEMMAP_FLAG_KERNEL_PAGE :: UINT where "VMM_MEMMAP_FLAG_KERNEL_PAGE = 1"
definition VMM_MEMMAP_FLAG_READONLY :: UINT where "VMM_MEMMAP_FLAG_READONLY = 2"
definition VMM_MEMMAP_FLAG_NULLPAGE :: UINT where "VMM_MEMMAP_FLAG_NULLPAGE = 4"
definition VMM_MEMMAP_FLAG_IMMCOMMIT :: UINT where "VMM_MEMMAP_FLAG_IMMCOMMIT = 8"
definition VMM_MEMMAP_FLAG_COMMITTED :: UINT where "VMM_MEMMAP_FLAG_COMMITTED = 16"

record VMemoryShare =
  share_count :: SIZE
  refcount :: SIZE

record VMemoryManager =
  vm_start :: PTR
  vm_end :: PTR
  vm_isStaticAllocated :: bool
  parentProcessPD :: Physical
  pd_dirty :: bool
  physicalRegion :: KernelPhysicalMemoryRegions

record VMemoryAddressSpace =
  vas_isStaticAllocated :: bool
  vas_flags :: UINT
  start_vm :: PTR
  allocationSzBytes :: SIZE
  share :: PTR

text \<open>\<open>sizeof\<close> of the two structures on the 32 bit target.\<close>

definition sizeof_VMemoryManager :: SIZE where "sizeof_VMemoryManager = 32"
definition sizeof_VMemoryAddressSpace :: SIZE where "sizeof_VMemoryAddressSpace = 44"

record vmm_state = paging_state +
  vmms :: "PTR \<Rightarrow> VMemoryManager"
  vas_at :: "PTR \<Rightarrow> VMemoryAddressSpace"
  vas_list :: "PTR \<Rightarrow> PTR links"
  shares :: "PTR \<Rightarrow> VMemoryShare"
  kcontext :: PTR

section \<open>Operations\<close>

definition createNewVirtAddrSpace ::
  "PTR \<Rightarrow> PTR \<Rightarrow> SIZE \<Rightarrow> UINT \<Rightarrow> 'a vmm_state_scheme \<Rightarrow> (PTR \<times> 'a vmm_state_scheme) option" where
  "createNewVirtAddrSpace vmm start_va allocatedBytes flags st = do {
     let ready = KERNEL_PHASE_CHECK KMALLOC_READY st
     in do {
       (new, st) \<leftarrow> (if ready then kmallocz sizeof_VMemoryAddressSpace st
                    else kscalloc sizeof_VMemoryAddressSpace st);
       if new = 0 then RETURN_ERROR (errorNumber st) 0 st
       else do {
         k_assert (IS_ALIGNED allocatedBytes CONFIG_PAGE_FRAME_SIZE_BYTES);
         let st = st\<lparr>vas_at := (vas_at st)(new := \<lparr>vas_isStaticAllocated = \<not> ready, vas_flags = flags,
               start_vm = start_va, allocationSzBytes = allocatedBytes, share = 0\<rparr>),
             vas_list := (vas_list st)(vmm := list_init (NodeOf new) (vas_list st vmm))\<rparr>
         in Some (new, st)
       }
     }
   }"

text \<open>An insertion into the list of a manager.\<close>

abbreviation update_list :: "PTR \<Rightarrow> (PTR links \<Rightarrow> PTR links) \<Rightarrow> 'a vmm_state_scheme \<Rightarrow> 'a vmm_state_scheme" where
  "update_list vmm f st \<equiv> st\<lparr>vas_list := (vas_list st)(vmm := f (vas_list st vmm))\<rparr>"

definition vas_last :: "VMemoryAddressSpace \<Rightarrow> PTR" where
  "vas_last v = start_vm v + allocationSzBytes v - 1"

fun addVas_loop :: "PTR \<Rightarrow> PTR \<Rightarrow> PTR list \<Rightarrow> 'a vmm_state_scheme \<Rightarrow> (PTR \<times> 'a vmm_state_scheme) option" where
  "addVas_loop vmm newVas [] st =
     Some (newVas, update_list vmm (list_add_before HeadNode (NodeOf newVas)) st)"
| "addVas_loop vmm newVas (vas # rest) st = do {
     k_assert (vas \<noteq> 0);
     let newvas_startvm = start_vm (vas_at st newVas);
         newvas_endvm = vas_last (vas_at st newVas);
         vas_startvm = start_vm (vas_at st vas);
         vas_endvm = vas_last (vas_at st vas)
     in if newvas_startvm \<ge> vas_startvm \<and> newvas_startvm \<le> vas_endvm
           \<or> newvas_endvm \<ge> vas_startvm \<and> newvas_endvm \<le> vas_endvm
        then RETURN_ERROR ERR_VMM_OVERLAPING_VAS 0 st
        else if vas_startvm > newvas_startvm
        then Some (newVas, update_list vmm (list_add_before (NodeOf vas) (NodeOf newVas)) st)
        else addVas_loop vmm newVas rest st
   }"

definition addNewVirtualAddressSpace ::
  "PTR \<Rightarrow> PTR \<Rightarrow> SIZE \<Rightarrow> UINT \<Rightarrow> 'a vmm_state_scheme \<Rightarrow> (PTR \<times> 'a vmm_state_scheme) option" where
  "addNewVirtualAddressSpace vmm start_va szPages flags st =
     (let szBytes = PAGEFRAMES_TO_BYTES szPages
      in if \<not> IS_ALIGNED start_va CONFIG_PAGE_FRAME_SIZE_BYTES then RETURN_ERROR ERR_WRONG_ALIGNMENT 0 st
      else if start_va < vm_start (vmms st vmm) \<or> start_va + szBytes > vm_end (vmms st vmm)
      then RETURN_ERROR ERR_INVALID_RANGE 0 st
      else do {
        (newVas, st) \<leftarrow> createNewVirtAddrSpace vmm start_va szBytes flags st;
        if newVas = 0 then RETURN_ERROR (errorNumber st) 0 st
        else if list_is_empty (vas_list st vmm)
        then Some (newVas, update_list vmm (list_add_after HeadNode (NodeOf newVas)) st)
        else do {
          nodes \<leftarrow> list_for_each (vas_list st vmm);
          addVas_loop vmm newVas nodes st
        }
      })"

text \<open>The loop of \<open>find_next_va\<close>; \<open>prev\<close> is \<open>vas_prev\<close>, 0 in the first round.\<close>

fun nextVa_loop :: "VMemoryManager \<Rightarrow> SIZE \<Rightarrow> PTR \<Rightarrow> PTR list \<Rightarrow> (PTR \<Rightarrow> VMemoryAddressSpace) \<Rightarrow> PTR option" where
  "nextVa_loop m szBytes prev [] heap = do {
     k_assert (prev \<noteq> 0);
     let new_va = start_vm (heap prev) + allocationSzBytes (heap prev)
     in Some (if vm_end m - new_va \<ge> szBytes then new_va else 0)
   }"
| "nextVa_loop m szBytes prev (vas # rest) heap = do {
     k_assert (vas \<noteq> 0);
     k_assert (prev = 0 \<or> start_vm (heap vas) > start_vm (heap prev));
     let new_va = (if prev \<noteq> 0 then start_vm (heap prev) + allocationSzBytes (heap prev) else vm_start m);
         addr_space_gap = start_vm (heap vas) - new_va
     in if addr_space_gap \<ge> szBytes then Some new_va else nextVa_loop m szBytes vas rest heap
   }"

definition find_next_va :: "PTR \<Rightarrow> SIZE \<Rightarrow> 'a vmm_state_scheme \<Rightarrow> PTR option" where
  "find_next_va vmm szPages st =
     (let szBytes = PAGEFRAMES_TO_BYTES szPages
      in if list_is_empty (vas_list st vmm) then Some (vm_start (vmms st vmm))
      else do {
        nodes \<leftarrow> list_for_each (vas_list st vmm);
        nextVa_loop (vmms st vmm) szBytes 0 nodes (vas_at st)
      })"

text \<open>The address space that contains an address, 0 when there is none.\<close>

definition contains_va :: "VMemoryAddressSpace \<Rightarrow> PTR \<Rightarrow> bool" where
  "contains_va v va \<longleftrightarrow> va \<ge> start_vm v \<and> va < start_vm v + allocationSzBytes v"

definition find_vas :: "PTR \<Rightarrow> PTR \<Rightarrow> 'a vmm_state_scheme \<Rightarrow> PTR option" where
  "find_vas vmm startVA st = do {
     r \<leftarrow> list_find (\<lambda>vas. contains_va (vas_at st vas) startVA) (vas_list st vmm);
     Some (case r of None \<Rightarrow> 0 | Some vas \<Rightarrow> vas)
   }"

text \<open>
  The result of \<open>commitVirtualPages\<close> is its return value and what it wrote to \<open>outPA\<close>, \<open>None\<close> when it
  wrote nothing; whether \<open>outPA\<close> is a null pointer is up to the caller, who then ignores it.
\<close>

definition commitVirtualPages ::
  "PTR \<Rightarrow> PTR \<Rightarrow> Physical option \<Rightarrow> SIZE \<Rightarrow> PTR \<Rightarrow> 'a vmm_state_scheme
   \<Rightarrow> ((bool \<times> Physical option) \<times> 'a vmm_state_scheme) option" where
  "commitVirtualPages vmm vaStart paStart numPages vas st = do {
     (r, st) \<leftarrow> (case paStart of
                   None \<Rightarrow> kpmm_alloc numPages (physicalRegion (vmms st vmm)) st
                 | Some pa \<Rightarrow> Some (Some pa, st));
     case r of None \<Rightarrow> RETURN_ERROR (errorNumber st) (False, None) st
     | Some l_paStart \<Rightarrow>
         let flags = vas_flags (vas_at st vas);
             pgFlags = PG_MAP_FLAG_DEFAULT
               OR (if BIT_ISSET flags VMM_MEMMAP_FLAG_KERNEL_PAGE then PG_MAP_FLAG_KERNEL else 0)
               OR (if BIT_ISSET flags VMM_MEMMAP_FLAG_READONLY then 0 else PG_MAP_FLAG_WRITABLE)
         in do {
           (pd, st) \<leftarrow> kpg_temporaryMap (parentProcessPD (vmms st vmm)) st;
           (success, st) \<leftarrow> kpg_mapContinous pd vaStart l_paStart numPages pgFlags st;
           st \<leftarrow> kpg_temporaryUnmap st;
           if \<not> success then RETURN_ERROR (errorNumber st) (False, Some l_paStart) st
           else Some ((True, Some l_paStart),
             st\<lparr>vmms := (vmms st)(vmm := (vmms st vmm)\<lparr>pd_dirty := True\<rparr>)\<rparr>)
         }
   }"

definition k_panicOnError :: "'a kglobals_scheme \<Rightarrow> unit option" where
  "k_panicOnError st = k_assert (errorNumber st = ERR_NONE)"

fun freePages_loop ::
  "nat \<Rightarrow> PTR \<Rightarrow> PTR \<Rightarrow> PTR \<Rightarrow> 'a vmm_state_scheme \<Rightarrow> 'a vmm_state_scheme option" where
  "freePages_loop 0 pd va vas st = Some st"
| "freePages_loop (Suc n) pd va vas st = do {
     (r, st) \<leftarrow> kpg_doesMappingExists pd va st;
     st \<leftarrow> (case r of None \<Rightarrow> Some st
           | Some pa \<Rightarrow> do {
               (success, st) \<leftarrow> kpg_unmap pd va st;
               (if success then Some () else k_panicOnError st);
               if share (vas_at st vas) = 0 \<or> refcount (shares st (share (vas_at st vas))) = 1 then do {
                 (success, st) \<leftarrow> kpmm_free pa 1 st;
                 (if success then Some () else k_panicOnError st);
                 Some st
               }
               else Some st
             });
     freePages_loop n pd (va + CONFIG_PAGE_FRAME_SIZE_BYTES) vas st
   }"

definition kvmm_free :: "PTR \<Rightarrow> PTR \<Rightarrow> 'a vmm_state_scheme \<Rightarrow> (bool \<times> 'a vmm_state_scheme) option" where
  "kvmm_free vmm start_va st = do {
     k_assert (vmm \<noteq> 0);
     k_assert (start_va \<noteq> 0);
     vas \<leftarrow> find_vas vmm start_va st;
     if vas = 0 then RETURN_ERROR ERR_VMM_NOT_ALLOCATED False st
     else if vas_isStaticAllocated (vas_at st vas) then RETURN_ERROR ERR_INVALID_ARGUMENT False st
     else
       let s = share (vas_at st vas);
           st = (if s \<noteq> 0
                 then st\<lparr>shares := (shares st)(s := (shares st s)\<lparr>refcount := refcount (shares st s) - 1\<rparr>)\<rparr>
                 else st);
           szPages = BYTES_TO_PAGEFRAMES_CEILING (allocationSzBytes (vas_at st vas))
       in do {
         (pd, st) \<leftarrow> kpg_temporaryMap (parentProcessPD (vmms st vmm)) st;
         st \<leftarrow> freePages_loop (unat szPages) pd start_va vas st;
         st \<leftarrow> kpg_temporaryUnmap st;
         let st = update_list vmm (list_remove (NodeOf vas)) st
         in do {
           (_, st) \<leftarrow> kfree vas st;
           Some (True, st)
         }
       }
   }"

text \<open>The loop of \<open>kvmm_delete\<close>; \<open>None\<close> when it never ends.\<close>

partial_function (option) delete_loop :: "PTR \<Rightarrow> 'a vmm_state_scheme \<Rightarrow> 'a vmm_state_scheme option" where
  "delete_loop vmm st =
     (if list_is_empty (vas_list st vmm) then Some st
      else case nxt (vas_list st vmm) HeadNode of
        NodeOf vas \<Rightarrow> do {
          (_, st) \<leftarrow> kvmm_free vmm (start_vm (vas_at st vas)) st;
          delete_loop vmm st
        }
      | _ \<Rightarrow> None)"

declare delete_loop.simps [code]

text \<open>\<open>kvmm_delete\<close> also sets the caller's pointer to \<open>NULL\<close> when it returns true.\<close>

definition kvmm_delete :: "PTR \<Rightarrow> 'a vmm_state_scheme \<Rightarrow> (bool \<times> 'a vmm_state_scheme) option" where
  "kvmm_delete the_vmm st =
     (if vm_isStaticAllocated (vmms st the_vmm) then RETURN_ERROR ERR_INVALID_ARGUMENT False st
      else do {
        st \<leftarrow> delete_loop the_vmm st;
        (_, st) \<leftarrow> kfree the_vmm st;
        Some (True, st)
      })"

text \<open>\<open>kvmm_new\<close> does not assign \<open>isPageDirectoryDirty\<close>: it keeps what the memory held before.\<close>

definition kvmm_new ::
  "PTR \<Rightarrow> PTR \<Rightarrow> Physical \<Rightarrow> KernelPhysicalMemoryRegions \<Rightarrow> 'a vmm_state_scheme
   \<Rightarrow> (PTR \<times> 'a vmm_state_scheme) option" where
  "kvmm_new start end pd reg st =
     (if start \<ge> end then RETURN_ERROR ERR_INVALID_ARGUMENT 0 st
      else do {
        k_assert (pd \<noteq> 0);
        let ready = KERNEL_PHASE_CHECK KMALLOC_READY st
        in do {
          (new_vmm, st) \<leftarrow> (if ready then kmalloc sizeof_VMemoryManager st
                           else ksalloc sizeof_VMemoryManager st);
          if new_vmm = 0 then RETURN_ERROR (errorNumber st) 0 st
          else
            let m = (vmms st new_vmm)\<lparr>vm_start := start, vm_end := end, vm_isStaticAllocated := \<not> ready,
                      parentProcessPD := pd, physicalRegion := reg\<rparr>
            in Some (new_vmm, update_list new_vmm (list_init HeadNode) (st\<lparr>vmms := (vmms st)(new_vmm := m)\<rparr>))
        }
      })"

definition kvmm_checkbounds :: "PTR \<Rightarrow> PTR \<Rightarrow> 'a vmm_state_scheme \<Rightarrow> bool option" where
  "kvmm_checkbounds vmm addr st = do {
     k_assert (vmm \<noteq> 0);
     Some (addr \<ge> vm_start (vmms st vmm) \<and> addr < vm_end (vmms st vmm))
   }"

definition kvmm_findFree :: "PTR \<Rightarrow> SIZE \<Rightarrow> 'a vmm_state_scheme \<Rightarrow> PTR option" where
  "kvmm_findFree vmm szPages st = do {
     k_assert (vmm \<noteq> 0);
     k_assert (szPages \<noteq> 0);
     find_next_va vmm szPages st
   }"

text \<open>
  The three checks at the start of \<open>kvmm_memmap\<close> only log a message, so they are not part of the model.
  The result is the address and what was written to \<open>outPA\<close>.
\<close>

definition kvmm_memmap ::
  "PTR \<Rightarrow> PTR \<Rightarrow> Physical option \<Rightarrow> SIZE \<Rightarrow> UINT \<Rightarrow> 'a vmm_state_scheme
   \<Rightarrow> ((PTR \<times> Physical option) \<times> 'a vmm_state_scheme) option" where
  "kvmm_memmap vmm va pa szPages flags st = do {
     k_assert (vmm \<noteq> 0);
     va \<leftarrow> (if va = 0 then find_next_va vmm szPages st else Some va);
     (newVas, st) \<leftarrow> addNewVirtualAddressSpace vmm va szPages flags st;
     if newVas = 0 then RETURN_ERROR (errorNumber st) (0, None) st
     else if BIT_ISUNSET flags VMM_MEMMAP_FLAG_IMMCOMMIT then Some ((va, None), st)
     else do {
       ((success, outPA), st) \<leftarrow> commitVirtualPages vmm va pa szPages newVas st;
       if \<not> success then RETURN_ERROR (errorNumber st) (0, outPA) st
       else Some ((va, outPA), st)
     }
   }"

definition kvmm_commitPage :: "PTR \<Rightarrow> PTR \<Rightarrow> 'a vmm_state_scheme \<Rightarrow> (bool \<times> 'a vmm_state_scheme) option" where
  "kvmm_commitPage vmm va st = do {
     k_assert (vmm \<noteq> 0);
     vas \<leftarrow> find_vas vmm va st;
     if vas = 0 then RETURN_ERROR ERR_VMM_NOT_ALLOCATED False st
     else
       let flags = vas_flags (vas_at st vas)
       in if BIT_ISSET flags VMM_MEMMAP_FLAG_IMMCOMMIT \<or> BIT_ISSET flags VMM_MEMMAP_FLAG_COMMITTED
       then RETURN_ERROR ERR_DOUBLE_ALLOC False st
       else if BIT_ISSET flags VMM_MEMMAP_FLAG_NULLPAGE then RETURN_ERROR ERR_VMM_NULL_PAGE_ACCESS False st
       else do {
         ((success, _), st) \<leftarrow>
           commitVirtualPages vmm (ALIGN_DOWN va CONFIG_PAGE_FRAME_SIZE_BYTES) None 1 vas st;
         if \<not> success then RETURN_ERROR (errorNumber st) False st else Some (True, st)
       }
   }"

definition kvmm_getPageDirectory :: "PTR \<Rightarrow> 'a vmm_state_scheme \<Rightarrow> Physical option" where
  "kvmm_getPageDirectory vmm st = do {
     k_assert (vmm \<noteq> 0);
     Some (parentProcessPD (vmms st vmm))
   }"

definition kvmm_isPageDirectoryDirty :: "PTR \<Rightarrow> 'a vmm_state_scheme \<Rightarrow> (bool \<times> 'a vmm_state_scheme) option" where
  "kvmm_isPageDirectoryDirty vmm st = do {
     k_assert (vmm \<noteq> 0);
     Some (pd_dirty (vmms st vmm), st\<lparr>vmms := (vmms st)(vmm := (vmms st vmm)\<lparr>pd_dirty := False\<rparr>)\<rparr>)
   }"

text \<open>\<open>kmalloc_init\<close> of \<open>src/kernel/kmalloc.c\<close>.\<close>

definition kmalloc_init :: "'a vmm_state_scheme \<Rightarrow> 'a vmm_state_scheme option" where
  "kmalloc_init st = do {
     KERNEL_PHASE_VALIDATE VMM_READY st;
     ((buffer, _), st) \<leftarrow> kvmm_memmap (kcontext st) 0 None
        (BYTES_TO_PAGEFRAMES_CEILING ARCH_MEM_LEN_BYTES_KMALLOC) VMM_MEMMAP_FLAG_KERNEL_PAGE st;
     k_assert (buffer \<noteq> 0);
     h \<leftarrow> heap_init ARCH_MEM_LEN_BYTES_KMALLOC buffer (kheap st);
     KERNEL_PHASE_SET KMALLOC_READY (st\<lparr>kheap := h\<rparr>)
   }"

end
