(* ===== verification/Process.thy ===== *)
theory Process
  imports VMM
begin

text \<open>
  Processes and their scheduler: \<open>src/kernel/x86/process.c\<close> with \<open>include/process.h\<close> and
  \<open>include/x86/process.h\<close>, and \<open>k_memcpyToPhyMem\<close> of \<open>src/kernel/kstdlib.c\<close>, which loads a program.

  Process items, register states and events are objects in kernel memory, found by their address.
  Assigning through a null pointer is a page fault in the kernel, modelled as a panic. Fields that the
  code does not assign keep what the memory held.

  The scheduler queue is one intrusive list. The events queues have one head per process. In the
  lists of children both the heads and the nodes are fields of process items, so they are one set of
  links whose nodes are \<open>ChildHead\<close> and \<open>ChildNode\<close> of a process.
\<close>

section \<open>Data\<close>

definition PROCESS_ID_KERNEL :: UINT where "PROCESS_ID_KERNEL = 0"
definition KPROCESS_EXIT_CODE_FORCE_KILLED :: U8 where "KPROCESS_EXIT_CODE_FORCE_KILLED = 255"
definition MAX_PROCESS_COUNT :: UINT where "MAX_PROCESS_COUNT = 20"

datatype KProcessStates = PROCESS_STATE_INVALID | PROCESS_STATE_RUNNING | PROCESS_STATE_IDLE

definition PROCESS_FLAGS_NONE :: UINT where "PROCESS_FLAGS_NONE = 0"
definition PROCESS_FLAGS_KERNEL_PROCESS :: UINT where "PROCESS_FLAGS_KERNEL_PROCESS = 1"
definition PROCESS_FLAGS_THREAD :: UINT where "PROCESS_FLAGS_THREAD = 2"

definition KERNEL_EVENT_NONE :: UINT where "KERNEL_EVENT_NONE = 0"
definition KERNEL_EVENT_PROCCESS_YIELD_REQ :: UINT where "KERNEL_EVENT_PROCCESS_YIELD_REQ = 1"
definition KERNEL_EVENT_PROCCESS_CHILD_KILLED :: UINT where "KERNEL_EVENT_PROCCESS_CHILD_KILLED = 2"

record ProcessRegisterState =
  r_ebx :: U32
  r_esi :: U32
  r_edi :: U32
  r_esp :: U32
  r_ebp :: U32
  r_eip :: U32
  r_eflags :: U32
  r_cs :: U32
  r_ds :: U32

record KProcessSections =
  virtualMemoryStart :: PTR
  sizePages :: SIZE

record KProcessEvent =
  ev_event :: UINT
  ev_data :: U64

record KProcessInfo =
  p_binary :: KProcessSections
  p_stack :: KProcessSections
  p_data :: KProcessSections
  p_context :: PTR
  p_parent :: PTR
  processID :: UINT
  p_flags :: UINT
  p_state :: KProcessStates
  registerStates :: PTR

text \<open>\<open>sizeof\<close> of the structures on the 32 bit target.\<close>

definition sizeof_KProcessInfo :: SIZE where "sizeof_KProcessInfo = 80"
definition sizeof_ProcessRegisterState :: SIZE where "sizeof_ProcessRegisterState = 36"
definition sizeof_KProcessEvent :: SIZE where "sizeof_KProcessEvent = 20"

datatype child_node = ChildHead PTR | ChildNode PTR

record process_state = vmm_state +
  processCount :: UINT
  currentProcess :: PTR
  rootProcess :: PTR
  schedulerQueue :: "PTR links"
  pinfos :: "PTR \<Rightarrow> KProcessInfo"
  reg_states :: "PTR \<Rightarrow> ProcessRegisterState"
  kevents :: "PTR \<Rightarrow> KProcessEvent"
  eventsQueue :: "PTR \<Rightarrow> PTR links"
  childLinks :: "child_node links"

abbreviation update_pinfo ::
  "PTR \<Rightarrow> (KProcessInfo \<Rightarrow> KProcessInfo) \<Rightarrow> 'a process_state_scheme \<Rightarrow> 'a process_state_scheme" where
  "update_pinfo p f st \<equiv> st\<lparr>pinfos := (pinfos st)(p := f (pinfos st p))\<rparr>"

definition PROCESS_STACK_VA_TOP :: "PTR \<Rightarrow> SIZE \<Rightarrow> PTR" where
  "PROCESS_STACK_VA_TOP stackstart pages = stackstart + pages * CONFIG_PAGE_FRAME_SIZE_BYTES - 1"

definition ARCH_MEM_START_PROCESS_MEMORY :: PTR where "ARCH_MEM_START_PROCESS_MEMORY = 4 * 1024"
definition ARCH_MEM_END_PROCESS_MEMORY :: PTR where "ARCH_MEM_END_PROCESS_MEMORY = 3 * 1024 * 1024 * 1024 - 1"
definition ARCH_MEM_START_PROCESS_TEXT :: PTR where "ARCH_MEM_START_PROCESS_TEXT = 64 * 1024"
definition ARCH_MEM_LEN_BYTES_PROCESS_STACK :: SIZE where "ARCH_MEM_LEN_BYTES_PROCESS_STACK = 256 * 1024"
definition ARCH_MEM_LEN_BYTES_PROCESS_DATA :: SIZE where "ARCH_MEM_LEN_BYTES_PROCESS_DATA = 256 * 1024"

definition GDT_SELECTOR_FROM_INDEX :: "U32 \<Rightarrow> U32 \<Rightarrow> U32" where
  "GDT_SELECTOR_FROM_INDEX index rpl = push_bit 3 index OR rpl"
definition GDT_SELECTOR_KCODE :: U32 where "GDT_SELECTOR_KCODE = GDT_SELECTOR_FROM_INDEX 1 0"
definition GDT_SELECTOR_KDATA :: U32 where "GDT_SELECTOR_KDATA = GDT_SELECTOR_FROM_INDEX 2 0"
definition GDT_SELECTOR_KTSS :: U32 where "GDT_SELECTOR_KTSS = GDT_SELECTOR_FROM_INDEX 3 0"
definition GDT_SELECTOR_UCODE :: U32 where "GDT_SELECTOR_UCODE = GDT_SELECTOR_FROM_INDEX 4 3"
definition GDT_SELECTOR_UDATA :: U32 where "GDT_SELECTOR_UDATA = GDT_SELECTOR_FROM_INDEX 5 3"

definition X86_EFLAGS_BIT1_ALWAYS_ONE :: U32 where "X86_EFLAGS_BIT1_ALWAYS_ONE = 2"
definition X86_EFLAGS_INTERRUPT_ENABLE :: U32 where "X86_EFLAGS_INTERRUPT_ENABLE = 512"

section \<open>Copying to physical memory\<close>

text \<open>
  Writing a byte through a virtual address: the byte of the physical word it is in. The source bytes
  of \<open>k_memcpyToPhyMem\<close> are kernel data.
\<close>

definition set_byte :: "nat \<Rightarrow> U8 \<Rightarrow> U32 \<Rightarrow> U32" where
  "set_byte k b w = (w AND NOT (push_bit (8 * k) 0xFF)) OR push_bit (8 * k) (ucast b)"

definition vwrite_byte :: "PTR \<Rightarrow> U8 \<Rightarrow> 'a paging_state_scheme \<Rightarrow> 'a paging_state_scheme option" where
  "vwrite_byte va b st = do {
     (f, i) \<leftarrow> mmu st va;
     Some (set_word f i (set_byte (unat (take_bit 2 va)) b (pm st f i)) st)
   }"

fun memcpyPhy_bytes :: "nat \<Rightarrow> PTR \<Rightarrow> PTR \<Rightarrow> 'a paging_state_scheme \<Rightarrow> 'a paging_state_scheme option" where
  "memcpyPhy_bytes 0 dest src st = Some st"
| "memcpyPhy_bytes (Suc n) dest src st = do {
     st \<leftarrow> vwrite_byte (dest + of_nat n) (kmem st (src + of_nat n)) st;
     memcpyPhy_bytes n dest src st
   }"

fun memcpyPhy_pages ::
  "nat \<Rightarrow> Physical \<Rightarrow> PTR \<Rightarrow> UINT \<Rightarrow> SIZE \<Rightarrow> 'a paging_state_scheme \<Rightarrow> 'a paging_state_scheme option" where
  "memcpyPhy_pages 0 l_dest l_src destOffset remBytes st = do {
     (va, st) \<leftarrow> kpg_temporaryMap l_dest st;
     st \<leftarrow> memcpyPhy_bytes (unat remBytes) (va + destOffset) l_src st;
     kpg_temporaryUnmap st
   }"
| "memcpyPhy_pages (Suc k) l_dest l_src destOffset remBytes st = do {
     (va, st) \<leftarrow> kpg_temporaryMap l_dest st;
     st \<leftarrow> memcpyPhy_bytes (unat CONFIG_PAGE_FRAME_SIZE_BYTES) (va + destOffset) l_src st;
     st \<leftarrow> kpg_temporaryUnmap st;
     memcpyPhy_pages k (l_dest + CONFIG_PAGE_FRAME_SIZE_BYTES) (l_src + CONFIG_PAGE_FRAME_SIZE_BYTES) 0
       (remBytes - CONFIG_PAGE_FRAME_SIZE_BYTES) st
   }"

text \<open>The loop runs once per whole page in \<open>n\<close>, the last copy has the rest.\<close>

definition k_memcpyToPhyMem ::
  "Physical \<Rightarrow> PTR \<Rightarrow> UINT \<Rightarrow> UINT \<Rightarrow> SIZE \<Rightarrow> 'a paging_state_scheme \<Rightarrow> 'a paging_state_scheme option" where
  "k_memcpyToPhyMem dest src destOffset srcOffset n st = do {
     KERNEL_PHASE_VALIDATE VMM_READY st;
     memcpyPhy_pages (unat n div unat CONFIG_PAGE_FRAME_SIZE_BYTES) dest (src + srcOffset) destOffset n st
   }"

section \<open>Process items and the scheduler queue\<close>

definition s_processInfo_malloc :: "UINT \<Rightarrow> 'a process_state_scheme \<Rightarrow> (PTR \<times> 'a process_state_scheme) option" where
  "s_processInfo_malloc flags st = do {
     (pInfo, st) \<leftarrow> kmalloc sizeof_KProcessInfo st;
     if pInfo = 0 then RETURN_ERROR (errorNumber st) 0 st
     else do {
       (regs, st) \<leftarrow> kmalloc sizeof_ProcessRegisterState st;
       let st = update_pinfo pInfo (\<lambda>p. p\<lparr>registerStates := regs\<rparr>) st
       in if regs = 0 then RETURN_ERROR (errorNumber st) 0 st
       else
         let st = st\<lparr>processCount := processCount st + 1\<rparr>;
             st = update_pinfo pInfo (\<lambda>p. p\<lparr>p_state := PROCESS_STATE_INVALID, processID := processCount st, p_flags := flags\<rparr>) st
         in Some (pInfo, st\<lparr>schedulerQueue := list_init (NodeOf pInfo) (schedulerQueue st),
              eventsQueue := (eventsQueue st)(pInfo := list_init HeadNode (eventsQueue st pInfo)),
              childLinks := list_init (NodeOf (ChildNode pInfo)) (list_init (NodeOf (ChildHead pInfo)) (childLinks st))\<rparr>)
     }
   }"

definition s_dequeue :: "'a process_state_scheme \<Rightarrow> (PTR \<times> 'a process_state_scheme) option" where
  "s_dequeue st =
     (let (node, q) = dequeue (schedulerQueue st); st = st\<lparr>schedulerQueue := q\<rparr>
      in case node of NodeOf p \<Rightarrow> Some (p, st) | _ \<Rightarrow> RETURN_ERROR ERR_QUEUE_EMPTY 0 st)"

definition s_enqueue :: "PTR \<Rightarrow> 'a process_state_scheme \<Rightarrow> (bool \<times> 'a process_state_scheme) option" where
  "s_enqueue p st =
     (if processCount st \<ge> MAX_PROCESS_COUNT then RETURN_ERROR ERR_SCHEDULER_QUEUE_FULL False st
      else Some (True, st\<lparr>schedulerQueue := enqueue (NodeOf p) (schedulerQueue st)\<rparr>))"

definition s_getProcessInfoFromID :: "UINT \<Rightarrow> 'a process_state_scheme \<Rightarrow> (PTR \<times> 'a process_state_scheme) option" where
  "s_getProcessInfoFromID pid st = do {
     r \<leftarrow> list_find (\<lambda>p. processID (pinfos st p) = pid) (schedulerQueue st);
     case r of Some p \<Rightarrow> Some (p, st) | None \<Rightarrow> RETURN_ERROR ERR_INVALID_RANGE 0 st
   }"

section \<open>The current process\<close>

definition kprocess_getCurrentContext :: "'a process_state_scheme \<Rightarrow> PTR" where
  "kprocess_getCurrentContext st =
     (if currentProcess st = 0 then kcontext st else p_context (pinfos st (currentProcess st)))"

definition kprocess_getCurrentPID :: "'a process_state_scheme \<Rightarrow> UINT" where
  "kprocess_getCurrentPID st =
     (if currentProcess st = 0 then PROCESS_ID_KERNEL else processID (pinfos st (currentProcess st)))"

definition kprocess_getCurrentProcessDataSection :: "'a process_state_scheme \<Rightarrow> KProcessSections option" where
  "kprocess_getCurrentProcessDataSection st =
     (if currentProcess st = 0 then None else Some (p_data (pinfos st (currentProcess st))))"

section \<open>Events\<close>

definition kprocess_popEvent :: "UINT \<Rightarrow> 'a process_state_scheme \<Rightarrow> ((bool \<times> KProcessEvent) \<times> 'a process_state_scheme) option" where
  "kprocess_popEvent pid st = do {
     (pinfo, st) \<leftarrow> s_getProcessInfoFromID pid st;
     k_assert (pinfo \<noteq> 0);
     let (node, q) = dequeue (eventsQueue st pinfo);
         st = st\<lparr>eventsQueue := (eventsQueue st)(pinfo := q)\<rparr>
     in case node of
          NodeOf e \<Rightarrow> do {
            k_assert (e \<noteq> 0);
            let ev = kevents st e
            in do {
              (_, st) \<leftarrow> kfree e st;
              Some ((True, ev), st)
            }
          }
        | _ \<Rightarrow> Some ((True, \<lparr>ev_event = KERNEL_EVENT_NONE, ev_data = 0\<rparr>), st)
   }"

definition kprocess_pushEvent ::
  "UINT \<Rightarrow> UINT \<Rightarrow> UINT \<Rightarrow> 'a process_state_scheme \<Rightarrow> (bool \<times> 'a process_state_scheme) option" where
  "kprocess_pushEvent pid eventID eventData st = do {
     (pinfo, st) \<leftarrow> s_getProcessInfoFromID pid st;
     k_assert (pinfo \<noteq> 0);
     (e, st) \<leftarrow> kmalloc sizeof_KProcessEvent st;
     if e = 0 then RETURN_ERROR (errorNumber st) False st
     else
       let st = st\<lparr>kevents := (kevents st)(e := \<lparr>ev_event = eventID, ev_data = ucast eventData\<rparr>)\<rparr>
       in Some (True, st\<lparr>eventsQueue := (eventsQueue st)(pinfo :=
            enqueue (NodeOf e) (list_init (NodeOf e) (eventsQueue st pinfo)))\<rparr>)
   }"

section \<open>Memory of a new process\<close>

definition s_createProcessPageDirectory :: "PTR \<Rightarrow> 'a process_state_scheme \<Rightarrow> (bool \<times> 'a process_state_scheme) option" where
  "s_createProcessPageDirectory pinfo st =
     (if BIT_ISUNSET (p_flags (pinfos st pinfo)) PROCESS_FLAGS_THREAD then do {
        kernelPD \<leftarrow> kvmm_getPageDirectory (kcontext st) st;
        (r, st) \<leftarrow> kpg_setupPageDirectory 0
           (PG_NEWPD_FLAG_CREATE_NEW OR PG_NEWPD_FLAG_COPY_KERNEL_PAGES OR PG_NEWPD_FLAG_RECURSIVE_MAP) (Some kernelPD) st;
        case r of None \<Rightarrow> RETURN_ERROR (errorNumber st) False st
        | Some newPD \<Rightarrow> do {
            (vmm, st) \<leftarrow> kvmm_new ARCH_MEM_START_PROCESS_MEMORY ARCH_MEM_END_PROCESS_MEMORY newPD PMM_REGION_ANY st;
            let st = update_pinfo pinfo (\<lambda>p. p\<lparr>p_context := vmm\<rparr>) st
            in if vmm = 0 then do {
              (_, st) \<leftarrow> kpg_deletePageDirectory newPD PG_DELPD_FLAG_KEEP_KERNEL_PAGES st;
              RETURN_ERROR (errorNumber st) False st
            }
            else Some (True, st)
          }
      }
      else Some (True, update_pinfo pinfo (\<lambda>p. p\<lparr>p_context := kprocess_getCurrentContext st\<rparr>) st))"

definition s_setupProcessBinaryMemory ::
  "PTR \<Rightarrow> SIZE \<Rightarrow> PTR \<Rightarrow> 'a process_state_scheme \<Rightarrow> (bool \<times> 'a process_state_scheme) option" where
  "s_setupProcessBinaryMemory processStartAddress binLengthBytes pinfo st =
     (if BIT_ISSET (p_flags (pinfos st pinfo)) PROCESS_FLAGS_THREAD
      then Some (True, update_pinfo pinfo (\<lambda>p. p\<lparr>p_binary := (p_binary p)\<lparr>virtualMemoryStart := processStartAddress\<rparr>\<rparr>) st)
      else do {
        k_assert (pinfo \<noteq> 0 \<and> binLengthBytes > 0);
        let pages = BYTES_TO_PAGEFRAMES_CEILING binLengthBytes;
            st = update_pinfo pinfo (\<lambda>p. p\<lparr>p_binary :=
                   \<lparr>virtualMemoryStart = ARCH_MEM_START_PROCESS_TEXT, sizePages = pages\<rparr>\<rparr>) st
        in do {
          ((va, pa), st) \<leftarrow> kvmm_memmap (p_context (pinfos st pinfo)) ARCH_MEM_START_PROCESS_TEXT None pages
             VMM_MEMMAP_FLAG_IMMCOMMIT st;
          if va = 0 then RETURN_ERROR (errorNumber st) False st
          else do {
            pa \<leftarrow> pa;
            st \<leftarrow> k_memcpyToPhyMem pa processStartAddress 0 0 binLengthBytes st;
            Some (True, st)
          }
        }
      })"

definition s_setupProcessDataMemory :: "PTR \<Rightarrow> 'a process_state_scheme \<Rightarrow> (bool \<times> 'a process_state_scheme) option" where
  "s_setupProcessDataMemory pinfo st =
     (if BIT_ISUNSET (p_flags (pinfos st pinfo)) PROCESS_FLAGS_THREAD then do {
        let pages = BYTES_TO_PAGEFRAMES_CEILING ARCH_MEM_LEN_BYTES_PROCESS_DATA;
            st = update_pinfo pinfo (\<lambda>p. p\<lparr>p_data := (p_data p)\<lparr>sizePages := pages\<rparr>\<rparr>) st
        in do {
          ((va, _), st) \<leftarrow> kvmm_memmap (p_context (pinfos st pinfo)) 0 None pages VMM_MEMMAP_FLAG_NONE st;
          let st = update_pinfo pinfo (\<lambda>p. p\<lparr>p_data := (p_data p)\<lparr>virtualMemoryStart := va\<rparr>\<rparr>) st
          in if va = 0 then RETURN_ERROR (errorNumber st) False st else Some (True, st)
        }
      }
      else if currentProcess st \<noteq> 0
      then Some (True, update_pinfo pinfo (\<lambda>p. p\<lparr>p_data := p_data (pinfos st (currentProcess st))\<rparr>) st)
      else Some (True, update_pinfo pinfo (\<lambda>p. p\<lparr>p_data := \<lparr>virtualMemoryStart = 0, sizePages = 0\<rparr>\<rparr>) st))"

definition s_setupProcessStackMemory :: "PTR \<Rightarrow> 'a process_state_scheme \<Rightarrow> (bool \<times> 'a process_state_scheme) option" where
  "s_setupProcessStackMemory pinfo st =
     (let pages = BYTES_TO_PAGEFRAMES_CEILING ARCH_MEM_LEN_BYTES_PROCESS_STACK;
          st = update_pinfo pinfo (\<lambda>p. p\<lparr>p_stack := (p_stack p)\<lparr>sizePages := pages\<rparr>\<rparr>) st;
          ctx = p_context (pinfos st pinfo);
          flags = (if BIT_ISSET (p_flags (pinfos st pinfo)) PROCESS_FLAGS_KERNEL_PROCESS
                   then VMM_MEMMAP_FLAG_NONE OR VMM_MEMMAP_FLAG_KERNEL_PAGE OR VMM_MEMMAP_FLAG_IMMCOMMIT
                   else VMM_MEMMAP_FLAG_NONE)
      in do {
        stackVA \<leftarrow> kvmm_findFree ctx (pages + 2) st;
        if stackVA = 0 then RETURN_ERROR ERR_OUT_OF_MEM False st
        else do {
          ((va, _), st) \<leftarrow> kvmm_memmap ctx stackVA None 1 VMM_MEMMAP_FLAG_NULLPAGE st;
          if va = 0 then RETURN_ERROR (errorNumber st) False st
          else
            let stackVA = stackVA + CONFIG_PAGE_FRAME_SIZE_BYTES;
                st = update_pinfo pinfo (\<lambda>p. p\<lparr>p_stack := (p_stack p)\<lparr>virtualMemoryStart := stackVA\<rparr>\<rparr>) st
            in do {
              ((va, _), st) \<leftarrow> kvmm_memmap ctx stackVA None pages flags st;
              if va = 0 then RETURN_ERROR (errorNumber st) False st
              else do {
                ((va, _), st) \<leftarrow> kvmm_memmap ctx (stackVA + pages * CONFIG_PAGE_FRAME_SIZE_BYTES) None 1
                   VMM_MEMMAP_FLAG_NULLPAGE st;
                if va = 0 then RETURN_ERROR (errorNumber st) False st else Some (True, st)
              }
            }
        }
      })"

section \<open>Switching processes\<close>

text \<open>
  \<open>s_switchProcess\<close> either returns or leaves for the next process through \<open>jump_to_process\<close>, which
  loads the registers and, without a flag, the code and data segments of the user. The argument
  \<open>currentState\<close> is \<open>None\<close> for a null pointer.
\<close>

datatype switch = SwitchReturn bool | SwitchJump UINT ProcessRegisterState

definition s_switchProcess ::
  "PTR \<Rightarrow> ProcessRegisterState option \<Rightarrow> 'a process_state_scheme \<Rightarrow> (switch \<times> 'a process_state_scheme) option" where
  "s_switchProcess nextProcess currentProcessState st =
     (let cur = currentProcess st
      in do {
        k_assert (cur \<noteq> 0 \<longrightarrow> currentProcessState \<noteq> None);
        if cur \<noteq> 0 \<and> processID (pinfos st cur) = processID (pinfos st nextProcess)
        then Some (SwitchReturn True, st)
        else
          let st = (case (cur = 0, currentProcessState) of
                      (False, Some regs) \<Rightarrow> update_pinfo cur (\<lambda>p. p\<lparr>p_state := PROCESS_STATE_IDLE\<rparr>)
                        (st\<lparr>reg_states := (reg_states st)(registerStates (pinfos st cur) := regs)\<rparr>)
                    | _ \<Rightarrow> st)
          in do {
            pd \<leftarrow> kvmm_getPageDirectory (p_context (pinfos st nextProcess)) st;
            (status, st) \<leftarrow> kpmm_getPageStatus pd st;
            k_assert (status = PMM_STATE_USED);
            let st = update_pinfo nextProcess (\<lambda>p. p\<lparr>p_state := PROCESS_STATE_RUNNING\<rparr>) st;
                st = st\<lparr>currentProcess := nextProcess\<rparr>;
                st = (if p_parent (pinfos st nextProcess) = 0 then st\<lparr>rootProcess := nextProcess\<rparr> else st)
            in Some (SwitchJump (p_flags (pinfos st nextProcess)) (reg_states st (registerStates (pinfos st nextProcess))),
                 st\<lparr>cr3 := PHYSICAL_TO_PAGEFRAME pd\<rparr>)
          }
      })"

section \<open>Ending a process\<close>

definition change_parent_process :: "PTR \<Rightarrow> PTR \<Rightarrow> 'a process_state_scheme \<Rightarrow> 'a process_state_scheme option" where
  "change_parent_process p parent st = do {
     k_assert (p \<noteq> rootProcess st);
     let st = st\<lparr>childLinks := list_remove (NodeOf (ChildNode p)) (childLinks st)\<rparr>
     in do {
       (if parent \<noteq> 0 then Some () else None);
       let np = (if BIT_ISSET (p_flags (pinfos st parent)) PROCESS_FLAGS_THREAD
                 then p_parent (pinfos st parent) else parent);
           st = update_pinfo p (\<lambda>i. i\<lparr>p_parent := np\<rparr>) st
       in do {
         (if np \<noteq> 0 then Some () else None);
         Some (st\<lparr>childLinks := list_add_before (NodeOf (ChildHead np)) (NodeOf (ChildNode p)) (childLinks st)\<rparr>)
       }
     }
   }"

text \<open>
  The events are freed while the loop walks over them; \<open>kfree\<close> does not write to the block it frees,
  so the walk reads the links as they were.
\<close>

fun free_events :: "PTR list \<Rightarrow> 'a process_state_scheme \<Rightarrow> 'a process_state_scheme option" where
  "free_events [] st = Some st"
| "free_events (e # es) st = do {
     k_assert (e \<noteq> 0);
     (_, st) \<leftarrow> kfree e st;
     free_events es st
   }"

text \<open>The part of \<open>kprocess_kill_process\<close> after the memory of the process is released.\<close>

definition kill_finish :: "PTR \<Rightarrow> U8 \<Rightarrow> 'a process_state_scheme \<Rightarrow> (bool \<times> 'a process_state_scheme) option" where
  "kill_finish l_process exitCode st = do {
     (_, st) \<leftarrow> kfree (registerStates (pinfos st l_process)) st;
     events \<leftarrow> list_for_each (eventsQueue st l_process);
     st \<leftarrow> free_events events st;
     let st = st\<lparr>childLinks := list_remove (NodeOf (ChildNode l_process)) (childLinks st),
                 schedulerQueue := queue_remove (NodeOf l_process) (schedulerQueue st)\<rparr>
     in do {
       k_assert (p_parent (pinfos st l_process) \<noteq> 0);
       (_, st) \<leftarrow> kprocess_pushEvent (processID (pinfos st (p_parent (pinfos st l_process))))
          KERNEL_EVENT_PROCCESS_CHILD_KILLED (ucast exitCode) st;
       (_, st) \<leftarrow> kfree l_process st;
       Some (True, st\<lparr>processCount := processCount st - 1\<rparr>)
     }
   }"

text \<open>
  The context of a process that is not a thread: its address space and its page directory. When the
  current process uses it, the kernel directory is loaded first.
\<close>

definition kill_context :: "PTR \<Rightarrow> 'a process_state_scheme \<Rightarrow> 'a process_state_scheme option" where
  "kill_context l_process st = do {
     st \<leftarrow> (if currentProcess st \<noteq> 0
              \<and> p_context (pinfos st (currentProcess st)) = p_context (pinfos st l_process)
            then do {
              kpd \<leftarrow> kvmm_getPageDirectory (kcontext st) st;
              Some (st\<lparr>cr3 := PHYSICAL_TO_PAGEFRAME kpd\<rparr>)
            }
            else Some st);
     pd \<leftarrow> kvmm_getPageDirectory (p_context (pinfos st l_process)) st;
     (deleted, st) \<leftarrow> kvmm_delete (p_context (pinfos st l_process)) st;
     let st = (if deleted then update_pinfo l_process (\<lambda>p. p\<lparr>p_context := 0\<rparr>) st else st)
     in do {
       (_, st) \<leftarrow> kpg_deletePageDirectory pd PG_DELPD_FLAG_KEEP_KERNEL_PAGES st;
       Some st
     }
   }"

text \<open>The whole function, with the loop over the children as a parameter.\<close>

definition kill_process_with ::
  "(PTR \<Rightarrow> 'a process_state_scheme \<Rightarrow> 'a process_state_scheme option)
   \<Rightarrow> PTR \<Rightarrow> U8 \<Rightarrow> 'a process_state_scheme \<Rightarrow> (bool \<times> 'a process_state_scheme) option" where
  "kill_process_with children l_process exitCode st =
     (if processCount st = 0 then RETURN_ERROR ERR_PROC_EXIT_NOT_ALLOWED False st
      else if l_process = 0 then None
      else if p_parent (pinfos st l_process) = 0 then RETURN_ERROR ERR_PROC_EXIT_NOT_ALLOWED False st
      else do {
        st \<leftarrow> (if BIT_ISUNSET (p_flags (pinfos st l_process)) PROCESS_FLAGS_THREAD then do {
                st \<leftarrow> children l_process st;
                kill_context l_process st
              }
              else do {
                k_assert (nxt (childLinks st) (NodeOf (ChildHead l_process)) = NodeOf (ChildHead l_process)
                        \<and> prv (childLinks st) (NodeOf (ChildHead l_process)) = NodeOf (ChildHead l_process));
                (_, st) \<leftarrow> kvmm_free (p_context (pinfos st l_process))
                   (virtualMemoryStart (p_stack (pinfos st l_process))) st;
                Some st
              });
        kill_finish l_process exitCode st
      })"

text \<open>
  The loop over the children: always the first one, until there is none. A child that is a thread is
  killed by the same function, which has no children to look at then; any other child goes to the root
  process. \<open>None\<close> also when the loop does not end.
\<close>

partial_function (option) kill_children ::
  "PTR \<Rightarrow> 'a process_state_scheme \<Rightarrow> 'a process_state_scheme option" where
  "kill_children l_process st =
     (case nxt (childLinks st) (NodeOf (ChildHead l_process)) of
        NodeOf (ChildNode c) \<Rightarrow> do {
          k_assert (c \<noteq> 0);
          st \<leftarrow> (if BIT_ISUNSET (p_flags (pinfos st c)) PROCESS_FLAGS_THREAD then do {
                  st \<leftarrow> change_parent_process c (rootProcess st) st;
                  k_assert (p_parent (pinfos st c) = rootProcess st);
                  Some st
                }
                else do {
                  (killed, st) \<leftarrow> kill_process_with (\<lambda>_ _. None) c KPROCESS_EXIT_CODE_FORCE_KILLED st;
                  k_assert killed;
                  Some st
                });
          kill_children l_process st
        }
      | NodeOf (ChildHead h) \<Rightarrow> if h = l_process then Some st else None
      | _ \<Rightarrow> None)"

declare kill_children.simps [code]

definition kprocess_kill_process ::
  "PTR \<Rightarrow> U8 \<Rightarrow> 'a process_state_scheme \<Rightarrow> (bool \<times> 'a process_state_scheme) option" where
  "kprocess_kill_process = kill_process_with kill_children"

section \<open>Creating processes\<close>

definition kprocess_init :: "'a process_state_scheme \<Rightarrow> 'a process_state_scheme" where
  "kprocess_init st = st\<lparr>schedulerQueue := list_init HeadNode (schedulerQueue st)\<rparr>"

text \<open>The registers a process starts with.\<close>

definition initial_registers :: "KProcessInfo \<Rightarrow> ProcessRegisterState" where
  "initial_registers p =
     (let isKernel = BIT_ISSET (p_flags p) PROCESS_FLAGS_KERNEL_PROCESS
      in \<lparr>r_ebx = 0, r_esi = 0, r_edi = 0,
          r_esp = PROCESS_STACK_VA_TOP (virtualMemoryStart (p_stack p)) (sizePages (p_stack p)), r_ebp = 0,
          r_eip = virtualMemoryStart (p_binary p),
          r_eflags = X86_EFLAGS_INTERRUPT_ENABLE OR X86_EFLAGS_BIT1_ALWAYS_ONE,
          r_cs = (if isKernel then GDT_SELECTOR_KCODE else GDT_SELECTOR_UCODE),
          r_ds = (if isKernel then GDT_SELECTOR_KDATA else GDT_SELECTOR_UDATA)\<rparr>)"

text \<open>The \<open>failure\<close> label of \<open>kprocess_create\<close>.\<close>

definition create_failure :: "PTR \<Rightarrow> 'a process_state_scheme \<Rightarrow> (U32 \<times> 'a process_state_scheme) option" where
  "create_failure pinfo st = do {
     (_, st) \<leftarrow> kprocess_kill_process pinfo KPROCESS_EXIT_CODE_FORCE_KILLED st;
     RETURN_ERROR (errorNumber st) KERNEL_EXIT_FAILURE st
   }"

text \<open>The steps of \<open>kprocess_create\<close> after the memory of the process is set up.\<close>

definition create_finish :: "PTR \<Rightarrow> 'a process_state_scheme \<Rightarrow> (U32 \<times> 'a process_state_scheme) option" where
  "create_finish pinfo st = do {
     let st = update_pinfo pinfo (\<lambda>p. p\<lparr>p_parent := 0\<rparr>) st
     in do {
       st \<leftarrow> (if currentProcess st = 0 then do {
               k_assert (BIT_ISUNSET (p_flags (pinfos st pinfo)) PROCESS_FLAGS_THREAD);
               Some st
             }
             else do {
               st \<leftarrow> change_parent_process pinfo (currentProcess st) st;
               k_assert (p_parent (pinfos st pinfo) \<noteq> 0);
               Some st
             });
       let st = st\<lparr>reg_states := (reg_states st)(registerStates (pinfos st pinfo) := initial_registers (pinfos st pinfo))\<rparr>;
           st = update_pinfo pinfo (\<lambda>p. p\<lparr>p_state := PROCESS_STATE_IDLE\<rparr>) st
       in do {
         (ok, st) \<leftarrow> s_enqueue pinfo st;
         if ok then Some (processID (pinfos st pinfo), st) else create_failure pinfo st
       }
     }
   }"

definition kprocess_create ::
  "PTR \<Rightarrow> SIZE \<Rightarrow> UINT \<Rightarrow> 'a process_state_scheme \<Rightarrow> (U32 \<times> 'a process_state_scheme) option" where
  "kprocess_create processStartAddress binLengthBytes flags st =
     (if processCount st = MAX_PROCESS_COUNT
      then RETURN_ERROR ERR_PROC_CREATE_NOT_ALLOWED KERNEL_EXIT_FAILURE st
      else if currentProcess st = 0 \<and> BIT_ISSET flags PROCESS_FLAGS_THREAD
      then RETURN_ERROR ERR_PROC_CREATE_NOT_ALLOWED KERNEL_EXIT_FAILURE st
      else if currentProcess st = 0 \<and> processCount st > 0
      then RETURN_ERROR ERR_PROC_CREATE_NOT_ALLOWED KERNEL_EXIT_FAILURE st
      else do {
        (pinfo, st) \<leftarrow> s_processInfo_malloc flags st;
        if pinfo = 0 then create_failure 0 st
        else do {
          (ok, st) \<leftarrow> s_createProcessPageDirectory pinfo st;
          if \<not> ok then create_failure pinfo st
          else do {
            (ok, st) \<leftarrow> s_setupProcessBinaryMemory processStartAddress binLengthBytes pinfo st;
            if \<not> ok then create_failure pinfo st
            else do {
              (ok, st) \<leftarrow> s_setupProcessStackMemory pinfo st;
              if \<not> ok then create_failure pinfo st
              else do {
                (ok, st) \<leftarrow> s_setupProcessDataMemory pinfo st;
                if \<not> ok then create_failure pinfo st else create_finish pinfo st
              }
            }
          }
        }
      })"

section \<open>The scheduler\<close>

text \<open>The loop of \<open>kprocess_yield\<close>: the process it selects, or \<open>None\<close> after an error of \<open>s_enqueue\<close>.\<close>

partial_function (option) yield_loop :: "'a process_state_scheme \<Rightarrow> (PTR option \<times> 'a process_state_scheme) option" where
  "yield_loop st = do {
     (pinfo, st) \<leftarrow> s_dequeue st;
     if pinfo = 0 then None
     else do {
       (ok, st) \<leftarrow> s_enqueue pinfo st;
       if \<not> ok then RETURN_ERROR (errorNumber st) None st
       else if processCount st > 1 \<and> currentProcess st \<noteq> 0
            \<and> processID (pinfos st pinfo) = processID (pinfos st (currentProcess st))
       then yield_loop st
       else Some (Some pinfo, st)
     }
   }"

declare yield_loop.simps [code]

definition kprocess_yield ::
  "ProcessRegisterState option \<Rightarrow> 'a process_state_scheme \<Rightarrow> (switch \<times> 'a process_state_scheme) option" where
  "kprocess_yield currentState st = do {
     (r, st) \<leftarrow> yield_loop st;
     case r of None \<Rightarrow> Some (SwitchReturn False, st)
     | Some pinfo \<Rightarrow> do {
         k_assert (p_state (pinfos st pinfo) \<noteq> PROCESS_STATE_INVALID);
         s_switchProcess pinfo currentState st
       }
   }"

text \<open>
  \<open>kprocess_exit\<close>: when the process cannot be killed the function returns a variable that was never
  assigned, \<open>ExitUndefined\<close>. The change to the kernel stack has no effect on the state modelled here.
\<close>

datatype exit_result = ExitUndefined | ExitYield switch

definition kprocess_exit :: "U8 \<Rightarrow> bool \<Rightarrow> 'a process_state_scheme \<Rightarrow> (exit_result \<times> 'a process_state_scheme) option" where
  "kprocess_exit exitCode destroyContext st = do {
     k_assert (currentProcess st \<noteq> 0);
     let cur = pinfos st (currentProcess st);
         process = (if destroyContext \<and> p_parent cur \<noteq> 0 \<and> BIT_ISSET (p_flags cur) PROCESS_FLAGS_THREAD
                    then p_parent cur else currentProcess st)
     in do {
       (killed, st) \<leftarrow> kprocess_kill_process process exitCode st;
       if \<not> killed then Some (ExitUndefined, st)
       else do {
         (r, st) \<leftarrow> kprocess_yield None (st\<lparr>currentProcess := 0\<rparr>);
         Some (ExitYield r, st)
       }
     }
   }"

section \<open>Page directories\<close>

fun syncPD_loop :: "PTR list \<Rightarrow> Physical \<Rightarrow> 'a process_state_scheme \<Rightarrow> 'a process_state_scheme option" where
  "syncPD_loop [] kernelPD st = Some st"
| "syncPD_loop (p # ps) kernelPD st = do {
     pd \<leftarrow> kvmm_getPageDirectory (p_context (pinfos st p)) st;
     (r, st) \<leftarrow> kpg_setupPageDirectory pd (PG_NEWPD_FLAG_COPY_KERNEL_PAGES OR PG_NEWPD_FLAG_RECURSIVE_MAP)
        (Some kernelPD) st;
     k_assert (r \<noteq> None);
     syncPD_loop ps kernelPD st
   }"

definition kprocess_syncPD :: "'a process_state_scheme \<Rightarrow> 'a process_state_scheme option" where
  "kprocess_syncPD st =
     (if \<not> KERNEL_PHASE_CHECK KERNEL_READY st then Some st
      else do {
        kernelPD \<leftarrow> kvmm_getPageDirectory (kcontext st) st;
        ps \<leftarrow> list_for_each (schedulerQueue st);
        syncPD_loop ps kernelPD st
      })"

end
