(* ===== verification/VMM_Spaces.thy ===== *)
theory VMM_Spaces
  imports VMM
begin

text \<open>
  The address spaces of a virtual memory manager as a sorted list of disjoint intervals: the search for
  a gap is first fit, a reservation inserts one interval, and committing a page backs it with a frame
  of its own.
\<close>

section \<open>Intervals\<close>

abbreviation lo :: "VMemoryAddressSpace \<Rightarrow> nat" where "lo v \<equiv> unat (start_vm v)"
abbreviation sz :: "VMemoryAddressSpace \<Rightarrow> nat" where "sz v \<equiv> unat (allocationSzBytes v)"
abbreviation hi :: "VMemoryAddressSpace \<Rightarrow> nat" where "hi v \<equiv> lo v + sz v"

text \<open>The spaces are sorted, do not overlap and lie between \<open>a\<close> and \<open>e\<close>.\<close>

fun spaced :: "nat \<Rightarrow> nat \<Rightarrow> VMemoryAddressSpace list \<Rightarrow> bool" where
  "spaced a e [] \<longleftrightarrow> a \<le> e"
| "spaced a e (v # vs) \<longleftrightarrow> a \<le> lo v \<and> 0 < sz v \<and> spaced (hi v) e vs"

text \<open>The \<open>n\<close> bytes at \<open>x\<close> are outside every space.\<close>

definition free_at :: "VMemoryAddressSpace list \<Rightarrow> nat \<Rightarrow> nat \<Rightarrow> bool" where
  "free_at vs n x \<longleftrightarrow> (\<forall>v \<in> set vs. x + n \<le> lo v \<or> hi v \<le> x)"

definition first_fit :: "nat \<Rightarrow> nat \<Rightarrow> nat \<Rightarrow> VMemoryAddressSpace list \<Rightarrow> nat \<Rightarrow> bool" where
  "first_fit a e n vs r \<longleftrightarrow>
     (if r = 0 then \<forall>x \<ge> a. x + n \<le> e \<longrightarrow> \<not> free_at vs n x
      else a \<le> r \<and> r + n \<le> e \<and> free_at vs n r \<and> (\<forall>x \<ge> a. x + n \<le> e \<longrightarrow> free_at vs n x \<longrightarrow> r \<le> x))"

lemma free_at_simps [simp]:
  "free_at [] n x" "free_at (v # vs) n x \<longleftrightarrow> (x + n \<le> lo v \<or> hi v \<le> x) \<and> free_at vs n x"
  "free_at (us @ vs) n x \<longleftrightarrow> free_at us n x \<and> free_at vs n x"
  by (auto simp: free_at_def)

lemma spaced_bounds:
  "spaced a e vs \<Longrightarrow> a \<le> e" "spaced a e vs \<Longrightarrow> v \<in> set vs \<Longrightarrow> a \<le> lo v \<and> hi v \<le> e \<and> 0 < sz v"
  by (induction a e vs rule: spaced.induct) fastforce+

lemma spaced_append: "spaced a e (us @ vs) \<longleftrightarrow> (\<exists>m. spaced a m us \<and> spaced m e vs)"
proof (induction a e us rule: spaced.induct)
  case (1 a e)
  show ?case
    by (cases vs) (auto intro: order_trans dest: spaced_bounds(1))
qed auto

lemma spaced_free_below:
  "spaced a e vs \<Longrightarrow> x + n \<le> a \<Longrightarrow> free_at vs n x"
  unfolding free_at_def using spaced_bounds(2) by fastforce

section \<open>The search for a gap\<close>

lemma unat_end:
  "hi v < 2 ^ 32 \<Longrightarrow> unat (start_vm v + allocationSzBytes v) = hi v"
  by (simp add: unat_add_word32)

lemma unat_sub_word32: "unat (b :: 32 word) \<le> unat a \<Longrightarrow> unat (a - b) = unat a - unat b"
  by (simp add: unat_sub word_le_nat_alt)

lemma nextVa_loop_first_fit:
  assumes "spaced a (unat (vm_end m)) (map heap xs)" "0 \<notin> set xs" "xs = [] \<Longrightarrow> prev \<noteq> 0" "0 < a"
    and "if prev = 0 then a = unat (vm_start m) else a = hi (heap prev) \<and> 0 < sz (heap prev)"
  shows "\<exists>r. nextVa_loop m n prev xs heap = Some r
    \<and> first_fit a (unat (vm_end m)) (unat n) (map heap xs) (unat r)"
  using assms
proof (induction xs arbitrary: prev a)
  case Nil
  have "a \<le> unat (vm_end m)"
    using Nil.prems(1) by simp
  then have a: "unat (start_vm (heap prev) + allocationSzBytes (heap prev)) = a"
    using Nil.prems(3,5) unat_le_word32 [of "vm_end m"] by (simp add: unat_end)
  then show ?case
    using Nil.prems \<open>a \<le> unat (vm_end m)\<close>
    by (auto simp: first_fit_def Let_def word_le_nat_alt unat_sub_word32)
next
  case (Cons x xs)
  let ?e = "unat (vm_end m)" and ?v = "heap x"
  have sp: "a \<le> lo ?v" "0 < sz ?v" "spaced (hi ?v) ?e (map heap xs)"
    using Cons.prems(1) by simp_all
  have le: "hi ?v \<le> ?e"
    using spaced_bounds(1) [OF sp(3)] .
  define new_va where "new_va = (if prev \<noteq> 0 then start_vm (heap prev) + allocationSzBytes (heap prev) else vm_start m)"
  have new: "unat new_va = a"
    using Cons.prems(5) sp(1) unat_le_word32 [of "start_vm ?v"]
    by (auto simp: new_va_def unat_end split: if_splits)
  have step: "nextVa_loop m n prev (x # xs) heap =
      (if n \<le> start_vm ?v - new_va then Some new_va else nextVa_loop m n x xs heap)"
    using Cons.prems(2,5) sp(1) by (auto simp: new_va_def Let_def word_less_nat_alt split: if_splits)
  have gap: "n \<le> start_vm ?v - new_va \<longleftrightarrow> a + unat n \<le> lo ?v"
    using new sp(1) by (auto simp: word_le_nat_alt unat_sub_word32)
  show ?case
  proof (cases "a + unat n \<le> lo ?v")
    case True
    have "free_at (map heap xs) (unat n) a"
      using spaced_free_below [OF sp(3)] True by simp
    then show ?thesis
      using True gap new le Cons.prems(4) unfolding step by (auto simp: first_fit_def)
  next
    case False
    have "0 \<notin> set xs" "x \<noteq> 0"
      using Cons.prems(2) by auto
    then obtain r where r: "nextVa_loop m n x xs heap = Some r"
        "first_fit (hi ?v) ?e (unat n) (map heap xs) (unat r)"
      using Cons.IH [OF sp(3), of x] sp(2) by auto
    have "first_fit a ?e (unat n) (map heap (x # xs)) (unat r)"
      using r(2) False sp(1) unfolding first_fit_def by (auto split: if_splits)
    then show ?thesis
      using r(1) False gap unfolding step by auto
  qed
qed

text \<open>The address found is the start of the range or the end of a space, so that it is page aligned.\<close>

lemma nextVa_loop_cases:
  "nextVa_loop m n prev xs heap = Some r \<Longrightarrow>
   r = 0 \<or> r = vm_start m \<or> (\<exists>x \<in> insert prev (set xs) - {0}. r = start_vm (heap x) + allocationSzBytes (heap x))"
proof (induction m n prev xs heap rule: nextVa_loop.induct)
  case (1 m n prev heap)
  then show ?case
    by (auto simp: Let_def split: if_splits)
next
  case (2 m n prev vas rest heap)
  then show ?case
    by (simp add: Let_def split: if_splits) blast+
qed

section \<open>Inserting an address space\<close>

text \<open>Some space lies strictly inside the \<open>n\<close> bytes at \<open>x\<close>, so that neither end of them is in it.\<close>

definition encloses :: "VMemoryAddressSpace list \<Rightarrow> nat \<Rightarrow> nat \<Rightarrow> bool" where
  "encloses vs n x \<longleftrightarrow> (\<exists>v \<in> set vs. x < lo v \<and> hi v < x + n)"

lemma unat_vas_last: "0 < sz v \<Longrightarrow> hi v < 2 ^ 32 \<Longrightarrow> unat (vas_last v) = hi v - 1"
  using unat_end [of v] unat_sub_word32 [of 1 "start_vm v + allocationSzBytes v"] by (simp add: vas_last_def)

lemma overlap_iff:
  fixes v w :: VMemoryAddressSpace
  assumes "0 < sz v" "hi v < 2 ^ 32" "0 < sz w" "hi w < 2 ^ 32" "\<not> (lo w < lo v \<and> hi v < hi w)"
  shows "(start_vm w \<ge> start_vm v \<and> start_vm w \<le> vas_last v \<or> vas_last w \<ge> start_vm v \<and> vas_last w \<le> vas_last v)
    \<longleftrightarrow> \<not> (hi w \<le> lo v \<or> hi v \<le> lo w)"
  unfolding word_le_nat_alt unat_vas_last [OF assms(1,2)] unat_vas_last [OF assms(3,4)]
  using assms(1,3,5) by arith

lemma addVas_loop_insert:
  assumes "ring (vas_list st v) (us @ ys)" "new \<notin> set (us @ ys)" "0 \<notin> set ys"
    and "spaced a m (map (vas_at st) us)" "spaced m e (map (vas_at st) ys)" "m \<le> lo w" "e < 2 ^ 32"
    and w: "vas_at st new = w" "0 < sz w" "hi w \<le> e"
    and "\<not> encloses (map (vas_at st) ys) (sz w) (lo w)"
  shows "if free_at (map (vas_at st) ys) (sz w) (lo w)
    then \<exists>l' bs cs. addVas_loop v new ys st = Some (new, st\<lparr>vas_list := (vas_list st)(v := l')\<rparr>)
      \<and> ys = bs @ cs \<and> ring l' (us @ bs @ new # cs) \<and> spaced a e (map (vas_at st) (us @ bs @ new # cs))
    else addVas_loop v new ys st = RETURN_ERROR ERR_VMM_OVERLAPING_VAS 0 st"
  using assms(1-7,11)
proof (induction ys arbitrary: us m)
  case Nil
  have "ring (list_add_before HeadNode (NodeOf new) (vas_list st v)) (us @ [] @ [new])"
    using il.repr_add_back Nil.prems by simp
  moreover have "spaced m e [w]"
    using Nil.prems(6) w by simp
  then have "spaced a e (map (vas_at st) (us @ [] @ [new]))"
    using Nil.prems(4) w(1) unfolding map_append spaced_append by auto
  ultimately show ?case
    by fastforce
next
  case (Cons y ys)
  let ?y = "vas_at st y" and ?ys = "map (vas_at st) ys"
  have y: "y \<noteq> 0" "0 < sz ?y" "hi ?y \<le> e" and ys: "spaced (hi ?y) e ?ys"
    using Cons.prems(3,5) spaced_bounds(1) [of "hi ?y" e ?ys] by auto
  have "\<not> (lo w < lo ?y \<and> hi ?y < hi w)"
    using Cons.prems(8) by (auto simp: encloses_def)
  from overlap_iff [OF y(2) _ w(2) _ this]
  have overlap: "(start_vm w \<ge> start_vm ?y \<and> start_vm w \<le> vas_last ?y \<or> vas_last w \<ge> start_vm ?y \<and> vas_last w \<le> vas_last ?y)
      \<longleftrightarrow> \<not> (hi w \<le> lo ?y \<or> hi ?y \<le> lo w)"
    using y(3) w(3) Cons.prems(7) by simp
  consider (overlap) "\<not> (hi w \<le> lo ?y \<or> hi ?y \<le> lo w)" | (here) "hi w \<le> lo ?y"
    | (later) "hi ?y \<le> lo w" "\<not> hi w \<le> lo ?y"
    by blast
  then show ?case
  proof cases
    case overlap
    then show ?thesis
      using \<open>(_ \<or> _) \<longleftrightarrow> \<not> (hi w \<le> lo ?y \<or> hi ?y \<le> lo w)\<close> y(1) by (simp add: w(1) Let_def)
  next
    case here
    have free: "free_at ?ys (sz w) (lo w)"
      using spaced_free_below [OF ys] here by simp
    have "ring (list_add_before (NodeOf y) (NodeOf new) (vas_list st v)) (us @ [] @ new # y # ys)"
      using list_add_before_ring [OF Cons.prems(1,2)] by simp
    moreover have "spaced a e (map (vas_at st) (us @ [] @ new # y # ys))"
      using Cons.prems(4,6) here y ys w by (auto simp: spaced_append)
    moreover have "addVas_loop v new (y # ys) st =
        Some (new, update_list v (list_add_before (NodeOf y) (NodeOf new)) st)"
      using overlap here w y by (auto simp: Let_def word_less_nat_alt)
    ultimately have "\<exists>l' bs cs. addVas_loop v new (y # ys) st = Some (new, st\<lparr>vas_list := (vas_list st)(v := l')\<rparr>)
        \<and> y # ys = bs @ cs \<and> ring l' (us @ bs @ new # cs) \<and> spaced a e (map (vas_at st) (us @ bs @ new # cs))"
      by (intro exI [of _ "list_add_before (NodeOf y) (NodeOf new) (vas_list st v)"] exI [of _ "[]"] exI [of _ "y # ys"]) simp
    then show ?thesis
      using free here by simp
  next
    case later
    have us: "spaced a (hi ?y) (map (vas_at st) (us @ [y]))"
      using Cons.prems(4,5) y by (auto simp: spaced_append)
    have "\<not> encloses ?ys (sz w) (lo w)"
      using Cons.prems(8) by (auto simp: encloses_def)
    note IH = Cons.IH [OF _ _ _ us ys later(1) Cons.prems(7) this]
    have step: "addVas_loop v new (y # ys) st = addVas_loop v new ys st"
      using overlap later w y by (auto simp: Let_def word_less_nat_alt)
    show ?thesis
    proof (cases "free_at ?ys (sz w) (lo w)")
      case True
      then obtain l' bs cs where "addVas_loop v new ys st = Some (new, st\<lparr>vas_list := (vas_list st)(v := l')\<rparr>)"
          "ys = bs @ cs" "ring l' (us @ (y # bs) @ new # cs)" "spaced a e (map (vas_at st) (us @ (y # bs) @ new # cs))"
        using IH Cons.prems(1-3) by auto
      then have "\<exists>l' bs cs. addVas_loop v new ys st = Some (new, st\<lparr>vas_list := (vas_list st)(v := l')\<rparr>)
          \<and> y # ys = bs @ cs \<and> ring l' (us @ bs @ new # cs) \<and> spaced a e (map (vas_at st) (us @ bs @ new # cs))"
        by (intro exI [of _ l'] exI [of _ "y # bs"] exI [of _ cs]) simp
      then show ?thesis
        using True later(1) unfolding step by simp
    next
      case False
      then show ?thesis
        using IH Cons.prems(1-3) unfolding step by simp
    qed
  qed
qed

section \<open>The manager's invariant\<close>

text \<open>
  The objects of the list are live: those from the kernel heap are the memory of an allocated segment,
  the static ones lie outside the heap.
\<close>

definition vas_owned :: "'a vmm_state_scheme \<Rightarrow> PTR \<Rightarrow> bool" where
  "vas_owned st x \<longleftrightarrow> x \<noteq> 0 \<and>
     (if vas_isStaticAllocated (vas_at st x)
      then \<forall>(y, n, a) \<in> set (kmalloc_segments st). \<not> (unat y \<le> unat x \<and> unat x < unat y + unat n)
      else \<exists>n. (x - 32, n, True) \<in> set (kmalloc_segments st))"

definition spaces :: "PTR \<Rightarrow> 'a vmm_state_scheme \<Rightarrow> VMemoryAddressSpace list" where
  "spaces v st = map (vas_at st) (the (list_for_each (vas_list st v)))"

definition page_spaces :: "VMemoryAddressSpace list \<Rightarrow> bool" where
  "page_spaces vs \<longleftrightarrow> (\<forall>v \<in> set vs. lo v mod 4096 = 0 \<and> sz v mod 4096 = 0)"

definition vmm_ok :: "PTR \<Rightarrow> 'a vmm_state_scheme \<Rightarrow> bool" where
  "vmm_ok v st \<longleftrightarrow> v \<noteq> 0 \<and> kmalloc_inv st \<and> 0 < vm_start (vmms st v) \<and> unat (vm_start (vmms st v)) mod 4096 = 0
     \<and> (\<exists>xs. ring (vas_list st v) xs \<and> (\<forall>x \<in> set xs. vas_owned st x))
     \<and> spaced (unat (vm_start (vmms st v))) (unat (vm_end (vmms st v))) (spaces v st)
     \<and> page_spaces (spaces v st)"

lemma vmm_okD:
  assumes "vmm_ok v st"
  obtains xs where "v \<noteq> 0" "kmalloc_inv st" "0 < unat (vm_start (vmms st v))"
    "unat (vm_start (vmms st v)) mod 4096 = 0" "ring (vas_list st v) xs" "list_for_each (vas_list st v) = Some xs"
    "spaces v st = map (vas_at st) xs" "\<forall>x \<in> set xs. vas_owned st x" "0 \<notin> set xs"
    "spaced (unat (vm_start (vmms st v))) (unat (vm_end (vmms st v))) (map (vas_at st) xs)"
    "page_spaces (map (vas_at st) xs)"
proof -
  obtain xs where xs: "ring (vas_list st v) xs" "\<forall>x \<in> set xs. vas_owned st x"
    using assms by (auto simp: vmm_ok_def)
  have items: "list_for_each (vas_list st v) = Some xs"
    by (rule il.repr_items [OF xs(1)])
  show ?thesis
    using assms xs items that [of xs] by (auto simp: vmm_ok_def spaces_def vas_owned_def word_less_nat_alt)
qed

text \<open>A block from the heap is none of the live objects, and they stay live.\<close>

lemma kmalloc_owned:
  assumes inv: "kmalloc_inv st" and req: "small_request bytes" and got: "kmalloc bytes st = Some (p, st')" "p \<noteq> 0"
    and x: "vas_owned st x" and same: "vas_at st' x = vas_at st x"
  shows "x \<noteq> p" "vas_owned st' x"
proof -
  obtain us y n vs where s: "p = y + 32" "kmalloc_segments st = us @ (y, n, False) # vs" "unat bytes + 64 \<le> unat n"
      "kmalloc_segments st' = us @ (y, bytes + 32, True) # (y + (bytes + 32), n - (bytes + 32), False) # vs"
    using km.malloc_law [OF inv req] got by (auto split: if_splits)
  have y: "(y, n, False) \<in> set (kmalloc_segments st)"
    using s(2) by simp
  have bound: "unat y + unat n < 2 ^ 32"
    using km.segs_bounded [OF inv y] .
  have u: "unat p = unat y + 32" "unat (bytes + 32) = unat bytes + 32"
      "unat (y + (bytes + 32)) = unat y + unat bytes + 32" "unat (n - (bytes + 32)) = unat n - (unat bytes + 32)"
    using s(1,3) bound by (simp_all add: unat_add_word32 unat_sub_word32)
  show "x \<noteq> p" "vas_owned st' x"
  proof (atomize (full), cases "vas_isStaticAllocated (vas_at st x)")
    case True
    then have out: "\<forall>(y, n, a) \<in> set (kmalloc_segments st). \<not> (unat y \<le> unat x \<and> unat x < unat y + unat n)" "x \<noteq> 0"
      using x by (simp_all add: vas_owned_def)
    then have notin: "\<not> (unat y \<le> unat x \<and> unat x < unat y + unat n)"
      using y by fastforce
    then have "x \<noteq> p"
      using u(1) s(3) by auto
    moreover have "vas_owned st' x"
      using True out notin u s(3) same unfolding vas_owned_def s(4) by (auto simp: s(2))
    ultimately show "x \<noteq> p \<and> vas_owned st' x"
      by simp
  next
    case False
    then obtain m where m: "(x - 32, m, True) \<in> set (kmalloc_segments st)" "x \<noteq> 0"
      using x by (auto simp: vas_owned_def)
    have "x - 32 \<noteq> y"
      using km.segs_distinct [OF inv] m(1) s(2) by (auto simp: image_iff)
    then have "x \<noteq> p"
      using s(1) by auto
    moreover have "(x - 32, m, True) \<in> set (kmalloc_segments st')"
      using m(1) by (auto simp: s(2,4))
    ultimately show "x \<noteq> p \<and> vas_owned st' x"
      using False m(2) same by (auto simp: vas_owned_def)
  qed
qed

section \<open>Creating and adding an address space\<close>

abbreviation new_space :: "PTR \<Rightarrow> SIZE \<Rightarrow> UINT \<Rightarrow> VMemoryAddressSpace" where
  "new_space start len flags \<equiv> \<lparr>vas_isStaticAllocated = False, vas_flags = flags, start_vm = start,
     allocationSzBytes = len, share = 0\<rparr>"

lemma kmalloc_frame:
  "kmalloc bytes st = Some (p, st') \<Longrightarrow>
   (if p = 0 then st' = st\<lparr>errorNumber := ERR_OUT_OF_MEM\<rparr> else st' = st\<lparr>kheap := kheap st'\<rparr>)"
  by (auto simp: kmalloc_def bind_eq_Some_conv split: if_splits)

lemma small_vas [simp]: "small_request sizeof_VMemoryAddressSpace" "small_request sizeof_VMemoryManager"
  by (simp_all add: small_request_def sizeof_VMemoryAddressSpace_def sizeof_VMemoryManager_def)

lemma kmalloc_inv_more [simp]:
  "kmalloc_inv (st\<lparr>kmem := m\<rparr>) = kmalloc_inv st" "kmalloc_inv (st\<lparr>vas_at := a\<rparr>) = kmalloc_inv st"
  "kmalloc_inv (st\<lparr>vas_list := l\<rparr>) = kmalloc_inv st" "kmalloc_inv (st\<lparr>vmms := vm\<rparr>) = kmalloc_inv st"
  "kmalloc_segments (st\<lparr>kmem := m\<rparr>) = kmalloc_segments st"
  "kmalloc_segments (st\<lparr>vas_at := a\<rparr>) = kmalloc_segments st"
  "kmalloc_segments (st\<lparr>vas_list := l\<rparr>) = kmalloc_segments st"
  "kmalloc_segments (st\<lparr>vmms := vm\<rparr>) = kmalloc_segments st"
  by (simp_all add: kmalloc_inv_def kmalloc_segments_def)

text \<open>No free segment of the heap has room for an address space object and two headers.\<close>

definition heap_full :: "'a kmalloc_state_scheme \<Rightarrow> bool" where
  "heap_full st \<longleftrightarrow> (\<forall>(x, n, a) \<in> set (kmalloc_segments st). a \<or> unat n < 108)"

lemma createNew_spec:
  fixes st :: "'a vmm_state_scheme"
  assumes inv: "kmalloc_inv st" and own: "\<forall>x \<in> set xs. vas_owned st x" and al: "IS_ALIGNED len 4096"
  obtains (full) "createNewVirtAddrSpace v start len flags st = Some (0, st\<lparr>errorNumber := ERR_OUT_OF_MEM\<rparr>)" "heap_full st"
  | (created) new st' h m where "createNewVirtAddrSpace v start len flags st = Some (new, st')" "new \<noteq> 0"
      "new \<notin> set xs" "st' = st\<lparr>kmem := m, kheap := h, vas_at := (vas_at st)(new := new_space start len flags),
        vas_list := (vas_list st)(v := list_init (NodeOf new) (vas_list st v))\<rparr>"
      "kmalloc_inv st'" "\<forall>x \<in> insert new (set xs). vas_owned st' x"
proof -
  have ready: "KERNEL_PHASE_CHECK KMALLOC_READY st"
    using inv by (simp add: KERNEL_PHASE_CHECK_def kmalloc_inv_def)
  obtain p st1 where k: "kmalloc sizeof_VMemoryAddressSpace st = Some (p, st1)" "kmalloc_inv st1"
    using km.malloc_law [OF inv] small_vas by blast
  note F = kmalloc_frame [OF k(1)]
  show ?thesis
  proof (cases "p = 0")
    case True
    moreover have "heap_full st"
      using km.malloc_law [OF inv small_vas(1)] k(1) True by (auto simp: heap_full_def sizeof_VMemoryAddressSpace_def)
    ultimately show ?thesis
      using full k(1) F ready by (simp add: createNewVirtAddrSpace_def kmallocz_def RETURN_ERROR_def)
  next
    case False
    define m where "m = k_memset p 0 sizeof_VMemoryAddressSpace (kmem st)"
    define st' where "st' = st\<lparr>kmem := m, kheap := kheap st1, vas_at := (vas_at st)(p := new_space start len flags),
        vas_list := (vas_list st)(v := list_init (NodeOf p) (vas_list st v))\<rparr>"
    have st1: "st1 = st\<lparr>kheap := kheap st1\<rparr>"
      using F False by simp
    have same: "kmem st1 = kmem st" "vas_at st1 = vas_at st" "vas_list st1 = vas_list st"
      by (subst st1, simp)+
    have "createNewVirtAddrSpace v start len flags st = Some (p, st')"
      using k(1) False ready al
      by (simp add: createNewVirtAddrSpace_def kmallocz_def Let_def same m_def [symmetric] kdefs)
        (subst st1, simp add: st'_def)
    moreover have seg: "kmalloc_segments st' = kmalloc_segments st1" "kmalloc_inv st'"
      using k(2) by (simp_all add: st'_def kmalloc_segments_def kmalloc_inv_def) (subst (asm) st1, simp)
    moreover have old: "x \<noteq> p" "vas_owned st1 x" if "x \<in> set xs" for x
      using kmalloc_owned [OF inv small_vas(1) k(1) False] own that same by auto
    moreover have "vas_owned st' x" if "x \<in> set xs" for x
    proof -
      have at: "vas_at st' x = vas_at st1 x"
        using old(1) [OF that] by (simp add: st'_def same)
      from old(2) [OF that] show ?thesis
        unfolding vas_owned_def seg(1) at .
    qed
    moreover have "vas_owned st' p"
      using km.malloc_safe [OF inv small_vas(1) k(1) False] False seg(1)
      by (auto simp: vas_owned_def st'_def)
    ultimately show ?thesis
      using created [OF _ False _ st'_def] by auto
  qed
qed


text \<open>
  \<open>addNewVirtualAddressSpace\<close> on every branch. The new space is inserted in its place, and no other
  changes. Overlap is reported, provided the new range does not enclose a space.
\<close>

lemma addNew_cases:
  fixes st :: "'a vmm_state_scheme"
  assumes ok: "vmm_ok v st" and n: "0 < szPages" "unat szPages < 2 ^ 20"
    and wrap: "unat va + unat szPages * 4096 < 2 ^ 32"
    and enc: "\<not> encloses (spaces v st) (unat szPages * 4096) (unat va)"
  defines "N \<equiv> unat szPages * 4096"
  obtains
    (unaligned) "unat va mod 4096 \<noteq> 0" "addNewVirtualAddressSpace v va szPages flags st = RETURN_ERROR ERR_WRONG_ALIGNMENT 0 st"
  | (outside) "unat va < unat (vm_start (vmms st v)) \<or> unat (vm_end (vmms st v)) < unat va + N"
      "addNewVirtualAddressSpace v va szPages flags st = RETURN_ERROR ERR_INVALID_RANGE 0 st"
  | (full) "heap_full st" "addNewVirtualAddressSpace v va szPages flags st = RETURN_ERROR ERR_OUT_OF_MEM 0 st"
  | (overlap) st' where "\<not> free_at (spaces v st) N (unat va)"
      "addNewVirtualAddressSpace v va szPages flags st = RETURN_ERROR ERR_VMM_OVERLAPING_VAS 0 st'"
      "vmm_ok v st'" "spaces v st' = spaces v st"
  | (added) new h m l us vs where "new \<noteq> 0"
      "addNewVirtualAddressSpace v va szPages flags st = Some (new, st\<lparr>kmem := m, kheap := h,
         vas_at := (vas_at st)(new := new_space va (PAGEFRAMES_TO_BYTES szPages) flags), vas_list := (vas_list st)(v := l)\<rparr>)"
      "vmm_ok v (st\<lparr>kmem := m, kheap := h,
         vas_at := (vas_at st)(new := new_space va (PAGEFRAMES_TO_BYTES szPages) flags), vas_list := (vas_list st)(v := l)\<rparr>)"
      "spaces v st = us @ vs" "spaces v (st\<lparr>kmem := m, kheap := h,
         vas_at := (vas_at st)(new := new_space va (PAGEFRAMES_TO_BYTES szPages) flags), vas_list := (vas_list st)(v := l)\<rparr>)
         = us @ new_space va (PAGEFRAMES_TO_BYTES szPages) flags # vs"
      "free_at (spaces v st) N (unat va)" "unat va mod 4096 = 0" "unat (vm_start (vmms st v)) \<le> unat va"
      "unat va + N \<le> unat (vm_end (vmms st v))"
proof -
  let ?m = "vmms st v" and ?len = "PAGEFRAMES_TO_BYTES szPages"
  obtain xs where V: "v \<noteq> 0" "kmalloc_inv st" "0 < unat (vm_start ?m)" "unat (vm_start ?m) mod 4096 = 0"
    "ring (vas_list st v) xs" "list_for_each (vas_list st v) = Some xs" "spaces v st = map (vas_at st) xs"
    "\<forall>x \<in> set xs. vas_owned st x" "0 \<notin> set xs"
    "spaced (unat (vm_start ?m)) (unat (vm_end ?m)) (map (vas_at st) xs)" "page_spaces (map (vas_at st) xs)"
    using ok by (rule vmm_okD)
  have N: "unat ?len = N" "0 < N"
    using n by (simp_all add: N_def unat_kdefs word_less_nat_alt)
  have len: "unat (va + ?len) = unat va + N"
    using wrap N by (simp add: unat_add_word32 N_def)
  show ?thesis
  proof (cases "unat va mod 4096 = 0 \<and> unat (vm_start ?m) \<le> unat va \<and> unat va + N \<le> unat (vm_end ?m)")
    case False
    show ?thesis
    proof (cases "unat va mod 4096 = 0")
      case True
      with False show ?thesis
        using len by (intro outside) (auto simp: addNewVirtualAddressSpace_def Let_def IS_ALIGNED_4096 word_less_nat_alt kdefs)
    next
      case False
      then show ?thesis
        by (intro unaligned) (simp_all add: addNewVirtualAddressSpace_def Let_def IS_ALIGNED_4096 kdefs)
    qed
  next
    case True
    have enter: "addNewVirtualAddressSpace v va szPages flags st = do {
        (newVas, st) \<leftarrow> createNewVirtAddrSpace v va ?len flags st;
        if newVas = 0 then RETURN_ERROR (errorNumber st) 0 st
        else if list_is_empty (vas_list st v)
        then Some (newVas, update_list v (list_add_after HeadNode (NodeOf newVas)) st)
        else do { nodes \<leftarrow> list_for_each (vas_list st v); addVas_loop v newVas nodes st }
      }"
      using True len by (simp add: addNewVirtualAddressSpace_def Let_def IS_ALIGNED_4096 word_less_nat_alt kdefs)
    from V(2,8) IS_ALIGNED_PAGEFRAMES_TO_BYTES [of szPages] show ?thesis
    proof (cases rule: createNew_spec [where v = v and start = va and flags = flags])
      case full
      then show ?thesis
        using that(3) unfolding enter by (simp add: RETURN_ERROR_def)
    next
      case (created new st1 h m)
      let ?w = "new_space va ?len flags" and ?a = "unat (vm_start ?m)" and ?e = "unat (vm_end ?m)"
      let ?S = "\<lambda>l. st\<lparr>kmem := m, kheap := h, vas_at := (vas_at st)(new := ?w), vas_list := (vas_list st)(v := l)\<rparr>"
      have st1: "vas_at st1 = (vas_at st)(new := ?w)" "vas_list st1 v = list_init (NodeOf new) (vas_list st v)"
          "st1\<lparr>vas_list := (vas_list st1)(v := l)\<rparr> = ?S l" for l
        by (simp_all add: created(4))
      have ring1: "ring (vas_list st1 v) xs"
        unfolding st1 by (rule ring_frame [OF V(5) created(3)])
      have same: "map (vas_at st1) xs = map (vas_at st) xs"
        using created(3) by (simp add: st1)
      have inv: "kmalloc_inv (?S l)" "vas_owned (?S l) x = vas_owned st1 x" for l x
        using created(5) by (simp_all add: created(4) vas_owned_def)
      have okS: "vmm_ok v (?S l)" "spaces v (?S l) = map (vas_at st) bs @ ?w # map (vas_at st) cs"
        if l: "ring l (bs @ new # cs)" "xs = bs @ cs" "spaced ?a ?e (map (vas_at st1) (bs @ new # cs))" for l bs cs
      proof -
        have mp: "map (vas_at st1) (bs @ new # cs) = map (vas_at st) bs @ ?w # map (vas_at st) cs"
          using created(3) l(2) by (simp add: st1)
        show sp: "spaces v (?S l) = map (vas_at st) bs @ ?w # map (vas_at st) cs"
          using il.repr_items [OF l(1)] created(3) l(2) by (simp add: spaces_def)
        have "spaced ?a ?e (spaces v (?S l))"
          using l(3) unfolding sp mp .
        moreover have "page_spaces (spaces v (?S l))"
          using V(11) True N(1) l(2) unfolding sp page_spaces_def N_def by auto
        moreover have "\<forall>x \<in> set (bs @ new # cs). vas_owned (?S l) x"
          using created(6) l(2) unfolding inv(2) by simp
        ultimately show "vmm_ok v (?S l)"
          using l(1) V(1,3,4) inv(1) by (auto simp: vmm_ok_def word_less_nat_alt simp del: set_append)
      qed
      have sum: "addNewVirtualAddressSpace v va szPages flags st = (if xs = []
          then Some (new, ?S (list_add_after HeadNode (NodeOf new) (vas_list st1 v))) else addVas_loop v new xs st1)"
        using created(1,2) list_is_empty_iff [OF ring1] il.repr_items [OF ring1] unfolding enter by (simp add: st1(3))
      have w: "sz ?w = N" "lo ?w = unat va"
        by (simp_all add: N)
      show ?thesis
      proof (cases "xs = []")
        case empty: True
        have ring: "ring (list_add_after HeadNode (NodeOf new) (vas_list st1 v)) ([] @ new # [])"
          using il.repr_add_front [OF ring1 created(3)] empty by simp
        have "spaced ?a ?e (map (vas_at st1) ([] @ new # []))"
          using True N by (simp add: st1)
        from okS [OF ring _ this] show ?thesis
          using empty sum True V(7) created(2) by (intro added [where us = "[]" and vs = "[]"]) simp_all
      next
        case False
        have enc1: "\<not> encloses (map (vas_at st1) xs) (sz ?w) (lo ?w)"
          using enc unfolding same w V(7) N_def .
        have "spaced ?a ?a (map (vas_at st1) [])" "spaced ?a ?e (map (vas_at st1) xs)" "?e < 2 ^ 32"
          using V(10) unfolding same by simp_all
        note I = addVas_loop_insert [of st1 v "[]" xs new ?a ?a ?e ?w, OF _ _ _ this(1,2) _ this(3) _ _ _ enc1]
        show ?thesis
        proof (cases "free_at (spaces v st) N (unat va)")
          case free: True
          then obtain l bs cs where l: "addVas_loop v new xs st1 = Some (new, ?S l)" "xs = bs @ cs"
              "ring l (bs @ new # cs)" "spaced ?a ?e (map (vas_at st1) (bs @ new # cs))"
            using I ring1 created(3) V(9) True N unfolding V(7) same w st1(3) by (auto simp: st1(1))
          have "addNewVirtualAddressSpace v va szPages flags st = Some (new, ?S l)"
            unfolding sum l(1) using False by simp
          with okS [OF l(3,2,4)] show ?thesis
            using l(2) True free V(7) created(2)
            by (intro added [where us = "map (vas_at st) bs" and vs = "map (vas_at st) cs"]) simp_all
        next
          case notfree: False
          then have "addVas_loop v new xs st1 = RETURN_ERROR ERR_VMM_OVERLAPING_VAS 0 st1"
            using I ring1 created(3) V(9) True N unfolding V(7) same w by (simp add: st1(1))
          moreover have sp: "spaces v st1 = spaces v st"
            using il.repr_items [OF ring1] same V(7) by (simp add: spaces_def)
          moreover have "vmm_ok v st1"
            using ok ring1 created(5,6) sp unfolding vmm_ok_def by (auto simp: created(4))
          ultimately show ?thesis
            using sum False notfree by (intro overlap [of st1]) simp_all
        qed
      qed
    qed
  qed
qed

section \<open>Reserving virtual memory\<close>

lemma find_next_va_spec:
  assumes ok: "vmm_ok v st" and n: "unat szPages < 2 ^ 20"
  shows "\<exists>r. find_next_va v szPages st = Some r \<and>
    (if spaces v st = [] then r = vm_start (vmms st v)
     else first_fit (unat (vm_start (vmms st v))) (unat (vm_end (vmms st v))) (unat szPages * 4096) (spaces v st) (unat r))
    \<and> unat r mod 4096 = 0"
proof -
  obtain xs where V: "0 < unat (vm_start (vmms st v))" "ring (vas_list st v) xs"
    "list_for_each (vas_list st v) = Some xs" "spaces v st = map (vas_at st) xs" "0 \<notin> set xs"
    "spaced (unat (vm_start (vmms st v))) (unat (vm_end (vmms st v))) (map (vas_at st) xs)"
    "page_spaces (map (vas_at st) xs)" "unat (vm_start (vmms st v)) mod 4096 = 0"
    using ok by (elim vmm_okD)
  have N: "unat (PAGEFRAMES_TO_BYTES szPages) = unat szPages * 4096"
    using n by (simp add: unat_kdefs)
  have aligned: "unat r mod 4096 = 0"
    if "nextVa_loop (vmms st v) (PAGEFRAMES_TO_BYTES szPages) 0 xs (vas_at st) = Some r" for r
  proof -
    have "unat (start_vm (vas_at st x) + allocationSzBytes (vas_at st x)) mod 4096 = 0" if x: "x \<in> set xs" for x
    proof -
      have "hi (vas_at st x) < 2 ^ 32"
        using spaced_bounds(2) [OF V(6), of "vas_at st x"] x unat_le_word32 [of "vm_end (vmms st v)"] by simp
      then show ?thesis
        using V(7) x by (auto simp: unat_end page_spaces_def)
    qed
    then show ?thesis
      using nextVa_loop_cases [OF that] V(5,8) by auto
  qed
  show ?thesis
    using nextVa_loop_first_fit [OF V(6,5), of 0 "PAGEFRAMES_TO_BYTES szPages"] V(1,3,4,8) list_is_empty_iff [OF V(2)]
      aligned by (cases "xs = []") (auto simp: find_next_va_def Let_def N)
qed

lemma vmm_ok_error [simp]:
  "vmm_ok v (st\<lparr>errorNumber := e\<rparr>) \<longleftrightarrow> vmm_ok v st" "spaces v (st\<lparr>errorNumber := e\<rparr>) = spaces v st"
  by (simp_all add: vmm_ok_def spaces_def vas_owned_def)

lemma free_at_not_enclosing: "free_at vs n x \<Longrightarrow> spaced a e vs \<Longrightarrow> \<not> encloses vs n x"
  unfolding free_at_def encloses_def using spaced_bounds(2) by fastforce

text \<open>
  \<open>kvmm_findFree\<close> is first fit: in a manager with at least one space it returns the lowest address at
  which the pages fit between the spaces, and 0 only if they fit nowhere. For a manager without spaces
  it returns the start of the managed range, whatever the size.
\<close>

theorem kvmm_findFree_first_fit:
  assumes "vmm_ok v st" "szPages \<noteq> 0" "unat szPages < 2 ^ 20"
  shows "\<exists>r. kvmm_findFree v szPages st = Some r \<and>
    (if spaces v st = [] then r = vm_start (vmms st v)
     else first_fit (unat (vm_start (vmms st v))) (unat (vm_end (vmms st v))) (unat szPages * 4096) (spaces v st) (unat r))"
proof -
  have "v \<noteq> 0"
    using assms(1) by (simp add: vmm_ok_def)
  then show ?thesis
    using find_next_va_spec [OF assms(1,3)] assms(2) by (auto simp: kvmm_findFree_def)
qed

definition reserve_failure :: "PTR \<Rightarrow> PTR \<Rightarrow> nat \<Rightarrow> 'a vmm_state_scheme \<Rightarrow> KernelErrorCodes \<Rightarrow> bool" where
  "reserve_failure v va n st e \<longleftrightarrow>
     (case e of
        ERR_OUT_OF_MEM \<Rightarrow> heap_full st
      | ERR_WRONG_ALIGNMENT \<Rightarrow> unat va mod 4096 \<noteq> 0
      | ERR_VMM_OVERLAPING_VAS \<Rightarrow> va \<noteq> 0 \<and> \<not> free_at (spaces v st) n (unat va)
      | ERR_INVALID_RANGE \<Rightarrow>
          (if va = 0
           then \<forall>x \<ge> unat (vm_start (vmms st v)). x + n \<le> unat (vm_end (vmms st v)) \<longrightarrow> \<not> free_at (spaces v st) n x
           else unat va < unat (vm_start (vmms st v)) \<or> unat (vm_end (vmms st v)) < unat va + n)
      | _ \<Rightarrow> False)"

lemma memmap_lazy:
  assumes "v \<noteq> 0" "BIT_ISUNSET flags VMM_MEMMAP_FLAG_IMMCOMMIT"
  shows "kvmm_memmap v va pa szPages flags st = do {
     va \<leftarrow> (if va = 0 then find_next_va v szPages st else Some va);
     (newVas, st) \<leftarrow> addNewVirtualAddressSpace v va szPages flags st;
     if newVas = 0 then RETURN_ERROR (errorNumber st) (0, None) st else Some ((va, None), st)
   }"
  using assms by (simp add: kvmm_memmap_def cong: if_cong)

text \<open>The address \<open>kvmm_memmap\<close> tries, given that a wrong address or no gap make it fail.\<close>

lemma reserve_at:
  assumes ok: "vmm_ok v st" and n: "0 < szPages" "unat szPages < 2 ^ 20"
    and wrap: "unat va + unat szPages * 4096 < 2 ^ 32" and va: "va \<noteq> 0"
    and enc: "\<not> encloses (spaces v st) (unat szPages * 4096) (unat va)"
  shows "\<exists>new st'. addNewVirtualAddressSpace v va szPages flags st = Some (new, st') \<and> vmm_ok v st' \<and>
    (if new = 0 then spaces v st' = spaces v st \<and> reserve_failure v va (unat szPages * 4096) st (errorNumber st')
     else unat (vm_start (vmms st v)) \<le> unat va \<and> unat va + unat szPages * 4096 \<le> unat (vm_end (vmms st v))
       \<and> unat va mod 4096 = 0 \<and> free_at (spaces v st) (unat szPages * 4096) (unat va)
       \<and> (\<exists>us vs. spaces v st = us @ vs
            \<and> spaces v st' = us @ new_space va (PAGEFRAMES_TO_BYTES szPages) flags # vs))"
  using ok n wrap enc
proof (cases rule: addNew_cases [where flags = flags])
  case (added new h m l us vs)
  then show ?thesis
    by auto
qed (use ok va in \<open>simp_all add: RETURN_ERROR_def reserve_failure_def\<close>)

lemma reserve_anywhere:
  assumes ok: "vmm_ok v st" and n: "0 < szPages" "unat szPages < 2 ^ 20"
    and lazy: "BIT_ISUNSET flags VMM_MEMMAP_FLAG_IMMCOMMIT"
    and wrap: "unat (vm_start (vmms st v)) + unat szPages * 4096 < 2 ^ 32"
  defines "a \<equiv> unat (vm_start (vmms st v))" and "e \<equiv> unat (vm_end (vmms st v))" and "N \<equiv> unat szPages * 4096"
  shows "\<exists>va' st'. kvmm_memmap v 0 pa szPages flags st = Some ((va', None), st') \<and> vmm_ok v st' \<and>
    (if va' = 0 then spaces v st' = spaces v st \<and> reserve_failure v 0 N st (errorNumber st')
     else (\<exists>us vs. spaces v st = us @ vs
            \<and> spaces v st' = us @ new_space va' (PAGEFRAMES_TO_BYTES szPages) flags # vs)
       \<and> first_fit a e N (spaces v st) (unat va'))"
proof -
  have V: "v \<noteq> 0" "0 < vm_start (vmms st v)" "spaced a e (spaces v st)"
    using ok by (simp_all add: vmm_ok_def a_def e_def)
  obtain r where r: "find_next_va v szPages st = Some r" "unat r mod 4096 = 0"
      "if spaces v st = [] then r = vm_start (vmms st v) else first_fit a e N (spaces v st) (unat r)"
    using find_next_va_spec [OF ok n(2), folded a_def e_def N_def] by metis
  show ?thesis
  proof (cases "r = 0")
    case r0: True
    have "addNewVirtualAddressSpace v 0 szPages flags st = RETURN_ERROR ERR_INVALID_RANGE 0 st"
      using V(2) by (simp add: addNewVirtualAddressSpace_def Let_def IS_ALIGNED_def)
    moreover have "reserve_failure v 0 N st ERR_INVALID_RANGE"
      using r(3) r0 V(2) by (auto simp: reserve_failure_def first_fit_def a_def e_def split: if_splits)
    ultimately show ?thesis
      using V(1) r(1) r0 ok by (simp add: memmap_lazy lazy RETURN_ERROR_def)
  next
    case rpos: False
    have fit: "a \<le> unat r \<and> unat r + N \<le> e \<and> free_at (spaces v st) N (unat r)" if "spaces v st \<noteq> []"
      using r(3) rpos that by (auto simp: first_fit_def unat_eq_zero split: if_splits)
    have nowrap: "unat r + N < 2 ^ 32"
      using fit r(3) wrap unat_le_word32 [of "vm_end (vmms st v)"] by (cases "spaces v st = []") (auto simp: e_def N_def)
    have nenc: "\<not> encloses (spaces v st) N (unat r)"
      using fit free_at_not_enclosing [OF _ V(3)] by (cases "spaces v st = []") (auto simp: encloses_def)
    from reserve_at [OF ok n nowrap [unfolded N_def] rpos nenc [unfolded N_def], of flags, folded a_def e_def N_def]
    obtain new st' where add: "addNewVirtualAddressSpace v r szPages flags st = Some (new, st')" "vmm_ok v st'"
        and res: "if new = 0 then spaces v st' = spaces v st \<and> reserve_failure v r N st (errorNumber st')
         else a \<le> unat r \<and> unat r + N \<le> e \<and> unat r mod 4096 = 0 \<and> free_at (spaces v st) N (unat r)
           \<and> (\<exists>us vs. spaces v st = us @ vs \<and> spaces v st' = us @ new_space r (PAGEFRAMES_TO_BYTES szPages) flags # vs)"
      by blast
    have run: "kvmm_memmap v 0 pa szPages flags st =
        (if new = 0 then RETURN_ERROR (errorNumber st') (0, None) st' else Some ((r, None), st'))"
      using V(1) r(1) add(1) by (simp add: memmap_lazy lazy)
    show ?thesis
    proof (cases "new = 0")
      case True
      then have "reserve_failure v r N st (errorNumber st')"
        using res by simp
      then have "reserve_failure v 0 N st (errorNumber st')"
        using fit r(2,3) rpos nenc
        by (cases "spaces v st = []") (auto simp: reserve_failure_def a_def e_def split: KernelErrorCodes.splits)
      then show ?thesis
        using True res add(2) run by (simp add: RETURN_ERROR_def)
    next
      case False
      then have "first_fit a e N (spaces v st) (unat r)"
        using res r(3) rpos by (cases "spaces v st = []") (auto simp: first_fit_def a_def unat_eq_zero)
      then show ?thesis
        using False res add(2) run rpos by simp
    qed
  qed
qed

text \<open>
  C4. Reserving virtual memory without committing it. On a well formed manager \<open>kvmm_memmap\<close> does not
  panic and keeps the manager well formed. When it succeeds, exactly one space was added, in its place in the
  sorted list: at the address given, or without one at the lowest address where it fits. When it fails,
  the spaces are as before and the error code says why: no heap memory left, a misaligned address, a
  range outside the manager's, one that overlaps a space, or no room at all. The given range must not
  enclose a space, a case the overlap test does not detect.
\<close>

theorem kvmm_memmap_reserve:
  assumes ok: "vmm_ok v st" and n: "0 < szPages" "unat szPages < 2 ^ 20"
    and lazy: "BIT_ISUNSET flags VMM_MEMMAP_FLAG_IMMCOMMIT"
    and wrap: "unat (if va = 0 then vm_start (vmms st v) else va) + unat szPages * 4096 < 2 ^ 32"
    and enc: "va \<noteq> 0 \<Longrightarrow> \<not> encloses (spaces v st) (unat szPages * 4096) (unat va)"
  shows "\<exists>va' st'. kvmm_memmap v va pa szPages flags st = Some ((va', None), st') \<and> vmm_ok v st' \<and>
    (if va' = 0 then spaces v st' = spaces v st \<and> reserve_failure v va (unat szPages * 4096) st (errorNumber st')
     else (\<exists>us vs. spaces v st = us @ vs
            \<and> spaces v st' = us @ new_space va' (PAGEFRAMES_TO_BYTES szPages) flags # vs)
       \<and> (if va = 0 then first_fit (unat (vm_start (vmms st v))) (unat (vm_end (vmms st v))) (unat szPages * 4096)
              (spaces v st) (unat va') else va' = va))"
proof (cases "va = 0")
  case False
  have "v \<noteq> 0"
    using ok by (simp add: vmm_ok_def)
  moreover from False wrap have "unat va + unat szPages * 4096 < 2 ^ 32"
    by simp
  from reserve_at [OF ok n this False enc [OF False], of flags]
  obtain new st' where "addNewVirtualAddressSpace v va szPages flags st = Some (new, st')" "vmm_ok v st'"
      "if new = 0 then spaces v st' = spaces v st \<and> reserve_failure v va (unat szPages * 4096) st (errorNumber st')
       else unat (vm_start (vmms st v)) \<le> unat va \<and> unat va + unat szPages * 4096 \<le> unat (vm_end (vmms st v))
       \<and> unat va mod 4096 = 0 \<and> free_at (spaces v st) (unat szPages * 4096) (unat va)
       \<and> (\<exists>us vs. spaces v st = us @ vs
            \<and> spaces v st' = us @ new_space va (PAGEFRAMES_TO_BYTES szPages) flags # vs)"
    by blast
  ultimately show ?thesis
    using False by (cases "new = 0") (simp_all add: memmap_lazy lazy RETURN_ERROR_def)
next
  case True
  then have "unat (vm_start (vmms st v)) + unat szPages * 4096 < 2 ^ 32"
    using wrap by simp
  from reserve_anywhere [OF ok n lazy this, of pa] show ?thesis
    by (simp only: True refl if_True)
qed

text \<open>
  C26. The overlap test is incomplete. A range that encloses the only space of a manager is accepted: the
  two ends of the new range are outside the space, so the test finds no overlap, and the new space is
  inserted before the one it covers.
\<close>

theorem kvmm_memmap_accepts_enclosing:
  assumes ok: "vmm_ok v st" and n: "0 < szPages" "unat szPages < 2 ^ 20"
    and lazy: "BIT_ISUNSET flags VMM_MEMMAP_FLAG_IMMCOMMIT" and room: "\<not> heap_full st"
    and one: "spaces v st = [w]" and enc: "unat va < lo w" "hi w < unat va + unat szPages * 4096"
    and va: "unat va mod 4096 = 0" "unat (vm_start (vmms st v)) \<le> unat va"
      "unat va + unat szPages * 4096 \<le> unat (vm_end (vmms st v))"
  shows "\<exists>st'. kvmm_memmap v va pa szPages flags st = Some ((va, None), st')
    \<and> spaces v st' = [new_space va (PAGEFRAMES_TO_BYTES szPages) flags, w]
    \<and> \<not> free_at [w] (unat szPages * 4096) (unat va)"
proof -
  let ?len = "PAGEFRAMES_TO_BYTES szPages" and ?N = "unat szPages * 4096"
  obtain xs where V: "v \<noteq> 0" "kmalloc_inv st" "0 < unat (vm_start (vmms st v))" "ring (vas_list st v) xs"
    "spaces v st = map (vas_at st) xs" "\<forall>x \<in> set xs. vas_owned st x" "0 \<notin> set xs"
    "spaced (unat (vm_start (vmms st v))) (unat (vm_end (vmms st v))) (map (vas_at st) xs)"
    using ok by (elim vmm_okD)
  obtain x where x: "xs = [x]" "vas_at st x = w" "x \<noteq> 0"
    using V(7) one unfolding V(5) by (cases xs) auto
  have N: "unat ?len = ?N" and len: "unat (va + ?len) = unat va + ?N"
    using n va(3) unat_le_word32 [of "vm_end (vmms st v)"] by (simp_all add: unat_kdefs unat_add_word32)
  have va0: "va \<noteq> 0"
    using V(3) va(2) by auto
  have w0: "0 < sz w" "hi w < 2 ^ 32"
    using spaced_bounds(2) [OF V(8), of w] x unat_le_word32 [of "vm_end (vmms st v)"] by simp_all
  have last: "unat (vas_last w) = hi w - 1" "unat (vas_last (new_space va ?len flags)) = unat va + ?N - 1"
    using unat_vas_last [OF w0] unat_vas_last [of "new_space va ?len flags"] N n va(3) unat_le_word32 [of "vm_end (vmms st v)"]
    by (simp_all add: word_less_nat_alt)
  have enter: "addNewVirtualAddressSpace v va szPages flags st = do {
      (newVas, st) \<leftarrow> createNewVirtAddrSpace v va ?len flags st;
      if newVas = 0 then RETURN_ERROR (errorNumber st) 0 st
      else if list_is_empty (vas_list st v)
      then Some (newVas, update_list v (list_add_after HeadNode (NodeOf newVas)) st)
      else do { nodes \<leftarrow> list_for_each (vas_list st v); addVas_loop v newVas nodes st }
    }"
    using va len by (simp add: addNewVirtualAddressSpace_def Let_def IS_ALIGNED_4096 word_less_nat_alt kdefs)
  from V(2,6) IS_ALIGNED_PAGEFRAMES_TO_BYTES [of szPages] show ?thesis
  proof (cases rule: createNew_spec [where v = v and start = va and flags = flags])
    case full
    with room show ?thesis
      by simp
  next
    case (created new st1 h m)
    have st1: "vas_at st1 = (vas_at st)(new := new_space va ?len flags)"
        "vas_list st1 v = list_init (NodeOf new) (vas_list st v)"
      by (simp_all add: created(4))
    have ring1: "ring (vas_list st1 v) [x]"
      using ring_frame [OF V(4) created(3)] x(1) by (simp add: st1)
    have "\<not> (va \<ge> start_vm w \<and> va \<le> vas_last w \<or> vas_last (new_space va ?len flags) \<ge> start_vm w
        \<and> vas_last (new_space va ?len flags) \<le> vas_last w)" "start_vm w > va"
      unfolding word_le_nat_alt word_less_nat_alt last using enc w0(1) by linarith+
    then have "addVas_loop v new [x] st1 = Some (new, update_list v (list_add_before (NodeOf x) (NodeOf new)) st1)"
      using x created(3) by (auto simp: st1 Let_def)
    then have "kvmm_memmap v va pa szPages flags st
        = Some ((va, None), update_list v (list_add_before (NodeOf x) (NodeOf new)) st1)"
      using V(1) va0 lazy created(1,2) list_is_empty_iff [OF ring1] il.repr_items [OF ring1]
      by (simp add: memmap_lazy enter)
    moreover have "ring (list_add_before (NodeOf x) (NodeOf new) (vas_list st1 v)) [new, x]"
      using list_add_before_ring [of "vas_list st1 v" "[]" "[x]" new] ring1 created(3) x(1) by simp
    from il.repr_items [OF this]
    have "spaces v (update_list v (list_add_before (NodeOf x) (NodeOf new)) st1)
        = [new_space va ?len flags, w]"
      using x created(3) by (simp add: spaces_def st1)
    ultimately show ?thesis
      using enc by auto
  qed
qed

section \<open>A concrete manager\<close>

text \<open>
  A manager of the user addresses with the kernel heap of \<open>sample_kmalloc\<close>, and its state after two
  pages were reserved at 64 KB.
\<close>

definition sample_vmm :: vmm_state where
  "sample_vmm = paging_state.extend sample_paging
     \<lparr>vmms = (\<lambda>_. \<lparr>vm_start = 0x1000, vm_end = 0xBFFFFFFF, vm_isStaticAllocated = False, parentProcessPD = 0x1000,
        pd_dirty = False, physicalRegion = PMM_REGION_ANY\<rparr>),
      vas_at = (\<lambda>_. new_space 0 0 0), vas_list = (\<lambda>_. list_init HeadNode \<lparr>nxt = \<lambda>_. NullNode, prv = \<lambda>_. NullNode\<rparr>),
      shares = (\<lambda>_. \<lparr>share_count = 0, refcount = 0\<rparr>), kcontext = 0xC0030000\<rparr>"

lemma sample_vmm_fields:
  "kheap sample_vmm = kheap sample_kmalloc" "phase sample_vmm = phase sample_kmalloc"
  "vmms sample_vmm v = \<lparr>vm_start = 0x1000, vm_end = 0xBFFFFFFF, vm_isStaticAllocated = False, parentProcessPD = 0x1000,
        pd_dirty = False, physicalRegion = PMM_REGION_ANY\<rparr>"
  "ring (vas_list sample_vmm v) []"
  by (simp_all add: sample_vmm_def paging_state.defs sample_paging_def kmalloc_state.defs)

lemma sample_vmm_ok: "vmm_ok 0xC0030000 sample_vmm" "spaces v sample_vmm = []"
proof -
  show sp: "spaces v sample_vmm = []" for v
    using il.repr_items [OF sample_vmm_fields(4)] by (simp add: spaces_def)
  have "kmalloc_inv sample_vmm"
    using sample_kmalloc_ok(1) by (simp add: kmalloc_inv_def sample_vmm_fields)
  moreover have "\<exists>xs. ring (vas_list sample_vmm 0xC0030000) xs \<and> (\<forall>x \<in> set xs. vas_owned sample_vmm x)"
    using sample_vmm_fields(4) by (intro exI [of _ "[]"]) simp
  ultimately show "vmm_ok 0xC0030000 sample_vmm"
    by (simp add: vmm_ok_def sp sample_vmm_fields page_spaces_def)
qed

lemma sample_vmm_segments: "kmalloc_segments sample_vmm = [(0xC0200000, 0x20000, False)]"
  using sample_kmalloc_ok(2) by (simp add: kmalloc_segments_def sample_vmm_fields)

theorem kvmm_findFree_first_fit_witness: "kvmm_findFree 0xC0030000 2 sample_vmm = Some 0x1000"
  using kvmm_findFree_first_fit [OF sample_vmm_ok(1), of 2] by (simp add: sample_vmm_ok sample_vmm_fields)

theorem kvmm_memmap_reserve_witness:
  "\<exists>st'. kvmm_memmap 0xC0030000 0x10000 None 2 0 sample_vmm = Some ((0x10000, None), st') \<and> vmm_ok 0xC0030000 st'
    \<and> spaces 0xC0030000 st' = [new_space 0x10000 0x2000 0]"
proof -
  have two: "PAGEFRAMES_TO_BYTES 2 = 0x2000"
    by (simp add: PAGEFRAMES_TO_BYTES_def kdefs)
  have "\<not> reserve_failure 0xC0030000 0x10000 8192 sample_vmm e" for e
    by (cases e) (simp_all add: reserve_failure_def heap_full_def sample_vmm_segments sample_vmm_ok sample_vmm_fields)
  then show ?thesis
    using kvmm_memmap_reserve [OF sample_vmm_ok(1), of 2 0 "0x10000" None]
    by (auto simp: BIT_ISUNSET_def BIT_ISSET_def VMM_MEMMAP_FLAG_IMMCOMMIT_def encloses_def sample_vmm_ok two split: if_splits)
qed

text \<open>The same manager with one static space of a page at 64 KB.\<close>

definition sample_vmm1 :: vmm_state where
  "sample_vmm1 = sample_vmm\<lparr>vas_at := \<lambda>_. (new_space 0x10000 0x1000 0)\<lparr>vas_isStaticAllocated := True\<rparr>,
     vas_list := \<lambda>_. list_add_after HeadNode (NodeOf 0xC0026000) (vas_list sample_vmm 0)\<rparr>"

lemma sample_vmm1_ok:
  "vmm_ok 0xC0030000 sample_vmm1" "spaces v sample_vmm1 = [(new_space 0x10000 0x1000 0)\<lparr>vas_isStaticAllocated := True\<rparr>]"
  "kmalloc_segments sample_vmm1 = [(0xC0200000, 0x20000, False)]" "vmms sample_vmm1 = vmms sample_vmm"
proof -
  have ring: "ring (vas_list sample_vmm1 v) [0xC0026000]" for v
    using il.repr_add_front [OF sample_vmm_fields(4), of "0xC0026000"] by (simp add: sample_vmm1_def)
  show sp: "spaces v sample_vmm1 = [(new_space 0x10000 0x1000 0)\<lparr>vas_isStaticAllocated := True\<rparr>]" for v
    using il.repr_items [OF ring] by (simp add: spaces_def) (simp add: sample_vmm1_def)
  show seg: "kmalloc_segments sample_vmm1 = [(0xC0200000, 0x20000, False)]" and vm: "vmms sample_vmm1 = vmms sample_vmm"
    using sample_vmm_segments by (simp_all add: sample_vmm1_def)
  have "vas_owned sample_vmm1 0xC0026000"
    by (simp add: vas_owned_def seg) (simp add: sample_vmm1_def)
  moreover have "kmalloc_inv sample_vmm1"
    using sample_vmm_ok(1) by (simp add: sample_vmm1_def vmm_ok_def)
  ultimately show "vmm_ok 0xC0030000 sample_vmm1"
    using ring by (fastforce simp: vmm_ok_def sp vm sample_vmm_fields page_spaces_def)
qed

theorem kvmm_memmap_accepts_enclosing_witness:
  "\<exists>st'. kvmm_memmap 0xC0030000 0xF000 None 3 0 sample_vmm1 = Some ((0xF000, None), st')
    \<and> map start_vm (spaces 0xC0030000 st') = [0xF000, 0x10000]"
proof -
  have "\<not> heap_full sample_vmm1"
    by (simp add: heap_full_def sample_vmm1_ok)
  then show ?thesis
    using kvmm_memmap_accepts_enclosing [OF sample_vmm1_ok(1) _ _ _ _ sample_vmm1_ok(2), of 3 0 "0xF000" None]
    by (auto simp: BIT_ISUNSET_def BIT_ISSET_def VMM_MEMMAP_FLAG_IMMCOMMIT_def sample_vmm1_ok sample_vmm_fields)
qed

end
