(* ===== verification/Scheduler.thy ===== *)
theory Scheduler
  imports Process VMM_Spaces
begin

text \<open>
  The scheduler of \<open>src/kernel/x86/process.c\<close> against its specification, a round robin over the list of
  processes.

  \<open>round_robin\<close> is the specification: the processes in the order of the queue, the running one, and the
  registers every process had when it last gave up the processor. \<open>sched_abs\<close> reads it off the
  pointers of the queue, the process items and the saved register states.
\<close>

section \<open>The specification\<close>

record round_robin =
  rr_queue :: "PTR list"
  rr_running :: PTR
  rr_saved :: "PTR \<rightharpoonup> ProcessRegisterState"

fun rr_next :: "PTR \<Rightarrow> PTR list \<Rightarrow> PTR \<times> PTR list" where
  "rr_next running (p # q # ps) = (if p = running then (q, ps @ [p, q]) else (p, q # ps @ [p]))"
| "rr_next running ps = (hd ps, ps)"

text \<open>A yield: the next process and, when it is another one, the registers it continues with.\<close>

definition rr_yield :: "ProcessRegisterState option \<Rightarrow> round_robin \<Rightarrow> ProcessRegisterState option \<times> round_robin" where
  "rr_yield regs s =
     (let (n, qs) = rr_next (rr_running s) (rr_queue s);
          saved = (if rr_running s = 0 then rr_saved s else (rr_saved s)(rr_running s := regs))
      in if n = rr_running s then (None, s\<lparr>rr_queue := qs\<rparr>)
         else (rr_saved s n, \<lparr>rr_queue = qs, rr_running = n, rr_saved = saved\<rparr>))"

definition saved_registers :: "'a process_state_scheme \<Rightarrow> PTR \<Rightarrow> ProcessRegisterState" where
  "saved_registers st p = reg_states st (registerStates (pinfos st p))"

definition sched_queue :: "'a process_state_scheme \<Rightarrow> PTR list" where
  "sched_queue st = (case list_for_each (schedulerQueue st) of Some ps \<Rightarrow> ps | None \<Rightarrow> [])"

definition sched_abs :: "'a process_state_scheme \<Rightarrow> round_robin" where
  "sched_abs st = \<lparr>rr_queue = sched_queue st, rr_running = currentProcess st,
     rr_saved = (\<lambda>p. if p \<in> set (sched_queue st) then Some (saved_registers st p) else None)\<rparr>"

section \<open>The invariant\<close>

definition directory_of :: "'a process_state_scheme \<Rightarrow> PTR \<Rightarrow> Physical" where
  "directory_of st p = parentProcessPD (vmms st (p_context (pinfos st p)))"

text \<open>A process that can be switched to: it has a context whose page directory is in use.\<close>

definition runnable :: "'a process_state_scheme \<Rightarrow> PTR \<Rightarrow> bool" where
  "runnable st p \<longleftrightarrow> p \<noteq> 0 \<and> p_state (pinfos st p) \<noteq> PROCESS_STATE_INVALID \<and> p_context (pinfos st p) \<noteq> 0
     \<and> IS_ALIGNED (directory_of st p) 4096 \<and> unat (directory_of st p) div 4096 < length (frames st)
     \<and> frames st ! (unat (directory_of st p) div 4096) = PMM_STATE_USED"

definition sched_ok :: "'a process_state_scheme \<Rightarrow> bool" where
  "sched_ok st \<longleftrightarrow> pmm_inv st
     \<and> ring (schedulerQueue st) (sched_queue st) \<and> sched_queue st \<noteq> [] \<and> length (sched_queue st) < 20
     \<and> processCount st = of_nat (length (sched_queue st))
     \<and> currentProcess st \<in> insert 0 (set (sched_queue st))
     \<and> (\<forall>p \<in> set (sched_queue st). runnable st p)
     \<and> inj_on (\<lambda>p. processID (pinfos st p)) (set (sched_queue st))
     \<and> inj_on (\<lambda>p. registerStates (pinfos st p)) (set (sched_queue st))"

lemma sched_queue_ring: "ring (schedulerQueue st) ps \<Longrightarrow> sched_queue st = ps"
  by (simp add: sched_queue_def il.repr_items)

lemma kpmm_getPageStatus_used:
  assumes "pmm_inv st" "IS_ALIGNED pd 4096" "unat pd div 4096 < length (frames st)"
  shows "kpmm_getPageStatus pd st = Some (frames st ! (unat pd div 4096), st)"
proof -
  let ?b = "s_getBitmapFromRegion PMM_REGION_ANY st"
  have wf: "bitmap_wf ?b" and ready: "PMM_READY \<le> phase st"
    using assms(1) pmm_wf_bitmap(1) by (auto simp: pmm_inv_def)
  have "unat (BYTES_TO_PAGEFRAMES_FLOOR pd) < capacity ?b"
    using assms(3) by (simp add: unat_kdefs frames_def)
  then show ?thesis
    using bitmap_get_eq [OF wf] assms(2,3) ready
    by (simp add: kpmm_getPageStatus_def kdefs unat_kdefs frames_def bitmap_states_def)
qed

section \<open>Selecting a process\<close>

lemma s_dequeue_ring:
  assumes "ring (schedulerQueue st) (p # ps)"
  shows "\<exists>q. s_dequeue st = Some (p, st\<lparr>schedulerQueue := q\<rparr>) \<and> ring q ps"
  using dequeue_ring [OF assms] by (auto simp: s_dequeue_def)

lemma s_enqueue_ring:
  assumes "ring (schedulerQueue st) ps" "p \<notin> set ps" "processCount st < 20"
  shows "\<exists>q. s_enqueue p st = Some (True, st\<lparr>schedulerQueue := q\<rparr>) \<and> ring q (ps @ [p])"
proof -
  have "\<not> MAX_PROCESS_COUNT \<le> processCount st"
    using assms(3) by (simp add: MAX_PROCESS_COUNT_def)
  then show ?thesis
    using enqueue_ring [OF assms(1,2)] unfolding s_enqueue_def by (intro exI conjI) simp_all
qed

text \<open>One round of the loop: the head of the queue moves to its end.\<close>

lemma yield_round:
  assumes "ring (schedulerQueue st) (p # ps)" "p \<noteq> 0" "processCount st < 20"
  shows "\<exists>q. yield_loop st =
      (if processCount st > 1 \<and> currentProcess st \<noteq> 0
          \<and> processID (pinfos st p) = processID (pinfos st (currentProcess st))
       then yield_loop (st\<lparr>schedulerQueue := q\<rparr>) else Some (Some p, st\<lparr>schedulerQueue := q\<rparr>))
    \<and> ring q (ps @ [p])"
proof -
  obtain q1 where q1: "s_dequeue st = Some (p, st\<lparr>schedulerQueue := q1\<rparr>)" "ring q1 ps"
    using s_dequeue_ring [OF assms(1)] by auto
  moreover have "p \<notin> set ps"
    using ring_distinct [OF assms(1)] by simp
  ultimately obtain q where "s_enqueue p (st\<lparr>schedulerQueue := q1\<rparr>) = Some (True, st\<lparr>schedulerQueue := q\<rparr>)"
    "ring q (ps @ [p])"
    using s_enqueue_ring [of "st\<lparr>schedulerQueue := q1\<rparr>" ps p] assms(3) by auto
  with q1 assms(2) show ?thesis
    by (intro exI [of _ q]) (subst yield_loop.simps, simp)
qed

text \<open>The loop ends after at most two rounds, with the process of the specification.\<close>

lemma yield_loop_selects:
  assumes ok: "sched_ok st"
  shows "\<exists>q. yield_loop st = Some (Some (fst (rr_next (currentProcess st) (sched_queue st))), st\<lparr>schedulerQueue := q\<rparr>)
    \<and> ring q (snd (rr_next (currentProcess st) (sched_queue st)))"
proof -
  have ring: "ring (schedulerQueue st) (sched_queue st)" and len: "length (sched_queue st) < 20"
    and cnt: "processCount st = of_nat (length (sched_queue st))"
    and cur: "currentProcess st \<in> insert 0 (set (sched_queue st))"
    and nz: "\<And>p. p \<in> set (sched_queue st) \<Longrightarrow> p \<noteq> 0"
    and inj: "inj_on (\<lambda>p. processID (pinfos st p)) (set (sched_queue st))"
    using ok by (auto simp: sched_ok_def runnable_def)
  have small: "processCount st < 20"
    using len by (simp add: cnt word_less_nat_alt unat_of_nat_word32)
  have many: "processCount st > 1 \<longleftrightarrow> length (sched_queue st) > 1"
    using len by (simp add: cnt word_less_nat_alt unat_of_nat_word32)
  have same: "processID (pinfos st p) = processID (pinfos st (currentProcess st)) \<longleftrightarrow> p = currentProcess st"
    if "p \<in> set (sched_queue st)" "currentProcess st \<noteq> 0" for p
    using that cur inj by (auto dest: inj_onD)
  consider (one) p where "sched_queue st = [p]" | (more) p r ps where "sched_queue st = p # r # ps"
    using ok by (metis sched_ok_def neq_Nil_conv)
  then show ?thesis
  proof cases
    case one
    then show ?thesis
      using yield_round [of st p "[]"] ring small many nz by auto
  next
    case more
    obtain q where q: "yield_loop st = (if currentProcess st \<noteq> 0
          \<and> processID (pinfos st p) = processID (pinfos st (currentProcess st))
       then yield_loop (st\<lparr>schedulerQueue := q\<rparr>) else Some (Some p, st\<lparr>schedulerQueue := q\<rparr>))"
      "ring q (r # ps @ [p])"
      using yield_round [of st p "r # ps"] ring small many nz more by auto
    show ?thesis
    proof (cases "p = currentProcess st")
      case True
      have ne: "r \<noteq> p"
        using ring_distinct [OF ring] more by auto
      obtain q2 where "yield_loop (st\<lparr>schedulerQueue := q\<rparr>) = Some (Some r, st\<lparr>schedulerQueue := q2\<rparr>)"
        "ring q2 (ps @ [p, r])"
        using yield_round [of "st\<lparr>schedulerQueue := q\<rparr>" r "ps @ [p]"] q(2) small nz more same [of r] True ne by auto
      then show ?thesis
        using q True more nz by auto
    next
      case False
      then show ?thesis
        using q same [of p] more by auto
    qed
  qed
qed

section \<open>Switching\<close>

lemma rr_next_perm:
  assumes "ps \<noteq> []" "rr_next c ps = (n, qs)"
  shows "set qs = set ps" "length qs = length ps" "n \<in> set ps"
  using assms by (induction c ps rule: rr_next.induct) (auto split: if_splits)

lemma runnable_cong:
  assumes "frames st' = frames st" "vmms st' = vmms st" "p_context (pinfos st' p) = p_context (pinfos st p)"
    "runnable st p" "p_state (pinfos st' p) \<noteq> PROCESS_STATE_INVALID"
  shows "runnable st' p"
  using assms by (simp add: runnable_def directory_of_def)

lemma frames_process [simp]:
  "frames (schedulerQueue_update f st) = frames st" "frames (pinfos_update g st) = frames st"
  "frames (reg_states_update h st) = frames st" "frames (currentProcess_update i st) = frames st"
  "frames (rootProcess_update j st) = frames st" "frames (cr3_update k st) = frames st"
  unfolding frames_def by (rule bitmap_states_cong; simp add: s_getBitmapFromRegion_def Let_def)+

lemma pmm_inv_process [simp]:
  "pmm_inv (schedulerQueue_update f st) = pmm_inv st" "pmm_inv (pinfos_update g st) = pmm_inv st"
  "pmm_inv (reg_states_update h st) = pmm_inv st" "pmm_inv (currentProcess_update i st) = pmm_inv st"
  "pmm_inv (rootProcess_update j st) = pmm_inv st" "pmm_inv (cr3_update k st) = pmm_inv st"
  by (simp_all add: pmm_inv_def pmm_wf_def usable_pages_def Let_def)

text \<open>What a switch to another process does to the state.\<close>

definition switched :: "PTR \<Rightarrow> ProcessRegisterState option \<Rightarrow> 'a process_state_scheme \<Rightarrow> 'a process_state_scheme" where
  "switched n regs st =
     (let cur = currentProcess st;
          st = (case regs of Some r \<Rightarrow> update_pinfo cur (\<lambda>p. p\<lparr>p_state := PROCESS_STATE_IDLE\<rparr>)
                  (st\<lparr>reg_states := (reg_states st)(registerStates (pinfos st cur) := r)\<rparr>)
                | None \<Rightarrow> st);
          st = (update_pinfo n (\<lambda>p. p\<lparr>p_state := PROCESS_STATE_RUNNING\<rparr>) st)\<lparr>currentProcess := n\<rparr>
      in (if p_parent (pinfos st n) = 0 then st\<lparr>rootProcess := n\<rparr> else st)
           \<lparr>cr3 := PHYSICAL_TO_PAGEFRAME (directory_of st n)\<rparr>)"

lemma switched_fields:
  "schedulerQueue (switched n regs st) = schedulerQueue st" "processCount (switched n regs st) = processCount st"
  "currentProcess (switched n regs st) = n" "vmms (switched n regs st) = vmms st"
  "frames (switched n regs st) = frames st" "pmm_inv (switched n regs st) = pmm_inv st"
  "sched_queue (switched n regs st) = sched_queue st" "cr3 (switched n regs st) = entry_frame (directory_of st n)"
  by (simp_all add: switched_def Let_def sched_queue_def directory_of_def entry_frame_def PAGEFRAMES_FLOOR_drop_bit
      split: option.split)

lemma switched_items:
  "processID (pinfos (switched n regs st) p) = processID (pinfos st p)"
  "registerStates (pinfos (switched n regs st) p) = registerStates (pinfos st p)"
  "p_context (pinfos (switched n regs st) p) = p_context (pinfos st p)"
  "p_state (pinfos (switched n regs st) p) = PROCESS_STATE_INVALID \<Longrightarrow> p_state (pinfos st p) = PROCESS_STATE_INVALID"
  "reg_states (switched n regs st) = (case regs of None \<Rightarrow> reg_states st
     | Some r \<Rightarrow> (reg_states st)(registerStates (pinfos st (currentProcess st)) := r))"
  by (cases regs; auto simp: switched_def Let_def split: if_splits)+

lemma runnable_switched: "runnable st p \<Longrightarrow> runnable (switched n regs st) p"
  using switched_items(4) [of n regs st p]
  by (metis runnable_cong switched_fields(4,5) switched_items(3) runnable_def)

lemma s_switchProcess_eq:
  assumes inv: "pmm_inv st" and n: "runnable st n" and regs: "regs = None \<longleftrightarrow> currentProcess st = 0"
    and ne: "currentProcess st \<noteq> 0 \<Longrightarrow> processID (pinfos st (currentProcess st)) \<noteq> processID (pinfos st n)"
  shows "s_switchProcess n regs st = Some (SwitchJump (p_flags (pinfos st n))
     (saved_registers (switched n regs st) n), switched n regs st)"
proof -
  have pg: "kpmm_getPageStatus (directory_of st n) st' = Some (PMM_STATE_USED, st')"
    if "frames st' = frames st" "pmm_inv st'" for st' :: "'a process_state_scheme"
    using kpmm_getPageStatus_used [of st'] that n by (simp add: runnable_def)
  show ?thesis
    using regs n ne inv
    by (cases regs) (auto simp: s_switchProcess_def switched_def Let_def kvmm_getPageDirectory_def runnable_def
        saved_registers_def pg [unfolded directory_of_def] directory_of_def)
qed

section \<open>Refinement\<close>

lemma yield_refines:
  assumes ok: "sched_ok st" and regs: "regs = None \<longleftrightarrow> currentProcess st = 0"
  shows "\<exists>r st'. kprocess_yield regs st = Some (r, st') \<and> sched_ok st'
    \<and> sched_abs st' = snd (rr_yield regs (sched_abs st)) \<and> currentProcess st' \<noteq> 0
    \<and> (case fst (rr_yield regs (sched_abs st)) of
         None \<Rightarrow> r = SwitchReturn True
       | Some v \<Rightarrow> r = SwitchJump (p_flags (pinfos st (currentProcess st'))) v
           \<and> cr3 st' = entry_frame (directory_of st (currentProcess st')))"
proof -
  obtain n qs where nx: "rr_next (currentProcess st) (sched_queue st) = (n, qs)"
    by (cases "rr_next (currentProcess st) (sched_queue st)")
  obtain q where q: "yield_loop st = Some (Some n, st\<lparr>schedulerQueue := q\<rparr>)" "ring q qs"
    using yield_loop_selects [OF ok] nx by auto
  let ?s = "st\<lparr>schedulerQueue := q\<rparr>"
  have ne: "sched_queue st \<noteq> []" and inv: "pmm_inv st"
    and cur: "currentProcess st \<in> insert 0 (set (sched_queue st))"
    and run: "\<And>p. p \<in> set (sched_queue st) \<Longrightarrow> runnable st p"
    and inj: "inj_on (\<lambda>p. processID (pinfos st p)) (set (sched_queue st))"
      "inj_on (\<lambda>p. registerStates (pinfos st p)) (set (sched_queue st))"
    using ok by (auto simp: sched_ok_def)
  have perm: "set qs = set (sched_queue st)" "length qs = length (sched_queue st)" "n \<in> set (sched_queue st)"
    using rr_next_perm [OF ne nx] by auto
  have sq: "sched_queue ?s = qs"
    using q(2) by (simp add: sched_queue_ring)
  have ok': "sched_ok ?s"
    using ok q(2) perm unfolding sched_ok_def
    by (auto simp: sq runnable_def directory_of_def)
  have n: "runnable ?s n" "p_state (pinfos st n) \<noteq> PROCESS_STATE_INVALID" "n \<noteq> 0"
    using run [OF perm(3)] by (auto simp: runnable_def directory_of_def)
  have same: "processID (pinfos st (currentProcess st)) = processID (pinfos st n) \<longleftrightarrow> currentProcess st = n"
    if "currentProcess st \<noteq> 0"
    using that cur inj(1) perm(3) by (auto dest: inj_onD)
  show ?thesis
  proof (cases "n = currentProcess st")
    case True
    then have "kprocess_yield regs st = Some (SwitchReturn True, ?s)"
      using q n regs by (auto simp: kprocess_yield_def s_switchProcess_def Let_def)
    moreover have "rr_yield regs (sched_abs st) = (None, sched_abs ?s)"
      using True nx perm by (auto simp: rr_yield_def sched_abs_def sq saved_registers_def fun_eq_iff)
    ultimately show ?thesis
      using ok' True n(3) by (intro exI [of _ "SwitchReturn True"] exI [of _ ?s]) simp
  next
    case False
    let ?t = "switched n regs ?s"
    have "kprocess_yield regs st = Some (SwitchJump (p_flags (pinfos st n)) (saved_registers ?t n), ?t)"
      using q n regs inv same False s_switchProcess_eq [of ?s n regs] by (auto simp: kprocess_yield_def)
    moreover have "sched_ok ?t"
      unfolding sched_ok_def
      using ok' perm
      by (auto simp: sched_ok_def switched_fields switched_items sq intro: runnable_switched)
    moreover have "saved_registers ?t p = (if currentProcess st \<noteq> 0 \<and> p = currentProcess st then the regs else saved_registers st p)"
      if "p \<in> set (sched_queue st)" for p
      using that cur regs inj_on_eq_iff [OF inj(2) that, of "currentProcess st"]
      by (cases regs) (simp_all add: saved_registers_def switched_items)
    then have abs: "sched_abs ?t = snd (rr_yield regs (sched_abs st))" "fst (rr_yield regs (sched_abs st)) = Some (saved_registers ?t n)"
      using nx False perm regs cur n(3)
      by (auto simp: rr_yield_def sched_abs_def switched_fields sq fun_eq_iff)
    moreover have "directory_of ?s n = directory_of st n"
      by (simp add: directory_of_def)
    ultimately show ?thesis
      using n(3) by (intro exI [of _ "SwitchJump (p_flags (pinfos st n)) (saved_registers ?t n)"] exI [of _ ?t])
        (simp add: switched_fields)
  qed
qed

text \<open>
  C5. The scheduler implements the round robin. From a state with a well formed queue of at most 19
  runnable processes, \<open>kprocess_yield\<close> returns. The list of processes, the running process and the saved
  registers change exactly as \<open>rr_yield\<close> says: the processor goes to the first process of the queue
  that is not the running one, with the registers it was interrupted with and its own page directory in
  \<open>cr3\<close>, the registers of the process that yields are saved, and the queue is rotated. The well
  formedness is kept. When there is no other process, the call returns to the caller.
\<close>

theorem kprocess_yield_round_robin:
  assumes ok: "sched_ok st" and regs: "regs = None \<longleftrightarrow> currentProcess st = 0"
  shows "\<exists>r st'. kprocess_yield regs st = Some (r, st') \<and> sched_ok st'
    \<and> sched_abs st' = snd (rr_yield regs (sched_abs st)) \<and> currentProcess st' \<noteq> 0
    \<and> (case fst (rr_yield regs (sched_abs st)) of
         None \<Rightarrow> r = SwitchReturn True
       | Some v \<Rightarrow> r = SwitchJump (p_flags (pinfos st (currentProcess st'))) v
           \<and> cr3 st' = entry_frame (directory_of st (currentProcess st')))"
  by (rule yield_refines [OF assms])

section \<open>No starvation\<close>

fun yields :: "ProcessRegisterState list \<Rightarrow> 'a process_state_scheme \<Rightarrow> 'a process_state_scheme option" where
  "yields [] st = Some st"
| "yields (r # rs) st = do { (_, st) \<leftarrow> kprocess_yield (Some r) st; yields rs st }"

fun rr_rounds :: "nat \<Rightarrow> PTR \<Rightarrow> PTR list \<Rightarrow> PTR" where
  "rr_rounds 0 c ps = c"
| "rr_rounds (Suc k) c ps = (let (n, qs) = rr_next c ps in rr_rounds k n qs)"

text \<open>In the specification, the process at place \<open>i\<close> of the queue runs after at most \<open>i + 1\<close> rounds.\<close>

lemma rr_rounds_reach:
  "i < length ps \<Longrightarrow> distinct ps \<Longrightarrow> ps ! i \<noteq> c \<Longrightarrow> \<exists>k \<le> Suc i. rr_rounds k c ps = ps ! i"
proof (induction i arbitrary: c ps rule: less_induct)
  case (less i)
  consider (one) p where "ps = [p]" | (more) p q rest where "ps = p # q # rest"
    using less.prems(1) by (cases ps; cases "tl ps") auto
  then show ?case
  proof cases
    case one
    then show ?thesis
      using less.prems by (intro exI [of _ 1]) simp
  next
    case more
    show ?thesis
    proof (cases "p = c")
      case True
      then obtain j where j: "i = Suc j"
        using less.prems more by (cases i) auto
      show ?thesis
      proof (cases j)
        case 0
        then show ?thesis
          using more True j by (intro exI [of _ 1]) simp
      next
        case (Suc m)
        then have m: "(rest @ [p, q]) ! m = ps ! i" "m < length rest"
          using more j less.prems by (auto simp: nth_append)
        moreover have "ps ! i \<noteq> q"
          using more j Suc less.prems by (auto simp: nth_eq_iff_index_eq)
        ultimately obtain k where "k \<le> Suc m" "rr_rounds k q (rest @ [p, q]) = ps ! i"
          using less.IH [of m "rest @ [p, q]" q] less.prems more j Suc by auto
        then show ?thesis
          using more True j Suc by (intro exI [of _ "Suc k"]) simp
      qed
    next
      case False
      show ?thesis
      proof (cases i)
        case 0
        then show ?thesis
          using more False by (intro exI [of _ 1]) simp
      next
        case (Suc m)
        then have m: "(q # rest @ [p]) ! m = ps ! i" "m < length (q # rest)"
          using more less.prems by (auto simp: nth_append nth_Cons split: nat.splits)
        moreover have "ps ! i \<noteq> p"
          using more Suc less.prems nth_mem [of m "q # rest"] by auto
        ultimately obtain k where "k \<le> Suc m" "rr_rounds k p (q # rest @ [p]) = ps ! i"
          using less.IH [of m "q # rest @ [p]" p] less.prems more Suc by auto
        then show ?thesis
          using more False Suc by (intro exI [of _ "Suc k"]) simp
      qed
    qed
  qed
qed

lemma yields_rounds:
  assumes "sched_ok st" "currentProcess st \<noteq> 0" "k \<le> length rs"
  shows "\<exists>st'. yields (take k rs) st = Some st' \<and> sched_ok st'
    \<and> currentProcess st' = rr_rounds k (currentProcess st) (sched_queue st)"
  using assms
proof (induction k arbitrary: st rs)
  case 0
  then show ?case by simp
next
  case (Suc k)
  then obtain r rs' where rs: "rs = r # rs'"
    by (cases rs) auto
  obtain j st1 where y: "kprocess_yield (Some r) st = Some (j, st1)" "sched_ok st1"
      "sched_abs st1 = snd (rr_yield (Some r) (sched_abs st))" "currentProcess st1 \<noteq> 0"
    using yield_refines [OF Suc.prems(1), of "Some r"] Suc.prems(2) by auto
  then have "(currentProcess st1, sched_queue st1) = rr_next (currentProcess st) (sched_queue st)"
    by (auto simp: rr_yield_def sched_abs_def split: prod.splits if_splits)
  moreover obtain st' where "yields (take k rs') st1 = Some st'" "sched_ok st'"
      "currentProcess st' = rr_rounds k (currentProcess st1) (sched_queue st1)"
    using Suc.IH [OF y(2,4), of rs'] Suc.prems(3) rs by auto
  ultimately show ?case
    using y(1) rs by (auto split: prod.splits)
qed

text \<open>
  C6. No starvation. As long as every running process yields, every process of the queue runs within as
  many yields as there are processes, whatever registers they yield with.
\<close>

theorem kprocess_yield_no_starvation:
  assumes "sched_ok st" "currentProcess st \<noteq> 0" "p \<in> set (sched_queue st)"
    and "length rs = length (sched_queue st)"
  shows "\<exists>k \<le> length (sched_queue st). \<exists>st'. yields (take k rs) st = Some st' \<and> currentProcess st' = p"
proof (cases "p = currentProcess st")
  case True
  then show ?thesis
    by (intro exI [of _ 0]) simp
next
  case False
  obtain i where i: "i < length (sched_queue st)" "sched_queue st ! i = p"
    using assms(3) by (auto simp: in_set_conv_nth)
  moreover have "distinct (sched_queue st)"
    using assms(1) by (auto simp: sched_ok_def ring_distinct)
  ultimately obtain k where k: "k \<le> Suc i" "rr_rounds k (currentProcess st) (sched_queue st) = p"
    using rr_rounds_reach [of i "sched_queue st" "currentProcess st"] False by auto
  then show ?thesis
    using yields_rounds [OF assms(1,2), of k rs] i(1) assms(4) by (intro exI [of _ k]) auto
qed

text \<open>
  The queue does not always give the processor to the process that has waited longest. When the running
  process is not at an end of the queue, because it has created a process since it was switched to, it
  runs again before the process it created has run at all.
\<close>

theorem kprocess_yield_creator_first:
  assumes "sched_ok st" "sched_queue st = [x, creator, created]" "currentProcess st = creator"
  shows "\<exists>st'. yields [r1, r2] st = Some st' \<and> currentProcess st' = creator"
proof -
  have "creator \<noteq> 0" "x \<noteq> creator"
    using assms ring_distinct [of "schedulerQueue st" "sched_queue st"] by (auto simp: sched_ok_def runnable_def)
  then show ?thesis
    using yields_rounds [of st 2 "[r1, r2]"] assms by (auto simp: numeral_2_eq_2)
qed

section \<open>A concrete scheduler\<close>

text \<open>Three processes, at the addresses 1, 2 and 3, of which the second runs.\<close>

definition sample_registers :: "U32 \<Rightarrow> ProcessRegisterState" where
  "sample_registers n = \<lparr>r_ebx = n, r_esi = 0, r_edi = 0, r_esp = 0, r_ebp = 0, r_eip = 0, r_eflags = 0, r_cs = 0, r_ds = 0\<rparr>"

definition sample_process :: "PTR \<Rightarrow> KProcessInfo" where
  "sample_process p = \<lparr>p_binary = \<lparr>virtualMemoryStart = 0, sizePages = 0\<rparr>, p_stack = \<lparr>virtualMemoryStart = 0, sizePages = 0\<rparr>,
     p_data = \<lparr>virtualMemoryStart = 0, sizePages = 0\<rparr>, p_context = 0xC0030000, p_parent = 1, processID = p, p_flags = 0,
     p_state = PROCESS_STATE_IDLE, registerStates = p\<rparr>"

definition sample_queue :: "PTR links" where
  "sample_queue = fold (\<lambda>p. enqueue (NodeOf p)) [1, 2, 3] (list_init HeadNode \<lparr>nxt = \<lambda>_. NullNode, prv = \<lambda>_. NullNode\<rparr>)"

definition sample_sched :: process_state where
  "sample_sched = vmm_state.extend sample_vmm
     \<lparr>processCount = 3, currentProcess = 2, rootProcess = 1, schedulerQueue = sample_queue, pinfos = sample_process,
      reg_states = sample_registers, kevents = (\<lambda>_. \<lparr>ev_event = 0, ev_data = 0\<rparr>), eventsQueue = (\<lambda>_. sample_queue),
      childLinks = \<lparr>nxt = \<lambda>_. NullNode, prv = \<lambda>_. NullNode\<rparr>\<rparr>"

lemma sample_queue_ring: "ring sample_queue [1, 2, 3]"
  using enqueue_ring [OF enqueue_ring [OF enqueue_ring [OF ring_init, of "1 :: PTR"], of 2], of 3]
  by (simp add: sample_queue_def)

lemma sample_sched_fields:
  "processCount sample_sched = 3" "currentProcess sample_sched = 2" "schedulerQueue sample_sched = sample_queue"
  "pinfos sample_sched = sample_process" "reg_states sample_sched = sample_registers" "vmms sample_sched = vmms sample_vmm"
  "sched_queue sample_sched = [1, 2, 3]"
  using sched_queue_ring [of sample_sched "[1, 2, 3]"] sample_queue_ring
  by (simp_all add: sample_sched_def vmm_state.defs)

lemma sample_sched_pmm: "frames sample_sched = [1, 1, 1, 0]" "pmm_inv sample_sched"
proof -
  have s: "s_pab sample_sched = s_pab sample_paging" "phase sample_sched = phase sample_paging"
    "s_pmm_completeRegion sample_sched = s_pmm_completeRegion sample_paging"
    "regionLength sample_sched = regionLength sample_paging"
    by (simp_all add: sample_sched_def vmm_state.defs sample_vmm_def paging_state.defs)
  have f: "frames sample_sched = frames sample_paging"
    unfolding frames_def by (rule bitmap_states_cong) (simp_all add: s_getBitmapFromRegion_def Let_def s)
  then show "frames sample_sched = [1, 1, 1, 0]"
    by (simp add: sample_paging_pmm)
  show "pmm_inv sample_sched"
    using sample_paging_pmm(2) unfolding pmm_inv_def pmm_wf_def usable_pages_def f s .
qed

lemma sample_sched_ok: "sched_ok sample_sched"
  by (simp add: sched_ok_def sample_sched_fields sample_sched_pmm sample_queue_ring runnable_def directory_of_def
      sample_process_def sample_vmm_fields IS_ALIGNED_4096)

theorem kprocess_yield_round_robin_witness:
  "\<exists>st'. kprocess_yield (Some (sample_registers 9)) sample_sched = Some (SwitchJump 0 (sample_registers 1), st')
    \<and> sched_queue st' = [2, 3, 1] \<and> saved_registers st' 2 = sample_registers 9"
proof -
  have "rr_next 2 [1, 2, 3] = (1, [2, 3, 1])"
    by simp
  then show ?thesis
    using kprocess_yield_round_robin [OF sample_sched_ok, of "Some (sample_registers 9)"]
    by (auto simp: rr_yield_def sched_abs_def sample_sched_fields sample_process_def saved_registers_def fun_eq_iff
        split: if_splits dest!: spec [of _ 2])
qed

theorem kprocess_yield_no_starvation_witness:
  "\<exists>k \<le> 3. \<exists>st'. yields (take k [sample_registers 7, sample_registers 8, sample_registers 9]) sample_sched = Some st'
    \<and> currentProcess st' = 3"
  using kprocess_yield_no_starvation [OF sample_sched_ok, of 3 "[sample_registers 7, sample_registers 8, sample_registers 9]"]
  by (simp add: sample_sched_fields numeral_3_eq_3)

theorem kprocess_yield_creator_first_witness:
  "\<exists>st'. yields [sample_registers 7, sample_registers 8] sample_sched = Some st' \<and> currentProcess st' = 2"
  using kprocess_yield_creator_first [OF sample_sched_ok, of 1 2 3] by (simp add: sample_sched_fields)

end
