(* ===== verification/Descriptor_Tables.thy ===== *)
theory Descriptor_Tables
  imports Scheduler
begin

text \<open>
  The tables the processor reads: the global descriptor table (\<open>src/kernel/x86/gdt.c\<close>,
  \<open>include/x86/gdt_struct.h\<close>), the interrupt descriptor table (\<open>src/kernel/x86/idt.c\<close>,
  \<open>include/x86/idt_struct.h\<close>) and the task state segment (\<open>src/kernel/x86/tss.c\<close>).

  The tables are arrays in kernel memory, found by the index of an entry. The global descriptor table fills its page, and
  the page behind it holds the boot information, which starts with the glyphs of the font: the one entry the code can write behind the table goes there. Bit
  fields keep their width. \<open>gdtr\<close>, \<open>idtr\<close> and \<open>tr\<close> are the registers of the processor that the
  instructions \<open>lgdt\<close>, \<open>lidt\<close> and \<open>ltr\<close> load.
\<close>

section \<open>The global descriptor table\<close>

record GdtDescriptor =
  limit_low :: U16
  base_low :: U16
  base_middle :: U8
  gdt_access :: U8
  limit_high :: "4 word"
  gdt_flags :: "4 word"
  base_high :: U8

record IdtDescriptor =
  offset_low :: U16
  segment_selector :: U16
  idt_zeros :: U8
  idt_type :: "5 word"
  idt_dpl :: "2 word"
  idt_p :: "1 word"
  offset_high :: U16

text \<open>The fields of the task state segment that the code assigns.\<close>

record tss =
  esp0 :: U32
  ss0 :: U32
  iomap_base :: U16
  iomap :: "nat \<Rightarrow> U8"

record dt_state = process_state +
  s_gdt :: PTR
  s_gdt_count :: U16
  gdt :: "U16 \<Rightarrow> GdtDescriptor"
  gdtr :: "U16 \<times> U32"
  s_idt :: PTR
  idt :: "U32 \<Rightarrow> IdtDescriptor"
  idtr :: "U16 \<times> U32"
  tss_at :: "PTR \<Rightarrow> tss"
  tss_entry :: PTR
  tr :: U16

definition MIN_GDT_INDEX :: U16 where "MIN_GDT_INDEX = 3"
definition MAX_GDT_DESC_COUNT :: U16 where "MAX_GDT_DESC_COUNT = 512"
definition MAX_IDT_DESC_COUNT :: U32 where "MAX_IDT_DESC_COUNT = 256"
definition MEM_START_GDT :: PTR where "MEM_START_GDT = 0xC0001000"
definition MEM_START_IDT :: PTR where "MEM_START_IDT = 0xC0000000"
definition MEM_START_BOOT_INFO :: PTR where "MEM_START_BOOT_INFO = 0xC0002000"
definition MEM_KSTACK_TOP :: PTR where "MEM_KSTACK_TOP = 0xC0003000 + 128 * 1024 - 1"

definition kgdt_write :: "'a dt_state_scheme \<Rightarrow> 'a dt_state_scheme" where
  "kgdt_write st = st\<lparr>gdtr := (8 * s_gdt_count st - 1, s_gdt st)\<rparr>"

text \<open>The bytes of a descriptor in memory.\<close>

definition gdt_bytes :: "GdtDescriptor \<Rightarrow> U8 list" where
  "gdt_bytes d = [ucast (limit_low d), ucast (drop_bit 8 (limit_low d)), ucast (base_low d), ucast (drop_bit 8 (base_low d)),
     base_middle d, gdt_access d, ucast (limit_high d) OR push_bit 4 (ucast (gdt_flags d)), base_high d]"

definition gdt_address :: "U16 \<Rightarrow> PTR" where
  "gdt_address i = MEM_START_GDT + 8 * ucast i"

lemma gdt_page: "gdt_address MAX_GDT_DESC_COUNT = MEM_START_BOOT_INFO"
  by (simp add: gdt_address_def MAX_GDT_DESC_COUNT_def MEM_START_GDT_def MEM_START_BOOT_INFO_def)

definition store_descriptor :: "U16 \<Rightarrow> GdtDescriptor \<Rightarrow> 'a dt_state_scheme \<Rightarrow> 'a dt_state_scheme" where
  "store_descriptor gdt_index d st =
     (if gdt_index < MAX_GDT_DESC_COUNT then st\<lparr>gdt := (gdt st)(gdt_index := d)\<rparr>
      else st\<lparr>boot := (boot st)\<lparr>font_data := gdt_bytes d @ drop 8 (font_data (boot st))\<rparr>\<rparr>)"

definition kgdt_edit :: "U16 \<Rightarrow> U32 \<Rightarrow> U32 \<Rightarrow> U8 \<Rightarrow> U8 \<Rightarrow> 'a dt_state_scheme \<Rightarrow> 'a dt_state_scheme option" where
  "kgdt_edit gdt_index base limit access flags st =
     (let st = st\<lparr>s_gdt := MEM_START_GDT\<rparr>
      in if \<not> (gdt_index \<ge> MIN_GDT_INDEX \<and> gdt_index \<le> s_gdt_count st \<and> gdt_index \<le> MAX_GDT_DESC_COUNT)
      then None
      else
        let d = \<lparr>limit_low = ucast (limit AND 0xFFFF), base_low = ucast (base AND 0xFFFF),
                 base_middle = ucast (drop_bit 16 base) AND 0xFF, gdt_access = access,
                 limit_high = ucast (drop_bit 16 limit AND 0xF), gdt_flags = ucast (flags AND 0xF),
                 base_high = ucast (drop_bit 24 base) AND 0xFF\<rparr>;
            st = store_descriptor gdt_index d st
        in Some (if gdt_index = s_gdt_count st then st\<lparr>s_gdt_count := s_gdt_count st + 1\<rparr> else st))"

section \<open>The interrupt descriptor table\<close>

definition s_idt_write :: "'a dt_state_scheme \<Rightarrow> 'a dt_state_scheme" where
  "s_idt_write st = st\<lparr>idtr := (ucast (8 * MAX_IDT_DESC_COUNT - 1), s_idt st)\<rparr>"

definition kidt_init :: "'a dt_state_scheme \<Rightarrow> 'a dt_state_scheme" where
  "kidt_init st = s_idt_write (st\<lparr>s_idt := MEM_START_IDT,
     idt := (\<lambda>i. if i < MAX_IDT_DESC_COUNT
                 then \<lparr>offset_low = 0, segment_selector = 0, idt_zeros = 0, idt_type = 0, idt_dpl = 0, idt_p = 0, offset_high = 0\<rparr>
                 else idt st i)\<rparr>)"

definition IDT_DES_TYPE_32_INTERRUPT_GATE :: "5 word" where "IDT_DES_TYPE_32_INTERRUPT_GATE = 0xE"
definition IDT_DES_TYPE_32_TRAP_GATE :: "5 word" where "IDT_DES_TYPE_32_TRAP_GATE = 0xF"

definition kidt_edit :: "U32 \<Rightarrow> PTR \<Rightarrow> U16 \<Rightarrow> 5 word \<Rightarrow> U8 \<Rightarrow> 'a dt_state_scheme \<Rightarrow> 'a dt_state_scheme" where
  "kidt_edit index func seg_selector type dpl st =
     st\<lparr>idt := (idt st)(index :=
       \<lparr>offset_low = ucast (func AND 0xFFFF), segment_selector = seg_selector, idt_zeros = 0, idt_type = type,
        idt_dpl = ucast (dpl AND 0x3), idt_p = 1, offset_high = ucast (drop_bit 16 func) AND 0xFFFF\<rparr>)\<rparr>"

section \<open>The task state segment\<close>

definition IOMAP_SIZE :: nat where "IOMAP_SIZE = 0x100"

text \<open>\<open>sizeof (struct tss)\<close> and the offset of \<open>iomap\<close> in the packed structure.\<close>

definition sizeof_tss :: UINT where "sizeof_tss = 364"
definition offsetOf_iomap :: U16 where "offsetOf_iomap = 108"

definition ktss_init :: "'a dt_state_scheme \<Rightarrow> 'a dt_state_scheme option" where
  "ktss_init st = do {
     (entry, st) \<leftarrow> ksalloc sizeof_tss st;
     k_assert (entry \<noteq> 0);
     let t = tss_at st entry;
         m = (\<lambda>i. if i < IOMAP_SIZE - 1 then 0xFF else iomap t i);
         m = m(29 := m 29 AND 0xFD);
         m = m(122 := m 122 AND 0xCF);
         t = t\<lparr>iomap := m, iomap_base := offsetOf_iomap, ss0 := GDT_SELECTOR_KDATA, esp0 := MEM_KSTACK_TOP\<rparr>;
         st = st\<lparr>tss_entry := entry, tss_at := (tss_at st)(entry := t)\<rparr>
     in do {
       st \<leftarrow> kgdt_edit 3 entry (sizeof_tss - 1) 0xE9 0x1 st;
       let st = kgdt_write st
       in Some (st\<lparr>tr := ucast GDT_SELECTOR_KTSS\<rparr>)
     }
   }"

section \<open>What the processor reads\<close>

text \<open>The base and the limit of a segment and the entry point of a gate, as the processor assembles them.\<close>

definition segment_base :: "GdtDescriptor \<Rightarrow> U32" where
  "segment_base d = ucast (base_low d) OR push_bit 16 (ucast (base_middle d)) OR push_bit 24 (ucast (base_high d))"

definition segment_limit :: "GdtDescriptor \<Rightarrow> U32" where
  "segment_limit d = ucast (limit_low d) OR push_bit 16 (ucast (limit_high d))"

definition gate_offset :: "IdtDescriptor \<Rightarrow> U32" where
  "gate_offset d = ucast (offset_low d) OR push_bit 16 (ucast (offset_high d))"

text \<open>Access from user mode to an I/O port is denied when its bit in the map is set.\<close>

definition port_denied :: "tss \<Rightarrow> nat \<Rightarrow> bool" where
  "port_denied t port \<longleftrightarrow> bit (iomap t (port div 8)) (port mod 8)"

section \<open>Properties\<close>

lemma masks:
  "(w :: U32) AND 0xFFFF = take_bit 16 w" "(v :: U16) AND 0xFFFF = v" "(b :: U8) AND 0xFF = b"
  "(w :: U32) AND 0xF = take_bit 4 w" "b AND 0xF = take_bit 4 b" "b AND 0x3 = take_bit 2 b"
  using and_pow2_minus_1 [of w 16] and_pow2_minus_1 [of v 16] and_pow2_minus_1 [of b 8] and_pow2_minus_1 [of w 4]
    and_pow2_minus_1 [of b 4] and_pow2_minus_1 [of b 2] by (simp_all add: take_bit_word_eq_self)

lemma assemble_halves:
  "ucast (ucast (take_bit 16 w :: U32) :: U16) OR push_bit 16 (ucast (ucast (drop_bit 16 w) :: U16)) = w"
  by (rule bit_word_eqI) (auto simp: bit_simps)

lemma assemble_base:
  "ucast (ucast (take_bit 16 w :: U32) :: U16) OR push_bit 16 (ucast (ucast (drop_bit 16 w) :: U8))
     OR push_bit 24 (ucast (ucast (drop_bit 24 w) :: U8)) = w"
proof (rule bit_word_eqI)
  fix n assume "n < LENGTH(32)"
  then show "bit (ucast (ucast (take_bit 16 w :: U32) :: U16) OR push_bit 16 (ucast (ucast (drop_bit 16 w) :: U8))
     OR push_bit 24 (ucast (ucast (drop_bit 24 w) :: U8)) :: U32) n = bit w n"
    by (cases "n < 24") (auto simp: bit_simps)
qed

lemma assemble_limit:
  "ucast (ucast (take_bit 16 w :: U32) :: U16) OR push_bit 16 (ucast (ucast (take_bit 4 (drop_bit 16 w)) :: 4 word))
     = take_bit 20 w"
  by (rule bit_word_eqI) (auto simp: bit_simps)

lemma assemble_nibble: "ucast (ucast (take_bit 4 b :: U8) :: 4 word) = take_bit 4 b"
  by (rule bit_word_eqI) (auto simp: bit_simps)

text \<open>The descriptor that \<open>kgdt_edit\<close> makes of its arguments.\<close>

definition new_descriptor :: "U32 \<Rightarrow> U32 \<Rightarrow> U8 \<Rightarrow> U8 \<Rightarrow> GdtDescriptor" where
  "new_descriptor base limit access flags =
     \<lparr>limit_low = ucast (take_bit 16 limit), base_low = ucast (take_bit 16 base),
      base_middle = ucast (drop_bit 16 base), gdt_access = access, limit_high = ucast (take_bit 4 (drop_bit 16 limit)),
      gdt_flags = ucast (take_bit 4 flags), base_high = ucast (drop_bit 24 base)\<rparr>"

lemma new_descriptor_read:
  "segment_base (new_descriptor base limit access flags) = base"
  "segment_limit (new_descriptor base limit access flags) = take_bit 20 limit"
  "gdt_access (new_descriptor base limit access flags) = access"
  "ucast (gdt_flags (new_descriptor base limit access flags)) = take_bit 4 flags"
  by (simp_all add: new_descriptor_def segment_base_def segment_limit_def assemble_base assemble_limit assemble_nibble)

lemma kgdt_edit_cases:
  "kgdt_edit i base limit access flags st =
     (if 3 \<le> i \<and> i \<le> s_gdt_count st \<and> i \<le> 512
      then Some ((store_descriptor i (new_descriptor base limit access flags) (st\<lparr>s_gdt := MEM_START_GDT\<rparr>))\<lparr>
             s_gdt_count := (if i = s_gdt_count st then s_gdt_count st + 1 else s_gdt_count st)\<rparr>)
      else None)"
  by (auto simp: kgdt_edit_def store_descriptor_def new_descriptor_def Let_def MIN_GDT_INDEX_def MAX_GDT_DESC_COUNT_def masks)

text \<open>
  C32. Editing a descriptor of the global descriptor table, which has room for 512. For an index of the table, from 3 up to and including the
  number of descriptors, the entry is written so that the processor reads exactly the base given, the low 20 bits of the
  limit, the access byte and the low four flags; no other entry and nothing of the boot information changes, and the number of descriptors grows by one
  exactly when the index is that number. When the table is full, the index 512 is accepted as well although the table has no such entry: no entry
  changes, and the descriptor replaces the first eight bytes of the boot information, which belong to the first glyph of the font. Every other index panics.
\<close>

theorem kgdt_edit_correct:
  "if 3 \<le> i \<and> i \<le> s_gdt_count st \<and> i < 512
   then \<exists>st'. kgdt_edit i base limit access flags st = Some st'
     \<and> segment_base (gdt st' i) = base \<and> segment_limit (gdt st' i) = take_bit 20 limit
     \<and> gdt_access (gdt st' i) = access \<and> ucast (gdt_flags (gdt st' i)) = take_bit 4 flags
     \<and> (gdt st')(i := gdt st i) = gdt st \<and> boot st' = boot st
     \<and> s_gdt_count st' = s_gdt_count st + (if i = s_gdt_count st then 1 else 0)
   else if i = 512 \<and> 512 \<le> s_gdt_count st
   then \<exists>st' d. kgdt_edit i base limit access flags st = Some st' \<and> gdt st' = gdt st \<and> gdt_address i = MEM_START_BOOT_INFO
     \<and> font_data (boot st') = gdt_bytes d @ drop 8 (font_data (boot st)) \<and> segment_base d = base \<and> segment_limit d = take_bit 20 limit
   else kgdt_edit i base limit access flags st = None"
proof -
  have "i < 512" if "i \<le> 512" "i \<noteq> 512"
    using that by simp
  then show ?thesis
    using gdt_page new_descriptor_read [of base limit access flags]
    by (auto simp: kgdt_edit_cases store_descriptor_def MAX_GDT_DESC_COUNT_def)
qed

text \<open>
  Installing an interrupt handler: the gate written by \<open>kidt_edit\<close> is present, leads to exactly the address of the
  handler in the segment given, with the privilege level reduced to two bits, and no other gate changes.
\<close>

theorem kidt_edit_correct:
  "gate_offset (idt (kidt_edit i func sel t dpl st) i) = func
   \<and> segment_selector (idt (kidt_edit i func sel t dpl st) i) = sel
   \<and> idt_p (idt (kidt_edit i func sel t dpl st) i) = 1
   \<and> idt_type (idt (kidt_edit i func sel t dpl st) i) = t
   \<and> ucast (idt_dpl (idt (kidt_edit i func sel t dpl st) i)) = take_bit 2 dpl
   \<and> (idt (kidt_edit i func sel t dpl st))(i := idt st i) = idt st"
proof -
  have "ucast (ucast (take_bit 2 dpl) :: 2 word) = take_bit 2 dpl"
    by (rule bit_word_eqI) (auto simp: bit_simps)
  then show ?thesis
    by (simp add: kidt_edit_def gate_offset_def masks assemble_halves)
qed

lemma less_8_cases: "(k :: nat) < 8 \<Longrightarrow> k \<in> {0, 1, 2, 3, 4, 5, 6, 7}"
  by auto

lemma bits_FD: "k < 8 \<Longrightarrow> bit (0xFD :: U8) k \<longleftrightarrow> k \<noteq> 1"
  by (drule less_8_cases) auto

lemma bits_CF: "k < 8 \<Longrightarrow> bit (0xCF :: U8) k \<longleftrightarrow> k \<noteq> 4 \<and> k \<noteq> 5"
  by (drule less_8_cases) auto

lemma bits_FF: "k < 8 \<Longrightarrow> bit (0xFF :: U8) k"
  by (drule less_8_cases) auto

text \<open>
  C33. The task state segment gives user programs access to three I/O ports only. After \<open>ktss_init\<close>, of the ports
  below 0x7F8 exactly the debug port 0xE9 and the VGA ports 0x3D4 and 0x3D5 are not denied by the map; the
  descriptor with index 3 is the segment with the new structure, which is the current task, and entering the kernel
  from user mode switches to the kernel stack. The ports from 0x7F8 on are decided by what the memory held before.
\<close>

theorem ktss_init_ports:
  assumes "ksalloc sizeof_tss st = Some (entry, st1)" "entry \<noteq> 0" "3 \<le> s_gdt_count st1"
  shows "\<exists>st'. ktss_init st = Some st'
    \<and> (\<forall>port < 0x7F8. port_denied (tss_at st' (tss_entry st')) port \<longleftrightarrow> port \<notin> {0xE9, 0x3D4, 0x3D5})
    \<and> (\<forall>port \<ge> 0x7F8. port_denied (tss_at st' (tss_entry st')) port \<longleftrightarrow> port_denied (tss_at st1 entry) port)
    \<and> esp0 (tss_at st' (tss_entry st')) = MEM_KSTACK_TOP
    \<and> segment_base (gdt st' 3) = tss_entry st' \<and> segment_limit (gdt st' 3) = 363 \<and> tr st' = 24"
proof -
  define m where "m = (\<lambda>i. if i < IOMAP_SIZE - 1 then 0xFF else iomap (tss_at st1 entry) i)"
  define m1 where "m1 = m(29 := m 29 AND 0xFD, 122 := m 122 AND 0xCF)"
  have m: "m 29 = 0xFF" "m 122 = 0xFF"
    by (simp_all add: m_def IOMAP_SIZE_def)
  have low: "bit (m1 (port div 8)) (port mod 8) \<longleftrightarrow> port \<notin> {0xE9, 0x3D4, 0x3D5}" if "port < 0x7F8" for port
  proof -
    have k: "port mod 8 < 8" and le: "port div 8 < 255"
      using that by auto
    have ports: "port = 0xE9 \<longleftrightarrow> port div 8 = 29 \<and> port mod 8 = 1"
        "port = 0x3D4 \<longleftrightarrow> port div 8 = 122 \<and> port mod 8 = 4" "port = 0x3D5 \<longleftrightarrow> port div 8 = 122 \<and> port mod 8 = 5"
      by presburger+
    show ?thesis
      using le m bits_FD [OF k] bits_CF [OF k] bits_FF [OF k]
      by (auto simp: ports m1_def) (simp_all add: m_def IOMAP_SIZE_def)
  qed
  have high: "m1 (port div 8) = iomap (tss_at st1 entry) (port div 8)" if "port \<ge> 0x7F8" for port
  proof -
    have "port div 8 \<ge> 255"
      using that by auto
    then show ?thesis
      by (simp add: m1_def m_def IOMAP_SIZE_def)
  qed
  let ?t = "(tss_at st1 entry)\<lparr>iomap := m1, iomap_base := offsetOf_iomap, ss0 := GDT_SELECTOR_KDATA, esp0 := MEM_KSTACK_TOP\<rparr>"
  let ?s = "st1\<lparr>tss_entry := entry, tss_at := (tss_at st1)(entry := ?t)\<rparr>"
  obtain st2 where st2: "kgdt_edit 3 entry (sizeof_tss - 1) 0xE9 0x1 ?s = Some st2"
      "segment_base (gdt st2 3) = entry" "segment_limit (gdt st2 3) = 363" "tss_entry st2 = entry"
      "tss_at st2 = tss_at ?s"
    using assms(3)
    by (simp add: kgdt_edit_cases store_descriptor_def MAX_GDT_DESC_COUNT_def new_descriptor_read sizeof_tss_def)
  have "ktss_init st = Some ((kgdt_write st2)\<lparr>tr := ucast GDT_SELECTOR_KTSS\<rparr>)"
    using assms(1,2) st2(1) unfolding ktss_init_def m1_def m_def by (simp add: Let_def fun_upd_def)
  then show ?thesis
    using st2 low high
    by (simp add: kgdt_write_def port_denied_def GDT_SELECTOR_KTSS_def GDT_SELECTOR_FROM_INDEX_def)
qed

section \<open>A concrete machine\<close>

definition sample_dt :: "U16 \<Rightarrow> dt_state" where
  "sample_dt n = process_state.extend sample_sched
     \<lparr>s_gdt = MEM_START_GDT, s_gdt_count = n,
      gdt = (\<lambda>_. \<lparr>limit_low = 0, base_low = 0, base_middle = 0, gdt_access = 0, limit_high = 0, gdt_flags = 0, base_high = 0\<rparr>),
      gdtr = (0, 0), s_idt = MEM_START_IDT,
      idt = (\<lambda>_. \<lparr>offset_low = 0, segment_selector = 0, idt_zeros = 0, idt_type = 0, idt_dpl = 0, idt_p = 0, offset_high = 0\<rparr>),
      idtr = (0, 0), tss_at = (\<lambda>_. \<lparr>esp0 = 0, ss0 = 0, iomap_base = 0, iomap = \<lambda>_. 0\<rparr>), tss_entry = 0, tr = 0\<rparr>"

lemma sample_dt_fields:
  "phase (sample_dt n) = KERNEL_READY" "s_next (sample_dt n) = 0xC0026000" "s_start (sample_dt n) = 0xC0026000"
  "s_gdt_count (sample_dt n) = n"
  by (simp_all add: sample_dt_def process_state.defs sample_sched_def vmm_state.defs sample_vmm_def paging_state.defs
      sample_paging_def kmalloc_state.defs sample_kmalloc_def handle_state.defs sample_handles_def salloc_state.defs
      sample_salloc_def pmm_state.defs sample_pmm_def)

theorem ktss_init_ports_witness:
  "\<exists>st'. ktss_init (sample_dt 3) = Some st' \<and> \<not> port_denied (tss_at st' (tss_entry st')) 0xE9
    \<and> port_denied (tss_at st' (tss_entry st')) 0x60 \<and> \<not> port_denied (tss_at st' (tss_entry st')) 0x7F8"
proof -
  have "ALIGN_UP 364 8 = (368 :: UINT)"
    by (simp add: ALIGN_UP_def IS_ALIGNED_def)
  then have "ksalloc sizeof_tss (sample_dt 3) = Some (0xC0026000, (sample_dt 3)\<lparr>s_next := 0xC0026170\<rparr>)"
    by (simp add: ksalloc_def sample_dt_fields sizeof_tss_def ARCH_MEM_LEN_BYTES_SALLOC_def SALLOC_GRANUALITY_def
        IS_SPACE_AVAILABLE_def SPACE_USED_def)
  moreover have "\<not> port_denied (tss_at (sample_dt 3) 0xC0026000) 0x7F8"
    by (simp add: port_denied_def sample_dt_def process_state.defs)
  ultimately show ?thesis
    using ktss_init_ports [of "sample_dt 3" "0xC0026000"] by (fastforce simp: sample_dt_fields)
qed

end
