(* ===== verification/Devices.thy ===== *)
theory Devices
  imports Descriptor_Tables
begin

text \<open>
  Drivers for the devices of the PC: the interrupt controller (\<open>src/kernel/drivers/x86/pc/8259_pic.c\<close>), the timer
  (\<open>8254_pit.c\<close>), with \<open>include/x86/io.h\<close>, and the state of the PS/2 drivers, which are in the theory PS2.

  The devices themselves are not part of the program. What they answer is a function \<open>hw\<close> of the accesses to the I/O ports
  so far, which no operation changes; the accesses are recorded in \<open>io_log\<close>. The theorems hold for every such function.
\<close>

section \<open>I/O ports\<close>

datatype io_event = OutB U16 U8 | InB U16 U8

record MousePositionData =
  mouse_x :: U32
  mouse_y :: U32
  left_button :: bool
  right_button :: bool
  middle_button :: bool

record MousePacket =
  byte_index :: int
  mp_b0 :: U8
  mp_b1 :: U8
  mp_b2 :: U8

record MouseStatus =
  ms_id :: U8
  ms_status :: U8
  ms_resolution :: U8
  ms_sample_rate :: U8

record PS2Device =
  isSecondPort :: bool
  port_available :: bool

record hw_state = dt_state +
  hw :: "io_event list \<Rightarrow> U16 \<Rightarrow> U8"
  io_log :: "io_event list"
  ps2_devices :: "nat \<Rightarrow> PS2Device"
  mouse_position :: MousePositionData
  mouse_status_original :: MouseStatus
  mpacket :: MousePacket

definition outb :: "U16 \<Rightarrow> U8 \<Rightarrow> 'a hw_state_scheme \<Rightarrow> 'a hw_state_scheme" where
  "outb p v st = st\<lparr>io_log := io_log st @ [OutB p v]\<rparr>"

definition inb :: "U16 \<Rightarrow> 'a hw_state_scheme \<Rightarrow> U8 \<times> 'a hw_state_scheme" where
  "inb p st = (let v = hw st (io_log st) p in (v, st\<lparr>io_log := io_log st @ [InB p v]\<rparr>))"

definition io_delay :: "'a hw_state_scheme \<Rightarrow> 'a hw_state_scheme" where
  "io_delay st = outb 0x80 0 st"

section \<open>The interrupt controller\<close>

definition MASTER_CMD_PORT :: U16 where "MASTER_CMD_PORT = 0x20"
definition MASTER_DATA_PORT :: U16 where "MASTER_DATA_PORT = 0x21"
definition SLAVE_CMD_PORT :: U16 where "SLAVE_CMD_PORT = 0xA0"
definition SLAVE_DATA_PORT :: U16 where "SLAVE_DATA_PORT = 0xA1"

definition PIC_IRQ_TIMER :: nat where "PIC_IRQ_TIMER = 0"
definition PIC_IRQ_KEYBOARD :: nat where "PIC_IRQ_KEYBOARD = 1"
definition PIC_IRQ_7 :: nat where "PIC_IRQ_7 = 7"
definition PIC_IRQ_PS2_MOUSE :: nat where "PIC_IRQ_PS2_MOUSE = 12"
definition PIC_IRQ_15 :: nat where "PIC_IRQ_15 = 15"

fun outb_delay :: "(U16 \<times> U8) list \<Rightarrow> 'a hw_state_scheme \<Rightarrow> 'a hw_state_scheme" where
  "outb_delay [] st = st"
| "outb_delay ((p, v) # r) st = outb_delay r (io_delay (outb p v st))"

text \<open>The initialization words ICW1 to ICW4 for both controllers, then the masks.\<close>

definition pic_init :: "U8 \<Rightarrow> U8 \<Rightarrow> 'a hw_state_scheme \<Rightarrow> 'a hw_state_scheme option" where
  "pic_init master_vector_start slave_vector_start st = do {
     k_assert (IS_ALIGNED (ucast master_vector_start) 8);
     k_assert (IS_ALIGNED (ucast slave_vector_start) 8);
     Some (outb_delay
       [(MASTER_CMD_PORT, 0x11), (SLAVE_CMD_PORT, 0x11),
        (MASTER_DATA_PORT, master_vector_start), (SLAVE_DATA_PORT, slave_vector_start),
        (MASTER_DATA_PORT, 4), (SLAVE_DATA_PORT, 2), (MASTER_DATA_PORT, 1), (SLAVE_DATA_PORT, 1),
        (MASTER_DATA_PORT, 0xFB), (SLAVE_DATA_PORT, 0xFF)] st)
   }"

definition pic_enable_disable_irq :: "nat \<Rightarrow> bool \<Rightarrow> 'a hw_state_scheme \<Rightarrow> 'a hw_state_scheme option" where
  "pic_enable_disable_irq irq enable st =
     (let port = (if irq \<ge> 8 then SLAVE_DATA_PORT else MASTER_DATA_PORT);
          irq = (if irq \<ge> 8 then irq - 8 else irq)
      in do {
        k_assert (irq \<le> 8);
        let (v, st) = inb port st;
            v = (if enable then v AND NOT (push_bit irq 1) else v OR push_bit irq 1)
        in Some (outb port v st)
      })"

text \<open>The registers of the master and of the slave, when the caller asks for them.\<close>

definition pic_read_IRR_ISR ::
  "bool \<Rightarrow> bool \<Rightarrow> bool \<Rightarrow> 'a hw_state_scheme \<Rightarrow> (UINT \<times> UINT) \<times> 'a hw_state_scheme" where
  "pic_read_IRR_ISR readISR master slave st =
     (let ocw3 = (if readISR then 0xB else 0xA);
          st = outb SLAVE_CMD_PORT ocw3 (outb MASTER_CMD_PORT ocw3 st);
          (m, st) = (if master then inb MASTER_CMD_PORT st else (0, st));
          (s, st) = (if slave then inb SLAVE_CMD_PORT st else (0, st))
      in ((ucast m, ucast s), st))"

definition pic_send_eoi :: "nat \<Rightarrow> 'a hw_state_scheme \<Rightarrow> 'a hw_state_scheme option" where
  "pic_send_eoi irq st = do {
     k_assert (irq \<le> 16);
     let st = (if irq \<ge> 8 then outb SLAVE_CMD_PORT 0x20 st else st)
     in Some (outb MASTER_CMD_PORT 0x20 st)
   }"

section \<open>The timer\<close>

definition PIT_BASE_CLOCK_FREQ_HZ :: UINT where "PIT_BASE_CLOCK_FREQ_HZ = 1193182"
definition MIN_INTERRUPT_CLOCK_FREQ_HZ :: UINT where "MIN_INTERRUPT_CLOCK_FREQ_HZ = 19"

definition pit_set_counter :: "U8 \<Rightarrow> U8 \<Rightarrow> U16 \<Rightarrow> 'a hw_state_scheme \<Rightarrow> 'a hw_state_scheme option" where
  "pit_set_counter cntr mode v st = do {
     k_assert (cntr = 0 \<or> cntr = 2);
     k_assert (mode = 2 \<or> mode = 3);
     let port = (if cntr = 0 then 0x40 else 0x42);
         cw = push_bit 6 cntr OR push_bit 4 3 OR push_bit 1 mode;
         st = outb 0x43 cw st;
         st = outb port (ucast (v AND 0xFF)) st
     in Some (outb port (ucast (drop_bit 8 v AND 0xFF)) st)
   }"

definition pit_get_counter :: "U8 \<Rightarrow> 'a hw_state_scheme \<Rightarrow> ((U8 \<times> U16) \<times> 'a hw_state_scheme) option" where
  "pit_get_counter cntr st = do {
     k_assert (cntr = 0 \<or> cntr = 2);
     let port = (if cntr = 0 then 0x40 else 0x42);
         st = outb 0x43 (push_bit 6 3 OR push_bit (unat cntr + 1) 1) st;
         (status, st) = inb port st;
         (byteLow, st) = inb port st;
         (byteHigh, st) = inb port st
     in Some ((status, push_bit 8 (ucast byteHigh) OR ucast byteLow), st)
   }"

definition pit_get_interrupt_counter :: "'a hw_state_scheme \<Rightarrow> ((U8 \<times> U16) \<times> 'a hw_state_scheme) option" where
  "pit_get_interrupt_counter st = do {
     ((status, v), st) \<leftarrow> pit_get_counter 0 st;
     Some ((drop_bit 1 (status AND 0xE), v), st)
   }"

definition pit_set_interrupt_counter :: "U8 \<Rightarrow> UINT \<Rightarrow> 'a hw_state_scheme \<Rightarrow> 'a hw_state_scheme option" where
  "pit_set_interrupt_counter mode freq st = do {
     k_assert (freq \<ge> MIN_INTERRUPT_CLOCK_FREQ_HZ);
     pit_set_counter 0 mode (ucast (PIT_BASE_CLOCK_FREQ_HZ div freq)) st
   }"

definition pit_set_speaker_counter :: "UINT \<Rightarrow> 'a hw_state_scheme \<Rightarrow> 'a hw_state_scheme option" where
  "pit_set_speaker_counter freq st = do {
     k_assert (freq \<ge> MIN_INTERRUPT_CLOCK_FREQ_HZ);
     pit_set_counter 2 3 (ucast (PIT_BASE_CLOCK_FREQ_HZ div freq)) st
   }"

end
