(* ===== verification/Frames.thy ===== *)
theory Frames
  imports Process
begin

text \<open>
  What the operations leave alone. The paging operations change the page tables, the states of the page
  frames and the last error (\<open>paging_frame\<close>); the memory manager changes, in addition, its own objects,
  the heap and the kernel memory (\<open>vmm_frame\<close>). Neither touches the state of the processes. The lemmas
  hold for every call that returns, without an invariant, and are collected in \<open>frames_of\<close>.
\<close>

named_theorems frames_of \<open>a call that returns relates the states by a frame relation\<close>

text \<open>Taking apart a sequence of calls that returned.\<close>

lemma bind_SomeE:
  assumes "m \<bind> f = Some y"
  obtains x where "m = Some x" "f x = Some y"
  using assms by (cases m) auto

section \<open>Paging\<close>

definition paging_frame :: "'a paging_state_scheme \<Rightarrow> 'a paging_state_scheme \<Rightarrow> bool" where
  "paging_frame st st' \<longleftrightarrow> paging_state.more st' = paging_state.more st \<and> kheap st' = kheap st
     \<and> phase st' = phase st \<and> cr3 st' = cr3 st \<and> kmem st' = kmem st \<and> handles st' = handles st"

lemma paging_frame_refl [simp]: "paging_frame st st"
  by (simp add: paging_frame_def)

lemma paging_frame_trans [trans]: "paging_frame st st1 \<Longrightarrow> paging_frame st1 st2 \<Longrightarrow> paging_frame st st2"
  by (simp add: paging_frame_def)

lemma paging_frame_updates [simp]:
  "paging_frame st (st'\<lparr>errorNumber := e\<rparr>) = paging_frame st st'"
  "paging_frame st (st'\<lparr>s_pab := b\<rparr>) = paging_frame st st'"
  "paging_frame st (st'\<lparr>regionLength := n\<rparr>) = paging_frame st st'"
  "paging_frame st (set_word f i w st') = paging_frame st st'"
  "paging_frame st (st'\<lparr>pm := m\<rparr>) = paging_frame st st'"
  by (simp_all add: paging_frame_def set_word_def)

lemma paging_frame_vwrite [frames_of]: "vwrite va w st = Some st' \<Longrightarrow> paging_frame st st'"
  by (auto simp: vwrite_def bind_eq_Some_conv)

lemma paging_frame_clear [frames_of]: "clear_page va st = Some st' \<Longrightarrow> paging_frame st st'"
  by (auto simp: clear_page_def bind_eq_Some_conv)

lemma paging_frame_usable:
  "kpmm_getUsableMemorySize reg st = (x, st') \<Longrightarrow> paging_frame st st'"
  "kpmm_getUsableMemoryPagesCount reg st = (x, st') \<Longrightarrow> paging_frame st st'"
  by (auto simp: kpmm_getUsableMemorySize_def kpmm_getUsableMemoryPagesCount_def Let_def split: prod.splits if_splits)

lemma paging_frame_set_frames: "set_frames reg i n s st = Some (r, st') \<Longrightarrow> paging_frame st st'"
  by (auto simp: set_frames_def bind_eq_Some_conv)

lemma paging_frame_alloc [frames_of]: "kpmm_alloc n reg st = Some (r, st') \<Longrightarrow> paging_frame st st'"
  by (auto simp: kpmm_alloc_def bind_eq_Some_conv Let_def split: if_splits prod.splits
      dest!: paging_frame_set_frames paging_frame_usable intro: paging_frame_trans)

lemma paging_frame_free [frames_of]: "kpmm_free pa n st = Some (r, st') \<Longrightarrow> paging_frame st st'"
  by (auto simp: kpmm_free_def Let_def split: if_splits prod.splits
      dest!: paging_frame_set_frames paging_frame_usable intro: paging_frame_trans)

lemma paging_frame_setup [frames_of]:
  "s_setupPTE pte pa flags st = Some st' \<Longrightarrow> paging_frame st st'"
  "s_setupPDE pde pa flags st = Some st' \<Longrightarrow> paging_frame st st'"
  by (auto simp: s_setupPTE_def s_setupPDE_def split: if_splits dest: frames_of)

lemma paging_frame_temporary [frames_of]:
  "s_temporaryMap pa i st = Some (va, st') \<Longrightarrow> paging_frame st st'"
  "s_temporaryUnmap i st = Some st' \<Longrightarrow> paging_frame st st'"
  "s_internal_temporaryMap pa st = Some (va, st') \<Longrightarrow> paging_frame st st'"
  "s_internal_temporaryUnmap st = Some st' \<Longrightarrow> paging_frame st st'"
  "kpg_temporaryMap pa st = Some (va, st') \<Longrightarrow> paging_frame st st'"
  "kpg_temporaryUnmap st = Some st' \<Longrightarrow> paging_frame st st'"
  by (auto simp: s_temporaryMap_def s_temporaryUnmap_def s_internal_temporaryMap_def s_internal_temporaryUnmap_def
      kpg_temporaryMap_def kpg_temporaryUnmap_def bind_eq_Some_conv Let_def split: if_splits dest!: frames_of)

lemmas frame_steps = bind_eq_Some_conv Let_def paging_frame_def

lemma paging_frame_map [frames_of]: "kpg_map pd va pa flags st = Some (r, st') \<Longrightarrow> paging_frame st st'"
  by (auto simp: kpg_map_def frame_steps split: if_splits dest!: frames_of)

lemma paging_frame_unmap [frames_of]: "kpg_unmap pd va st = Some (r, st') \<Longrightarrow> paging_frame st st'"
  by (auto simp: kpg_unmap_def frame_steps split: if_splits dest!: frames_of)

lemma paging_frame_exists [frames_of]: "kpg_doesMappingExists pd va st = Some (r, st') \<Longrightarrow> paging_frame st st'"
  by (auto simp: kpg_doesMappingExists_def frame_steps split: if_splits dest!: frames_of)

lemma paging_frame_map_loop: "mapContinous_loop n pd va pa flags st = Some (r, st') \<Longrightarrow> paging_frame st st'"
  by (induction n arbitrary: va pa st)
    (auto simp: bind_eq_Some_conv split: if_splits dest!: paging_frame_map intro: paging_frame_trans)

lemma paging_frame_mapContinous [frames_of]:
  "kpg_mapContinous pd va pa n flags st = Some (r, st') \<Longrightarrow> paging_frame st st'"
  by (auto simp: kpg_mapContinous_def split: if_splits dest: paging_frame_map_loop)

lemma paging_frame_copy [frames_of]: "copyKernel_loop n i pd kpd st = Some st' \<Longrightarrow> paging_frame st st'"
  by (induction n arbitrary: i st)
    (auto simp: bind_eq_Some_conv dest!: paging_frame_vwrite intro: paging_frame_trans)

text \<open>An optional step, as \<open>kpg_setupPageDirectory\<close> has them.\<close>

lemma paging_frame_if:
  "(if c then m else Some st) = Some st' \<Longrightarrow> (m = Some st' \<Longrightarrow> paging_frame st st') \<Longrightarrow> paging_frame st st'"
  by (auto split: if_splits)

lemma paging_frame_setupPageDirectory [frames_of]:
  assumes "kpg_setupPageDirectory pd flags kpd st = Some (r, st')"
  shows "paging_frame st st'"
proof -
  obtain pa st1 where st1: "(if BIT_ISSET flags PG_NEWPD_FLAG_CREATE_NEW then kpmm_alloc 1 PMM_REGION_ANY st
      else Some (Some pd, st)) = Some (pa, st1)"
    using assms unfolding kpg_setupPageDirectory_def by (auto simp: bind_eq_Some_conv simp del: split_paired_Ex)
  then have f1: "paging_frame st st1"
    by (auto split: if_splits dest: frames_of)
  show ?thesis
  proof (cases pa)
    case None
    then show ?thesis
      using assms st1 f1 unfolding kpg_setupPageDirectory_def by simp
  next
    case (Some a)
    then obtain va st2 st3 st4 st5 where s: "s_internal_temporaryMap a st1 = Some (va, st2)"
        "(if BIT_ISSET flags PG_NEWPD_FLAG_CREATE_NEW then clear_page va st2 else Some st2) = Some st3"
        "(if BIT_ISSET flags PG_NEWPD_FLAG_COPY_KERNEL_PAGES then do {
                  kpd \<leftarrow> kpd;
                  (l_kernelPD, st) \<leftarrow> kpg_temporaryMap kpd st3;
                  st \<leftarrow> copyKernel_loop (1024 - unat KERNEL_PDE_INDEX) KERNEL_PDE_INDEX va l_kernelPD st;
                  kpg_temporaryUnmap st
                }
                else Some st3) = Some st4"
        "(if BIT_ISSET flags PG_NEWPD_FLAG_RECURSIVE_MAP then do {
                  w \<leftarrow> vread (va + 4 * RECURSIVE_PDE_INDEX) st4;
                  vwrite (va + 4 * RECURSIVE_PDE_INDEX) (set_entry_frame (PHYSICAL_TO_PAGEFRAME a) w) st4
                }
                else Some st4) = Some st5"
        "s_internal_temporaryUnmap st5 = Some st'"
      using assms st1 unfolding kpg_setupPageDirectory_def by (auto simp: bind_eq_Some_conv [of _ _ "(r, st')"])
    note f1
    also have "paging_frame st1 st2"
      using s(1) by (rule frames_of)
    also have "paging_frame st2 st3"
      using s(2) by (rule paging_frame_if) (rule frames_of)
    also have "paging_frame st3 st4"
      using s(3) by (rule paging_frame_if) (auto simp: frame_steps dest!: frames_of)
    also have "paging_frame st4 st5"
      using s(4) by (rule paging_frame_if) (auto simp: bind_eq_Some_conv dest!: frames_of)
    also have "paging_frame st5 st'"
      using s(5) by (rule frames_of)
    finally show ?thesis .
  qed
qed

lemma paging_frame_deleteLoop [frames_of]:
  "deletePD_loop n i va st = Some (r, st') \<Longrightarrow> paging_frame st st'"
  by (induction n arbitrary: i st)
    (auto simp: bind_eq_Some_conv split: if_splits dest!: paging_frame_free intro: paging_frame_trans)

lemma paging_frame_deletePageDirectory [frames_of]:
  "kpg_deletePageDirectory pd flags st = Some (r, st') \<Longrightarrow> paging_frame st st'"
  by (auto simp: kpg_deletePageDirectory_def frame_steps split: if_splits dest!: frames_of)

lemma paging_frame_memcpyPhy:
  "memcpyPhy_bytes n dest src st = Some st' \<Longrightarrow> paging_frame st st'"
  by (induction n arbitrary: st) (fastforce simp: frame_steps vwrite_byte_def set_word_def)+

lemma paging_frame_memcpyPages:
  "memcpyPhy_pages k dest src off n st = Some st' \<Longrightarrow> paging_frame st st'"
proof (induction k arbitrary: dest src off n st)
  case 0
  then show ?case
    by (auto simp: paging_frame_def elim!: bind_SomeE dest!: frames_of paging_frame_memcpyPhy)
next
  case (Suc k)
  then show ?case
    by (auto simp: paging_frame_def elim!: bind_SomeE dest!: Suc.IH frames_of paging_frame_memcpyPhy)
qed

lemma paging_frame_memcpyToPhyMem [frames_of]:
  "k_memcpyToPhyMem dest src doff soff n st = Some st' \<Longrightarrow> paging_frame st st'"
  by (auto simp: k_memcpyToPhyMem_def split: if_splits dest: paging_frame_memcpyPages)

section \<open>The memory manager\<close>

definition vmm_frame :: "'a vmm_state_scheme \<Rightarrow> 'a vmm_state_scheme \<Rightarrow> bool" where
  "vmm_frame st st' \<longleftrightarrow> vmm_state.more st' = vmm_state.more st \<and> phase st' = phase st \<and> cr3 st' = cr3 st
     \<and> kcontext st' = kcontext st"

lemma vmm_frame_refl [simp]: "vmm_frame st st"
  by (simp add: vmm_frame_def)

lemma vmm_frame_trans [trans]: "vmm_frame st st1 \<Longrightarrow> vmm_frame st1 st2 \<Longrightarrow> vmm_frame st st2"
  by (simp add: vmm_frame_def)

lemma vmm_frame_updates [simp]:
  "vmm_frame st (st'\<lparr>errorNumber := e\<rparr>) = vmm_frame st st'"
  "vmm_frame st (st'\<lparr>kheap := h\<rparr>) = vmm_frame st st'"
  "vmm_frame st (st'\<lparr>kmem := m\<rparr>) = vmm_frame st st'"
  "vmm_frame st (st'\<lparr>s_next := n\<rparr>) = vmm_frame st st'"
  "vmm_frame st (st'\<lparr>vmms := v\<rparr>) = vmm_frame st st'"
  "vmm_frame st (st'\<lparr>vas_at := a\<rparr>) = vmm_frame st st'"
  "vmm_frame st (st'\<lparr>vas_list := l\<rparr>) = vmm_frame st st'"
  "vmm_frame st (st'\<lparr>shares := s\<rparr>) = vmm_frame st st'"
  by (simp_all add: vmm_frame_def)

lemma paging_vmm_frame: "paging_frame st st' \<Longrightarrow> vmm_frame st st'"
  by (cases st; cases st') (simp add: paging_frame_def vmm_frame_def)

lemmas vmm_frames_of = frames_of [THEN paging_vmm_frame]

lemma vmm_frame_heap:
  "kmalloc n st = Some (p, st') \<Longrightarrow> vmm_frame st st'"
  "kmallocz n st = Some (p, st') \<Longrightarrow> vmm_frame st st'"
  "kfree p st = Some (b, st') \<Longrightarrow> vmm_frame st st'"
  by (auto simp: kmallocz_def kmalloc_def kfree_def elim!: bind_SomeE split: if_splits)

lemma vmm_frame_salloc:
  "ksalloc n st = Some (p, st') \<Longrightarrow> vmm_frame st st'"
  "kscalloc n st = Some (p, st') \<Longrightarrow> vmm_frame st st'"
  by (auto simp: kscalloc_def ksalloc_def Let_def elim!: bind_SomeE split: if_splits)
lemma vmm_frame_createNew: "createNewVirtAddrSpace vmm va n flags st = Some (p, st') \<Longrightarrow> vmm_frame st st'"
  by (auto simp: createNewVirtAddrSpace_def Let_def elim!: bind_SomeE split: if_splits
      dest!: vmm_frame_heap vmm_frame_salloc)

lemma vmm_frame_addVas: "addVas_loop vmm new xs st = Some (p, st') \<Longrightarrow> vmm_frame st st'"
  by (induction xs) (auto simp: Let_def elim!: bind_SomeE split: if_splits)

lemma vmm_frame_addNew: "addNewVirtualAddressSpace vmm va n flags st = Some (p, st') \<Longrightarrow> vmm_frame st st'"
  by (auto simp: addNewVirtualAddressSpace_def Let_def elim!: bind_SomeE split: if_splits
      dest!: vmm_frame_createNew vmm_frame_addVas intro: vmm_frame_trans)

lemma vmm_frame_commit: "commitVirtualPages vmm va pa n vas st = Some (r, st') \<Longrightarrow> vmm_frame st st'"
  by (auto simp: commitVirtualPages_def Let_def vmm_frame_def elim!: bind_SomeE split: if_splits option.splits
      dest!: vmm_frames_of)

lemma vmm_frame_memmap: "kvmm_memmap vmm va pa n flags st = Some (r, st') \<Longrightarrow> vmm_frame st st'"
  by (auto simp: kvmm_memmap_def vmm_frame_def elim!: bind_SomeE split: if_splits
      dest!: vmm_frame_addNew vmm_frame_commit)

lemma vmm_frame_new: "kvmm_new start end pd reg st = Some (r, st') \<Longrightarrow> vmm_frame st st'"
  by (auto simp: kvmm_new_def Let_def elim!: bind_SomeE split: if_splits dest!: vmm_frame_heap vmm_frame_salloc)

lemmas frames_of_vmm = vmm_frames_of vmm_frame_heap vmm_frame_memmap vmm_frame_new

end
