(* ===== verification/PS2.thy ===== *)
theory PS2
  imports Devices Frames
begin

text \<open>
  The PS/2 controller (\<open>src/kernel/drivers/x86/pc/8042_ps2.c\<close>), its mouse (\<open>ps2mouse.c\<close>), its keyboard (\<open>ps2kb.c\<close>) and
  the speaker behind the same chip (\<open>pcspeaker.c\<close>).

  A byte a C function leaves uninitialised is an argument of the model. The addresses of the assembly entry points of the
  interrupt handlers are chosen by the linker and are arguments too.
\<close>

section \<open>The controller\<close>

definition PS2_DATA_PORT :: U16 where "PS2_DATA_PORT = 0x60"
definition PS2_CMD_PORT :: U16 where "PS2_CMD_PORT = 0x64"
definition PS2_SPEAKER_PORT :: U16 where "PS2_SPEAKER_PORT = 0x61"
definition RW_TIMEOUT_ITERATION :: nat where "RW_TIMEOUT_ITERATION = 10000"
definition DEVICE_COUNT :: nat where "DEVICE_COUNT = 2"
definition PS2_FIRST_DEVICE :: nat where "PS2_FIRST_DEVICE = 0"
definition PS2_SECOND_DEVICE :: nat where "PS2_SECOND_DEVICE = 1"

definition IS_READ_READY :: "U8 \<Rightarrow> bool" where "IS_READ_READY status \<longleftrightarrow> status AND 1 = 1"
definition IS_WRITE_READY :: "U8 \<Rightarrow> bool" where "IS_WRITE_READY status \<longleftrightarrow> status AND 2 = 0"

text \<open>The two waiting loops; the number is what is left of the iterations.\<close>

fun wait_loop :: "(U8 \<Rightarrow> bool) \<Rightarrow> nat \<Rightarrow> U8 \<Rightarrow> 'a hw_state_scheme \<Rightarrow> bool \<times> 'a hw_state_scheme" where
  "wait_loop ready 0 status st = (False, st)"
| "wait_loop ready (Suc n) status st =
     (if ready status then (True, st)
      else let (status, st) = inb PS2_CMD_PORT st in wait_loop ready n status st)"

definition ps2_canRead :: "'a hw_state_scheme \<Rightarrow> bool \<times> 'a hw_state_scheme" where
  "ps2_canRead st =
     (let (status, st) = inb PS2_CMD_PORT st in wait_loop IS_READ_READY RW_TIMEOUT_ITERATION status st)"

definition ps2_wait_read :: "U16 \<Rightarrow> 'a hw_state_scheme \<Rightarrow> U8 option \<times> 'a hw_state_scheme" where
  "ps2_wait_read ioport st =
     (let (r, st) = ps2_canRead st
      in if \<not> r then (None, st\<lparr>errorNumber := ERR_TIMEOUT\<rparr>)
         else let (data, st) = inb ioport st in (Some data, st))"

definition ps2_wait_write :: "U16 \<Rightarrow> U8 \<Rightarrow> 'a hw_state_scheme \<Rightarrow> bool \<times> 'a hw_state_scheme" where
  "ps2_wait_write ioport data st =
     (let (status, st) = inb PS2_CMD_PORT st;
          (r, st) = wait_loop IS_WRITE_READY RW_TIMEOUT_ITERATION status st
      in if \<not> r then (False, st\<lparr>errorNumber := ERR_TIMEOUT\<rparr>) else (True, outb ioport data st))"

definition ps2_no_wait_read :: "U16 \<Rightarrow> 'a hw_state_scheme \<Rightarrow> U8 \<times> 'a hw_state_scheme" where
  "ps2_no_wait_read ioport st = inb ioport st"

definition ps2_write_device_data_no_wait :: "nat \<Rightarrow> U8 \<Rightarrow> 'a hw_state_scheme \<Rightarrow> 'a hw_state_scheme option" where
  "ps2_write_device_data_no_wait device_id data st = do {
     k_assert (device_id < DEVICE_COUNT);
     k_assert (port_available (ps2_devices st device_id));
     let st = (if isSecondPort (ps2_devices st device_id) then snd (ps2_wait_write PS2_CMD_PORT 0xD4 st) else st)
     in Some (snd (ps2_wait_write PS2_DATA_PORT data st))
   }"

text \<open>The number is how many times the command may still be sent again.\<close>

fun wait_ack_loop :: "nat \<Rightarrow> nat \<Rightarrow> U8 \<Rightarrow> 'a hw_state_scheme \<Rightarrow> (bool \<times> 'a hw_state_scheme) option" where
  "wait_ack_loop n device_id cmd st = do {
     st \<leftarrow> ps2_write_device_data_no_wait device_id cmd st;
     (case ps2_wait_read PS2_DATA_PORT st of
        (None, st) \<Rightarrow> RETURN_ERROR (errorNumber st) False st
      | (Some ack, st) \<Rightarrow>
          if ack = 0xFE \<and> n > 0 then wait_ack_loop (n - 1) device_id cmd st
          else if ack \<noteq> 0xFA then RETURN_ERROR ERR_DEVICE_NOT_READY False st
          else Some (True, st))
   }"

definition ps2_write_device_data_wait_ack :: "nat \<Rightarrow> U8 \<Rightarrow> 'a hw_state_scheme \<Rightarrow> (bool \<times> 'a hw_state_scheme) option" where
  "ps2_write_device_data_wait_ack device_id cmd st = wait_ack_loop 3 device_id cmd st"

text \<open>The result carries the configuration that was read, when the read succeeded.\<close>

definition ps2_configuration ::
  "U8 \<Rightarrow> U8 \<Rightarrow> 'a hw_state_scheme \<Rightarrow> (bool \<times> U8 option) \<times> 'a hw_state_scheme" where
  "ps2_configuration enabled disabled st =
     (let (r, st) = ps2_wait_write PS2_CMD_PORT 0x20 st
      in if \<not> r then ((False, None), st)
         else case ps2_wait_read PS2_DATA_PORT st of
           (None, st) \<Rightarrow> ((False, None), st)
         | (Some config, st) \<Rightarrow>
             let (r, st) = ps2_wait_write PS2_CMD_PORT 0x60 st
             in if \<not> r then ((False, Some config), st)
                else let (r, st) = ps2_wait_write PS2_DATA_PORT (config AND NOT disabled OR enabled) st
                     in ((r, Some config), st))"

text \<open>\<open>junk\<close> is what the uninitialised \<open>config\<close> holds when the configuration cannot be read.\<close>

definition ps2_identify_device :: "U8 \<Rightarrow> nat \<Rightarrow> 'a hw_state_scheme \<Rightarrow> (U32 \<times> 'a hw_state_scheme) option" where
  "ps2_identify_device junk device_id st = do {
     k_assert (device_id < DEVICE_COUNT);
     let ((_, c), st) = ps2_configuration 0 0x43 st;
         config = (case c of Some v \<Rightarrow> v | None \<Rightarrow> junk)
     in do {
       (r, st) \<leftarrow> ps2_write_device_data_wait_ack device_id 0xF5 st;
       if \<not> r then Some (KERNEL_EXIT_FAILURE, st)
       else do {
         (r, st) \<leftarrow> ps2_write_device_data_wait_ack device_id 0xF2 st;
         if \<not> r then Some (KERNEL_EXIT_FAILURE, st)
         else case ps2_wait_read PS2_DATA_PORT st of
           (None, st) \<Rightarrow> Some (KERNEL_EXIT_FAILURE, st)
         | (Some byte0, st) \<Rightarrow>
             (let (r, st) = ps2_canRead st;
                  (byte1, st) = (if r then (case ps2_wait_read PS2_DATA_PORT st of
                                              (None, st) \<Rightarrow> (0, st)
                                            | (Some b, st) \<Rightarrow> (b, st))
                                 else (0, st));
                  (_, st) = ps2_configuration config 0 st
              in Some (push_bit 8 (ucast byte1) OR ucast byte0, st))
       }
     }
   }"

text \<open>Flushing ends only when the controller stops offering data.\<close>

partial_function (option) ps2_flush :: "'a hw_state_scheme \<Rightarrow> 'a hw_state_scheme option" where
  "ps2_flush st =
     (let (r, st) = ps2_canRead st
      in if r then ps2_flush (snd (ps2_no_wait_read PS2_DATA_PORT st)) else Some st)"

definition test_port :: "nat \<Rightarrow> U8 \<Rightarrow> 'a hw_state_scheme \<Rightarrow> 'a hw_state_scheme" where
  "test_port d cmd st =
     (let st = snd (ps2_wait_write PS2_CMD_PORT cmd st)
      in case ps2_wait_read PS2_DATA_PORT st of
           (None, st) \<Rightarrow> st
         | (Some config, st) \<Rightarrow>
             st\<lparr>ps2_devices := (ps2_devices st)(d := (ps2_devices st d)\<lparr>port_available := config = 0\<rparr>)\<rparr>)"

definition ps2_init :: "'a hw_state_scheme \<Rightarrow> (bool \<times> 'a hw_state_scheme) option" where
  "ps2_init st =
     (let st = st\<lparr>ps2_devices := (ps2_devices st)(0 := \<lparr>isSecondPort = False, port_available = False\<rparr>,
                                                1 := \<lparr>isSecondPort = True, port_available = False\<rparr>)\<rparr>;
          (r, st) = ps2_wait_write PS2_CMD_PORT 0xAD st
      in if \<not> r then Some (False, st)
         else let (r, st) = ps2_wait_write PS2_CMD_PORT 0xA7 st
         in if \<not> r then Some (False, st)
         else do {
           st \<leftarrow> ps2_flush st;
           let (_, st) = ps2_configuration 0 0x43 st;
               (_, st) = ps2_wait_write PS2_CMD_PORT 0xAA st
           in case ps2_wait_read PS2_DATA_PORT st of
                (None, st) \<Rightarrow> Some (False, st)
              | (Some config, st) \<Rightarrow>
                  if config \<noteq> 0x55 then RETURN_ERROR ERR_DEVICE_INIT_FAILED False st
                  else let st = test_port 0 0xAB st; st = test_port 1 0xA9 st
                  in if \<not> port_available (ps2_devices st 0) \<and> \<not> port_available (ps2_devices st 1)
                     then RETURN_ERROR ERR_DEVICE_INIT_FAILED False st
                     else let (_, st) = ps2_wait_write PS2_CMD_PORT 0xAE st;
                              (_, st) = ps2_wait_write PS2_CMD_PORT 0xA8 st
                     in Some (True, st)
         })"

section \<open>The mouse\<close>

definition CONFIG_PS2_MOUSE_SAMPLE_RATE :: U8 where "CONFIG_PS2_MOUSE_SAMPLE_RATE = 40"

definition ismouse :: "U8 \<Rightarrow> 'a hw_state_scheme \<Rightarrow> (bool \<times> 'a hw_state_scheme) option" where
  "ismouse junk st = do {
     (type, st) \<leftarrow> ps2_identify_device junk PS2_SECOND_DEVICE st;
     if sint type < 0 then RETURN_ERROR (errorNumber st) False st
     else if type = 0 \<or> type = 0x300 \<or> type = 0x400 then Some (True, st)
     else RETURN_ERROR ERR_DEVICE_INIT_FAILED False st
   }"

text \<open>A field that could not be read keeps its initial zero.\<close>

definition read_or_zero :: "U8 option \<times> 'a hw_state_scheme \<Rightarrow> U8 \<times> 'a hw_state_scheme" where
  "read_or_zero r = (case r of (None, st) \<Rightarrow> (0, st) | (Some v, st) \<Rightarrow> (v, st))"

definition get_mouse_state :: "'a hw_state_scheme \<Rightarrow> (MouseStatus \<times> 'a hw_state_scheme) option" where
  "get_mouse_state st = do {
     (_, st) \<leftarrow> ps2_write_device_data_wait_ack PS2_SECOND_DEVICE 0xF2 st;
     let (i, st) = read_or_zero (ps2_wait_read PS2_DATA_PORT st)
     in do {
       (_, st) \<leftarrow> ps2_write_device_data_wait_ack PS2_SECOND_DEVICE 0xE9 st;
       let (s, st) = read_or_zero (ps2_wait_read PS2_DATA_PORT st);
           (r, st) = read_or_zero (ps2_wait_read PS2_DATA_PORT st);
           (t, st) = read_or_zero (ps2_wait_read PS2_DATA_PORT st)
       in Some (\<lparr>ms_id = i, ms_status = s, ms_resolution = r, ms_sample_rate = t\<rparr>, st)
     }
   }"

text \<open>Sends commands one after the other until one of them fails.\<close>

fun send_all :: "nat \<Rightarrow> U8 list \<Rightarrow> 'a hw_state_scheme \<Rightarrow> (bool \<times> 'a hw_state_scheme) option" where
  "send_all d [] st = Some (True, st)"
| "send_all d (c # cmds) st = do {
     (r, st) \<leftarrow> ps2_write_device_data_wait_ack d c st;
     if \<not> r then Some (False, st) else send_all d cmds st
   }"

definition ps2_mouse_init :: "U8 \<Rightarrow> PTR \<Rightarrow> 'a hw_state_scheme \<Rightarrow> (bool \<times> 'a hw_state_scheme) option" where
  "ps2_mouse_init junk handler st = do {
     st \<leftarrow> pic_enable_disable_irq PIC_IRQ_PS2_MOUSE False st;
     (r, st) \<leftarrow> ismouse junk st;
     if \<not> r then Some (False, st)
     else do {
       (r, st) \<leftarrow> send_all PS2_SECOND_DEVICE [0xF6, 0xF3, CONFIG_PS2_MOUSE_SAMPLE_RATE, 0xF4] st;
       if \<not> r then Some (False, st)
       else do {
         (ms, st) \<leftarrow> get_mouse_state st;
         let st = st\<lparr>mouse_status_original := ms\<rparr>
         in if ms_sample_rate ms \<noteq> CONFIG_PS2_MOUSE_SAMPLE_RATE \<or> \<not> bit (ms_status ms) 5 \<or> bit (ms_status ms) 6
            then RETURN_ERROR ERR_DEVICE_INIT_FAILED False st
            else let (_, st) = ps2_configuration 2 0 st;
                     st = kidt_edit 0x2C handler (ucast GDT_SELECTOR_KCODE) IDT_DES_TYPE_32_INTERRUPT_GATE 0 st
                 in do {
                   st \<leftarrow> pic_enable_disable_irq PIC_IRQ_PS2_MOUSE True st;
                   Some (True, st)
                 }
       }
     }
   }"

definition ps2_mouse_get_packet :: "'a hw_state_scheme \<Rightarrow> MousePositionData" where
  "ps2_mouse_get_packet st = mouse_position st"

text \<open>A complete packet moves the pointer unless one of its overflow bits is set.\<close>

definition apply_packet :: "MousePacket \<Rightarrow> MousePositionData \<Rightarrow> MousePositionData" where
  "apply_packet p m =
     (if \<not> bit (mp_b0 p) 6 \<and> \<not> bit (mp_b0 p) 7
      then \<lparr>mouse_x = mouse_x m + (ucast (mp_b1 p) - (push_bit 4 (ucast (mp_b0 p)) AND 0x100)),
            mouse_y = mouse_y m + (ucast (mp_b2 p) - (push_bit 3 (ucast (mp_b0 p)) AND 0x100)),
            left_button = bit (mp_b0 p) 0, right_button = bit (mp_b0 p) 1, middle_button = bit (mp_b0 p) 2\<rparr>
      else m)"

text \<open>\<open>FATAL_BUG\<close> halts the machine.\<close>

definition store_byte :: "U8 \<Rightarrow> 'a hw_state_scheme \<Rightarrow> 'a hw_state_scheme option" where
  "store_byte data st =
     (let p = mpacket st
      in if byte_index p = 0 then Some (st\<lparr>mpacket := p\<lparr>mp_b0 := data\<rparr>\<rparr>)
         else if byte_index p = 1 then Some (st\<lparr>mpacket := p\<lparr>mp_b1 := data\<rparr>\<rparr>)
         else if byte_index p = 2
         then let p = p\<lparr>mp_b2 := data\<rparr>
              in Some (st\<lparr>mpacket := p, mouse_position := apply_packet p (mouse_position st)\<rparr>)
         else None)"

definition ps2_mouse_interrupt_handler :: "'a hw_state_scheme \<Rightarrow> 'a hw_state_scheme option" where
  "ps2_mouse_interrupt_handler st =
     (case ps2_wait_read PS2_DATA_PORT st of
        (None, st) \<Rightarrow> pic_send_eoi PIC_IRQ_PS2_MOUSE st
      | (Some data, st) \<Rightarrow> do {
          st \<leftarrow> store_byte data st;
          pic_send_eoi PIC_IRQ_PS2_MOUSE
            (st\<lparr>mpacket := (mpacket st)\<lparr>byte_index := (byte_index (mpacket st) + 1) mod 3\<rparr>\<rparr>)
        })"

section \<open>The keyboard\<close>

definition iskeyboard :: "U8 \<Rightarrow> 'a hw_state_scheme \<Rightarrow> (bool \<times> 'a hw_state_scheme) option" where
  "iskeyboard junk st = do {
     (type, st) \<leftarrow> ps2_identify_device junk PS2_FIRST_DEVICE st;
     if sint type < 0 then RETURN_ERROR (errorNumber st) False st
     else if type \<in> {0x83AB, 0x41AB, 0xC1AB, 0x84AB, 0x54AB} then Some (True, st)
     else RETURN_ERROR ERR_DEVICE_INIT_FAILED False st
   }"

definition ps2_kb_init :: "U8 \<Rightarrow> PTR \<Rightarrow> 'a hw_state_scheme \<Rightarrow> (bool \<times> 'a hw_state_scheme) option" where
  "ps2_kb_init junk handler st = do {
     st \<leftarrow> pic_enable_disable_irq PIC_IRQ_KEYBOARD False st;
     (r, st) \<leftarrow> iskeyboard junk st;
     if \<not> r then Some (False, st)
     else do {
       (r, st) \<leftarrow> send_all PS2_FIRST_DEVICE [0xF6, 0xF4] st;
       if \<not> r then Some (False, st)
       else let (_, st) = ps2_configuration 0x41 0 st;
                st = kidt_edit 0x21 handler (ucast GDT_SELECTOR_KCODE) IDT_DES_TYPE_32_INTERRUPT_GATE 0 st
            in do {
              st \<leftarrow> pic_enable_disable_irq PIC_IRQ_KEYBOARD True st;
              Some (True, st)
            }
     }
   }"

definition kb_interrupt_handler :: "'a hw_state_scheme \<Rightarrow> 'a hw_state_scheme option" where
  "kb_interrupt_handler st =
     (let (scancode, st) = ps2_no_wait_read PS2_DATA_PORT st in pic_send_eoi PIC_IRQ_KEYBOARD st)"

section \<open>The speaker\<close>

definition pcspeaker_set_freq :: "UINT \<Rightarrow> 'a hw_state_scheme \<Rightarrow> 'a hw_state_scheme option" where
  "pcspeaker_set_freq freq st = pit_set_speaker_counter freq st"

definition pcspeaker_turnon :: "'a hw_state_scheme \<Rightarrow> 'a hw_state_scheme" where
  "pcspeaker_turnon st =
     (let (data, st) = ps2_no_wait_read PS2_SPEAKER_PORT st
      in snd (ps2_wait_write PS2_SPEAKER_PORT (data OR 3) st))"

definition pcspeaker_turnoff :: "'a hw_state_scheme \<Rightarrow> 'a hw_state_scheme" where
  "pcspeaker_turnoff st =
     (let (data, st) = ps2_no_wait_read PS2_SPEAKER_PORT st
      in snd (ps2_wait_write PS2_SPEAKER_PORT (data OR 3) st))"

section \<open>The drivers as a state machine\<close>

text \<open>
  The kernel calls the initialisers and the speaker functions, the processor the interrupt handlers, one at a time: the
  handlers run through interrupt gates, which mask interrupts.
\<close>

inductive ps2_run :: "'a hw_state_scheme \<Rightarrow> 'a hw_state_scheme \<Rightarrow> bool" where
  run_refl: "ps2_run st st"
| run_init: "ps2_run st s \<Longrightarrow> ps2_init s = Some (r, s') \<Longrightarrow> ps2_run st s'"
| run_mouse_init: "ps2_run st s \<Longrightarrow> ps2_mouse_init junk h s = Some (r, s') \<Longrightarrow> ps2_run st s'"
| run_kb_init: "ps2_run st s \<Longrightarrow> ps2_kb_init junk h s = Some (r, s') \<Longrightarrow> ps2_run st s'"
| run_mouse: "ps2_run st s \<Longrightarrow> ps2_mouse_interrupt_handler s = Some s' \<Longrightarrow> ps2_run st s'"
| run_kb: "ps2_run st s \<Longrightarrow> kb_interrupt_handler s = Some s' \<Longrightarrow> ps2_run st s'"
| run_turnon: "ps2_run st s \<Longrightarrow> ps2_run st (pcspeaker_turnon s)"
| run_turnoff: "ps2_run st s \<Longrightarrow> ps2_run st (pcspeaker_turnoff s)"

section \<open>Invariants of the drivers\<close>

text \<open>
  A small calculus for the composed operations: \<open>safe P m\<close> says that \<open>m\<close>, if it returns, returns something with
  \<open>P\<close>; the rules follow the structure of the program.
\<close>

definition safe :: "('r \<Rightarrow> bool) \<Rightarrow> 'r option \<Rightarrow> bool" where
  "safe P m \<longleftrightarrow> (\<forall>x. m = Some x \<longrightarrow> P x)"

named_theorems hs \<open>operations and combinators that keep the invariant\<close>

lemma safe_D: "safe P m \<Longrightarrow> m = Some x \<Longrightarrow> P x"
  by (simp add: safe_def)

text \<open>
  What a predicate on states needs to be an invariant of all drivers: the accesses to the ports keep it, a write to the
  controller only as \<open>ps2_wait_write\<close> does it, and so do the assignments to the variables of the drivers.
\<close>

locale ps2_invariant =
  fixes I :: "'a hw_state_scheme \<Rightarrow> bool"
  assumes I_inb: "I st \<Longrightarrow> I (snd (inb p st))"
    and I_outb: "I st \<Longrightarrow> p \<noteq> PS2_CMD_PORT \<Longrightarrow> p \<noteq> PS2_DATA_PORT \<Longrightarrow> I (outb p v st)"
    and I_wait_write: "I st \<Longrightarrow> I (snd (ps2_wait_write p d st))"
    and I_error: "I st \<Longrightarrow> I (st\<lparr>errorNumber := e\<rparr>)"
    and I_devices: "I st \<Longrightarrow> I (st\<lparr>ps2_devices := ds\<rparr>)"
    and I_status: "I st \<Longrightarrow> I (st\<lparr>mouse_status_original := ms\<rparr>)"
    and I_kidt_edit: "I st \<Longrightarrow> I (kidt_edit i h s t dpl st)"
    and I_packet: "I st \<Longrightarrow> store_byte b st = Some st' \<Longrightarrow>
                    I (st'\<lparr>mpacket := (mpacket st')\<lparr>byte_index := (byte_index (mpacket st') + 1) mod 3\<rparr>\<rparr>)"
begin

lemma wait_loop_I: "I st \<Longrightarrow> I (snd (wait_loop ready n status st))"
proof (induction n arbitrary: status st)
  case (Suc n)
  then show ?case using I_inb [of st PS2_CMD_PORT] by (auto split: prod.splits)
qed simp

lemmas I_fields = I_error I_devices I_status I_kidt_edit

lemma safe_bind_pair [hs]:
  "safe (\<lambda>x. I (snd x)) m \<Longrightarrow> (\<And>r s. I s \<Longrightarrow> safe P (f (r, s))) \<Longrightarrow> safe P (Option.bind m f)"
  by (cases m) (auto simp: safe_def)

lemma safe_bind_state [hs]:
  "safe I m \<Longrightarrow> (\<And>s. I s \<Longrightarrow> safe P (f s)) \<Longrightarrow> safe P (Option.bind m f)"
  by (cases m) (auto simp: safe_def)

lemma safe_bind_assert [hs]: "(b \<Longrightarrow> safe P (f ())) \<Longrightarrow> safe P (Option.bind (k_assert b) f)"
  by (auto simp: safe_def k_assert_def split: if_splits)

lemma safe_Some [hs]: "P x \<Longrightarrow> safe P (Some x)"
  by (simp add: safe_def)

lemma safe_error [hs]: "I st \<Longrightarrow> safe (\<lambda>x. I (snd x)) (RETURN_ERROR e r st)"
  by (simp add: safe_def RETURN_ERROR_def I_fields)

lemma safe_if [hs]: "(b \<Longrightarrow> safe P x) \<Longrightarrow> (\<not> b \<Longrightarrow> safe P y) \<Longrightarrow> safe P (if b then x else y)"
  by simp

lemma safe_case_prod [hs]:
  "I (snd p) \<Longrightarrow> (\<And>a b. I b \<Longrightarrow> safe P (f a b)) \<Longrightarrow> safe P (case p of (a, b) \<Rightarrow> f a b)"
  by (cases p) simp

lemma safe_case_prod_app [hs]: "(\<And>x y. safe P (f x y b)) \<Longrightarrow> safe P ((case a of (x, y) \<Rightarrow> f x y) b)"
  by (cases a) simp

lemma safe_case_option [hs]:
  "safe P a \<Longrightarrow> (\<And>d. safe P (f d)) \<Longrightarrow> safe P (case x of None \<Rightarrow> a | Some d \<Rightarrow> f d)"
  by (cases x) simp_all

lemma I_case_prod [hs]:
  "I (snd p) \<Longrightarrow> (\<And>a b. I b \<Longrightarrow> I (snd (f a b))) \<Longrightarrow> I (snd (case p of (a, b) \<Rightarrow> f a b))"
  by (cases p) simp

lemma I_case_option [hs]:
  "I (snd a) \<Longrightarrow> (\<And>d. I (snd (f d))) \<Longrightarrow>
     I (snd (case x of None \<Rightarrow> a | Some d \<Rightarrow> f d))"
  by (cases x) simp_all

lemma I_if [hs]:
  "I (snd x) \<Longrightarrow> I (snd y) \<Longrightarrow> I (snd (if b then x else y))"
  by simp

lemma canRead_hs [hs]: "I st \<Longrightarrow> I (snd (ps2_canRead st))"
  using I_inb [of st PS2_CMD_PORT] by (auto simp: ps2_canRead_def wait_loop_I split: prod.splits)

lemma wait_read_hs [hs]: "I st \<Longrightarrow> I (snd (ps2_wait_read p st))"
  unfolding ps2_wait_read_def Let_def by (intro hs) (simp_all add: I_inb I_error)

lemma wait_write_hs [hs]: "I st \<Longrightarrow> I (snd (ps2_wait_write p d st))"
  by (rule I_wait_write)

lemma no_wait_write_hs [hs]: "I st \<Longrightarrow> safe I (ps2_write_device_data_no_wait d c st)"
  unfolding ps2_write_device_data_no_wait_def Let_def by (intro hs) (simp add: hs)

lemma configuration_hs [hs]: "I st \<Longrightarrow> I (snd (ps2_configuration e d st))"
  unfolding ps2_configuration_def Let_def by (intro hs) (simp_all add: hs)

lemma wait_ack_loop_hs: "I st \<Longrightarrow> safe (\<lambda>x. I (snd x)) (wait_ack_loop n d c st)"
proof (induction n arbitrary: st)
  case 0
  then show ?case by (subst wait_ack_loop.simps) (intro hs; simp)
next
  case (Suc n)
  then show ?case by (subst wait_ack_loop.simps) (intro hs; simp)
qed

lemma wait_ack_hs [hs]:
  "I st \<Longrightarrow> safe (\<lambda>x. I (snd x)) (ps2_write_device_data_wait_ack d c st)"
  by (simp add: ps2_write_device_data_wait_ack_def wait_ack_loop_hs del: wait_ack_loop.simps)

lemma read_or_zero_hs [hs]: "I (snd r) \<Longrightarrow> I (snd (read_or_zero r))"
  by (cases r) (auto simp: read_or_zero_def split: option.splits)

lemma identify_hs [hs]: "I st \<Longrightarrow> safe (\<lambda>x. I (snd x)) (ps2_identify_device junk d st)"
  unfolding ps2_identify_device_def Let_def by (intro hs) (simp_all add: hs)

lemma send_all_hs [hs]: "I st \<Longrightarrow> safe (\<lambda>x. I (snd x)) (send_all d cmds st)"
  by (induction cmds arbitrary: st) (simp_all, intro hs, auto intro!: hs)

lemma get_mouse_state_hs [hs]: "I st \<Longrightarrow> safe (\<lambda>x. I (snd x)) (get_mouse_state st)"
  unfolding get_mouse_state_def Let_def by (intro hs) (simp_all add: hs)

lemma pic_irq_hs [hs]: "I st \<Longrightarrow> safe I (pic_enable_disable_irq i e st)"
  unfolding pic_enable_disable_irq_def Let_def
  by (intro hs) (auto intro!: I_inb I_outb simp: PS2_CMD_PORT_def PS2_DATA_PORT_def SLAVE_DATA_PORT_def
      MASTER_DATA_PORT_def)

lemma pic_send_eoi_hs [hs]: "I st \<Longrightarrow> safe I (pic_send_eoi i st)"
  unfolding pic_send_eoi_def Let_def
  by (intro hs) (auto intro!: I_outb simp: PS2_CMD_PORT_def PS2_DATA_PORT_def SLAVE_CMD_PORT_def MASTER_CMD_PORT_def)

lemma flush_hs [hs]: "I st \<Longrightarrow> safe I (ps2_flush st)"
proof -
  have "I st \<longrightarrow> I st'" if "ps2_flush st = Some st'" for st st' :: "'a hw_state_scheme"
  proof (rule ps2_flush.raw_induct [OF _ that])
    fix f :: "'a hw_state_scheme \<Rightarrow> 'a hw_state_scheme option" and st st'
    assume ih: "\<And>x y. f x = Some y \<Longrightarrow> I x \<longrightarrow> I y"
      and r: "(let (r, st) = ps2_canRead st in if r then f (snd (ps2_no_wait_read PS2_DATA_PORT st)) else Some st) = Some st'"
    obtain b st1 where c: "ps2_canRead st = (b, st1)" by (cases "ps2_canRead st")
    have "I st \<Longrightarrow> I st1" using c canRead_hs [of st] by simp
    then show "I st \<longrightarrow> I st'"
      using ih r c I_inb [of st1 PS2_DATA_PORT] by (auto simp: ps2_no_wait_read_def split: if_splits)
  qed
  then show "I st \<Longrightarrow> safe I (ps2_flush st)" by (auto simp: safe_def)
qed

lemma test_port_hs [hs]: "I st \<Longrightarrow> I (test_port d c st)"
  using wait_write_hs [of st PS2_CMD_PORT c] wait_read_hs [of "snd (ps2_wait_write PS2_CMD_PORT c st)" PS2_DATA_PORT]
  by (auto simp: test_port_def Let_def I_fields split: prod.splits option.splits)

lemma ps2_init_hs [hs]: "I st \<Longrightarrow> safe (\<lambda>x. I (snd x)) (ps2_init st)"
  unfolding ps2_init_def Let_def by (intro hs) (simp_all add: hs I_fields)

lemma mouse_init_hs [hs]: "I st \<Longrightarrow> safe (\<lambda>x. I (snd x)) (ps2_mouse_init junk h st)"
  unfolding ps2_mouse_init_def ismouse_def Let_def by (intro hs) (simp_all add: hs I_fields)

lemma kb_init_hs [hs]: "I st \<Longrightarrow> safe (\<lambda>x. I (snd x)) (ps2_kb_init junk h st)"
  unfolding ps2_kb_init_def iskeyboard_def Let_def by (intro hs) (simp_all add: hs I_fields)

lemma mouse_interrupt_hs [hs]: "I st \<Longrightarrow> safe I (ps2_mouse_interrupt_handler st)"
  using wait_read_hs [of st PS2_DATA_PORT]
  by (auto simp: ps2_mouse_interrupt_handler_def safe_def split: prod.splits option.splits elim!: bind_SomeE
      dest: I_packet dest!: safe_D [OF pic_send_eoi_hs, rotated])

lemma kb_interrupt_hs [hs]: "I st \<Longrightarrow> safe I (kb_interrupt_handler st)"
  unfolding kb_interrupt_handler_def ps2_no_wait_read_def Let_def by (intro hs) (simp_all add: I_inb)

lemma speaker_hs [hs]:
  "I st \<Longrightarrow> I (pcspeaker_turnon st)" "I st \<Longrightarrow> I (pcspeaker_turnoff st)"
  using I_inb [of st PS2_SPEAKER_PORT]
  by (auto simp: pcspeaker_turnon_def pcspeaker_turnoff_def ps2_no_wait_read_def split: prod.splits intro: hs)

lemma ps2_run_I: "ps2_run st s \<Longrightarrow> I st \<Longrightarrow> I s"
  by (induction rule: ps2_run.induct) (auto dest: safe_D [OF ps2_init_hs] safe_D [OF mouse_init_hs]
      safe_D [OF kb_init_hs] safe_D [OF mouse_interrupt_hs] safe_D [OF kb_interrupt_hs] intro: speaker_hs)

end

section \<open>The protocol of the controller\<close>

text \<open>
  The data sheet of the controller asks the driver to write to the command or data port only after the status register was
  read with its input-buffer-full bit clear. \<open>polite\<close> says so of a log, latest access first.
\<close>

fun polite :: "io_event list \<Rightarrow> bool" where
  "polite [] \<longleftrightarrow> True"
| "polite (InB p v # l) \<longleftrightarrow> polite l"
| "polite (OutB p v # l) \<longleftrightarrow>
     (p = PS2_CMD_PORT \<or> p = PS2_DATA_PORT \<longrightarrow>
        (case l of InB q s # _ \<Rightarrow> q = PS2_CMD_PORT \<and> IS_WRITE_READY s | _ \<Rightarrow> False)) \<and> polite l"

definition handshake :: "'a hw_state_scheme \<Rightarrow> bool" where
  "handshake st \<longleftrightarrow> polite (rev (io_log st))"

lemma handshake_inb: "handshake (snd (inb p st)) \<longleftrightarrow> handshake st"
  by (simp add: handshake_def inb_def Let_def)

lemma handshake_outb:
  "p \<noteq> PS2_CMD_PORT \<Longrightarrow> p \<noteq> PS2_DATA_PORT \<Longrightarrow> handshake (outb p v st) \<longleftrightarrow> handshake st"
  by (simp add: handshake_def outb_def)

lemma handshake_fields:
  "handshake (st\<lparr>errorNumber := e\<rparr>) = handshake st" "handshake (st\<lparr>ps2_devices := d\<rparr>) = handshake st"
  "handshake (st\<lparr>mpacket := k\<rparr>) = handshake st" "handshake (st\<lparr>mouse_position := m\<rparr>) = handshake st"
  "handshake (st\<lparr>mouse_status_original := ms\<rparr>) = handshake st" "handshake (kidt_edit i h s t dpl st) = handshake st"
  by (simp_all add: handshake_def kidt_edit_def Let_def)

lemma wait_loop_handshake:
  "wait_loop ready n status st = (r, st') \<Longrightarrow> handshake st \<Longrightarrow> handshake st'"
proof (induction n arbitrary: status st)
  case (Suc n)
  then show ?case using handshake_inb [of PS2_CMD_PORT st] by (auto split: if_splits prod.splits)
qed simp

text \<open>When the loop reports success, its last access was a status read that showed the device ready.\<close>

lemma wait_loop_ready:
  "wait_loop ready n status st = (True, st') \<Longrightarrow> (\<exists>l. io_log st = l @ [InB PS2_CMD_PORT status]) \<Longrightarrow>
     \<exists>l s. io_log st' = l @ [InB PS2_CMD_PORT s] \<and> ready s"
proof (induction n arbitrary: status st)
  case (Suc n)
  then show ?case by (cases "ready status") (auto simp: inb_def Let_def)
qed simp

lemma ps2_canRead_handshake: "ps2_canRead st = (r, st') \<Longrightarrow> handshake st \<Longrightarrow> handshake st'"
  using handshake_inb [of PS2_CMD_PORT st]
  by (auto simp: ps2_canRead_def split: prod.splits dest: wait_loop_handshake)

lemma ps2_wait_read_handshake: "ps2_wait_read p st = (r, st') \<Longrightarrow> handshake st \<Longrightarrow> handshake st'"
proof -
  assume r: "ps2_wait_read p st = (r, st')" and h: "handshake st"
  obtain b st1 where c: "ps2_canRead st = (b, st1)" by (cases "ps2_canRead st")
  have h1: "handshake st1" using ps2_canRead_handshake [OF c h] .
  then show ?thesis
    using r c handshake_inb [of p st1] by (auto simp: ps2_wait_read_def handshake_fields split: if_splits prod.splits)
qed

lemma ps2_wait_write_handshake: "ps2_wait_write p d st = (r, st') \<Longrightarrow> handshake st \<Longrightarrow> handshake st'"
proof -
  assume r: "ps2_wait_write p d st = (r, st')" and h: "handshake st"
  obtain s st1 where i: "inb PS2_CMD_PORT st = (s, st1)" by (cases "inb PS2_CMD_PORT st")
  obtain b st2 where w: "wait_loop IS_WRITE_READY RW_TIMEOUT_ITERATION s st1 = (b, st2)"
    by (cases "wait_loop IS_WRITE_READY RW_TIMEOUT_ITERATION s st1")
  have h1: "handshake st1" using handshake_inb [of PS2_CMD_PORT st] i h by simp
  have h2: "handshake st2" using wait_loop_handshake [OF w h1] .
  show ?thesis
  proof (cases b)
    case True
    have "\<exists>l. io_log st1 = l @ [InB PS2_CMD_PORT s]" using i by (auto simp: inb_def Let_def)
    moreover have "wait_loop IS_WRITE_READY RW_TIMEOUT_ITERATION s st1 = (True, st2)" using w True by simp
    ultimately obtain l t where "io_log st2 = l @ [InB PS2_CMD_PORT t]" "IS_WRITE_READY t"
      using wait_loop_ready by blast
    with r i w True h2 show ?thesis by (auto simp: ps2_wait_write_def handshake_def outb_def)
  next
    case False
    with r i w h2 show ?thesis by (auto simp: ps2_wait_write_def handshake_fields)
  qed
qed


text \<open>Both the handshake and the position in the mouse packet are invariants.\<close>

definition packet_ok :: "'a hw_state_scheme \<Rightarrow> bool" where
  "packet_ok st \<longleftrightarrow> byte_index (mpacket st) \<in> {0, 1, 2}"

lemma store_byte_frame:
  assumes "store_byte b st = Some st'"
  shows "io_log st' = io_log st" "byte_index (mpacket st') = byte_index (mpacket st)" "packet_ok st"
  using assms by (auto simp: store_byte_def Let_def packet_ok_def split: if_splits)

lemma wait_loop_mpacket: "mpacket (snd (wait_loop ready n status st)) = mpacket st"
  by (induction n arbitrary: status st) (simp_all add: inb_def Let_def)

interpretation polite_writes: ps2_invariant handshake
proof unfold_locales
  show "handshake st \<Longrightarrow> handshake (snd (ps2_wait_write p d st))" for st :: "'a hw_state_scheme" and p d
    by (cases "ps2_wait_write p d st") (auto dest: ps2_wait_write_handshake)
  show "handshake (st'\<lparr>mpacket := (mpacket st')\<lparr>byte_index := (byte_index (mpacket st') + 1) mod 3\<rparr>\<rparr>)"
    if "handshake st" "store_byte b st = Some st'" for st st' :: "'a hw_state_scheme" and b
    using that store_byte_frame [of b st st'] by (simp add: handshake_def)
qed (simp_all add: handshake_fields handshake_inb handshake_outb)

interpretation packet_index: ps2_invariant packet_ok
proof unfold_locales
  show "packet_ok st \<Longrightarrow> packet_ok (snd (ps2_wait_write p d st))" for st :: "'a hw_state_scheme" and p d
    using wait_loop_mpacket [of IS_WRITE_READY RW_TIMEOUT_ITERATION "fst (inb PS2_CMD_PORT st)" "snd (inb PS2_CMD_PORT st)"]
    by (auto simp: ps2_wait_write_def packet_ok_def outb_def inb_def Let_def split: prod.splits)
  show "packet_ok (st'\<lparr>mpacket := (mpacket st')\<lparr>byte_index := (byte_index (mpacket st') + 1) mod 3\<rparr>\<rparr>)"
    if "packet_ok st" "store_byte b st = Some st'" for st st' :: "'a hw_state_scheme" and b
    using that store_byte_frame [of b st st'] by (auto simp: packet_ok_def)
qed (simp_all add: packet_ok_def inb_def outb_def kidt_edit_def Let_def)

section \<open>Properties\<close>

lemma polite_nth:
  "polite (rev l) \<Longrightarrow> i < length l \<Longrightarrow> l ! i = OutB p v \<Longrightarrow> p = PS2_CMD_PORT \<or> p = PS2_DATA_PORT \<Longrightarrow>
     i > 0 \<and> (\<exists>t. l ! (i - 1) = InB PS2_CMD_PORT t \<and> IS_WRITE_READY t)"
proof (induction l rule: rev_induct)
  case (snoc e l)
  show ?case
  proof (cases "i = length l")
    case True
    then have e: "e = OutB p v" using snoc.prems by simp
    then obtain t r where r: "rev l = InB PS2_CMD_PORT t # r" "IS_WRITE_READY t"
      using snoc.prems by (auto split: list.splits io_event.splits)
    then have "l = rev r @ [InB PS2_CMD_PORT t]" using rev_swap by fastforce
    then show ?thesis using r True by (simp add: nth_append)
  next
    case False
    have "polite (rev l)" using snoc.prems by (cases e) auto
    then show ?thesis using snoc False by (auto simp: nth_append)
  qed
qed simp

text \<open>
  C30. Whatever the devices answer, and in whatever order the initialisers, the speaker functions and the interrupt handlers
  run, every byte the drivers write to the command or data port of the PS/2 controller is written directly after the status
  register was read with its input-buffer-full bit clear; and the mouse handler never meets a packet index outside 0, 1
  and 2, so it never halts the machine.
\<close>

theorem ps2_drivers_safe:
  assumes run: "ps2_run st s" and log: "io_log st = []" and idx: "byte_index (mpacket st) = 0"
  shows "(\<forall>i p v. i < length (io_log s) \<and> io_log s ! i = OutB p v \<and> (p = PS2_CMD_PORT \<or> p = PS2_DATA_PORT) \<longrightarrow>
            i > 0 \<and> (\<exists>t. io_log s ! (i - 1) = InB PS2_CMD_PORT t \<and> t AND 2 = 0)) \<and>
         (\<exists>s'. ps2_mouse_interrupt_handler s = Some s')"
proof (intro conjI allI impI; (elim conjE)?)
  have "handshake s" using polite_writes.ps2_run_I [OF run] log by (simp add: handshake_def)
  then have *: "i > 0 \<and> (\<exists>t. io_log s ! (i - 1) = InB PS2_CMD_PORT t \<and> t AND 2 = 0)"
    if "i < length (io_log s)" "io_log s ! i = OutB p v" "p = PS2_CMD_PORT \<or> p = PS2_DATA_PORT" for i p v
    using that polite_nth [of "io_log s" i p v] by (simp add: handshake_def IS_WRITE_READY_def)
  show "i > 0" "\<exists>t. io_log s ! (i - 1) = InB PS2_CMD_PORT t \<and> t AND 2 = 0"
    if "i < length (io_log s)" "io_log s ! i = OutB p v" "p = PS2_CMD_PORT \<or> p = PS2_DATA_PORT" for i p v
    using * [OF that] by simp_all
  have p: "packet_ok s" using packet_index.ps2_run_I [OF run] idx by (simp add: packet_ok_def)
  show "\<exists>s'. ps2_mouse_interrupt_handler s = Some s'"
    using packet_index.wait_read_hs [OF p, of PS2_DATA_PORT]
    by (auto simp: ps2_mouse_interrupt_handler_def store_byte_def packet_ok_def Let_def pic_send_eoi_def k_assert_def
        PIC_IRQ_PS2_MOUSE_def split: prod.splits option.splits)
qed

text \<open>The movement in a packet is a nine bit two's complement number whose sign is in the first byte.\<close>

definition packet_delta :: "bool \<Rightarrow> U8 \<Rightarrow> int" where
  "packet_delta sign b = signed_take_bit 8 (of_bool sign * 256 + uint b)"

lemma push_sign: "push_bit k (ucast (b :: U8)) AND 0x100 = (if bit b (8 - k) then 0x100 else (0 :: U32))" if "k \<le> 8" "k > 0"
proof -
  have e: "(0x100 :: U32) = 2 ^ 8" by simp
  have h: "bit (2 ^ 8 :: U32) n \<longleftrightarrow> n = 8" for n by (auto simp add: bit_exp_iff simp del: power_numeral)
  show ?thesis unfolding e
    by (rule bit_word_eqI) (use that in \<open>auto simp: bit_and_iff h bit_push_bit_iff bit_ucast_iff simp del: power_numeral\<close>)
qed

lemma packet_delta_word:
  "ucast b - (if s then 0x100 else 0) = (word_of_int (packet_delta s b) :: U32)"
proof -
  have b: "0 \<le> uint b" "uint b < 256" using uint_lt2p [of b] by auto
  have "signed_take_bit 8 (uint b) = uint b"
    using b by (intro signed_take_bit_int_eq_self) (simp_all add: order_trans [of _ 0])
  moreover have "signed_take_bit 8 (256 + uint b) = uint b - 256"
  proof -
    have "signed_take_bit 8 (256 + uint b) = signed_take_bit 8 (uint b - 256)"
      by (rule signed_take_bit_eq_iff_take_bit_eq [THEN iffD2]) (simp add: take_bit_eq_mod mod_eq_dvd_iff)
    also have "\<dots> = uint b - 256" using b by (intro signed_take_bit_int_eq_self) simp_all
    finally show ?thesis .
  qed
  ultimately show ?thesis by (cases s) (simp_all add: packet_delta_def)
qed

lemma wait_loop_now: "n > 0 \<Longrightarrow> ready status \<Longrightarrow> wait_loop ready n status st = (True, st)"
  by (cases n) simp_all

lemma wait_read_fields:
  "mpacket (snd (ps2_wait_read p st)) = mpacket st" "mouse_position (snd (ps2_wait_read p st)) = mouse_position st"
proof -
  have l: "mouse_position (snd (wait_loop ready n status st)) = mouse_position st"
    for ready n status and st :: "'a hw_state_scheme"
    by (induction n arbitrary: status st) (simp_all add: inb_def Let_def)
  show "mpacket (snd (ps2_wait_read p st)) = mpacket st" "mouse_position (snd (ps2_wait_read p st)) = mouse_position st"
    using wait_loop_mpacket [of IS_READ_READY RW_TIMEOUT_ITERATION "fst (inb PS2_CMD_PORT st)" "snd (inb PS2_CMD_PORT st)"]
      l [of IS_READ_READY RW_TIMEOUT_ITERATION "fst (inb PS2_CMD_PORT st)" "snd (inb PS2_CMD_PORT st)"]
    by (auto simp: ps2_wait_read_def ps2_canRead_def inb_def Let_def split: prod.splits)
qed

lemma mouse_interrupt_step:
  assumes "ps2_mouse_interrupt_handler st = Some st'" "fst (ps2_wait_read PS2_DATA_PORT st) = Some b"
  shows "byte_index (mpacket st) = 0 \<Longrightarrow> mpacket st' = (mpacket st)\<lparr>mp_b0 := b, byte_index := 1\<rparr> \<and> mouse_position st' = mouse_position st"
    and "byte_index (mpacket st) = 1 \<Longrightarrow> mpacket st' = (mpacket st)\<lparr>mp_b1 := b, byte_index := 2\<rparr> \<and> mouse_position st' = mouse_position st"
    and "byte_index (mpacket st) = 2 \<Longrightarrow> mpacket st' = (mpacket st)\<lparr>mp_b2 := b, byte_index := 0\<rparr> \<and>
           mouse_position st' = apply_packet ((mpacket st)\<lparr>mp_b2 := b\<rparr>) (mouse_position st)"
  using assms wait_read_fields [of PS2_DATA_PORT st]
  by (auto simp: ps2_mouse_interrupt_handler_def store_byte_def Let_def pic_send_eoi_def k_assert_def outb_def
      PIC_IRQ_PS2_MOUSE_def split: prod.splits option.splits if_splits)

lemma apply_packet_delta:
  assumes "\<not> bit (mp_b0 p) 6" "\<not> bit (mp_b0 p) 7"
  shows "mouse_x (apply_packet p m) = mouse_x m + word_of_int (packet_delta (bit (mp_b0 p) 4) (mp_b1 p))"
    and "mouse_y (apply_packet p m) = mouse_y m + word_of_int (packet_delta (bit (mp_b0 p) 5) (mp_b2 p))"
  using assms packet_delta_word [of "mp_b1 p" "bit (mp_b0 p) 4"] packet_delta_word [of "mp_b2 p" "bit (mp_b0 p) 5"]
    push_sign [of 4 "mp_b0 p"] push_sign [of 3 "mp_b0 p"]
  by (simp_all add: apply_packet_def)

text \<open>
  C31. Three mouse interrupts that each read a byte decode one packet: unless one of the overflow bits of the first byte is
  set, the pointer moves by the two nine bit two's complement numbers of the packet and the buttons are the low three bits
  of the first byte; with an overflow bit the whole packet is dropped. Afterwards the handler expects the first byte of a
  packet again.
\<close>

theorem ps2_mouse_packet_decoded:
  assumes "byte_index (mpacket st) = 0"
    and "fst (ps2_wait_read PS2_DATA_PORT st) = Some b0" "ps2_mouse_interrupt_handler st = Some st1"
    and "fst (ps2_wait_read PS2_DATA_PORT st1) = Some b1" "ps2_mouse_interrupt_handler st1 = Some st2"
    and "fst (ps2_wait_read PS2_DATA_PORT st2) = Some b2" "ps2_mouse_interrupt_handler st2 = Some st3"
  shows "byte_index (mpacket st3) = 0 \<and>
    (if bit b0 6 \<or> bit b0 7 then ps2_mouse_get_packet st3 = ps2_mouse_get_packet st
     else ps2_mouse_get_packet st3 =
       \<lparr>mouse_x = mouse_x (ps2_mouse_get_packet st) + word_of_int (packet_delta (bit b0 4) b1),
        mouse_y = mouse_y (ps2_mouse_get_packet st) + word_of_int (packet_delta (bit b0 5) b2),
        left_button = bit b0 0, right_button = bit b0 1, middle_button = bit b0 2\<rparr>)"
proof -
  let ?p = "(mpacket st)\<lparr>mp_b0 := b0, mp_b1 := b1, byte_index := 2, mp_b2 := b2\<rparr>"
  have 1: "mpacket st1 = (mpacket st)\<lparr>mp_b0 := b0, byte_index := 1\<rparr>" "mouse_position st1 = mouse_position st"
    using mouse_interrupt_step (1) [OF assms(3,2)] assms(1) by simp_all
  have 2: "mpacket st2 = (mpacket st)\<lparr>mp_b0 := b0, mp_b1 := b1, byte_index := 2\<rparr>" "mouse_position st2 = mouse_position st"
    using mouse_interrupt_step (2) [OF assms(5,4)] 1 by simp_all
  have "mpacket st3 = (mpacket st2)\<lparr>mp_b2 := b2, byte_index := 0\<rparr>"
    "mouse_position st3 = apply_packet ((mpacket st2)\<lparr>mp_b2 := b2\<rparr>) (mouse_position st2)"
    using mouse_interrupt_step (3) [OF assms(7,6)] 2 by simp_all
  then have 3: "byte_index (mpacket st3) = 0" "mouse_position st3 = apply_packet ?p (mouse_position st)"
    by (simp_all add: 2)
  have "apply_packet ?p m =
       \<lparr>mouse_x = mouse_x m + word_of_int (packet_delta (bit b0 4) b1),
        mouse_y = mouse_y m + word_of_int (packet_delta (bit b0 5) b2),
        left_button = bit b0 0, right_button = bit b0 1, middle_button = bit b0 2\<rparr>" if "\<not> bit b0 6" "\<not> bit b0 7" for m
    using that apply_packet_delta [of ?p m]
    by (intro MousePositionData.equality) (simp_all, simp_all add: apply_packet_def)
  moreover have "apply_packet ?p m = m" if "bit b0 6 \<or> bit b0 7" for m
    using that by (auto simp: apply_packet_def)
  ultimately show ?thesis using 3 by (simp add: ps2_mouse_get_packet_def)
qed

text \<open>
  The speaker cannot be turned off: turning it off does to the ports exactly what turning it on does, for every
  behaviour of the devices.
\<close>

theorem pcspeaker_turnoff_turns_on:
  "pcspeaker_turnoff st = pcspeaker_turnon st"
  by (simp add: pcspeaker_turnoff_def pcspeaker_turnon_def)

section \<open>Witnesses\<close>

text \<open>Devices that are always ready and deliver the given bytes one after the other.\<close>

definition sample_hw :: "U8 list \<Rightarrow> io_event list \<Rightarrow> U16 \<Rightarrow> U8" where
  "sample_hw bs l p =
     (if p = 0x64 then 1
      else if p = 0x60 then bs ! (length (filter (\<lambda>e. case e of InB q v \<Rightarrow> q = 0x60 | _ \<Rightarrow> False) l) mod length bs)
      else 0)"

definition sample_devices :: "U8 list \<Rightarrow> hw_state" where
  "sample_devices bs = dt_state.extend (sample_dt 3)
     \<lparr>hw = sample_hw bs, io_log = [],
      ps2_devices = (\<lambda>d. \<lparr>isSecondPort = d = 1, port_available = True\<rparr>),
      mouse_position = \<lparr>mouse_x = 0, mouse_y = 0, left_button = False, right_button = False, middle_button = False\<rparr>,
      mouse_status_original = \<lparr>ms_id = 0, ms_status = 0, ms_resolution = 0, ms_sample_rate = 0\<rparr>,
      mpacket = \<lparr>byte_index = 0, mp_b0 = 0, mp_b1 = 0, mp_b2 = 0\<rparr>\<rparr>"

lemma sample_devices_fields:
  "hw (sample_devices bs) = sample_hw bs" "io_log (sample_devices bs) = []"
  "ps2_devices (sample_devices bs) = (\<lambda>d. \<lparr>isSecondPort = d = 1, port_available = True\<rparr>)"
  "mpacket (sample_devices bs) = \<lparr>byte_index = 0, mp_b0 = 0, mp_b1 = 0, mp_b2 = 0\<rparr>"
  "mouse_position (sample_devices bs) =
     \<lparr>mouse_x = 0, mouse_y = 0, left_button = False, right_button = False, middle_button = False\<rparr>"
  by (simp_all add: sample_devices_def dt_state.defs)

lemmas ps2_eval = inb_def outb_def Let_def ps2_wait_read_def ps2_wait_write_def ps2_canRead_def wait_loop_now
  RW_TIMEOUT_ITERATION_def IS_READ_READY_def IS_WRITE_READY_def PS2_CMD_PORT_def PS2_DATA_PORT_def sample_hw_def
  sample_devices_fields k_assert_def DEVICE_COUNT_def PS2_FIRST_DEVICE_def PIC_IRQ_KEYBOARD_def MASTER_DATA_PORT_def
  SLAVE_DATA_PORT_def MASTER_CMD_PORT_def SLAVE_CMD_PORT_def

theorem ps2_mouse_packet_decoded_witness:
  "\<exists>st1 st2 st3. ps2_mouse_interrupt_handler (sample_devices [0x19, 0xFD, 0x05]) = Some st1 \<and>
     ps2_mouse_interrupt_handler st1 = Some st2 \<and> ps2_mouse_interrupt_handler st2 = Some st3 \<and>
     ps2_mouse_get_packet st3 =
       \<lparr>mouse_x = - 3, mouse_y = 5, left_button = True, right_button = False, middle_button = False\<rparr>"
proof -
  let ?s = "sample_devices [0x19, 0xFD, 0x05]"
  obtain st1 where 1: "ps2_mouse_interrupt_handler ?s = Some st1" "fst (ps2_wait_read PS2_DATA_PORT ?s) = Some 0x19"
      "hw st1 = sample_hw [0x19, 0xFD, 0x05]"
      "io_log st1 = [InB 0x64 1, InB 0x60 0x19, OutB 0xA0 0x20, OutB 0x20 0x20]" "byte_index (mpacket st1) = 1"
    by (simp add: ps2_mouse_interrupt_handler_def store_byte_def pic_send_eoi_def PIC_IRQ_PS2_MOUSE_def ps2_eval)
  obtain st2 where 2: "ps2_mouse_interrupt_handler st1 = Some st2" "fst (ps2_wait_read PS2_DATA_PORT st1) = Some 0xFD"
      "hw st2 = sample_hw [0x19, 0xFD, 0x05]" "io_log st2 = io_log st1 @ [InB 0x64 1, InB 0x60 0xFD, OutB 0xA0 0x20, OutB 0x20 0x20]"
      "byte_index (mpacket st2) = 2"
    using 1 by (simp add: ps2_mouse_interrupt_handler_def store_byte_def pic_send_eoi_def PIC_IRQ_PS2_MOUSE_def ps2_eval)
  obtain st3 where 3: "ps2_mouse_interrupt_handler st2 = Some st3" "fst (ps2_wait_read PS2_DATA_PORT st2) = Some 0x05"
    using 1 2 by (simp add: ps2_mouse_interrupt_handler_def store_byte_def pic_send_eoi_def PIC_IRQ_PS2_MOUSE_def ps2_eval)
  have "packet_delta True 0xFD = - 3" "packet_delta False 5 = 5" by (simp_all add: packet_delta_def)
  then show ?thesis
    using 1 2 3 ps2_mouse_packet_decoded [OF _ 1(2,1) 2(2,1) 3(2,1)]
    by (simp add: sample_devices_fields ps2_mouse_get_packet_def bit_simps)
qed

theorem ps2_drivers_safe_witness:
  "\<exists>s t. ps2_run (sample_devices [0xFA]) s \<and> io_log s ! 3 = OutB PS2_CMD_PORT 0x20 \<and> io_log s ! 2 = InB PS2_CMD_PORT t \<and>
     t AND 2 = 0 \<and> (\<exists>s'. ps2_mouse_interrupt_handler s = Some s')"
proof -
  let ?s = "sample_devices [0xFA]"
  obtain s where s: "ps2_kb_init 0 0 ?s = Some (False, s)" "io_log s ! 3 = OutB PS2_CMD_PORT 0x20" "3 < length (io_log s)"
    by (simp add: ps2_kb_init_def iskeyboard_def ps2_identify_device_def ps2_write_device_data_wait_ack_def
        ps2_write_device_data_no_wait_def ps2_configuration_def pic_enable_disable_irq_def RETURN_ERROR_def ps2_eval)
  have run: "ps2_run ?s s" by (rule ps2_run.run_kb_init [OF ps2_run.run_refl s(1)])
  show ?thesis
    using ps2_drivers_safe [OF run] run s(2,3) by (fastforce simp: sample_devices_fields)
qed

end
