(* ===== verification/Text_Display.thy ===== *)
theory Text_Display
  imports PS2
begin

text \<open>
  The text display of builds without graphics: \<open>src/kernel/x86/vgatext.c\<close>.

  The frame buffer is the function \<open>vgab\<close> from cell numbers to cells; the screen is its first \<open>VGA_ROWS * VGA_COLUMNS\<close>
  cells. What lies behind it is other memory.
\<close>

section \<open>State\<close>

record vga_state = hw_state +
  vga_row :: UINT
  vga_column :: UINT
  crtc_flags :: UINT
  text_attr :: UINT
  vgab :: "nat \<Rightarrow> U16"

definition TABSTOP :: UINT where "TABSTOP = 4"
definition VGA_COLUMNS :: UINT where "VGA_COLUMNS = 80"
definition VGA_ROWS :: UINT where "VGA_ROWS = 50"
definition VGA_MAX_INDEX :: UINT where "VGA_MAX_INDEX = VGA_COLUMNS * VGA_ROWS - 1"
definition LIGHT_GRAY :: UINT where "LIGHT_GRAY = 7"

definition crt_addr_port :: "'a vga_state_scheme \<Rightarrow> U16" where
  "crt_addr_port st = (if crtc_flags st AND 2 \<noteq> 0 then 0x3D4 else 0x3B4)"

definition crt_data_port :: "'a vga_state_scheme \<Rightarrow> U16" where
  "crt_data_port st = (if crtc_flags st AND 2 \<noteq> 0 then 0x3D5 else 0x3B5)"

definition crt_write :: "U8 \<Rightarrow> UINT \<Rightarrow> 'a vga_state_scheme \<Rightarrow> 'a vga_state_scheme" where
  "crt_write i v st = outb (crt_data_port st) (ucast v) (outb (crt_addr_port st) i st)"

definition crt_read :: "U8 \<Rightarrow> 'a vga_state_scheme \<Rightarrow> U8 \<times> 'a vga_state_scheme" where
  "crt_read i st = inb (crt_data_port st) (outb (crt_addr_port st) i st)"

section \<open>Operations\<close>

definition s_updateCursor :: "'a vga_state_scheme \<Rightarrow> 'a vga_state_scheme" where
  "s_updateCursor st =
     (let index = vga_row st * VGA_COLUMNS + vga_column st
      in crt_write 0xE (drop_bit 8 index) (crt_write 0xF (index AND 0xFF) st))"

text \<open>The two loops of the scrolling, with the number of words that are left.\<close>

fun scroll_copy :: "nat \<Rightarrow> nat \<Rightarrow> nat \<Rightarrow> (nat \<Rightarrow> U16) \<Rightarrow> nat \<Rightarrow> U16" where
  "scroll_copy 0 p n v = v"
| "scroll_copy (Suc k) p n v = scroll_copy k (p + 1) (n + 1) (v(p := v n))"

fun scroll_clear :: "nat \<Rightarrow> nat \<Rightarrow> U16 \<Rightarrow> (nat \<Rightarrow> U16) \<Rightarrow> nat \<Rightarrow> U16" where
  "scroll_clear 0 p c v = v"
| "scroll_clear (Suc k) p c v = scroll_clear k (p + 1) c (v(p := c))"

definition blank :: "UINT \<Rightarrow> U16" where
  "blank attr = ucast (push_bit 8 attr OR 32)"

definition kdisp_scrollDown :: "'a vga_state_scheme \<Rightarrow> 'a vga_state_scheme" where
  "kdisp_scrollDown st =
     (let cols = unat VGA_COLUMNS;
          e = unat VGA_ROWS * cols;
          v = scroll_copy (e - cols) 0 cols (vgab st);
          v = scroll_clear cols (e - cols) (blank (text_attr st)) v;
          st = st\<lparr>vgab := v,
                  vga_row := (if vga_row st > 0 then ucast (ucast (vga_row st - 1) :: U8) else vga_row st),
                  vga_column := 0\<rparr>
      in s_updateCursor st)"

text \<open>\<open>c\<close> is a signed character, so a code above 127 is sign extended.\<close>

definition kdisp_putc :: "U8 \<Rightarrow> 'a vga_state_scheme \<Rightarrow> 'a vga_state_scheme" where
  "kdisp_putc c st =
     (let st = (if c = 13 then st\<lparr>vga_column := 0\<rparr>
                else if c = 10 then st\<lparr>vga_column := 0, vga_row := vga_row st + 1\<rparr>
                else if c = 9 then st\<lparr>vga_column := vga_column st + (TABSTOP - vga_column st mod TABSTOP)\<rparr>
                else let index = vga_row st * VGA_COLUMNS + vga_column st
                     in st\<lparr>vgab := (vgab st)(unat index := ucast (push_bit 8 (text_attr st) OR scast c)),
                           vga_column := vga_column st + 1\<rparr>);
          st = (if vga_column st \<ge> VGA_COLUMNS then st\<lparr>vga_row := vga_row st + 1, vga_column := 0\<rparr> else st);
          st = (if vga_row st \<ge> VGA_ROWS then kdisp_scrollDown st else st)
      in s_updateCursor st)"

fun s_prnstr :: "U8 list \<Rightarrow> 'a vga_state_scheme \<Rightarrow> 'a vga_state_scheme" where
  "s_prnstr [] st = st"
| "s_prnstr (c # str) st = s_prnstr str (kdisp_putc c st)"

text \<open>The number of the last cell, among the \<open>k\<close> cells from \<open>s\<close> on, whose character is not a space; otherwise \<open>h\<close>.\<close>

fun scan_loop :: "nat \<Rightarrow> nat \<Rightarrow> nat \<Rightarrow> (nat \<Rightarrow> U16) \<Rightarrow> nat" where
  "scan_loop 0 s h v = h"
| "scan_loop (Suc k) s h v = scan_loop k (s + 1) (if (ucast (v s) :: U8) \<noteq> 32 then s else h) v"

definition kdisp_init :: "'a vga_state_scheme \<Rightarrow> 'a vga_state_scheme option" where
  "kdisp_init st =
     (let h = scan_loop (unat VGA_MAX_INDEX + 1) 0 0 (vgab st) + 1;
          st = (if h > unat VGA_MAX_INDEX then kdisp_scrollDown st else st);
          st = st\<lparr>vga_row := ucast (of_nat (h div unat VGA_COLUMNS) :: U8),
                  vga_column := ucast (of_nat (h mod unat VGA_COLUMNS) :: U8)\<rparr>;
          st = (s_updateCursor st)\<lparr>text_attr := LIGHT_GRAY\<rparr>;
          (v, st) = inb 0x3CC st;
          st = (if v AND 1 \<noteq> 0 then st\<lparr>crtc_flags := crtc_flags st OR 2\<rparr> else st);
          (v, st) = crt_read 0x10 st;
          st = (if drop_bit 3 v AND 1 \<noteq> 0 then st\<lparr>crtc_flags := crtc_flags st OR 1\<rparr> else st)
      in KERNEL_PHASE_SET TEXTDISP_READY st)"

datatype display_request = DISP_SETATTR UINT | DISP_GETATTR | DISP_SETCOORDS UINT UINT | DISP_GETCOORDS | DISP_COORDS_MAX

text \<open>The result carries what the request stores through the pointers of the caller.\<close>

definition kdisp_ioctl :: "display_request \<Rightarrow> 'a vga_state_scheme \<Rightarrow> ((bool \<times> UINT list) \<times> 'a vga_state_scheme) option" where
  "kdisp_ioctl request st =
     (case request of
        DISP_SETATTR a \<Rightarrow>
          (let st = st\<lparr>text_attr := a\<rparr>
           in if a > 255 then RETURN_ERROR ERR_INVALID_RANGE (False, []) st
              else Some ((True, []), if crtc_flags st AND 1 = 0 then st\<lparr>text_attr := a AND 0x7F\<rparr> else st))
      | DISP_GETATTR \<Rightarrow> Some ((True, [text_attr st]), st)
      | DISP_SETCOORDS r c \<Rightarrow>
          (let st = st\<lparr>vga_row := r, vga_column := c\<rparr>
           in if r > VGA_ROWS \<or> c > VGA_COLUMNS then RETURN_ERROR ERR_INVALID_RANGE (False, []) st
              else Some ((True, []), s_updateCursor st))
      | DISP_GETCOORDS \<Rightarrow> Some ((True, [vga_row st, vga_column st]), st)
      | DISP_COORDS_MAX \<Rightarrow> Some ((True, []), st))"

section \<open>The screen the display implements\<close>

text \<open>Where the cursor goes, and what scrolling does to the cells.\<close>

definition tab_stop :: "nat \<Rightarrow> nat" where
  "tab_stop c = (c div 4 + 1) * 4"

definition advance :: "U8 \<Rightarrow> nat \<times> nat \<Rightarrow> nat \<times> nat" where
  "advance ch pos = (case pos of (r, c) \<Rightarrow>
     if ch = 13 then (r, 0)
     else if ch = 10 then (r + 1, 0)
     else let c' = (if ch = 9 then tab_stop c else c + 1) in if c' \<ge> 80 then (r + 1, 0) else (r, c'))"

definition shift_up :: "U16 \<Rightarrow> (nat \<Rightarrow> U16) \<Rightarrow> nat \<Rightarrow> U16" where
  "shift_up b v i = (if i < 3920 then v (i + 80) else if i < 4000 then b else v i)"

definition typed :: "U8 \<Rightarrow> UINT \<Rightarrow> nat \<times> nat \<Rightarrow> (nat \<Rightarrow> U16) \<Rightarrow> nat \<Rightarrow> U16" where
  "typed ch attr pos v =
     (if ch = 13 \<or> ch = 10 \<or> ch = 9 then v else v(fst pos * 80 + snd pos := ucast (push_bit 8 attr OR scast ch)))"

definition cursor :: "'a vga_state_scheme \<Rightarrow> nat \<times> nat" where
  "cursor st = (unat (vga_row st), unat (vga_column st))"

definition on_screen :: "'a vga_state_scheme \<Rightarrow> bool" where
  "on_screen st \<longleftrightarrow> fst (cursor st) < 50 \<and> snd (cursor st) < 80"

lemma scroll_copy_eq: "p < n \<Longrightarrow> scroll_copy k p n v = (\<lambda>i. if p \<le> i \<and> i < p + k then v (i + (n - p)) else v i)"
proof (induction k arbitrary: p n v)
  case (Suc k)
  then show ?case by (auto simp: fun_eq_iff)
qed (auto simp: fun_eq_iff)

lemma scroll_clear_eq: "scroll_clear k p c v = (\<lambda>i. if p \<le> i \<and> i < p + k then c else v i)"
  by (induction k arbitrary: p v) (auto simp: fun_eq_iff)

lemma s_updateCursor_fields [simp]:
  "vga_row (s_updateCursor st) = vga_row st" "vga_column (s_updateCursor st) = vga_column st"
  "vgab (s_updateCursor st) = vgab st" "text_attr (s_updateCursor st) = text_attr st"
  "crtc_flags (s_updateCursor st) = crtc_flags st"
  by (simp_all add: s_updateCursor_def crt_write_def outb_def Let_def)

lemma kdisp_scrollDown_vgab: "vgab (kdisp_scrollDown st) = shift_up (blank (text_attr st)) (vgab st)"
  by (auto simp: kdisp_scrollDown_def Let_def VGA_COLUMNS_def VGA_ROWS_def scroll_copy_eq scroll_clear_eq shift_up_def
      fun_eq_iff simp del: scroll_copy.simps scroll_clear.simps)

lemma kdisp_scrollDown_fields:
  "vga_column (kdisp_scrollDown st) = 0" "text_attr (kdisp_scrollDown st) = text_attr st"
  "vga_row st = 50 \<Longrightarrow> vga_row (kdisp_scrollDown st) = 49"
  by (simp_all add: kdisp_scrollDown_def Let_def del: scroll_copy.simps scroll_clear.simps)

lemma tab_word:
  fixes c :: UINT
  assumes "unat c < 80"
  shows "unat (c + (TABSTOP - c mod TABSTOP)) = tab_stop (unat c)"
proof -
  have m: "unat (c mod 4) = unat c mod 4" by (simp add: unat_mod)
  have "unat (4 - c mod 4) = 4 - unat c mod 4"
    using m by (subst unat_sub) (auto simp: word_le_nat_alt intro: less_imp_le)
  then have "unat (c + (4 - c mod 4)) = unat c + (4 - unat c mod 4)"
    using assms by (subst unat_add_lem [THEN iffD1]) simp_all
  then show ?thesis by (simp add: TABSTOP_def tab_stop_def) presburger
qed

text \<open>The state after the character was stored and the cursor moved, before scrolling.\<close>

definition moved :: "U8 \<Rightarrow> 'a vga_state_scheme \<Rightarrow> 'a vga_state_scheme" where
  "moved c st =
     (let st = (if c = 13 then st\<lparr>vga_column := 0\<rparr>
                else if c = 10 then st\<lparr>vga_column := 0, vga_row := vga_row st + 1\<rparr>
                else if c = 9 then st\<lparr>vga_column := vga_column st + (TABSTOP - vga_column st mod TABSTOP)\<rparr>
                else let index = vga_row st * VGA_COLUMNS + vga_column st
                     in st\<lparr>vgab := (vgab st)(unat index := ucast (push_bit 8 (text_attr st) OR scast c)),
                           vga_column := vga_column st + 1\<rparr>)
      in if vga_column st \<ge> VGA_COLUMNS then st\<lparr>vga_row := vga_row st + 1, vga_column := 0\<rparr> else st)"

lemma kdisp_putc_moved:
  "kdisp_putc c st = s_updateCursor (if vga_row (moved c st) \<ge> VGA_ROWS then kdisp_scrollDown (moved c st) else moved c st)"
  by (simp add: kdisp_putc_def moved_def Let_def)

lemma unat_Suc_small: "unat (x :: UINT) < 1000 \<Longrightarrow> unat (x + 1) = unat x + 1"
  by (subst unat_add_lem [THEN iffD1]) simp_all

lemma moved_spec:
  assumes "on_screen st"
  shows "cursor (moved c st) = advance c (cursor st)" "vgab (moved c st) = typed c (text_attr st) (cursor st) (vgab st)"
    "text_attr (moved c st) = text_attr st"
proof -
  have r: "unat (vga_row st) < 50" and co: "unat (vga_column st) < 80" using assms by (auto simp: on_screen_def cursor_def)
  have i: "unat (vga_row st * 80 + vga_column st) = unat (vga_row st) * 80 + unat (vga_column st)"
    using r co by (simp add: unat_word_ariths)
  have t: "unat (vga_column st + (TABSTOP - vga_column st mod TABSTOP)) = tab_stop (unat (vga_column st))"
    using tab_word co by blast
  have s: "unat (vga_row st + 1) = unat (vga_row st) + 1" "unat (vga_column st + 1) = unat (vga_column st) + 1"
    using r co by (simp_all add: unat_Suc_small)
  show "cursor (moved c st) = advance c (cursor st)"
    using co by (auto simp: moved_def advance_def cursor_def Let_def VGA_COLUMNS_def s t word_le_nat_alt)
  show "vgab (moved c st) = typed c (text_attr st) (cursor st) (vgab st)"
    by (auto simp: moved_def typed_def cursor_def Let_def VGA_COLUMNS_def i)
  show "text_attr (moved c st) = text_attr st" by (simp add: moved_def Let_def)
qed

lemma advance_bounds:
  assumes "r < 50" "c < 80" "advance ch (r, c) = (r', c')"
  shows "r' \<le> 50" "c' < 80" "r' = 50 \<Longrightarrow> c' = 0"
  using assms by (auto simp: advance_def Let_def split: if_splits)

text \<open>
  C35. Printing a character. With the cursor on the screen, \<open>kdisp_putc\<close> stores the character at the cursor with the current
  attribute (carriage return, line feed and tabulator store nothing), moves the cursor as documented, and when the
  cursor leaves the last row scrolls by one line, blanks the new one and stays in the last row. The cursor is on the
  screen again and no cell behind the screen changes.
\<close>

theorem kdisp_putc_correct:
  assumes "on_screen st"
  shows "on_screen (kdisp_putc ch st) \<and> text_attr (kdisp_putc ch st) = text_attr st \<and>
    (\<forall>i \<ge> 4000. vgab (kdisp_putc ch st) i = vgab st i) \<and>
    (let pos = advance ch (cursor st); v = typed ch (text_attr st) (cursor st) (vgab st)
     in if fst pos < 50 then cursor (kdisp_putc ch st) = pos \<and> vgab (kdisp_putc ch st) = v
        else cursor (kdisp_putc ch st) = (49, 0) \<and> vgab (kdisp_putc ch st) = shift_up (blank (text_attr st)) v)"
proof -
  obtain r c where p: "cursor st = (r, c)" "r < 50" "c < 80" using assms by (cases "cursor st") (auto simp: on_screen_def)
  obtain r' c' where q: "advance ch (r, c) = (r', c')" by (cases "advance ch (r, c)")
  note b = advance_bounds [OF p(2,3) q]
  let ?m = "moved ch st" and ?v = "typed ch (text_attr st) (cursor st) (vgab st)"
  note m = moved_spec [OF assms, of ch]
  have rc: "unat (vga_row ?m) = r'" "unat (vga_column ?m) = c'" using m(1) p q by (auto simp: cursor_def)
  have far: "?v i = vgab st i" if "i \<ge> 4000" for i using that p by (auto simp: typed_def)
  show ?thesis
  proof (cases "r' < 50")
    case True
    then have "\<not> vga_row ?m \<ge> VGA_ROWS" using rc by (simp add: VGA_ROWS_def word_le_nat_alt)
    then have "kdisp_putc ch st = s_updateCursor ?m" by (simp add: kdisp_putc_moved)
    then show ?thesis using True p q b rc m far by (simp add: on_screen_def cursor_def Let_def)
  next
    case False
    then have "vga_row ?m = 50" using rc b by (intro word_unat_eq_iff [THEN iffD2]) simp
    then have "kdisp_putc ch st = s_updateCursor (kdisp_scrollDown ?m)" by (simp add: kdisp_putc_moved VGA_ROWS_def)
    then show ?thesis
      using False p q b m far \<open>vga_row ?m = 50\<close>
      by (auto simp: on_screen_def cursor_def Let_def kdisp_scrollDown_fields kdisp_scrollDown_vgab shift_up_def)
  qed
qed

text \<open>
  The request to move the cursor accepts the row behind the last one. The next character is then stored behind the
  screen.
\<close>

theorem kdisp_setcoords_off_screen:
  "\<exists>st'. kdisp_ioctl (DISP_SETCOORDS VGA_ROWS 0) st = Some ((True, []), st') \<and>
     vgab (kdisp_putc 65 st') 4000 = ucast (push_bit 8 (text_attr st) OR 65)"
  by (simp add: kdisp_ioctl_def kdisp_putc_def VGA_ROWS_def VGA_COLUMNS_def Let_def kdisp_scrollDown_vgab shift_up_def)

lemma scan_loop_last: "(ucast (v (s + k)) :: U8) \<noteq> 32 \<Longrightarrow> scan_loop (Suc k) s h v = s + k"
proof (induction k arbitrary: s h)
  case (Suc k)
  then show ?case using Suc.IH [of "s + 1" "if (ucast (v s) :: U8) \<noteq> 32 then s else h"] by simp
qed simp

lemma putc_below:
  "vga_row st = 50 \<Longrightarrow> vga_column st = 0 \<Longrightarrow> vgab (kdisp_putc 65 st) 4000 = ucast (push_bit 8 (text_attr st) OR 65)"
  by (simp add: kdisp_putc_def VGA_ROWS_def VGA_COLUMNS_def Let_def kdisp_scrollDown_vgab shift_up_def)

text \<open>Reading the ports of the display changes the log and the flags only.\<close>

lemma probe_fields:
  assumes "inb 0x3CC t = (v1, s1)"
    and "crt_read 0x10 (if v1 AND 1 \<noteq> 0 then s1\<lparr>crtc_flags := crtc_flags s1 OR 2\<rparr> else s1) = (v2, s2)"
  shows "phase (if c then s2\<lparr>crtc_flags := k\<rparr> else s2) = phase t"
    "graphics_enabled (if c then s2\<lparr>crtc_flags := k\<rparr> else s2) = graphics_enabled t"
    "vga_row (if c then s2\<lparr>crtc_flags := k\<rparr> else s2) = vga_row t"
    "vga_column (if c then s2\<lparr>crtc_flags := k\<rparr> else s2) = vga_column t"
    "text_attr (if c then s2\<lparr>crtc_flags := k\<rparr> else s2) = text_attr t"
  using assms by (auto simp: inb_def crt_read_def outb_def Let_def split: if_splits)

text \<open>What the initialisation leaves: the cursor behind the last character of the screen.\<close>

lemma kdisp_init_fields:
  assumes "phase st = BOOT_COMPLETE" "\<not> graphics_enabled st"
  shows "\<exists>st'. kdisp_init st = Some st' \<and>
    vga_row st' = ucast (of_nat ((scan_loop 4000 0 0 (vgab st) + 1) div 80) :: U8) \<and>
    vga_column st' = ucast (of_nat ((scan_loop 4000 0 0 (vgab st) + 1) mod 80) :: U8) \<and> text_attr st' = LIGHT_GRAY"
proof -
  let ?h = "scan_loop 4000 0 0 (vgab st) + 1"
  let ?s = "if ?h > 3999 then kdisp_scrollDown st else st"
  let ?t = "(s_updateCursor (?s\<lparr>vga_row := ucast (of_nat (?h div 80) :: U8), vga_column := ucast (of_nat (?h mod 80) :: U8)\<rparr>))
    \<lparr>text_attr := LIGHT_GRAY\<rparr>"
  have u: "unat VGA_MAX_INDEX = 3999" "unat VGA_COLUMNS = 80" by (simp_all add: VGA_MAX_INDEX_def VGA_COLUMNS_def VGA_ROWS_def)
  obtain v1 s1 where 1: "inb 0x3CC ?t = (v1, s1)" by (cases "inb 0x3CC ?t")
  let ?s1 = "if v1 AND 1 \<noteq> 0 then s1\<lparr>crtc_flags := crtc_flags s1 OR 2\<rparr> else s1"
  obtain v2 s2 where 2: "crt_read 0x10 ?s1 = (v2, s2)" by (cases "crt_read 0x10 ?s1")
  let ?s2 = "if drop_bit 3 v2 AND 1 \<noteq> 0 then s2\<lparr>crtc_flags := crtc_flags s2 OR 1\<rparr> else s2"
  have run: "kdisp_init st = KERNEL_PHASE_SET TEXTDISP_READY ?s2"
    unfolding kdisp_init_def u using 1 2 by (simp add: Let_def del: scan_loop.simps)
  have p: "phase ?s = BOOT_COMPLETE" "graphics_enabled ?s = False"
    using assms by (simp_all add: kdisp_scrollDown_def s_updateCursor_def crt_write_def outb_def Let_def)
  have f: "phase ?s2 = phase ?t" "graphics_enabled ?s2 = graphics_enabled ?t" "vga_row ?s2 = vga_row ?t"
    "vga_column ?s2 = vga_column ?t" "text_attr ?s2 = text_attr ?t"
    by (rule probe_fields [OF 1 2])+
  have q: "phase ?t = BOOT_COMPLETE" "graphics_enabled ?t = False"
    using p by (simp_all add: s_updateCursor_def crt_write_def outb_def Let_def del: scan_loop.simps)
  have "KERNEL_PHASE_SET TEXTDISP_READY ?s2 = Some (?s2\<lparr>phase := TEXTDISP_READY\<rparr>)"
    using q unfolding KERNEL_PHASE_SET_def f by (simp add: k_assert_def)
  then show ?thesis using run f by (intro exI [of _ "?s2\<lparr>phase := TEXTDISP_READY\<rparr>"]) simp
qed

text \<open>
  When the last cell of the screen holds a character, the initialisation scrolls by a line to make room but puts the
  cursor behind the last row all the same, and the next character is stored behind the screen.
\<close>

theorem kdisp_init_full_screen:
  assumes "(ucast (vgab st 3999) :: U8) \<noteq> 32" "phase st = BOOT_COMPLETE" "\<not> graphics_enabled st"
  shows "\<exists>st'. kdisp_init st = Some st' \<and> cursor st' = (50, 0) \<and>
           vgab (kdisp_putc 65 st') 4000 = ucast (push_bit 8 LIGHT_GRAY OR 65)"
proof -
  have "scan_loop 4000 0 0 (vgab st) = 3999"
    using scan_loop_last [of "vgab st" 0 3999 0] assms(1) by simp
  then obtain st' where st': "kdisp_init st = Some st'" "vga_row st' = 50" "vga_column st' = 0" "text_attr st' = LIGHT_GRAY"
    using kdisp_init_fields [OF assms(2,3)] by auto
  then show ?thesis using putc_below [OF st'(2,3)] by (simp add: cursor_def)
qed

section \<open>Witnesses\<close>

definition sample_vga :: vga_state where
  "sample_vga = (hw_state.extend (sample_devices [0])
     \<lparr>vga_row = 49, vga_column = 79, crtc_flags = 0, text_attr = 7, vgab = (\<lambda>i. of_nat i)\<rparr>)
     \<lparr>phase := BOOT_COMPLETE, graphics_enabled := False\<rparr>"

lemma sample_vga_fields:
  "vga_row sample_vga = 49" "vga_column sample_vga = 79" "text_attr sample_vga = 7" "vgab sample_vga = (\<lambda>i. of_nat i)"
  "phase sample_vga = BOOT_COMPLETE" "graphics_enabled sample_vga = False"
  by (simp_all add: sample_vga_def hw_state.defs)

theorem kdisp_putc_correct_witness:
  "cursor (kdisp_putc 65 sample_vga) = (49, 0) \<and> vgab (kdisp_putc 65 sample_vga) 3919 = 0x741 \<and>
   vgab (kdisp_putc 65 sample_vga) 0 = 80 \<and> vgab (kdisp_putc 65 sample_vga) 3920 = 0x720 \<and>
   vgab (kdisp_putc 65 sample_vga) 4000 = 4000"
  using kdisp_putc_correct [of sample_vga 65]
  by (simp add: on_screen_def cursor_def sample_vga_fields advance_def typed_def shift_up_def blank_def)

theorem kdisp_init_full_screen_witness:
  "\<exists>st'. kdisp_init sample_vga = Some st' \<and> cursor st' = (50, 0) \<and>
     vgab (kdisp_putc 65 st') 4000 = 0x741"
  using kdisp_init_full_screen [of sample_vga] by (simp add: sample_vga_fields LIGHT_GRAY_def)

end
