(* ===== verification/Kernel_Graphics.thy ===== *)
theory Kernel_Graphics
  imports Graphics Text_Display
begin

text \<open>
  The graphics mode of the kernel: the frame buffer of the graphics card, the back buffer programs are drawn into, and
  the cursor of the mouse (\<open>kgraphics_init\<close>, \<open>kgraphis_flush\<close> and \<open>draw_cursor\<close> of \<open>src/kernel/kgraphics.c\<close>).

  Both buffers are mapped in the kernel half of the address space, so they are part of the kernel memory. \<open>gx\<close> is the size of
  a pixel in bytes, fixed by the build.
\<close>

section \<open>State\<close>

record GraphicsInfo =
  gi_xResolution :: U16
  gi_yResolution :: U16
  gi_bytesPerPixel :: U8
  gi_framebufferPhysicalPtr :: Physical
  gi_bytesPerScanLine :: U16
  gi_fontsData :: PTR

record gx_state = vga_state +
  tick_count :: U32
  gxi :: GraphicsInfo
  framebuffer :: PTR
  gx_backfb :: KGraphicsArea
  gx_hwfb :: KGraphicsArea

definition MOUSE_BG_COLOR :: "nat \<Rightarrow> Color" where "MOUSE_BG_COLOR gx = (if gx = 1 then 18 else 0x202020)"
definition MOUSE_FG_COLOR :: "nat \<Rightarrow> Color" where "MOUSE_FG_COLOR gx = (if gx = 1 then 15 else 0xFFFFFF)"

section \<open>Operations\<close>

text \<open>The fonts are the first field of the structure of the boot loader.\<close>

definition arch_getGraphicsModeInfo :: "BootLoaderInfo \<Rightarrow> GraphicsInfo" where
  "arch_getGraphicsModeInfo bli =
     (let gmi = kboot_getGraphicsModeInfo bli
      in \<lparr>gi_xResolution = xResolution gmi, gi_yResolution = yResolution gmi, gi_bytesPerPixel = bitsPerPixel gmi div 8,
          gi_framebufferPhysicalPtr = framebufferPhysicalPtr gmi, gi_bytesPerScanLine = bytesPerScanLine gmi,
          gi_fontsData = MEM_START_BOOT_INFO\<rparr>)"

text \<open>Waits until the retrace bit of the status register has the given value.\<close>

partial_function (option) wait_retrace :: "bool \<Rightarrow> 'a hw_state_scheme \<Rightarrow> 'a hw_state_scheme option" where
  "wait_retrace b st =
     (let (v, st) = inb 0x3DA st in if (v AND 8 \<noteq> 0) = b then Some st else wait_retrace b st)"

definition arch_waitForNextVerticalRetrace :: "'a hw_state_scheme \<Rightarrow> 'a hw_state_scheme option" where
  "arch_waitForNextVerticalRetrace st = do {
     st \<leftarrow> wait_retrace False st;
     wait_retrace True st
   }"

text \<open>Signed comparisons and the signed half of a number, which rounds to zero.\<close>

definition CLAMP :: "U32 \<Rightarrow> U32 \<Rightarrow> U32 \<Rightarrow> U32" where
  "CLAMP v l u = (if sint v < sint l then l else if sint v \<ge> sint u then u else v)"

definition half :: "U32 \<Rightarrow> U32" where
  "half v = (if sint v < 0 then - (- v div 2) else v div 2)"

definition draw_cursor :: "nat \<Rightarrow> KGraphicsArea \<Rightarrow> MousePositionData \<Rightarrow> memory \<Rightarrow> memory" where
  "draw_cursor gx g mdata m =
     (let y = half (height_px g) - mouse_y mdata;
          x = half (width_px g) + mouse_x mdata;
          x = CLAMP x 0 (width_px g - 10);
          y = CLAMP y 0 (height_px g - 10);
          m = kgraphics_rect gx g x y 10 10 (MOUSE_BG_COLOR gx) m;
          m = kgraphics_hline gx g x y 10 2 (MOUSE_FG_COLOR gx) m
      in kgraphics_vline gx g x y 10 2 (MOUSE_FG_COLOR gx) m)"

definition kgraphics_init :: "BootLoaderInfo \<Rightarrow> 'a gx_state_scheme \<Rightarrow> (bool \<times> 'a gx_state_scheme) option" where
  "kgraphics_init bli st = do {
     KERNEL_PHASE_VALIDATE VMM_READY st;
     let info = arch_getGraphicsModeInfo bli;
         st = st\<lparr>gxi := info\<rparr>;
         szPages = BYTES_TO_PAGEFRAMES_CEILING (ucast (gi_bytesPerScanLine info) * ucast (gi_yResolution info));
         fbpa = gi_framebufferPhysicalPtr info
     in if fbpa = 0 then RETURN_ERROR ERR_DEVICE_NOT_READY False st
        else do {
          ((fb, _), st) \<leftarrow> kvmm_memmap (kcontext st) 0 (Some fbpa) szPages
             (VMM_MEMMAP_FLAG_IMMCOMMIT OR VMM_MEMMAP_FLAG_KERNEL_PAGE) st;
          let st = st\<lparr>framebuffer := fb\<rparr>
          in if fb = 0 then RETURN_ERROR (errorNumber st) False st
             else do {
               ((bb, _), st) \<leftarrow> kvmm_memmap (kcontext st) 0 None szPages
                  (VMM_MEMMAP_FLAG_IMMCOMMIT OR VMM_MEMMAP_FLAG_KERNEL_PAGE) st;
               let area = \<lparr>width_px = ucast (gi_xResolution info), height_px = ucast (gi_yResolution info),
                     bytesPerPixel = ucast (gi_bytesPerPixel info), bytesPerRow = ucast (gi_bytesPerScanLine info),
                     buffer = bb, bufferSizeBytes = PAGEFRAMES_TO_BYTES szPages\<rparr>;
                   st = st\<lparr>gx_backfb := area\<rparr>
               in if bb = 0 then RETURN_ERROR (errorNumber st) False st
                  else do {
                    st \<leftarrow> KERNEL_PHASE_SET GRAPHICS_READY (st\<lparr>gx_hwfb := area\<lparr>buffer := framebuffer st\<rparr>\<rparr>);
                    Some (True, st)
                  }
             }
        }
   }"

definition kgraphis_flush :: "nat \<Rightarrow> 'a gx_state_scheme \<Rightarrow> 'a gx_state_scheme option" where
  "kgraphis_flush gx st =
     (if \<not> KERNEL_PHASE_CHECK GRAPHICS_READY st then Some st
      else
        let bb = gx_backfb st
        in do {
          k_assert (framebuffer st \<noteq> 0);
          k_assert (bytesPerRow bb = ucast (gi_bytesPerScanLine (gxi st)));
          k_assert (bytesPerPixel bb = ucast (gi_bytesPerPixel (gxi st)));
          k_assert (width_px bb = ucast (gi_xResolution (gxi st)));
          k_assert (height_px bb = ucast (gi_yResolution (gxi st)));
          st \<leftarrow> arch_waitForNextVerticalRetrace st;
          let m = draw_cursor gx bb (ps2_mouse_get_packet st) (kmem st)
          in Some (st\<lparr>kmem := k_memcpy (framebuffer st) (buffer bb) (bufferSizeBytes bb) m\<rparr>)
        })"

section \<open>The cursor stays on the screen\<close>

lemma sint_unat: "unat (w :: U32) < 2 ^ 31 \<Longrightarrow> sint w = int (unat w)"
  by (simp add: sint_uint uint_nat signed_take_bit_int_eq_self del: of_nat_unat)

lemma sint_nonneg_unat: "0 \<le> sint (w :: U32) \<Longrightarrow> sint w = int (unat w)"
  using uint_lt2p [of w]
  by (auto simp: sint_uint signed_take_bit_eq_take_bit_minus take_bit_int_eq_self split: if_splits)

lemma CLAMP_bounds:
  assumes "unat u < 2 ^ 31"
  shows "unat (CLAMP v 0 u) \<le> unat u"
proof (cases "sint v < 0 \<or> sint v \<ge> sint u")
  case True
  then show ?thesis by (auto simp: CLAMP_def)
next
  case False
  then have "sint v = int (unat v)" by (intro sint_nonneg_unat) simp
  then have "unat v < unat u" using False sint_unat [OF assms] by (simp del: of_nat_unat)
  then show ?thesis using False by (simp add: CLAMP_def)
qed

lemma rect_outside:
  assumes "area_ok gx g" "unat x + unat w \<le> unat (width_px g)" "unat y + unat h \<le> unat (height_px g)" "\<not> in_buffer g a"
  shows "kgraphics_rect gx g x y w h color m a = m a"
proof (cases "w = 0 \<or> h = 0")
  case True
  then show ?thesis by (auto simp: kgraphics_rect_def)
next
  case False
  then have "0 < unat (width_px g)" "0 < unat (height_px g)"
    using assms(2,3) unat_gt_0 [of w] unat_gt_0 [of h] by linarith+
  then show ?thesis using rect_paints [OF assms(1-3) _ _ assms(4)] by blast
qed

lemma clamped_extent:
  fixes d :: U32
  assumes "10 \<le> unat d" "unat d < 2 ^ 31"
  shows "unat (CLAMP v 0 (d - 10)) + 10 \<le> unat d"
proof -
  have "unat (d - 10) = unat d - 10" using assms(1) by (simp add: unat_sub word_le_nat_alt)
  moreover have "unat (d - 10) < 2 ^ 31" using calculation assms(2) by linarith
  ultimately show ?thesis using CLAMP_bounds [of "d - 10" v] assms(1) by linarith
qed

text \<open>
  The mouse cursor is drawn inside the area, wherever the mouse is. In a well formed area of at least ten by ten
  pixels, for every position the mouse driver reports (positions far outside of the screen and positions whose sum with
  the middle of the screen wraps around included), no byte outside of the area changes, and the middle of the cursor is
  inside.
\<close>

theorem draw_cursor_inside:
  assumes "area_ok gx g" "10 \<le> unat (width_px g)" "unat (width_px g) < 2 ^ 31"
    and "10 \<le> unat (height_px g)" "unat (height_px g) < 2 ^ 31"
  shows "(\<forall>a. \<not> in_buffer g a \<longrightarrow> draw_cursor gx g mdata m a = m a) \<and>
    (\<exists>x y. x + 10 \<le> unat (width_px g) \<and> y + 10 \<le> unat (height_px g) \<and>
       pixel gx g (x + 5) (y + 5) (draw_cursor gx g mdata m) = map (color_byte (MOUSE_BG_COLOR gx)) [0..<gx])"
proof -
  define x where "x = CLAMP (half (width_px g) + mouse_x mdata) 0 (width_px g - 10)"
  define y where "y = CLAMP (half (height_px g) - mouse_y mdata) 0 (height_px g - 10)"
  have xy: "unat x + 10 \<le> unat (width_px g)" "unat y + 10 \<le> unat (height_px g)"
    unfolding x_def y_def using assms clamped_extent by blast+
  let ?m1 = "kgraphics_rect gx g x y 10 10 (MOUSE_BG_COLOR gx) m"
  let ?m2 = "kgraphics_rect gx g x y 10 2 (MOUSE_FG_COLOR gx) ?m1"
  have d: "draw_cursor gx g mdata m = kgraphics_rect gx g x y 2 10 (MOUSE_FG_COLOR gx) ?m2"
    by (simp add: draw_cursor_def Let_def x_def y_def kgraphics_hline_def kgraphics_vline_def)
  have b: "unat x + unat (10 :: U32) \<le> unat (width_px g)" "unat x + unat (2 :: U32) \<le> unat (width_px g)"
    "unat y + unat (10 :: U32) \<le> unat (height_px g)" "unat y + unat (2 :: U32) \<le> unat (height_px g)"
    using xy by simp_all
  have "draw_cursor gx g mdata m a = m a" if "\<not> in_buffer g a" for a
    unfolding d using that b by (simp add: rect_outside [OF assms(1)])
  moreover have "pixel gx g (unat x + 5) (unat y + 5) (draw_cursor gx g mdata m) = map (color_byte (MOUSE_BG_COLOR gx)) [0..<gx]"
  proof -
    have ij: "unat x + 5 < unat (width_px g)" "unat y + 5 < unat (height_px g)" using xy by simp_all
    note P = rect_pixel [OF assms(1) _ _ _ ij]
    show ?thesis
      unfolding d kgraphics_rect_def
      using P [OF b(2,3)] P [OF b(1,4)] P [OF b(1,3)] by simp
  qed
  ultimately show ?thesis using xy by blast
qed

definition sample_screen :: KGraphicsArea where
  "sample_screen = \<lparr>width_px = 16, height_px = 12, bytesPerPixel = 1, bytesPerRow = 16, buffer = 0x1000, bufferSizeBytes = 0x1000\<rparr>"

theorem draw_cursor_inside_witness:
  "draw_cursor 1 sample_screen \<lparr>mouse_x = 0x7FFFFFFF, mouse_y = - 5000, left_button = False, right_button = False,
     middle_button = False\<rparr> (\<lambda>_. 0) 0xFFF = 0"
  using draw_cursor_inside [of 1 sample_screen _ "\<lambda>_. 0"] by (simp add: sample_screen_def area_ok_def in_buffer_def)

end
