(* ===== verification/Events.thy ===== *)
theory Events
  imports Scheduler Frames
begin

text \<open>
  The queues of events of the processes (\<open>kprocess_pushEvent\<close> and \<open>kprocess_popEvent\<close> of \<open>src/kernel/x86/process.c\<close>)
  against their specification, a first in first out queue of events per process. The event objects live in the kernel
  heap, so the invariant ties the linked objects to allocated blocks.
\<close>

section \<open>The specification and the invariant\<close>

definition event_objects :: "'a process_state_scheme \<Rightarrow> PTR \<Rightarrow> PTR list" where
  "event_objects st p = (case list_for_each (eventsQueue st p) of Some es \<Rightarrow> es | None \<Rightarrow> [])"

definition pending :: "'a process_state_scheme \<Rightarrow> PTR \<Rightarrow> KProcessEvent list" where
  "pending st p = map (kevents st) (event_objects st p)"

definition heap_block :: "'a kmalloc_state_scheme \<Rightarrow> PTR \<Rightarrow> bool" where
  "heap_block st e \<longleftrightarrow> e \<noteq> 0 \<and> e - 32 \<in> fst ` {s \<in> set (kmalloc_segments st). snd (snd s)}"

text \<open>
  Every process of the scheduler queue has an ID of its own and a queue of events; the events of different processes
  are different objects.
\<close>

definition events_ok :: "'a process_state_scheme \<Rightarrow> bool" where
  "events_ok st \<longleftrightarrow> kmalloc_inv st \<and> ring (schedulerQueue st) (sched_queue st)
     \<and> inj_on (\<lambda>p. processID (pinfos st p)) (set (sched_queue st)) \<and> 0 \<notin> set (sched_queue st)
     \<and> (\<forall>p \<in> set (sched_queue st). ring (eventsQueue st p) (event_objects st p)
          \<and> (\<forall>e \<in> set (event_objects st p). heap_block st e))
     \<and> (\<forall>p \<in> set (sched_queue st). \<forall>q \<in> set (sched_queue st). p \<noteq> q \<longrightarrow>
          set (event_objects st p) \<inter> set (event_objects st q) = {})"

lemma event_objects_ring: "ring (eventsQueue st p) es \<Longrightarrow> event_objects st p = es"
  by (simp add: event_objects_def il.repr_items)

section \<open>The heap\<close>

lemma coalesce_keeps: "(x, n, True) \<in> set xs \<Longrightarrow> (x, n, True) \<in> set (coalesce xs)"
  by (induction xs rule: coalesce.induct) auto

lemma small_event: "small_request sizeof_KProcessEvent"
  by (simp add: small_request_def sizeof_KProcessEvent_def)

lemma heap_block_new:
  assumes inv: "kmalloc_inv st" and req: "small_request bytes" and got: "kmalloc bytes st = Some (e, st')" "e \<noteq> 0"
  shows "kmalloc_inv st'" "heap_block st' e" "heap_block st x \<Longrightarrow> heap_block st' x \<and> x \<noteq> e"
proof -
  obtain us y n vs where s: "e = y + 32" "kmalloc_segments st = us @ (y, n, False) # vs"
      "kmalloc_segments st' = us @ (y, bytes + 32, True) # (y + (bytes + 32), n - (bytes + 32), False) # vs" "kmalloc_inv st'"
    using km.malloc_law [OF inv req] got by (auto split: if_splits)
  show "kmalloc_inv st'" by (rule s(4))
  show "heap_block st' e" using got s by (auto simp: heap_block_def image_iff)
  assume "heap_block st x"
  then obtain m where m: "x \<noteq> 0" "(x - 32, m, True) \<in> set (kmalloc_segments st)" by (auto simp: heap_block_def)
  then have "x - 32 \<noteq> y" using km.segs_distinct [OF inv] s(2) by (auto simp: image_iff)
  then show "heap_block st' x \<and> x \<noteq> e" using m s by (auto simp: heap_block_def image_iff)
qed

lemmas heap_block_kmalloc = heap_block_new [OF _ small_event]

lemma heap_block_kfree:
  assumes inv: "kmalloc_inv st" and e: "heap_block st e"
  shows "\<exists>h. kfree e st = Some (True, st\<lparr>kheap := h\<rparr>) \<and> kmalloc_inv (st\<lparr>kheap := h\<rparr>)
    \<and> (\<forall>x. heap_block st x \<and> x \<noteq> e \<longrightarrow> heap_block (st\<lparr>kheap := h\<rparr>) x)"
proof -
  obtain n where n: "(e - 32, n, True) \<in> set (kmalloc_segments st)" using e by (auto simp: heap_block_def)
  obtain st' where f: "kfree e st = Some (True, st')" "kmalloc_inv st'"
      "kmalloc_segments st' = coalesce (mark_free (e - 32) (kmalloc_segments st))"
    using km.free_law [OF inv n] by blast
  obtain h where h: "st' = st\<lparr>kheap := h\<rparr>"
    using f(1) by (auto simp: kfree_def bind_eq_Some_conv split: if_splits)
  have "heap_block st' x" if x: "heap_block st x" "x \<noteq> e" for x
  proof -
    obtain m where m: "x \<noteq> 0" "(x - 32, m, True) \<in> set (kmalloc_segments st)" using x(1) by (auto simp: heap_block_def)
    then have "(x - 32, m, True) \<in> set (mark_free (e - 32) (kmalloc_segments st))"
      using x(2) by (force simp: mark_free_def)
    then show ?thesis using m(1) coalesce_keeps by (force simp: heap_block_def f(3))
  qed
  then show ?thesis using f h by blast
qed

lemma heap_block_more [simp]:
  "heap_block (st\<lparr>kevents := k\<rparr>) x = heap_block st x" "heap_block (st\<lparr>eventsQueue := q\<rparr>) x = heap_block st x"
  "kmalloc_inv (st\<lparr>kevents := k\<rparr>) = kmalloc_inv st" "kmalloc_inv (st\<lparr>eventsQueue := q\<rparr>) = kmalloc_inv st"
  by (simp_all add: heap_block_def kmalloc_segments_def kmalloc_inv_def)

section \<open>Finding a process\<close>

lemma find_process:
  assumes "ring (schedulerQueue st) ps" "p \<in> set ps" "inj_on (\<lambda>p. processID (pinfos st p)) (set ps)"
  shows "s_getProcessInfoFromID (processID (pinfos st p)) st = Some (p, st)"
proof -
  have "List.find (\<lambda>q. processID (pinfos st q) = processID (pinfos st p)) ps = Some p"
    using assms(2,3) by (induction ps) (auto simp: inj_on_def)
  then show ?thesis by (simp add: s_getProcessInfoFromID_def list_find_ring [OF assms(1)])
qed

section \<open>Adding and taking events\<close>

lemma events_okD:
  assumes "events_ok st" "p \<in> set (sched_queue st)"
  shows "kmalloc_inv st" "ring (eventsQueue st p) (event_objects st p)" "p \<noteq> 0"
    "e \<in> set (event_objects st p) \<Longrightarrow> heap_block st e"
    "s_getProcessInfoFromID (processID (pinfos st p)) st = Some (p, st)"
    "q \<in> set (sched_queue st) \<Longrightarrow> p \<noteq> q \<Longrightarrow> e \<in> set (event_objects st p) \<Longrightarrow> e \<notin> set (event_objects st q)"
  using assms find_process [of st "sched_queue st" p] unfolding events_ok_def by (auto, force)

lemma sched_queue_more [simp]:
  "sched_queue (st\<lparr>kheap := h\<rparr>) = sched_queue st" "sched_queue (st\<lparr>kevents := k\<rparr>) = sched_queue st"
  "sched_queue (st\<lparr>eventsQueue := q\<rparr>) = sched_queue st" "sched_queue (st\<lparr>errorNumber := e\<rparr>) = sched_queue st"
  by (simp_all add: sched_queue_def)

text \<open>Replacing the queue of one process by another one keeps the invariant.\<close>

lemma events_ok_update:
  assumes ok: "events_ok st" and p: "p \<in> set (sched_queue st)" and ring: "ring l es"
    and inv: "kmalloc_inv (st\<lparr>kheap := h\<rparr>)"
    and own: "\<forall>e \<in> set es. heap_block (st\<lparr>kheap := h\<rparr>) e"
    and others: "\<forall>q \<in> set (sched_queue st). q \<noteq> p \<longrightarrow>
       (\<forall>e \<in> set (event_objects st q). heap_block (st\<lparr>kheap := h\<rparr>) e \<and> e \<notin> set es)"
  shows "events_ok (st\<lparr>kheap := h, kevents := k, eventsQueue := (eventsQueue st)(p := l)\<rparr>)" 
    and "event_objects (st\<lparr>kheap := h, kevents := k, eventsQueue := (eventsQueue st)(p := l)\<rparr>) p = es"
    and "q \<noteq> p \<Longrightarrow> event_objects (st\<lparr>kheap := h, kevents := k, eventsQueue := (eventsQueue st)(p := l)\<rparr>) q = event_objects st q"
proof -
  let ?st = "st\<lparr>kheap := h, kevents := k, eventsQueue := (eventsQueue st)(p := l)\<rparr>"
  show eo: "event_objects ?st p = es" "q \<noteq> p \<Longrightarrow> event_objects ?st q = event_objects st q" for q
    using ring by (simp_all add: event_objects_def il.repr_items)
  have "kmalloc_inv ?st" "heap_block ?st x = heap_block (st\<lparr>kheap := h\<rparr>) x" for x
    using inv by (simp_all add: kmalloc_inv_def heap_block_def kmalloc_segments_def)
  moreover have "sched_queue ?st = sched_queue st" "schedulerQueue ?st = schedulerQueue st" "pinfos ?st = pinfos st"
    by (simp_all add: sched_queue_def)
  moreover have "set (event_objects ?st r) \<inter> set (event_objects ?st q) = {}"
    if "r \<in> set (sched_queue st)" "q \<in> set (sched_queue st)" "r \<noteq> q" for r q
  proof (cases "r = p \<or> q = p")
    case True
    then show ?thesis using that others eo by (auto simp: eo)
  next
    case False
    then show ?thesis using that ok by (simp add: eo events_ok_def)
  qed
  moreover have "ring (eventsQueue ?st r) (event_objects ?st r)
      \<and> (\<forall>e \<in> set (event_objects ?st r). heap_block (st\<lparr>kheap := h\<rparr>) e)"
    if "r \<in> set (sched_queue st)" for r
    using that eo ring own others ok by (cases "r = p") (simp_all add: events_ok_def)
  ultimately show "events_ok ?st" using ok by (simp add: events_ok_def)
qed

text \<open>A full heap only leaves the error number behind.\<close>

lemma events_ok_error [simp]: "events_ok (st\<lparr>errorNumber := e\<rparr>) = events_ok st"
  by (simp add: events_ok_def heap_block_def event_objects_def)

lemma pushEvent_spec:
  assumes ok: "events_ok st" and p: "p \<in> set (sched_queue st)"
  shows "\<exists>r st'. kprocess_pushEvent (processID (pinfos st p)) i d st = Some (r, st') \<and> events_ok st' \<and>
    sched_queue st' = sched_queue st \<and> pinfos st' = pinfos st \<and> (\<forall>q \<in> set (sched_queue st). q \<noteq> p \<longrightarrow> pending st' q = pending st q) \<and>
    (if r then pending st' p = pending st p @ [\<lparr>ev_event = i, ev_data = ucast d\<rparr>]
     else errorNumber st' = ERR_OUT_OF_MEM \<and> pending st' p = pending st p \<and>
       (\<forall>(x, n, a) \<in> set (kmalloc_segments st). a \<or> unat n < 84))"
proof -
  note D = events_okD [OF ok p]
  obtain e st1 where k: "kmalloc sizeof_KProcessEvent st = Some (e, st1)"
    using km.malloc_law [OF D(1) small_event] by blast
  note F = kmalloc_frame [OF k]
  show ?thesis
  proof (cases "e = 0")
    case True
    have full: "\<forall>(x, n, a) \<in> set (kmalloc_segments st). a \<or> unat n < 84"
      using km.malloc_law [OF D(1) small_event] k True by (auto simp: sizeof_KProcessEvent_def)
    from True have "kprocess_pushEvent (processID (pinfos st p)) i d st = Some (False, st\<lparr>errorNumber := ERR_OUT_OF_MEM\<rparr>)"
      using k F D(3,5) by (simp add: kprocess_pushEvent_def RETURN_ERROR_def)
    then show ?thesis using ok by (intro exI [of _ False] exI [of _ "st\<lparr>errorNumber := ERR_OUT_OF_MEM\<rparr>"] conjI)
        (use full in \<open>simp_all add: pending_def event_objects_def\<close>)
  next
    case False
    obtain h where h: "st1 = st\<lparr>kheap := h\<rparr>" using F False by auto
    note B = heap_block_kmalloc [OF D(1) k False]
    let ?es = "event_objects st p" and ?l = "enqueue (NodeOf e) (list_init (NodeOf e) (eventsQueue st p))"
    let ?k = "(kevents st)(e := \<lparr>ev_event = i, ev_data = ucast d\<rparr>)"
    let ?st = "st\<lparr>kheap := h, kevents := ?k, eventsQueue := (eventsQueue st)(p := ?l)\<rparr>"
    have fresh: "e \<notin> set (event_objects st q)" if "q \<in> set (sched_queue st)" for q
      using events_okD(4) [OF ok that] B(3) by blast
    have run: "kprocess_pushEvent (processID (pinfos st p)) i d st = Some (True, ?st)"
      using k h D(3,5) False by (simp add: kprocess_pushEvent_def Let_def)
    have ring: "ring ?l (?es @ [e])"
      using D(2) fresh [OF p] by (simp add: enqueue_ring ring_frame)
    have own: "\<forall>x \<in> set (?es @ [e]). heap_block (st\<lparr>kheap := h\<rparr>) x"
      using B(2,3) D(4) h by auto
    have others: "\<forall>q \<in> set (sched_queue st). q \<noteq> p \<longrightarrow>
        (\<forall>x \<in> set (event_objects st q). heap_block (st\<lparr>kheap := h\<rparr>) x \<and> x \<notin> set (?es @ [e]))"
      using B(3) events_okD(4,6) [OF ok] p h fresh by auto
    note U = events_ok_update [OF ok p ring B(1) [unfolded h] own others, where k = ?k]
    have "pending ?st q = pending st q" if "q \<in> set (sched_queue st)" "q \<noteq> p" for q
      using U(3) that fresh by (auto simp: pending_def)
    moreover have "pending ?st p = pending st p @ [\<lparr>ev_event = i, ev_data = ucast d\<rparr>]"
      using U(2) fresh [OF p] by (auto simp: pending_def)
    ultimately show ?thesis using run U(1) by (intro exI [of _ True] exI [of _ ?st] conjI) simp_all
  qed
qed

lemma popEvent_spec:
  assumes ok: "events_ok st" and p: "p \<in> set (sched_queue st)"
  shows "\<exists>st'. kprocess_popEvent (processID (pinfos st p)) st =
      Some ((True, case pending st p of [] \<Rightarrow> \<lparr>ev_event = KERNEL_EVENT_NONE, ev_data = 0\<rparr> | e # _ \<Rightarrow> e), st') \<and>
    events_ok st' \<and> sched_queue st' = sched_queue st \<and> pinfos st' = pinfos st \<and> pending st' p = tl (pending st p) \<and>
    (\<forall>q \<in> set (sched_queue st). q \<noteq> p \<longrightarrow> pending st' q = pending st q)"
proof (cases "event_objects st p")
  case Nil
  note D = events_okD [OF ok p]
  have "kprocess_popEvent (processID (pinfos st p)) st =
      Some ((True, \<lparr>ev_event = KERNEL_EVENT_NONE, ev_data = 0\<rparr>), st)"
    using D(3,5) dequeue_ring [OF D(2)] by (simp add: Nil kprocess_popEvent_def Let_def)
  then show ?thesis using ok Nil by (simp add: pending_def)
next
  case (Cons e es)
  note D = events_okD [OF ok p]
  obtain l where l: "dequeue (eventsQueue st p) = (NodeOf e, l)" "ring l es"
    using dequeue_ring [OF D(2)] Cons by auto
  have e: "heap_block st e" "e \<notin> set es" "set es \<subseteq> set (event_objects st p)"
    using D(4) Cons ring_distinct [OF D(2)] by auto
  let ?q = "(eventsQueue st)(p := l)"
  have blk: "kmalloc_inv (st\<lparr>eventsQueue := ?q\<rparr>)" "heap_block (st\<lparr>eventsQueue := ?q\<rparr>) e" using D(1) e(1) by simp_all
  obtain h where h: "kfree e (st\<lparr>eventsQueue := ?q\<rparr>) = Some (True, st\<lparr>eventsQueue := ?q, kheap := h\<rparr>)"
      "kmalloc_inv (st\<lparr>kheap := h\<rparr>)" "\<And>x. heap_block st x \<Longrightarrow> x \<noteq> e \<Longrightarrow> heap_block (st\<lparr>kheap := h\<rparr>) x"
    using heap_block_kfree [OF blk] by (auto simp: kmalloc_inv_def heap_block_def kmalloc_segments_def)
  let ?st = "st\<lparr>kheap := h, kevents := kevents st, eventsQueue := ?q\<rparr>"
  have run: "kprocess_popEvent (processID (pinfos st p)) st = Some ((True, kevents st e), ?st)"
    using D(3,5) l(1) h(1) e(1) by (simp add: kprocess_popEvent_def Let_def heap_block_def)
  have own: "\<forall>x \<in> set es. heap_block (st\<lparr>kheap := h\<rparr>) x"
    using h(3) e D(4) by auto
  have others: "\<forall>q \<in> set (sched_queue st). q \<noteq> p \<longrightarrow>
      (\<forall>x \<in> set (event_objects st q). heap_block (st\<lparr>kheap := h\<rparr>) x \<and> x \<notin> set es)"
    using events_okD(4,6) [OF ok] p h(3) Cons e by (metis list.set_intros(1) subset_eq)
  note U = events_ok_update [OF ok p l(2) h(2) own others, where k = "kevents st"]
  have "pending ?st q = pending st q" if "q \<noteq> p" for q
    using U(3) that by (simp add: pending_def)
  moreover have "pending ?st p = tl (pending st p)" "pending st p = kevents st e # map (kevents st) es"
    using U(2) Cons by (simp_all add: pending_def)
  ultimately show ?thesis using run U(1) by (intro exI [of _ ?st] conjI) simp_all
qed

section \<open>Properties\<close>

text \<open>
  C34. Every process has a first in first out queue of events. Pushing an event for a process appends it to its pending
  events, and fails, changing no queue, only when the kernel heap has no room for the event; popping returns the oldest
  pending event, or the empty event when there is none, and frees its memory. Neither panics, neither touches the
  events of another process, and both keep the invariant.
\<close>

theorem process_events_fifo:
  assumes "events_ok st" "p \<in> set (sched_queue st)"
  shows "(\<exists>r st'. kprocess_pushEvent (processID (pinfos st p)) i d st = Some (r, st') \<and> events_ok st' \<and>
      sched_queue st' = sched_queue st \<and> pinfos st' = pinfos st \<and> (\<forall>q \<in> set (sched_queue st). q \<noteq> p \<longrightarrow> pending st' q = pending st q) \<and>
      (if r then pending st' p = pending st p @ [\<lparr>ev_event = i, ev_data = ucast d\<rparr>]
       else errorNumber st' = ERR_OUT_OF_MEM \<and> pending st' p = pending st p \<and>
         (\<forall>(x, n, a) \<in> set (kmalloc_segments st). a \<or> unat n < 84))) \<and>
    (\<exists>st'. kprocess_popEvent (processID (pinfos st p)) st =
        Some ((True, case pending st p of [] \<Rightarrow> \<lparr>ev_event = KERNEL_EVENT_NONE, ev_data = 0\<rparr> | e # _ \<Rightarrow> e), st') \<and>
      events_ok st' \<and> sched_queue st' = sched_queue st \<and> pinfos st' = pinfos st \<and> pending st' p = tl (pending st p) \<and>
      (\<forall>q \<in> set (sched_queue st). q \<noteq> p \<longrightarrow> pending st' q = pending st q))"
  using pushEvent_spec [OF assms] popEvent_spec [OF assms] by blast

definition sample_events :: process_state where
  "sample_events = sample_sched\<lparr>eventsQueue := (\<lambda>_. list_init HeadNode \<lparr>nxt = \<lambda>_. NullNode, prv = \<lambda>_. NullNode\<rparr>)\<rparr>"

lemma sample_events_fields:
  "sched_queue sample_events = [1, 2, 3]" "pinfos sample_events = sample_process" "event_objects sample_events p = []"
  "kmalloc_segments sample_events = [(0xC0200000, 0x20000, False)]"
proof -
  show "sched_queue sample_events = [1, 2, 3]" "pinfos sample_events = sample_process"
    by (simp_all add: sample_events_def sample_sched_fields)
  show "event_objects sample_events p = []"
    by (rule event_objects_ring) (simp add: sample_events_def)
  show "kmalloc_segments sample_events = [(0xC0200000, 0x20000, False)]"
    using sample_vmm_segments
    by (simp add: sample_events_def kmalloc_segments_def sample_sched_def vmm_state.defs)
qed

lemma sample_events_ok: "events_ok sample_events"
proof -
  have "kmalloc_inv sample_vmm" using vmm_okD [OF sample_vmm_ok(1)] by blast
  then have "kmalloc_inv sample_events"
    by (simp add: sample_events_def kmalloc_inv_def sample_sched_def vmm_state.defs)
  moreover have "ring (schedulerQueue sample_events) [1, 2, 3]"
    using sample_queue_ring by (simp add: sample_events_def sample_sched_fields)
  moreover have "ring (eventsQueue sample_events p) []" for p by (simp add: sample_events_def)
  ultimately show ?thesis by (simp add: events_ok_def sample_events_fields sample_process_def)
qed

theorem process_events_fifo_witness:
  "\<exists>st1 st2. kprocess_pushEvent 2 KERNEL_EVENT_PROCCESS_YIELD_REQ 7 sample_events = Some (True, st1) \<and>
     kprocess_popEvent 2 st1 = Some ((True, \<lparr>ev_event = KERNEL_EVENT_PROCCESS_YIELD_REQ, ev_data = 7\<rparr>), st2) \<and>
     pending st2 2 = []"
proof -
  let ?e = KERNEL_EVENT_PROCCESS_YIELD_REQ
  have p: "(2 :: PTR) \<in> set (sched_queue sample_events)" "processID (pinfos sample_events 2) = 2"
    by (simp_all add: sample_events_fields sample_process_def)
  obtain st1 where 1: "kprocess_pushEvent 2 ?e 7 sample_events = Some (True, st1)" "events_ok st1"
      "sched_queue st1 = [1, 2, 3]" "pinfos st1 = pinfos sample_events" "pending st1 2 = [\<lparr>ev_event = ?e, ev_data = 7\<rparr>]"
    using process_events_fifo [OF sample_events_ok p(1), of ?e 7] p(2)
    by (auto simp: sample_events_fields pending_def split: if_splits)
  then have "processID (pinfos st1 2) = 2" using p(2) by simp
  then show ?thesis
    using process_events_fifo [OF 1(2), of 2] 1 by auto
qed

end
