(* ===== verification/Interrupts.thy ===== *)
theory Interrupts
  imports Kernel_Graphics Events
begin

text \<open>
  The handlers of interrupts and of page faults (\<open>src/kernel/x86/interrupts.c\<close>) and the periodic work of the kernel
  (\<open>keventmanager_invoke\<close> and \<open>k_delay\<close> of \<open>src/kernel/x86/kernel.c\<close>).

  The assembly stubs around the handlers save and restore the registers. The handlers of the other exceptions format a
  message and halt the machine, which is \<open>None\<close> in the model.
\<close>

section \<open>The periodic work\<close>

definition CONFIG_TICK_PERIOD_MICROSEC :: U32 where "CONFIG_TICK_PERIOD_MICROSEC = 1000"
definition CONFIG_PROCESS_PERIOD_US :: U64 where "CONFIG_PROCESS_PERIOD_US = 20000"

definition KERNEL_TICK_COUNT_TO_MICROSEC :: "U32 \<Rightarrow> U64" where
  "KERNEL_TICK_COUNT_TO_MICROSEC tick = ucast tick * ucast CONFIG_TICK_PERIOD_MICROSEC"

definition KERNEL_MICRODEC_TO_TICK_COUNT :: "U32 \<Rightarrow> U32" where
  "KERNEL_MICRODEC_TO_TICK_COUNT us = us div CONFIG_TICK_PERIOD_MICROSEC"

text \<open>\<open>BUG\<close> only logs a message, so a push that fails is not noticed.\<close>

definition keventmanager_invoke :: "nat \<Rightarrow> 'a gx_state_scheme \<Rightarrow> 'a gx_state_scheme option" where
  "keventmanager_invoke gx st =
     (let us = KERNEL_TICK_COUNT_TO_MICROSEC (tick_count st)
      in do {
        st \<leftarrow> (if us mod CONFIG_PROCESS_PERIOD_US = 0 then
                 let pid = kprocess_getCurrentPID st
                 in if pid \<noteq> PROCESS_ID_KERNEL then do {
                      (_, st) \<leftarrow> kprocess_pushEvent pid KERNEL_EVENT_PROCCESS_YIELD_REQ (tick_count st) st;
                      Some st
                    }
                    else Some st
               else Some st);
        if graphics_enabled st \<and> us mod CONFIG_PROCESS_PERIOD_US = 0 then kgraphis_flush gx st else Some st
      })"

text \<open>
  Busy waiting for the tick counter. The interrupts that advance the counter are the sequence \<open>ticks\<close> of values the loop
  reads; the result is the number of reads.
\<close>

fun delay_loop :: "U32 \<Rightarrow> U32 list \<Rightarrow> nat option" where
  "delay_loop end_tick [] = None"
| "delay_loop end_tick (t # ticks) =
     (if t < end_tick then map_option Suc (delay_loop end_tick ticks) else Some 0)"

definition k_delay :: "UINT \<Rightarrow> U32 list \<Rightarrow> 'a gx_state_scheme \<Rightarrow> nat option" where
  "k_delay ms ticks st =
     (let us = ms * 1000
      in do {
        k_assert (us \<ge> CONFIG_TICK_PERIOD_MICROSEC);
        delay_loop (tick_count st + KERNEL_MICRODEC_TO_TICK_COUNT us) ticks
      })"

section \<open>Hardware interrupts\<close>

definition timer_interrupt_handler :: "nat \<Rightarrow> 'a gx_state_scheme \<Rightarrow> 'a gx_state_scheme option" where
  "timer_interrupt_handler gx st = do {
     st \<leftarrow> keventmanager_invoke gx (st\<lparr>tick_count := tick_count st + 1\<rparr>);
     let (_, st) = pic_read_IRR_ISR False True False st
     in pic_send_eoi PIC_IRQ_TIMER st
   }"

definition spurious_irq_eoi :: "nat \<Rightarrow> 'a hw_state_scheme \<Rightarrow> 'a hw_state_scheme option" where
  "spurious_irq_eoi irq st =
     (if irq = PIC_IRQ_7 then Some st
      else if irq = PIC_IRQ_15 then pic_send_eoi PIC_IRQ_7 st
      else None)"

definition irq_7_handler :: "'a hw_state_scheme \<Rightarrow> 'a hw_state_scheme option" where
  "irq_7_handler st =
     (let ((master, _), st) = pic_read_IRR_ISR True True False st
      in if BIT_ISUNSET master (push_bit PIC_IRQ_7 1)
         then let (_, st) = pic_read_IRR_ISR False True False st in spurious_irq_eoi PIC_IRQ_7 st
         else pic_send_eoi PIC_IRQ_7 st)"

definition irq_15_handler :: "'a hw_state_scheme \<Rightarrow> 'a hw_state_scheme option" where
  "irq_15_handler st =
     (let ((_, slave), st) = pic_read_IRR_ISR True False True st
      in if BIT_ISUNSET slave (push_bit PIC_IRQ_15 1)
         then let (_, st) = pic_read_IRR_ISR False False True st in spurious_irq_eoi PIC_IRQ_15 st
         else pic_send_eoi PIC_IRQ_15 st)"

section \<open>Page faults\<close>

text \<open>The second attempt: commit the page, unless it is present already.\<close>

definition page_fault_commit :: "PTR \<Rightarrow> UINT \<Rightarrow> PTR \<Rightarrow> 'a process_state_scheme \<Rightarrow> 'a process_state_scheme option" where
  "page_fault_commit ctx errorcode fault_addr st =
     (if bit errorcode 0 then None
      else do {
        (r, st) \<leftarrow> kvmm_commitPage ctx fault_addr st;
        if \<not> r then None
        else if ctx = kcontext st then kprocess_syncPD st
        else Some st
      })"

definition page_fault_handler :: "UINT \<Rightarrow> PTR \<Rightarrow> 'a process_state_scheme \<Rightarrow> 'a process_state_scheme option" where
  "page_fault_handler errorcode fault_addr st = do {
     b \<leftarrow> kvmm_checkbounds (kcontext st) fault_addr st;
     if b then do {
       (dirty, st) \<leftarrow> kvmm_isPageDirectoryDirty (kcontext st) st;
       if dirty then kprocess_syncPD st else page_fault_commit (kcontext st) errorcode fault_addr st
     }
     else page_fault_commit (kprocess_getCurrentContext st) errorcode fault_addr st
   }"

section \<open>Spurious interrupts\<close>

lemma pic_read_log:
  "pic_read_IRR_ISR isr m s st =
     (let c = (if isr then 0xB else 0xA); l = io_log st @ [OutB 0x20 c, OutB 0xA0 c];
          vm = hw st l 0x20; l' = (if m then l @ [InB 0x20 vm] else l); vs = hw st l' 0xA0
      in ((if m then ucast vm else 0, if s then ucast vs else 0),
          st\<lparr>io_log := (if s then l' @ [InB 0xA0 vs] else l')\<rparr>))"
  by (simp add: pic_read_IRR_ISR_def outb_def inb_def Let_def MASTER_CMD_PORT_def SLAVE_CMD_PORT_def)

lemmas pic_irqs = PIC_IRQ_7_def PIC_IRQ_15_def PIC_IRQ_TIMER_def

lemma pic_eoi_log: "pic_send_eoi 7 st = Some (st\<lparr>io_log := io_log st @ [OutB 0x20 0x20]\<rparr>)"
  "pic_send_eoi 0 st = Some (st\<lparr>io_log := io_log st @ [OutB 0x20 0x20]\<rparr>)"
  by (simp_all add: pic_send_eoi_def k_assert_def outb_def MASTER_CMD_PORT_def)

text \<open>Bit 15 of a register of eight bits is never set.\<close>

lemma byte_bit_15: "BIT_ISUNSET (ucast (v :: U8)) 0x8000"
proof -
  have h: "bit (2 ^ 15 :: U32) n \<longleftrightarrow> n = 15" for n by (auto simp add: bit_exp_iff simp del: power_numeral)
  have v: "\<not> bit v 15" by (auto dest: bit_imp_le_length)
  have "(ucast v :: U32) AND 2 ^ 15 = 0"
    by (rule bit_word_eqI) (use v in \<open>auto simp: bit_and_iff h bit_unsigned_iff simp del: power_numeral\<close>)
  then show ?thesis by (simp add: BIT_ISUNSET_def BIT_ISSET_def)
qed

lemma byte_bit_7: "BIT_ISUNSET (ucast (v :: U8)) 0x80 \<longleftrightarrow> \<not> bit v 7"
proof -
  have h: "bit (2 ^ 7 :: U32) n \<longleftrightarrow> n = 7" for n by (auto simp add: bit_exp_iff simp del: power_numeral)
  have "(ucast v :: U32) AND 2 ^ 7 = (if bit v 7 then 2 ^ 7 else 0)"
    by (rule bit_word_eqI) (auto simp: bit_and_iff h bit_unsigned_iff simp del: power_numeral)
  then show ?thesis by (simp add: BIT_ISUNSET_def BIT_ISSET_def)
qed

text \<open>
  C37. Spurious interrupts. Both handlers return, whatever the controllers answer. For IRQ 7 an end of interrupt is sent to
  the master controller exactly when its in-service register has bit 7, that is when the interrupt is real. For IRQ 15
  every interrupt is taken as spurious: an end of interrupt is sent to the master only, so the slave never gets the one
  that a real IRQ 15 needs.
\<close>

theorem irq_handlers_eoi:
  "\<exists>st7 st15 u v w. irq_7_handler st = Some st7 \<and> irq_15_handler st = Some st15 \<and>
     io_log st7 = io_log st @ [OutB 0x20 0xB, OutB 0xA0 0xB, InB 0x20 u] @
       (if bit u 7 then [OutB 0x20 0x20] else [OutB 0x20 0xA, OutB 0xA0 0xA, InB 0x20 v]) \<and>
     io_log st15 = io_log st @ [OutB 0x20 0xB, OutB 0xA0 0xB, InB 0xA0 (hw st (io_log st @ [OutB 0x20 0xB, OutB 0xA0 0xB]) 0xA0),
       OutB 0x20 0xA, OutB 0xA0 0xA, InB 0xA0 w, OutB 0x20 0x20]"
proof -
  have "\<exists>st15 w. irq_15_handler st = Some st15 \<and> io_log st15 = io_log st @ [OutB 0x20 0xB, OutB 0xA0 0xB,
      InB 0xA0 (hw st (io_log st @ [OutB 0x20 0xB, OutB 0xA0 0xB]) 0xA0), OutB 0x20 0xA, OutB 0xA0 0xA, InB 0xA0 w, OutB 0x20 0x20]"
    by (simp add: irq_15_handler_def pic_read_log Let_def byte_bit_15 spurious_irq_eoi_def pic_eoi_log pic_irqs)
  moreover have "\<exists>st7 u v. irq_7_handler st = Some st7 \<and>
     io_log st7 = io_log st @ [OutB 0x20 0xB, OutB 0xA0 0xB, InB 0x20 u] @
       (if bit u 7 then [OutB 0x20 0x20] else [OutB 0x20 0xA, OutB 0xA0 0xA, InB 0x20 v])"
    by (rule exI [of _ "the (irq_7_handler st)"], rule exI [of _ "hw st (io_log st @ [OutB 0x20 0xB, OutB 0xA0 0xB]) 0x20"])
      (simp add: irq_7_handler_def pic_read_log Let_def byte_bit_7 spurious_irq_eoi_def pic_eoi_log pic_irqs)
  ultimately show ?thesis by blast
qed

section \<open>The timer\<close>

lemma events_ok_io [simp]:
  "events_ok (st\<lparr>io_log := l\<rparr>) = events_ok st" "events_ok (st\<lparr>tick_count := t\<rparr>) = events_ok st"
  "pending (st\<lparr>io_log := l\<rparr>) p = pending st p" "pending (st\<lparr>tick_count := t\<rparr>) p = pending st p"
  "sched_queue (st\<lparr>io_log := l\<rparr>) = sched_queue st" "sched_queue (st\<lparr>tick_count := t\<rparr>) = sched_queue st"
  "kmalloc_segments (st\<lparr>io_log := l\<rparr>) = kmalloc_segments st" "kmalloc_segments (st\<lparr>tick_count := t\<rparr>) = kmalloc_segments st"
  by (simp_all add: events_ok_def pending_def event_objects_def sched_queue_def heap_block_def kmalloc_segments_def
      kmalloc_inv_def)

lemma period_iff: "KERNEL_TICK_COUNT_TO_MICROSEC t mod CONFIG_PROCESS_PERIOD_US = 0 \<longleftrightarrow> unat t mod 20 = 0"
proof -
  have "unat (ucast t * 1000 :: U64) = unat t * 1000"
  proof -
    have "unat t mod 18446744073709551616 = unat t" "unat t * 1000 mod 18446744073709551616 = unat t * 1000"
      by (intro mod_less, use unat_less_2p32 [of t] in linarith)+
    then show ?thesis by (simp add: unat_word_ariths unsigned_ucast_eq take_bit_eq_mod)
  qed
  then have "unat (KERNEL_TICK_COUNT_TO_MICROSEC t) = unat t * 1000"
    by (simp add: KERNEL_TICK_COUNT_TO_MICROSEC_def CONFIG_TICK_PERIOD_MICROSEC_def)
  moreover have "unat (x mod (20000 :: U64)) = unat x mod 20000" for x
    by (simp add: unat_mod)
  ultimately have "unat (KERNEL_TICK_COUNT_TO_MICROSEC t mod CONFIG_PROCESS_PERIOD_US) = unat t * 1000 mod (20 * 1000)"
    by (simp add: CONFIG_PROCESS_PERIOD_US_def)
  also have "\<dots> = unat t mod 20 * 1000" by (simp only: mult_mod_left)
  finally have "unat (KERNEL_TICK_COUNT_TO_MICROSEC t mod CONFIG_PROCESS_PERIOD_US) = unat t mod 20 * 1000" .
  moreover have "x = 0 \<longleftrightarrow> unat x = 0" for x :: U64 by (simp add: unsigned_eq_0_iff)
  ultimately show ?thesis by (metis mult_is_0 zero_neq_numeral)
qed

lemma pushEvent_frame:
  fixes st :: "'a gx_state_scheme"
  assumes "kprocess_pushEvent pid i d st = Some (r, st')"
  shows "graphics_enabled st' = graphics_enabled st" "tick_count st' = tick_count st" "io_log st' = io_log st" "hw st' = hw st"
  using assms
  by (auto simp: kprocess_pushEvent_def s_getProcessInfoFromID_def kmalloc_def RETURN_ERROR_def Let_def
      elim!: bind_SomeE split: option.splits if_splits)

text \<open>One timer interrupt.\<close>

lemma timer_step:
  assumes ok: "events_ok st" and gr: "\<not> graphics_enabled st"
    and p: "currentProcess st \<in> set (sched_queue st)" and id: "processID (pinfos st (currentProcess st)) \<noteq> PROCESS_ID_KERNEL"
  shows "\<exists>st'. timer_interrupt_handler gx st = Some st' \<and> tick_count st' = tick_count st + 1 \<and>
    last (io_log st') = OutB 0x20 0x20 \<and> events_ok st' \<and> sched_queue st' = sched_queue st \<and>
    (\<forall>q \<in> set (sched_queue st). q \<noteq> currentProcess st \<longrightarrow> pending st' q = pending st q) \<and>
    (pending st' (currentProcess st) =
       (if unat (tick_count st + 1) mod 20 = 0
        then pending st (currentProcess st) @
          [\<lparr>ev_event = KERNEL_EVENT_PROCCESS_YIELD_REQ, ev_data = ucast (tick_count st + 1)\<rparr>]
        else pending st (currentProcess st)) \<or>
     pending st' (currentProcess st) = pending st (currentProcess st) \<and>
       (\<forall>(x, n, a) \<in> set (kmalloc_segments st). a \<or> unat n < 84))"
proof -
  let ?p = "currentProcess st" and ?s = "st\<lparr>tick_count := tick_count st + 1\<rparr>"
  have p0: "?p \<noteq> 0" using events_okD(3) [OF ok p] .
  have pid: "kprocess_getCurrentPID ?s = processID (pinfos st ?p)" using p0 by (simp add: kprocess_getCurrentPID_def)
  have tail: "\<exists>st'. (let (_, st) = pic_read_IRR_ISR False True False t in pic_send_eoi PIC_IRQ_TIMER st) = Some st' \<and>
      (\<exists>l. st' = t\<lparr>io_log := l\<rparr> \<and> last l = OutB 0x20 0x20)" for t :: "'a gx_state_scheme"
    by (simp add: pic_read_log Let_def pic_eoi_log pic_irqs) (rule exI, rule conjI, rule refl, simp)
  show ?thesis
  proof (cases "unat (tick_count st + 1) mod 20 = 0")
    case False
    then have "keventmanager_invoke gx ?s = Some ?s" by (simp add: keventmanager_invoke_def Let_def period_iff)
    then obtain st' l where "timer_interrupt_handler gx st = Some st'" "st' = ?s\<lparr>io_log := l\<rparr>" "last l = OutB 0x20 0x20"
      using tail [of ?s] by (auto simp: timer_interrupt_handler_def)
    then show ?thesis using ok False by simp
  next
    case True
    have s: "events_ok ?s" "?p \<in> set (sched_queue ?s)" using ok p by simp_all
    obtain r s1 where k: "kprocess_pushEvent (processID (pinfos st ?p)) KERNEL_EVENT_PROCCESS_YIELD_REQ (tick_count st + 1) ?s = Some (r, s1)"
        "events_ok s1" "sched_queue s1 = sched_queue st" "\<forall>q \<in> set (sched_queue st). q \<noteq> ?p \<longrightarrow> pending s1 q = pending st q"
        "if r then pending s1 ?p = pending st ?p @ [\<lparr>ev_event = KERNEL_EVENT_PROCCESS_YIELD_REQ, ev_data = ucast (tick_count st + 1)\<rparr>]
         else pending s1 ?p = pending st ?p \<and> (\<forall>(x, n, a) \<in> set (kmalloc_segments st). a \<or> unat n < 84)"
      using pushEvent_spec [OF s, of KERNEL_EVENT_PROCCESS_YIELD_REQ "tick_count st + 1"]
      by (elim exE conjE, intro that) (auto split: if_splits)
    have "keventmanager_invoke gx ?s = Some s1"
      using True id gr k(1) pushEvent_frame(1) [OF k(1)] by (simp add: keventmanager_invoke_def Let_def period_iff pid)
    then obtain st' l where "timer_interrupt_handler gx st = Some st'" "st' = s1\<lparr>io_log := l\<rparr>" "last l = OutB 0x20 0x20"
      using tail [of s1] by (auto simp: timer_interrupt_handler_def)
    then show ?thesis using k True pushEvent_frame(2) [OF k(1)] by (cases r) simp_all
  qed
qed

text \<open>
  The timer asks the running process to yield. In a build without graphics, every timer interrupt returns, advances
  the tick counter and acknowledges the interrupt; when the new count is a multiple of 20 (20 milliseconds) the running
  process gets one more pending event, a request to yield with the tick count, unless the kernel heap has no room for it,
  and at other counts nobody gets an event. No other process gets an event and the queues stay well formed.
\<close>

theorem timer_requests_yield:
  assumes ok: "events_ok st" and gr: "\<not> graphics_enabled st"
    and p: "currentProcess st \<in> set (sched_queue st)" and id: "processID (pinfos st (currentProcess st)) \<noteq> PROCESS_ID_KERNEL"
  shows "\<exists>st'. timer_interrupt_handler gx st = Some st' \<and> tick_count st' = tick_count st + 1 \<and>
    last (io_log st') = OutB 0x20 0x20 \<and> events_ok st' \<and> sched_queue st' = sched_queue st \<and>
    (\<forall>q \<in> set (sched_queue st). q \<noteq> currentProcess st \<longrightarrow> pending st' q = pending st q) \<and>
    (pending st' (currentProcess st) =
       (if unat (tick_count st + 1) mod 20 = 0
        then pending st (currentProcess st) @
          [\<lparr>ev_event = KERNEL_EVENT_PROCCESS_YIELD_REQ, ev_data = ucast (tick_count st + 1)\<rparr>]
        else pending st (currentProcess st)) \<or>
     pending st' (currentProcess st) = pending st (currentProcess st) \<and>
       (\<forall>(x, n, a) \<in> set (kmalloc_segments st). a \<or> unat n < 84))"
  by (rule timer_step [OF assms])

section \<open>Witness\<close>

definition sample_timer :: gx_state where
  "sample_timer = (vga_state.extend sample_vga
     \<lparr>tick_count = 19,
      gxi = \<lparr>gi_xResolution = 16, gi_yResolution = 12, gi_bytesPerPixel = 1, gi_framebufferPhysicalPtr = 0,
        gi_bytesPerScanLine = 16, gi_fontsData = 0\<rparr>,
      framebuffer = 0, gx_backfb = sample_screen, gx_hwfb = sample_screen\<rparr>)
     \<lparr>phase := KERNEL_READY, graphics_enabled := False,
      eventsQueue := (\<lambda>_. list_init HeadNode \<lparr>nxt = \<lambda>_. NullNode, prv = \<lambda>_. NullNode\<rparr>)\<rparr>"

lemmas sample_chain = sample_timer_def vga_state.defs sample_vga_def hw_state.defs sample_devices_def dt_state.defs
  sample_dt_def process_state.defs

lemma sample_timer_fields:
  "tick_count sample_timer = 19" "currentProcess sample_timer = 2" "pinfos sample_timer = sample_process"
  "graphics_enabled sample_timer = False" "schedulerQueue sample_timer = sample_queue" "phase sample_timer = KERNEL_READY"
  "kheap sample_timer = kheap sample_events"
  "eventsQueue sample_timer p = list_init HeadNode \<lparr>nxt = \<lambda>_. NullNode, prv = \<lambda>_. NullNode\<rparr>"
  by (simp_all add: sample_chain sample_sched_fields sample_events_def)

lemma sample_timer_ok:
  "events_ok sample_timer" "sched_queue sample_timer = [1, 2, 3]" "pending sample_timer p = []"
  "kmalloc_segments sample_timer = [(0xC0200000, 0x20000, False)]"
proof -
  show q: "sched_queue sample_timer = [1, 2, 3]"
    using sched_queue_ring [of sample_timer "[1, 2, 3]"] sample_queue_ring by (simp add: sample_timer_fields)
  have r: "ring (eventsQueue sample_timer p) []" for p by (simp add: sample_timer_fields)
  then have o: "event_objects sample_timer p = []" for p by (rule event_objects_ring)
  then show "pending sample_timer p = []" by (simp add: pending_def)
  show "kmalloc_segments sample_timer = [(0xC0200000, 0x20000, False)]"
    using sample_events_fields(4) by (simp add: kmalloc_segments_def sample_timer_fields)
  have "kmalloc_inv sample_events" using sample_events_ok by (simp add: events_ok_def)
  then have "kmalloc_inv sample_timer" by (simp add: kmalloc_inv_def sample_timer_fields)
  then show "events_ok sample_timer"
    using sample_queue_ring r by (simp add: events_ok_def q o sample_timer_fields sample_process_def)
qed

theorem timer_requests_yield_witness:
  "\<exists>st'. timer_interrupt_handler 1 sample_timer = Some st' \<and> tick_count st' = 20 \<and>
     pending st' 2 = [\<lparr>ev_event = KERNEL_EVENT_PROCCESS_YIELD_REQ, ev_data = 20\<rparr>] \<and> pending st' 1 = []"
  using timer_requests_yield [OF sample_timer_ok(1), of 1]
  by (auto simp: sample_timer_fields sample_timer_ok sample_process_def PROCESS_ID_KERNEL_def)

end
