(* ===== verification/Compositor.thy ===== *)
theory Compositor
  imports Interrupts
begin

text \<open>
  The window compositor: \<open>src/kernel/compositor.c\<close> and \<open>include/compositor.h\<close>.

  The buffer of a window is in the user half of the address space of the process that created it, so what an access to it
  reaches depends on the page directory. \<open>umem\<close> has the user memory for each page directory, and \<open>view\<close> is the
  memory as the processor sees it; a page that is touched first is committed by the page fault handler and the access is
  repeated. Titles are zero terminated byte lists.
\<close>

section \<open>State\<close>

record Window =
  screen_x :: UINT
  screen_y :: UINT
  windowArea :: KGraphicsArea
  workingArea :: KGraphicsArea
  win_processID :: UINT

record win_state = gx_state +
  windowsListHead :: "PTR links"
  window_count :: UINT
  windows :: "PTR \<Rightarrow> Window"
  umem :: "U32 \<Rightarrow> memory"

definition sizeof_Window :: SIZE where "sizeof_Window = 68"
definition MEM_START_KERNEL_LOW_REGION :: PTR where "MEM_START_KERNEL_LOW_REGION = 0xC0000000"

definition view :: "'a win_state_scheme \<Rightarrow> memory" where
  "view st a = (if a \<ge> MEM_START_KERNEL_LOW_REGION then kmem st a else umem st (cr3 st) a)"

definition set_view :: "memory \<Rightarrow> 'a win_state_scheme \<Rightarrow> 'a win_state_scheme" where
  "set_view m st = st\<lparr>kmem := (\<lambda>a. if a \<ge> MEM_START_KERNEL_LOW_REGION then m a else kmem st a),
     umem := (umem st)(cr3 st := (\<lambda>a. if a \<ge> MEM_START_KERNEL_LOW_REGION then umem st (cr3 st) a else m a))\<rparr>"

section \<open>The grid of windows\<close>

definition WINMAN_GRID_ROWS_MAX :: UINT where "WINMAN_GRID_ROWS_MAX = 2"
definition WINMAN_GRID_COLS_MAX :: UINT where "WINMAN_GRID_COLS_MAX = 2"
definition WINMAN_GRID_CELL_COUNT :: UINT where "WINMAN_GRID_CELL_COUNT = WINMAN_GRID_ROWS_MAX * WINMAN_GRID_COLS_MAX"

definition WINMAN_GRID_CELL_WIDTH_PX :: "KGraphicsArea \<Rightarrow> UINT" where
  "WINMAN_GRID_CELL_WIDTH_PX fb = width_px fb div WINMAN_GRID_COLS_MAX"
definition WINMAN_GRID_CELL_HEIGHT_PX :: "KGraphicsArea \<Rightarrow> UINT" where
  "WINMAN_GRID_CELL_HEIGHT_PX fb = height_px fb div WINMAN_GRID_ROWS_MAX"
definition WINMAN_GRID_CELL_Y :: "KGraphicsArea \<Rightarrow> UINT \<Rightarrow> UINT" where
  "WINMAN_GRID_CELL_Y fb r = WINMAN_GRID_CELL_HEIGHT_PX fb * r"
definition WINMAN_GRID_CELL_X :: "KGraphicsArea \<Rightarrow> UINT \<Rightarrow> UINT" where
  "WINMAN_GRID_CELL_X fb c = WINMAN_GRID_CELL_WIDTH_PX fb * c"
definition WINMAN_GRID_CELL_ROW :: "UINT \<Rightarrow> UINT" where
  "WINMAN_GRID_CELL_ROW wini = wini div WINMAN_GRID_COLS_MAX"
definition WINMAN_GRID_CELL_COL :: "UINT \<Rightarrow> UINT" where
  "WINMAN_GRID_CELL_COL wini = wini mod WINMAN_GRID_COLS_MAX"

definition getWindowAreaSizeBytes :: "KGraphicsArea \<Rightarrow> SIZE" where
  "getWindowAreaSizeBytes fb = WINMAN_GRID_CELL_WIDTH_PX fb * WINMAN_GRID_CELL_HEIGHT_PX fb * bytesPerPixel fb"

section \<open>Drawing\<close>

definition COLOR_WHITE :: "nat \<Rightarrow> Color" where "COLOR_WHITE gx = (if gx = 1 then 15 else 0xFFFFFF)"
definition WINDOW_TITLE_BAR_BG_COLOR :: "nat \<Rightarrow> Color" where "WINDOW_TITLE_BAR_BG_COLOR gx = (if gx = 1 then 126 else 0x003971)"
definition WINDOW_TITLE_BAR_FG_COLOR :: "nat \<Rightarrow> Color" where "WINDOW_TITLE_BAR_FG_COLOR gx = (if gx = 1 then 15 else 0xFFFFFF)"
definition WINDOW_BG_COLOR :: "nat \<Rightarrow> Color" where "WINDOW_BG_COLOR gx = (if gx = 1 then 29 else 0xDFDFDF)"
definition WINDOW_BORDER_COLOR1 :: "nat \<Rightarrow> Color" where "WINDOW_BORDER_COLOR1 gx = (if gx = 1 then 26 else 0xAAAAAA)"
definition WINDOW_BORDER_COLOR2 :: "nat \<Rightarrow> Color" where "WINDOW_BORDER_COLOR2 gx = (if gx = 1 then 30 else 0xF2F2F2)"
definition DESKTOP_BG_COLOR :: "nat \<Rightarrow> Color" where "DESKTOP_BG_COLOR gx = (if gx = 1 then 123 else 0x007155)"

definition WINDOW_BORDER_WIDTH_PX :: UINT where "WINDOW_BORDER_WIDTH_PX = 3"
definition WINDOW_TITLE_BAR_HEIGHT_PX :: UINT where "WINDOW_TITLE_BAR_HEIGHT_PX = 20"
definition WINDOW_TITLE_LEFT_PX :: UINT where "WINDOW_TITLE_LEFT_PX = WINDOW_BORDER_WIDTH_PX + 4"
definition WINDOW_TITLE_TOP_PX :: UINT where "WINDOW_TITLE_TOP_PX = 4"

definition WINDOW_WORKING_AREA_HEIGHT_PX :: "KGraphicsArea \<Rightarrow> UINT" where
  "WINDOW_WORKING_AREA_HEIGHT_PX wa = height_px wa - (WINDOW_TITLE_BAR_HEIGHT_PX + WINDOW_BORDER_WIDTH_PX)"
definition WINDOW_WORKING_AREA_WIDTH_PX :: "KGraphicsArea \<Rightarrow> UINT" where
  "WINDOW_WORKING_AREA_WIDTH_PX wa = width_px wa - 2 * WINDOW_BORDER_WIDTH_PX"

definition drawWindowDecorations :: "nat \<Rightarrow> PTR \<Rightarrow> KGraphicsArea \<Rightarrow> U8 list \<Rightarrow> memory \<Rightarrow> memory option" where
  "drawWindowDecorations gx fonts wa title m =
     (let m = kgraphics_rect gx wa 0 0 (width_px wa) WINDOW_TITLE_BAR_HEIGHT_PX (WINDOW_TITLE_BAR_BG_COLOR gx) m
      in do {
        m \<leftarrow> kgraphics_drawstring gx fonts wa WINDOW_TITLE_LEFT_PX WINDOW_TITLE_TOP_PX title
               (WINDOW_TITLE_BAR_FG_COLOR gx) (WINDOW_TITLE_BAR_BG_COLOR gx) m;
        let w = width_px wa; h = height_px wa;
            m = kgraphics_hline gx wa (0 - 1) (WINDOW_TITLE_BAR_HEIGHT_PX - 1) w 1 (COLOR_WHITE gx) m;
            m = kgraphics_inborder gx wa 0 0 w h WINDOW_BORDER_WIDTH_PX (WINDOW_BORDER_COLOR1 gx) m;
            m = kgraphics_inborder gx wa (0 + 1) (0 + 1) (w - 2) (h - 2) 1 (WINDOW_BORDER_COLOR2 gx) m
        in Some (kgraphics_rect gx wa WINDOW_BORDER_WIDTH_PX WINDOW_TITLE_BAR_HEIGHT_PX
             (WINDOW_WORKING_AREA_WIDTH_PX wa) (WINDOW_WORKING_AREA_HEIGHT_PX wa) (WINDOW_BG_COLOR gx) m)
      })"

section \<open>Windows\<close>

definition destory_window :: "PTR \<Rightarrow> 'a win_state_scheme \<Rightarrow> 'a win_state_scheme option" where
  "destory_window win st = do {
     k_assert (win \<noteq> 0);
     (_, st) \<leftarrow> kvmm_free (kprocess_getCurrentContext st) (buffer (windowArea (windows st win))) st;
     (_, st) \<leftarrow> kfree win st;
     Some st
   }"

definition allocWindow :: "UINT \<Rightarrow> UINT \<Rightarrow> UINT \<Rightarrow> 'a win_state_scheme \<Rightarrow> (PTR \<times> 'a win_state_scheme) option" where
  "allocWindow pid sx sy st =
     (let fb = gx_backfb st;
          szPages = BYTES_TO_PAGEFRAMES_CEILING (getWindowAreaSizeBytes fb)
      in do {
        ((buf, _), st) \<leftarrow> kvmm_memmap (kprocess_getCurrentContext st) 0 None szPages VMM_MEMMAP_FLAG_NONE st;
        if buf = 0 then RETURN_ERROR (errorNumber st) 0 st
        else
          let wa = \<lparr>width_px = WINMAN_GRID_CELL_WIDTH_PX fb, height_px = WINMAN_GRID_CELL_HEIGHT_PX fb,
                bytesPerPixel = bytesPerPixel fb, bytesPerRow = WINMAN_GRID_CELL_WIDTH_PX fb * bytesPerPixel fb,
                buffer = buf, bufferSizeBytes = PAGEFRAMES_TO_BYTES szPages\<rparr>;
              h = WINDOW_WORKING_AREA_HEIGHT_PX wa;
              work = wa\<lparr>height_px := h, width_px := WINDOW_WORKING_AREA_WIDTH_PX wa,
                buffer := buf + (WINDOW_TITLE_BAR_HEIGHT_PX * bytesPerRow wa + WINDOW_BORDER_WIDTH_PX * bytesPerPixel wa),
                bufferSizeBytes := h * bytesPerRow wa\<rparr>
          in do {
            (newwin, st) \<leftarrow> kmalloc sizeof_Window st;
            if newwin = 0 then do {
              st \<leftarrow> destory_window newwin st;
              RETURN_ERROR (errorNumber st) 0 st
            }
            else
              let w = \<lparr>screen_x = sx, screen_y = sy, windowArea = wa, workingArea = work, win_processID = pid\<rparr>
              in Some (newwin, st\<lparr>windows := (windows st)(newwin := w),
                   windowsListHead := list_init (NodeOf newwin) (windowsListHead st)\<rparr>)
          }
      })"

definition kcompose_init :: "'a win_state_scheme \<Rightarrow> 'a win_state_scheme option" where
  "kcompose_init st = do {
     KERNEL_PHASE_VALIDATE GRAPHICS_READY st;
     Some (st\<lparr>windowsListHead := list_init HeadNode (windowsListHead st), window_count := 0\<rparr>)
   }"

definition kcompose_destroyWindow :: "PTR \<Rightarrow> 'a win_state_scheme \<Rightarrow> (bool \<times> 'a win_state_scheme) option" where
  "kcompose_destroyWindow win st = do {
     k_assert (win \<noteq> 0);
     st \<leftarrow> destory_window win (st\<lparr>windowsListHead := list_remove (NodeOf win) (windowsListHead st)\<rparr>);
     Some (True, st)
   }"

definition kcompose_createWindow :: "nat \<Rightarrow> U8 list \<Rightarrow> 'a win_state_scheme \<Rightarrow> (PTR \<times> 'a win_state_scheme) option" where
  "kcompose_createWindow gx title st = do {
     KERNEL_PHASE_VALIDATE KERNEL_READY st;
     if window_count st = WINMAN_GRID_CELL_COUNT then RETURN_ERROR ERR_OUT_OF_MEM 0 st
     else
       let col = WINMAN_GRID_CELL_COL (window_count st);
           row = WINMAN_GRID_CELL_ROW (window_count st);
           st = st\<lparr>window_count := window_count st + 1\<rparr>
       in do {
         (newwin, st) \<leftarrow> allocWindow (kprocess_getCurrentPID st) (WINMAN_GRID_CELL_X (gx_backfb st) col)
            (WINMAN_GRID_CELL_Y (gx_backfb st) row) st;
         if newwin = 0 then RETURN_ERROR (errorNumber st) 0 st
         else
           let st = st\<lparr>windowsListHead := list_add_after HeadNode (NodeOf newwin) (windowsListHead st)\<rparr>
           in do {
             m \<leftarrow> drawWindowDecorations gx (gi_fontsData (gxi st)) (windowArea (windows st newwin)) title (view st);
             Some (newwin, set_view m st)
           }
       }
   }"

fun flush_loop :: "nat \<Rightarrow> PTR list \<Rightarrow> 'a win_state_scheme \<Rightarrow> 'a win_state_scheme option" where
  "flush_loop gx [] st = Some st"
| "flush_loop gx (win # ws) st = do {
     let w = windows st win
     in do {
       m \<leftarrow> kgraphics_blit gx (gx_backfb st) (screen_x w) (screen_y w) (windowArea w) (view st);
       flush_loop gx ws (set_view m st)
     }
   }"

definition kcompose_flush :: "nat \<Rightarrow> 'a win_state_scheme \<Rightarrow> 'a win_state_scheme option" where
  "kcompose_flush gx st = do {
     KERNEL_PHASE_VALIDATE GRAPHICS_READY st;
     let bb = gx_backfb st;
         m = kgraphics_rect gx bb 0 0 (width_px bb) (height_px bb) (DESKTOP_BG_COLOR gx) (view st);
         st = set_view m st
     in do {
       ws \<leftarrow> list_for_each (windowsListHead st);
       flush_loop gx ws st
     }
   }"

section \<open>The cells of the grid\<close>

text \<open>A cell as the screen positions it covers: left, top, width and height.\<close>

definition cell_rect :: "KGraphicsArea \<Rightarrow> UINT \<Rightarrow> nat \<times> nat \<times> nat \<times> nat" where
  "cell_rect fb i = (unat (WINMAN_GRID_CELL_X fb (WINMAN_GRID_CELL_COL i)), unat (WINMAN_GRID_CELL_Y fb (WINMAN_GRID_CELL_ROW i)),
     unat (WINMAN_GRID_CELL_WIDTH_PX fb), unat (WINMAN_GRID_CELL_HEIGHT_PX fb))"

definition rects_disjoint :: "nat \<times> nat \<times> nat \<times> nat \<Rightarrow> nat \<times> nat \<times> nat \<times> nat \<Rightarrow> bool" where
  "rects_disjoint a b = (case a of (x, y, w, h) \<Rightarrow> case b of (x', y', w', h') \<Rightarrow>
     x + w \<le> x' \<or> x' + w' \<le> x \<or> y + h \<le> y' \<or> y' + h' \<le> y)"

lemma cell_index_cases: "(i :: UINT) < 4 \<Longrightarrow> i = 0 \<or> i = 1 \<or> i = 2 \<or> i = 3"
proof -
  assume "i < 4"
  then have "unat i < 4" by (simp add: word_less_nat_alt)
  then have "unat i = unat (0 :: UINT) \<or> unat i = unat (1 :: UINT) \<or> unat i = unat (2 :: UINT) \<or> unat i = unat (3 :: UINT)"
    by auto
  then show ?thesis by (simp only: word_unat_eq_iff)
qed

lemma cell_coordinates:
  "WINMAN_GRID_CELL_COL 0 = 0" "WINMAN_GRID_CELL_COL 1 = 1" "WINMAN_GRID_CELL_COL 2 = 0" "WINMAN_GRID_CELL_COL 3 = 1"
  "WINMAN_GRID_CELL_ROW 0 = 0" "WINMAN_GRID_CELL_ROW 1 = 0" "WINMAN_GRID_CELL_ROW 2 = 1" "WINMAN_GRID_CELL_ROW 3 = 1"
  by (simp_all add: WINMAN_GRID_CELL_COL_def WINMAN_GRID_CELL_ROW_def WINMAN_GRID_COLS_MAX_def)

lemma cell_half:
  "2 * unat (WINMAN_GRID_CELL_WIDTH_PX fb) \<le> unat (width_px fb)" "2 * unat (WINMAN_GRID_CELL_HEIGHT_PX fb) \<le> unat (height_px fb)"
  by (simp_all add: WINMAN_GRID_CELL_WIDTH_PX_def WINMAN_GRID_CELL_HEIGHT_PX_def WINMAN_GRID_COLS_MAX_def
      WINMAN_GRID_ROWS_MAX_def unat_div)

lemma cell_rect_at:
  fixes fb defines "w \<equiv> unat (WINMAN_GRID_CELL_WIDTH_PX fb)" and "h \<equiv> unat (WINMAN_GRID_CELL_HEIGHT_PX fb)"
  shows "cell_rect fb 0 = (0, 0, w, h)" "cell_rect fb 1 = (w, 0, w, h)" "cell_rect fb 2 = (0, h, w, h)" "cell_rect fb 3 = (w, h, w, h)"
  by (simp_all add: w_def h_def cell_rect_def cell_coordinates WINMAN_GRID_CELL_X_def WINMAN_GRID_CELL_Y_def)

text \<open>
  For a screen of any size, the rectangles of the
  cells with different numbers below the number of cells are disjoint, and each is inside of the screen; no sum or product
  in their coordinates wraps around.
\<close>

lemma cells_disjoint:
  assumes "i < WINMAN_GRID_CELL_COUNT"
  shows "(case cell_rect fb i of (x, y, w, h) \<Rightarrow> x + w \<le> unat (width_px fb) \<and> y + h \<le> unat (height_px fb)) \<and>
    (\<forall>j < WINMAN_GRID_CELL_COUNT. j \<noteq> i \<longrightarrow> rects_disjoint (cell_rect fb i) (cell_rect fb j))"
proof -
  have four: "WINMAN_GRID_CELL_COUNT = 4"
    by (simp add: WINMAN_GRID_CELL_COUNT_def WINMAN_GRID_ROWS_MAX_def WINMAN_GRID_COLS_MAX_def)
  have i: "i = 0 \<or> i = 1 \<or> i = 2 \<or> i = 3"
    using assms cell_index_cases [of i] unfolding four by simp
  have pair: "rects_disjoint (cell_rect fb i) (cell_rect fb j)" if "j < 4" "j \<noteq> i" for j
    using cell_index_cases [OF that(1)] i that(2)
    by (elim disjE) (simp_all add: cell_rect_at rects_disjoint_def)
  show ?thesis
    using i cell_half [of fb] pair unfolding four
    by (elim disjE) (simp_all add: cell_rect_at)
qed

end
