(* ===== verification/Printk.thy ===== *)
theory Printk
  imports Boot_Info
begin

text \<open>
  Formatted output: \<open>src/kernel/printk.c\<close> and its copy for applications, \<open>src/cm/printf.c\<close>.

  Strings are lists of bytes as they are in memory, terminator and what follows it included; reading behind
  the end of a list is reading memory that nothing is known about, and gives \<open>None\<close>. The arguments are a list; taking
  one that is not there or has another type is undefined and gives \<open>None\<close>. The destination is the bytes stored through it
  so far and the number \<open>size_left\<close>, which goes on counting when the buffer is full; as a 64 bit number it does not wrap
  around in a string that fits in memory, so it is an integer here.
\<close>

section \<open>The functions\<close>

datatype IntTypes = INTEGER | LONGINT | LONGLONGINT | ADDRESS

datatype varg = Arg32 U32 | Arg64 U64 | ArgStr "U8 list"

record sink =
  out :: "U8 list"
  size_left :: int

text \<open>\<open>if (size_left > 1) *dest++ = c; size_left--;\<close> and the same without the test.\<close>

definition put :: "U8 \<Rightarrow> sink \<Rightarrow> sink" where
  "put c d = \<lparr>out = (if size_left d > 1 then out d @ [c] else out d), size_left = size_left d - 1\<rparr>"

definition put_unchecked :: "U8 \<Rightarrow> sink \<Rightarrow> sink" where
  "put_unchecked c d = \<lparr>out = out d @ [c], size_left = size_left d - 1\<rparr>"

text \<open>\<open>"0123456789ABCDEF"\<close> with its terminator.\<close>

definition chars :: "U8 list" where
  "chars = [48, 49, 50, 51, 52, 53, 54, 55, 56, 57, 65, 66, 67, 68, 69, 70, 0]"

text \<open>
  The first loop of \<open>s_itoa\<close> fills the array \<open>output\<close> of 65 bytes; a store outside of it gives \<open>None\<close>, as does the
  division by a base that is zero.
\<close>

function itoa_loop :: "nat \<Rightarrow> U64 \<Rightarrow> U32 \<Rightarrow> U8 list option" where
  "itoa_loop i num base =
     (if i \<ge> 65 \<or> base = 0 then None
      else do {
        c \<leftarrow> nth_opt chars (unat (num mod ucast base));
        rest \<leftarrow> (if num div ucast base > 0 then itoa_loop (i + 1) (num div ucast base) base else Some []);
        Some (c # rest)
      })"
  by pat_completeness auto

termination
  by (relation "measure (\<lambda>(i, num, base). 65 - i)") auto

declare itoa_loop.simps [simp del]

definition s_itoa :: "U64 \<Rightarrow> U32 \<Rightarrow> sink \<Rightarrow> sink option" where
  "s_itoa num base d = do {
     output \<leftarrow> itoa_loop 0 num base;
     Some (fold put (rev output) d)
   }"

definition s_addBaseIdentifier :: "U8 list \<Rightarrow> nat \<Rightarrow> sink \<Rightarrow> sink" where
  "s_addBaseIdentifier iden iden_size d = fold put (takeWhile (\<lambda>c. c \<noteq> 0) (take iden_size iden)) d"

fun s_readint :: "IntTypes \<Rightarrow> varg list \<Rightarrow> (U64 \<times> varg list) option" where
  "s_readint LONGLONGINT (Arg64 v # l) = Some (v, l)"
| "s_readint LONGLONGINT _ = None"
| "s_readint _ (Arg32 v # l) = Some (ucast v, l)"
| "s_readint _ _ = None"

text \<open>
  \<open>s_readtype\<close>, from the character after the percent sign on: the type, the conversion character, the characters
  skipped, and the string from the conversion character on.
\<close>

fun s_readtype :: "IntTypes \<Rightarrow> U8 list \<Rightarrow> (IntTypes \<times> U8 list \<times> U8 list) option" where
  "s_readtype inttype [] = None"
| "s_readtype inttype (c # fmt) =
     (if c = 108 then do { (t, skipped, rest) \<leftarrow> s_readtype (if inttype = INTEGER then LONGINT else LONGLONGINT) fmt;
                           Some (t, c # skipped, rest) }
      else if c = 112 then do { (t, skipped, rest) \<leftarrow> s_readtype ADDRESS fmt; Some (t, c # skipped, rest) }
      else Some (inttype, [], c # fmt))"

text \<open>The characters of a string up to its terminator.\<close>

fun c_string :: "U8 list \<Rightarrow> U8 list option" where
  "c_string [] = None"
| "c_string (c # s) = (if c = 0 then Some [] else do { r \<leftarrow> c_string s; Some (c # r) })"

definition s_convert ::
  "IntTypes \<Rightarrow> U8 \<Rightarrow> varg list \<Rightarrow> sink \<Rightarrow> (bool \<times> varg list \<times> sink) option" where
  "s_convert inttype c l d =
     (let number = (\<lambda>base iden. do {
            (v, l) \<leftarrow> s_readint inttype l;
            d \<leftarrow> s_itoa v base d;
            Some (False, l, s_addBaseIdentifier iden (length iden) d)
          })
      in if c = 117 then number 10 []
      else if c = 104 then number 16 []
      else if c = 120 then number 16 [104]
      else if c = 98 then number 2 [98]
      else if c = 111 then number 8 [111]
      else if c = 115 then
        (case l of ArgStr s # l \<Rightarrow> do { text \<leftarrow> c_string s; Some (False, l, fold put text d) }
         | _ \<Rightarrow> None)
      else if c = 37 then Some (False, l, put_unchecked 37 d)
      else Some (True, l, d))"

text \<open>
  The main loop. A directive that is not known is printed as it stands, its conversion character included, also when that
  is the terminator, after which the loop goes on behind it.
\<close>

lemma s_readtype_length: "s_readtype t fmt = Some (t', skipped, rest) \<Longrightarrow> length rest \<le> length fmt"
  by (induction t fmt arbitrary: t' skipped rule: s_readtype.induct)
    (fastforce simp: bind_eq_Some_conv split: if_splits)+

function vsnprintf_loop :: "U8 list \<Rightarrow> varg list \<Rightarrow> sink \<Rightarrow> sink option" where
  "vsnprintf_loop fmt l d =
     (case fmt of [] \<Rightarrow> None
      | c # fmt' \<Rightarrow>
          if c = 0 then Some d
          else if c = 37 then
            (case s_readtype INTEGER fmt' of None \<Rightarrow> None
             | Some (t, skipped, []) \<Rightarrow> None
             | Some (t, skipped, conv # rest) \<Rightarrow>
                 (case s_convert t conv l d of None \<Rightarrow> None
                  | Some (isliteral, l, d) \<Rightarrow>
                      vsnprintf_loop rest l (if isliteral then fold put (c # skipped @ [conv]) d else d)))
          else vsnprintf_loop fmt' l (put c d))"
  by pat_completeness auto

termination
  by (relation "measure (\<lambda>(fmt, l, d). length fmt)") (auto dest!: s_readtype_length)

declare vsnprintf_loop.simps [simp del]

text \<open>The result is the bytes written at \<open>dest\<close> and the return value.\<close>

definition kearly_vsnprintf :: "U32 \<Rightarrow> U8 list \<Rightarrow> varg list \<Rightarrow> (U8 list \<times> int) option" where
  "kearly_vsnprintf sz fmt l = do {
     d \<leftarrow> vsnprintf_loop fmt l \<lparr>out = [], size_left = uint sz\<rparr>;
     Some (out d @ [0], uint sz - size_left d)
   }"

definition kearly_snprintf :: "U32 \<Rightarrow> U8 list \<Rightarrow> varg list \<Rightarrow> (U8 list \<times> int) option" where
  "kearly_snprintf sz fmt l = kearly_vsnprintf sz fmt l"

definition cm_vsnprintf :: "U32 \<Rightarrow> U8 list \<Rightarrow> varg list \<Rightarrow> (U8 list \<times> int) option" where
  "cm_vsnprintf sz fmt l = do {
     d \<leftarrow> vsnprintf_loop fmt l \<lparr>out = [], size_left = uint sz\<rparr>;
     Some (out d @ [0], uint sz - size_left d)
   }"

definition cm_snprintf :: "U32 \<Rightarrow> U8 list \<Rightarrow> varg list \<Rightarrow> (U8 list \<times> int) option" where
  "cm_snprintf sz fmt l = cm_vsnprintf sz fmt l"

section \<open>The specification\<close>

text \<open>The digits of a number, most significant first, and what a text of digits means.\<close>

fun num_text :: "nat \<Rightarrow> nat \<Rightarrow> U8 list" where
  "num_text base n = (if n < base \<or> base \<le> 1 then [chars ! n] else num_text base (n div base) @ [chars ! (n mod base)])"

declare num_text.simps [simp del]

definition digit_value :: "U8 \<Rightarrow> nat" where
  "digit_value c = (if c \<le> 57 then unat c - 48 else unat c - 55)"

definition text_value :: "nat \<Rightarrow> U8 list \<Rightarrow> nat" where
  "text_value base text = foldl (\<lambda>n c. n * base + digit_value c) 0 text"

text \<open>
  What a format string and its arguments denote, without a bound on the size: each directive stands for a text, and the
  result is their concatenation.
\<close>

definition directive_text :: "IntTypes \<Rightarrow> U8 \<Rightarrow> varg list \<Rightarrow> (U8 list \<times> varg list) option" where
  "directive_text t conv l =
     (let number = (\<lambda>base suffix. map_option (\<lambda>(v, l). (num_text base (unat v) @ suffix, l)) (s_readint t l))
      in if conv = 117 then number 10 [] else if conv = 104 then number 16 [] else if conv = 120 then number 16 [104]
      else if conv = 98 then number 2 [98] else if conv = 111 then number 8 [111]
      else if conv = 115 then
        (case l of ArgStr s # l \<Rightarrow> map_option (\<lambda>text. (text, l)) (c_string s) | _ \<Rightarrow> None)
      else None)"

definition is_conversion :: "U8 \<Rightarrow> bool" where
  "is_conversion c \<longleftrightarrow> c \<in> {117, 104, 120, 98, 111, 115}"

function format_text :: "U8 list \<Rightarrow> varg list \<Rightarrow> U8 list option" where
  "format_text fmt l =
     (case fmt of [] \<Rightarrow> None
      | c # fmt' \<Rightarrow>
          if c = 0 then Some []
          else if c = 37 then
            (case s_readtype INTEGER fmt' of
               Some (t, skipped, conv # rest) \<Rightarrow>
                 if is_conversion conv
                 then (case directive_text t conv l of None \<Rightarrow> None
                       | Some (text, l) \<Rightarrow> map_option (\<lambda>r. text @ r) (format_text rest l))
                 else map_option (\<lambda>r. (if conv = 37 then [37] else c # skipped @ [conv]) @ r) (format_text rest l)
             | _ \<Rightarrow> None)
          else map_option (\<lambda>r. c # r) (format_text fmt' l))"
  by pat_completeness auto

termination
  by (relation "measure (\<lambda>(fmt, l). length fmt)") (auto dest!: s_readtype_length)

declare format_text.simps [simp del]

section \<open>Numbers\<close>

lemma length_chars [simp]: "length chars = 17"
  by (simp add: chars_def)

lemma digit_value_chars:
  assumes "k < 16"
  shows "digit_value (chars ! k) = k"
proof -
  have "\<forall>k \<in> set [0..<16]. digit_value (chars ! k) = k"
    by (simp add: upt_rec chars_def digit_value_def)
  then show ?thesis
    using assms by simp
qed

lemma unat_ucast_64 [simp]: "unat (ucast (b :: U32) :: U64) = unat b"
  by (simp add: unsigned_ucast_eq take_bit_nat_eq_self_iff)
    (rule less_le_trans [OF unat_less_2p32], simp)

text \<open>The loop writes the digits in reverse and stays inside its array, whatever the number.\<close>

lemma itoa_loop_num_text:
  assumes base: "2 \<le> unat base" "unat base \<le> 16"
  shows "unat num < 2 ^ m \<Longrightarrow> i + m \<le> 64 \<Longrightarrow>
    \<exists>out. itoa_loop i num base = Some out \<and> rev out = num_text (unat base) (unat num) \<and> length out \<le> max 1 m"
proof (induction m arbitrary: i num)
  case 0
  then have "num = 0"
    by (simp add: unat_eq_0)
  moreover have "base \<noteq> 0"
    using base(1) by auto
  ultimately show ?case
    using 0 base by (subst itoa_loop.simps) (simp add: nth_opt_def num_text.simps)
next
  case (Suc m)
  let ?q = "num div ucast base"
  have b0: "base \<noteq> 0"
    using base(1) by auto
  have q: "unat ?q = unat num div unat base" and r: "unat (num mod ucast base) = unat num mod unat base"
    by (simp_all add: unat_div unat_mod)
  have "unat num mod unat base < 17"
    using base mod_less_divisor [of "unat base" "unat num"] by linarith
  then have c: "nth_opt chars (unat (num mod ucast base)) = Some (chars ! (unat num mod unat base))"
    by (simp add: nth_opt_def r)
  have pos: "?q > 0 \<longleftrightarrow> unat base \<le> unat num"
    using base by (simp add: word_less_nat_alt q div_greater_zero_iff)
  show ?case
  proof (cases "unat base \<le> unat num")
    case True
    have "unat num div unat base \<le> unat num div 2"
      using base(1) by (rule div_le_mono2 [rotated]) simp
    then have "unat ?q < 2 ^ m"
      using Suc.prems(1) q by simp
    moreover have "m \<noteq> 0"
      using Suc.prems(1) True base(1) by (cases m) auto
    ultimately obtain out where "itoa_loop (i + 1) ?q base = Some out" "rev out = num_text (unat base) (unat ?q)"
        "length out \<le> m"
      using Suc.IH [of ?q "i + 1"] Suc.prems(2) by auto
    then show ?thesis
      using Suc.prems(2) True b0 c pos base(1) q
      by (subst itoa_loop.simps) (simp add: num_text.simps [of "unat base" "unat num"])
  next
    case False
    then show ?thesis
      using Suc.prems(2) b0 c pos by (subst itoa_loop.simps) (simp add: num_text.simps [of "unat base" "unat num"])
  qed
qed

lemma text_value_num_text: "2 \<le> base \<Longrightarrow> base \<le> 16 \<Longrightarrow> text_value base (num_text base n) = n"
proof (induction base n rule: num_text.induct)
  case (1 base n)
  show ?case
  proof (cases "n < base")
    case True
    then show ?thesis
      using 1 digit_value_chars [of n] by (simp add: num_text.simps text_value_def)
  next
    case False
    then have "text_value base (num_text base (n div base)) = n div base" "digit_value (chars ! (n mod base)) = n mod base"
      using 1 digit_value_chars [OF less_le_trans [OF mod_less_divisor, of base 16 n]] by simp_all
    then show ?thesis
      using False 1 by (simp add: num_text.simps [of base n] text_value_def)
  qed
qed

section \<open>The buffer\<close>

text \<open>
  \<open>holds sz text d\<close>: of a buffer with \<open>sz\<close> bytes, \<open>d\<close> is what is left after the text was written to it, cut off where
  the buffer ends.
\<close>

definition holds :: "int \<Rightarrow> U8 list \<Rightarrow> sink \<Rightarrow> bool" where
  "holds sz text d \<longleftrightarrow> out d = take (nat (sz - 1)) text \<and> size_left d = sz - int (length text)"

lemma holds_Nil: "holds sz [] \<lparr>out = [], size_left = sz\<rparr>"
  by (simp add: holds_def)

lemma holds_put: "holds sz text d \<Longrightarrow> holds sz (text @ [c]) (put c d)"
proof -
  assume h: "holds sz text d"
  show ?thesis
  proof (cases "size_left d > 1")
    case True
    then have "nat (sz - 1) \<ge> length (text @ [c])"
      using h by (simp add: holds_def)
    then show ?thesis
      using h True by (simp add: holds_def put_def)
  next
    case False
    then have "nat (sz - 1) \<le> length text"
      using h by (simp add: holds_def)
    then show ?thesis
      using h False by (simp add: holds_def put_def)
  qed
qed

lemma holds_fold: "holds sz tx d \<Longrightarrow> holds sz (tx @ cs) (fold put cs d)"
proof (induction cs arbitrary: tx d)
  case (Cons c cs)
  then show ?case
    using Cons.IH [OF holds_put [OF Cons.prems, of c]] by simp
qed simp

lemma holds_put_unchecked:
  "holds sz text d \<Longrightarrow> int (length text) < sz - 1 \<Longrightarrow> holds sz (text @ [c]) (put_unchecked c d)"
  by (simp add: holds_def put_unchecked_def)

lemma holds_itoa:
  assumes "holds sz text d" "base \<in> {2, 8, 10, 16}"
  shows "\<exists>d'. s_itoa v base d = Some d' \<and> holds sz (text @ num_text (unat base) (unat v)) d'"
proof -
  have "unat v < 2 ^ 64"
    using unsigned_less [of v] by simp
  then obtain out where "itoa_loop 0 v base = Some out" "rev out = num_text (unat base) (unat v)"
    using itoa_loop_num_text [of base v 64 0] assms(2) by auto
  then show ?thesis
    using holds_fold [OF assms(1), of "rev out"] by (simp add: s_itoa_def)
qed

lemma holds_convert:
  assumes "holds sz text d" "is_conversion conv" "directive_text t conv l = Some (piece, l')"
  shows "\<exists>d'. s_convert t conv l d = Some (False, l', d') \<and> holds sz (text @ piece) d'"
proof -
  have number: "\<exists>d'. (do { (v, l) \<leftarrow> s_readint t l; d \<leftarrow> s_itoa v base d;
        Some (False, l, s_addBaseIdentifier iden (length iden) d) }) = Some (False, l', d') \<and> holds sz (text @ piece) d'"
    if h: "map_option (\<lambda>(v, l). (num_text (unat base) (unat v) @ iden, l)) (s_readint t l) = Some (piece, l')"
      "base \<in> {2, 8, 10, 16}" "0 \<notin> set iden" for base iden
  proof -
    obtain v where v: "s_readint t l = Some (v, l')" "piece = num_text (unat base) (unat v) @ iden"
      using h(1) by (cases "s_readint t l") auto
    obtain d1 where d1: "s_itoa v base d = Some d1" "holds sz (text @ num_text (unat base) (unat v)) d1"
      using holds_itoa [OF assms(1) h(2), of v] by auto
    have "takeWhile (\<lambda>c. c \<noteq> 0) iden = iden"
      using h(3) by (auto simp: takeWhile_eq_all_conv)
    then have "s_addBaseIdentifier iden (length iden) d1 = fold put iden d1"
      unfolding s_addBaseIdentifier_def by (simp only: take_all order_refl)
    then show ?thesis
      using v d1 holds_fold [OF d1(2), of iden] by simp
  qed
  consider "conv = 117" | "conv = 104" | "conv = 120" | "conv = 98" | "conv = 111" | (str) "conv = 115"
    using assms(2) by (auto simp: is_conversion_def)
  then show ?thesis
  proof cases
    case str
    then obtain s where "l = ArgStr s # l'" "c_string s = Some piece"
      using assms(3) by (auto simp: directive_text_def split: list.splits varg.splits)
    then show ?thesis
      using str holds_fold [OF assms(1), of piece] by (simp add: s_convert_def)
  qed (use assms(3) number [of 10 "[]"] number [of 16 "[]"] number [of 16 "[104]"] number [of 2 "[98]"]
        number [of 8 "[111]"] in \<open>simp_all add: s_convert_def directive_text_def Let_def\<close>)
qed

text \<open>A double percent sign is safe only before the buffer is full.\<close>

fun percents_fit :: "int \<Rightarrow> U8 list \<Rightarrow> bool" where
  "percents_fit sz tx \<longleftrightarrow> int (length tx) < sz \<or> 37 \<notin> set tx"

lemmas format_text_Cons = format_text.simps [of "c # fmt" for c fmt, simplified]
lemmas vsnprintf_loop_Cons = vsnprintf_loop.simps [of "c # fmt" for c fmt, simplified]

lemma vsnprintf_loop_holds:
  "holds sz tx d \<Longrightarrow> format_text fmt l = Some new \<Longrightarrow> percents_fit sz (tx @ new) \<Longrightarrow>
   \<exists>d'. vsnprintf_loop fmt l d = Some d' \<and> holds sz (tx @ new) d'"
proof (induction fmt l arbitrary: tx d new rule: format_text.induct)
  case (1 fmt l)
  obtain c fmt' where fmt: "fmt = c # fmt'"
    using "1.prems"(2) by (subst (asm) format_text.simps) (auto split: list.splits)
  consider (stop) "c = 0" | (directive) "c \<noteq> 0" "c = 37" | (plain) "c \<noteq> 0" "c \<noteq> 37"
    by blast
  then show ?case
  proof cases
    case stop
    then show ?thesis
      using "1.prems" fmt by (simp add: format_text_Cons vsnprintf_loop_Cons)
  next
    case plain
    then obtain r where r: "format_text fmt' l = Some r" "new = c # r"
      using "1.prems"(2) fmt by (auto simp: format_text_Cons)
    then show ?thesis
      using "1.IH"(3) [OF fmt plain(1,2) holds_put [OF "1.prems"(1), of c] r(1)] "1.prems"(3) plain fmt
      by (simp add: vsnprintf_loop_Cons)
  next
    case directive
    obtain t skipped conv rest where ty: "s_readtype INTEGER fmt' = Some (t, skipped, conv # rest)"
      using "1.prems"(2) fmt directive by (auto simp: format_text_Cons split: option.splits list.splits)
    show ?thesis
    proof (cases "is_conversion conv")
      case True
      then obtain piece l' r where p: "directive_text t conv l = Some (piece, l')" "format_text rest l' = Some r"
          "new = piece @ r"
        using "1.prems"(2) fmt directive ty by (auto simp: format_text_Cons split: option.splits)
      obtain d1 where d1: "s_convert t conv l d = Some (False, l', d1)" "holds sz (tx @ piece) d1"
        using holds_convert [OF "1.prems"(1) True p(1)] by auto
      then show ?thesis
        using "1.IH"(1) [OF fmt directive ty _ refl refl True p(1) refl d1(2) p(2)] "1.prems"(3) p(3) fmt directive ty
        by (simp add: vsnprintf_loop_Cons)
    next
      case False
      then obtain r where p: "format_text rest l = Some r"
          "new = (if conv = 37 then [37] else c # skipped @ [conv]) @ r"
        using "1.prems"(2) fmt directive ty by (auto simp: format_text_Cons)
      let ?lit = "if conv = 37 then [37] else c # skipped @ [conv]"
      define d1 where "d1 = (if conv = 37 then put_unchecked 37 d else fold put ?lit d)"
      have d1: "holds sz (tx @ ?lit) d1"
        using "1.prems"(1,3) p(2) holds_put_unchecked [of sz tx d 37] holds_fold [of sz tx d ?lit]
        by (auto simp: d1_def)
      have "s_convert t conv l d = Some (conv \<noteq> 37, l, if conv = 37 then put_unchecked 37 d else d)"
        using False by (auto simp: s_convert_def is_conversion_def Let_def)
      then show ?thesis
        using "1.IH"(2) [OF fmt directive ty _ refl refl False d1 p(1)] "1.prems"(3) p(2) fmt directive ty
        by (simp add: vsnprintf_loop_Cons d1_def split: if_splits)
    qed
  qed
qed

section \<open>Properties\<close>

text \<open>
  C28. \<open>kearly_vsnprintf\<close> formats as documented. Let \<open>tx\<close> be what the format string and the arguments denote. The function
  returns, writes the first \<open>sz - 1\<close> characters of \<open>tx\<close> and a terminator, so never more than the buffer holds, and
  returns the length of \<open>tx\<close> whether it was cut off or not. This needs a buffer of at least one byte, and for a
  text with a percent sign one that holds all of it.
\<close>

theorem kearly_vsnprintf_correct:
  assumes "0 < sz" "format_text fmt l = Some tx" "length tx < unat sz \<or> 37 \<notin> set tx"
  shows "kearly_vsnprintf sz fmt l = Some (take (unat sz - 1) tx @ [0], int (length tx))"
proof -
  have u: "uint sz = int (unat sz)"
    by simp
  have "percents_fit (uint sz) ([] @ tx)"
    using assms(3) by (auto simp: u simp del: of_nat_unat)
  then obtain d where "vsnprintf_loop fmt l \<lparr>out = [], size_left = uint sz\<rparr> = Some d" "holds (uint sz) tx d"
    using vsnprintf_loop_holds [OF holds_Nil assms(2), of "uint sz"] by auto
  moreover have "nat (uint sz - 1) = unat sz - 1"
    unfolding u by linarith
  ultimately show ?thesis
    by (simp add: kearly_vsnprintf_def holds_def)
qed

theorem kearly_vsnprintf_correct_witness:
  "kearly_vsnprintf 4 [120, 61, 37, 117, 46, 0] [Arg32 205] = Some ([120, 61, 50, 0], 6)"
proof -
  have "format_text [120, 61, 37, 117, 46, 0] [Arg32 205] = Some [120, 61, 50, 48, 53, 46]"
    by (simp add: format_text_Cons is_conversion_def directive_text_def Let_def num_text.simps [of 10 205]
        num_text.simps [of 10 20] num_text.simps [of 10 2] chars_def)
  then show ?thesis
    using kearly_vsnprintf_correct [of 4 "[120, 61, 37, 117, 46, 0]" "[Arg32 205]"] by simp
qed

text \<open>
  Numbers survive printing. In every base from 2 to 16 the conversion of a 64 bit number ends within the array of 65 bytes
  it uses, and reading the digits, most significant first, gives the number back.
\<close>

theorem s_itoa_roundtrip:
  assumes "2 \<le> base" "base \<le> 16"
  shows "\<exists>digits. itoa_loop 0 num base = Some digits \<and> length digits \<le> 64
    \<and> text_value (unat base) (rev digits) = unat num
    \<and> s_itoa num base d = Some (fold put (rev digits) d)"
proof -
  have b: "2 \<le> unat base" "unat base \<le> 16"
    using assms by (simp_all add: word_le_nat_alt)
  have "unat num < 2 ^ 64"
    using unsigned_less [of num] by simp
  then obtain out where "itoa_loop 0 num base = Some out" "rev out = num_text (unat base) (unat num)" "length out \<le> 64"
    using itoa_loop_num_text [OF b, of num 64 0] by auto
  then show ?thesis
    using text_value_num_text [OF b, of "unat num"] by (simp add: s_itoa_def)
qed

theorem s_itoa_roundtrip_witness:
  "\<exists>digits. itoa_loop 0 205 16 = Some digits \<and> length digits \<le> 64 \<and> text_value 16 (rev digits) = 205"
  using s_itoa_roundtrip [of 16 205] by auto

text \<open>
  Two percent signs are not bounded by the size of the buffer: with a buffer of one byte, two bytes are written.
\<close>

theorem kearly_vsnprintf_percent_overflow:
  "\<exists>bytes. kearly_vsnprintf 1 [37, 37, 0] [] = Some (bytes, 1) \<and> length bytes = 2"
  by (simp add: kearly_vsnprintf_def vsnprintf_loop_Cons s_convert_def put_unchecked_def Let_def)

text \<open>
  A format string that ends in a percent sign is not the end of the output: the terminator is printed as a
  character and the loop goes on with the memory behind it.
\<close>

theorem kearly_vsnprintf_trailing_percent:
  "vsnprintf_loop (37 # 0 # rest) l d = vsnprintf_loop rest l (put 0 (put 37 d))"
  by (simp add: vsnprintf_loop_Cons s_convert_def Let_def)

end
