(* ===== verification/Syscalls.thy ===== *)
theory Syscalls
  imports Compositor Printk
begin

text \<open>
  The system calls: \<open>src/kernel/x86/syscalls.c\<close>, with \<open>kearly_printf\<close> of \<open>src/kernel/printk.c\<close> and the structures of
  \<open>include/cm/osif.h\<close>.

  The handlers get the frame the dispatcher builds and the registers \<open>ebx\<close>, \<open>ecx\<close>, \<open>edx\<close>, \<open>esi\<close> and \<open>edi\<close> as
  their arguments. A handler that returns nothing leaves an unknown value in \<open>eax\<close>; of a Boolean result only the low byte \<open>al\<close> is
  defined, so that results keep the type they have in the code; one that switches to another process
  does not return to its caller. Pointers the caller passes are followed through the page directory that is loaded, and none is
  checked. \<open>gx\<close> is the size of a pixel in bytes, fixed by the build.
\<close>

section \<open>Frames and results\<close>

record SystemcallFrame =
  f_ebp :: U32
  f_eip :: U32
  f_cs :: U32
  f_eflags :: U32
  f_esp :: U32
  f_ss :: U32

record syscall_args =
  a_ebx :: U32
  a_ecx :: U32
  a_edx :: U32
  a_esi :: U32
  a_edi :: U32

datatype sysresult = SysReturn U32 | SysBool bool | SysVoid | SysSwitch UINT ProcessRegisterState

fun switch_result :: "switch \<Rightarrow> sysresult" where
  "switch_result (SwitchReturn b) = SysVoid"
| "switch_result (SwitchJump flags regs) = SysSwitch flags regs"

text \<open>The numbers of the error codes.\<close>

fun error_code :: "KernelErrorCodes \<Rightarrow> UINT" where
  "error_code ERR_NONE = 0"
| "error_code ERR_UNKNOWN = 1"
| "error_code ERR_INVALID_RANGE = 2"
| "error_code ERR_OVERFLOW = 3"
| "error_code ERR_OUT_OF_MEM = 4"
| "error_code ERR_DOUBLE_FREE = 5"
| "error_code ERR_DOUBLE_ALLOC = 6"
| "error_code ERR_WRONG_ALIGNMENT = 7"
| "error_code ERR_OUTSIDE_ADDRESSABLE_RANGE = 8"
| "error_code ERR_INVALID_ARGUMENT = 9"
| "error_code ERR_PAGE_WRONG_STATE = 10"
| "error_code ERR_SCHEDULER_QUEUE_FULL = 11"
| "error_code ERR_QUEUE_EMPTY = 12"
| "error_code ERR_VMM_NOT_ALLOCATED = 13"
| "error_code ERR_VMM_OVERLAPING_VAS = 14"
| "error_code ERR_VMM_NULL_PAGE_ACCESS = 15"
| "error_code ERR_PROC_EXIT_NOT_ALLOWED = 16"
| "error_code ERR_DEVICE_INIT_FAILED = 17"
| "error_code ERR_DEVICE_NOT_READY = 18"
| "error_code ERR_TIMEOUT = 19"
| "error_code ERR_INVALID_HANDLE = 20"
| "error_code ERR_INVALID_SYSCALL = 21"
| "error_code ERR_PROC_CREATE_NOT_ALLOWED = 22"

section \<open>The memory of the caller\<close>

text \<open>The bytes of a string, its terminator included.\<close>

partial_function (option) read_string :: "memory \<Rightarrow> PTR \<Rightarrow> U8 list option" where
  "read_string m a = (if m a = 0 then Some [0] else do { s \<leftarrow> read_string m (a + 1); Some (m a # s) })"

declare read_string.simps [code]

definition store16 :: "PTR \<Rightarrow> U16 \<Rightarrow> memory \<Rightarrow> memory" where
  "store16 a w m = m(a := ucast w, a + 1 := ucast (drop_bit 8 w))"

text \<open>The fields of the structures are stored at their offsets.\<close>

definition store_event :: "PTR \<Rightarrow> KProcessEvent \<Rightarrow> memory \<Rightarrow> memory" where
  "store_event e ev m =
     store32 (e + 8) (ucast (drop_bit 32 (ev_data ev))) (store32 (e + 4) (ucast (ev_data ev)) (store32 e (ev_event ev) m))"

definition store_area :: "PTR \<Rightarrow> KGraphicsArea \<Rightarrow> memory \<Rightarrow> memory" where
  "store_area p wa m =
     (let m = store32 (p + 16) (buffer wa) m;
          m = store32 (p + 20) (bufferSizeBytes wa) m;
          m = store32 p (width_px wa) m;
          m = store32 (p + 4) (height_px wa) m;
          m = store32 (p + 8) (bytesPerPixel wa) m
      in store32 (p + 12) (bytesPerRow wa) m)"

definition HIGHER_HALF_KERNEL_TO_VA :: "Physical \<Rightarrow> PTR" where
  "HIGHER_HALF_KERNEL_TO_VA a = 0xC0000000 + a"

definition HIGHER_HALF_KERNEL_TO_PA :: "PTR \<Rightarrow> Physical" where
  "HIGHER_HALF_KERNEL_TO_PA va = va - 0xC0000000"

section \<open>Printing\<close>

definition MAX_PRINTABLE_STRING_LENGTH :: UINT where
  "MAX_PRINTABLE_STRING_LENGTH = VGA_COLUMNS * VGA_ROWS"

text \<open>In builds with graphics the text is formatted and then dropped.\<close>

definition kearly_printf :: "U8 list \<Rightarrow> varg list \<Rightarrow> 'a vga_state_scheme \<Rightarrow> (int \<times> 'a vga_state_scheme) option" where
  "kearly_printf fmt l st = do {
     (text, len) \<leftarrow> kearly_vsnprintf MAX_PRINTABLE_STRING_LENGTH fmt l;
     if graphics_enabled st then Some (len, st)
     else do {
       KERNEL_PHASE_VALIDATE TEXTDISP_READY st;
       Some (len, s_prnstr text st)
     }
   }"

text \<open>The conversion that takes the first argument of a format.\<close>

function first_conversion :: "U8 list \<Rightarrow> U8 option" where
  "first_conversion fmt =
     (case fmt of [] \<Rightarrow> None
      | c # fmt' \<Rightarrow>
          if c = 0 then None
          else if c = 37 then
            (case s_readtype INTEGER fmt' of None \<Rightarrow> None
             | Some (t, skipped, []) \<Rightarrow> None
             | Some (t, skipped, conv # rest) \<Rightarrow>
                 if conv \<in> {117, 104, 120, 98, 111, 115} then Some conv else first_conversion rest)
          else first_conversion fmt')"
  by pat_completeness auto

termination
  by (relation "measure length") (auto dest!: s_readtype_length)

declare first_conversion.simps [simp del]

text \<open>The argument behind the format is a pointer to a string exactly when the format reads it as one.\<close>

definition writeln_arg :: "U8 list \<Rightarrow> U32 \<Rightarrow> memory \<Rightarrow> varg option" where
  "writeln_arg fmt text m =
     (if first_conversion fmt = Some 115 then map_option ArgStr (read_string m text) else Some (Arg32 text))"

section \<open>The handlers\<close>

definition s_handleInvalidSystemCall :: "'a win_state_scheme \<Rightarrow> (sysresult \<times> 'a win_state_scheme) option" where
  "s_handleInvalidSystemCall st = RETURN_ERROR ERR_INVALID_SYSCALL (SysReturn KERNEL_EXIT_FAILURE) st"

definition ksys_test :: "'a win_state_scheme \<Rightarrow> (sysresult \<times> 'a win_state_scheme) option" where
  "ksys_test st = Some (SysVoid, st)"

definition ksys_console_writeln :: "PTR \<Rightarrow> PTR \<Rightarrow> 'a win_state_scheme \<Rightarrow> (sysresult \<times> 'a win_state_scheme) option" where
  "ksys_console_writeln fmt text st = do {
     f \<leftarrow> read_string (view st) fmt;
     a \<leftarrow> writeln_arg f text (view st);
     (_, st) \<leftarrow> kearly_printf f [a] st;
     Some (SysVoid, st)
   }"

definition k_dispAttr :: "U8 \<Rightarrow> U8 \<Rightarrow> U8 \<Rightarrow> UINT" where
  "k_dispAttr bg fg b = push_bit 7 (ucast b) OR push_bit 4 (ucast bg) OR ucast fg"

definition ksys_console_setcolor :: "U8 \<Rightarrow> U8 \<Rightarrow> 'a win_state_scheme \<Rightarrow> (sysresult \<times> 'a win_state_scheme) option" where
  "ksys_console_setcolor bg fg st = do {
     (_, st) \<leftarrow> kdisp_ioctl (DISP_SETATTR (k_dispAttr bg fg 0)) st;
     Some (SysVoid, st)
   }"

definition ksys_console_setposition :: "U8 \<Rightarrow> U8 \<Rightarrow> 'a win_state_scheme \<Rightarrow> (sysresult \<times> 'a win_state_scheme) option" where
  "ksys_console_setposition row col st = do {
     (_, st) \<leftarrow> kdisp_ioctl (DISP_SETCOORDS (ucast row) (ucast col)) st;
     Some (SysVoid, st)
   }"

definition ksys_createProcess :: "PTR \<Rightarrow> SIZE \<Rightarrow> UINT \<Rightarrow> 'a win_state_scheme \<Rightarrow> (sysresult \<times> 'a win_state_scheme) option" where
  "ksys_createProcess processStartAddress binLengthBytes flags st = do {
     (pid, st) \<leftarrow> kprocess_create processStartAddress binLengthBytes flags st;
     Some (SysReturn pid, st)
   }"

text \<open>The registers of the caller that are kept for it.\<close>

definition caller_registers :: "SystemcallFrame \<Rightarrow> syscall_args \<Rightarrow> ProcessRegisterState" where
  "caller_registers frame a =
     \<lparr>r_ebx = a_ebx a, r_esi = a_esi a, r_edi = a_edi a, r_esp = f_esp frame, r_ebp = f_ebp frame, r_eip = f_eip frame,
      r_eflags = f_eflags frame, r_cs = f_cs frame, r_ds = f_ss frame\<rparr>"

definition ksys_yieldProcess :: "SystemcallFrame \<Rightarrow> syscall_args \<Rightarrow> 'a win_state_scheme \<Rightarrow> (sysresult \<times> 'a win_state_scheme) option" where
  "ksys_yieldProcess frame a st = do {
     (r, st) \<leftarrow> kprocess_yield (Some (caller_registers frame a)) st;
     Some (switch_result r, st)
   }"

fun exit_sysresult :: "exit_result \<Rightarrow> sysresult" where
  "exit_sysresult ExitUndefined = SysVoid"
| "exit_sysresult (ExitYield r) = switch_result r"

definition ksys_killProcess :: "UINT \<Rightarrow> 'a win_state_scheme \<Rightarrow> (sysresult \<times> 'a win_state_scheme) option" where
  "ksys_killProcess exitCode st = do {
     (r, st) \<leftarrow> kprocess_exit (ucast exitCode) False st;
     Some (exit_sysresult r, st)
   }"

definition ksys_abortProcess :: "UINT \<Rightarrow> 'a win_state_scheme \<Rightarrow> (sysresult \<times> 'a win_state_scheme) option" where
  "ksys_abortProcess exitCode st = do {
     (r, st) \<leftarrow> kprocess_exit (ucast exitCode) True st;
     Some (exit_sysresult r, st)
   }"

definition ksys_process_getPID :: "'a win_state_scheme \<Rightarrow> (sysresult \<times> 'a win_state_scheme) option" where
  "ksys_process_getPID st = Some (SysReturn (kprocess_getCurrentPID st), st)"

definition ksys_process_getDataMemoryStart :: "'a win_state_scheme \<Rightarrow> (sysresult \<times> 'a win_state_scheme) option" where
  "ksys_process_getDataMemoryStart st =
     Some (SysReturn (case kprocess_getCurrentProcessDataSection st of None \<Rightarrow> 0 | Some s \<Rightarrow> virtualMemoryStart s), st)"

definition ksys_processPopEvent :: "PTR \<Rightarrow> 'a win_state_scheme \<Rightarrow> (sysresult \<times> 'a win_state_scheme) option" where
  "ksys_processPopEvent e st = do {
     ((ok, ke), st) \<leftarrow> kprocess_popEvent (kprocess_getCurrentPID st) st;
     if \<not> ok then RETURN_ERROR (errorNumber st) (SysBool False) st
     else Some (SysBool True, set_view (store_event e ke (view st)) st)
   }"

definition ksys_get_tickcount :: "'a win_state_scheme \<Rightarrow> (sysresult \<times> 'a win_state_scheme) option" where
  "ksys_get_tickcount st = Some (SysReturn (tick_count st), st)"

definition sys_get_os_error :: "'a win_state_scheme \<Rightarrow> (sysresult \<times> 'a win_state_scheme) option" where
  "sys_get_os_error st = Some (SysReturn (error_code (errorNumber st)), st)"

definition ksys_window_createWindow :: "nat \<Rightarrow> PTR \<Rightarrow> 'a win_state_scheme \<Rightarrow> (sysresult \<times> 'a win_state_scheme) option" where
  "ksys_window_createWindow gx winTitle st = do {
     title \<leftarrow> read_string (view st) winTitle;
     (win, st) \<leftarrow> kcompose_createWindow gx title st;
     if win = 0 then RETURN_ERROR (errorNumber st) (SysReturn INVALID_HANDLE) st
     else do {
       (newh, st) \<leftarrow> khandle_createHandle win st;
       if newh = KERNEL_EXIT_FAILURE then do {
         (_, st) \<leftarrow> kcompose_destroyWindow win st;
         RETURN_ERROR (errorNumber st) (SysReturn INVALID_HANDLE) st
       }
       else Some (SysReturn newh, st)
     }
   }"

text \<open>The function returns a Boolean, and \<open>INVALID_HANDLE\<close> is true as a Boolean.\<close>

definition ksys_window_destoryWindow :: "UINT \<Rightarrow> 'a win_state_scheme \<Rightarrow> (sysresult \<times> 'a win_state_scheme) option" where
  "ksys_window_destoryWindow h st = do {
     (win, st) \<leftarrow> khandle_getObject h st;
     if win = 0 then RETURN_ERROR (errorNumber st) (SysBool (INVALID_HANDLE \<noteq> 0)) st
     else do {
       (r, st) \<leftarrow> kcompose_destroyWindow win st;
       Some (SysBool r, st)
     }
   }"

definition ksys_getWindowFB :: "UINT \<Rightarrow> PTR \<Rightarrow> 'a win_state_scheme \<Rightarrow> (sysresult \<times> 'a win_state_scheme) option" where
  "ksys_getWindowFB h wfb st = do {
     (win, st) \<leftarrow> khandle_getObject h st;
     if win = 0 then RETURN_ERROR (errorNumber st) (SysBool False) st
     else Some (SysBool True, set_view (store_area wfb (workingArea (windows st win)) (view st)) st)
   }"

definition ksys_window_graphics_flush_all :: "nat \<Rightarrow> 'a win_state_scheme \<Rightarrow> (sysresult \<times> 'a win_state_scheme) option" where
  "ksys_window_graphics_flush_all gx st = do {
     st \<leftarrow> kcompose_flush gx st;
     Some (SysVoid, st)
   }"

definition ksys_find_bootloaded_file :: "PTR \<Rightarrow> PTR \<Rightarrow> 'a win_state_scheme \<Rightarrow> (sysresult \<times> 'a win_state_scheme) option" where
  "ksys_find_bootloaded_file filename file st = do {
     name \<leftarrow> read_string (view st) filename;
     fileinfo \<leftarrow> kboot_findBootFileItem (boot st) name;
     let m = store16 (file + 4) (file_length fileinfo) (view st)
     in Some (SysVoid, set_view (store32 file (HIGHER_HALF_KERNEL_TO_VA (startLocation fileinfo)) m) st)
   }"

section \<open>The dispatcher\<close>

type_synonym 'a handler = "SystemcallFrame \<Rightarrow> syscall_args \<Rightarrow> 'a win_state_scheme \<Rightarrow> (sysresult \<times> 'a win_state_scheme) option"

text \<open>The table of a build with or without graphics, both with debugging.\<close>

definition g_syscall_table :: "bool \<Rightarrow> nat \<Rightarrow> 'a handler list" where
  "g_syscall_table graphics gx =
    [\<lambda>f a. ksys_console_writeln (a_ebx a) (a_ecx a),
     \<lambda>f a. ksys_createProcess (a_ebx a) (a_ecx a) (a_edx a),
     ksys_yieldProcess,
     \<lambda>f a. ksys_killProcess (a_ebx a)] @
    (if graphics then [\<lambda>f a. s_handleInvalidSystemCall, \<lambda>f a. s_handleInvalidSystemCall]
     else [\<lambda>f a. ksys_console_setcolor (ucast (a_ebx a)) (ucast (a_ecx a)),
           \<lambda>f a. ksys_console_setposition (ucast (a_ebx a)) (ucast (a_ecx a))]) @
    [\<lambda>f a. ksys_processPopEvent (a_ebx a),
     \<lambda>f a. ksys_process_getPID,
     \<lambda>f a. ksys_get_tickcount,
     \<lambda>f a. ksys_process_getDataMemoryStart] @
    (if graphics
     then [\<lambda>f a. ksys_window_createWindow gx (a_ebx a),
           \<lambda>f a. ksys_window_destoryWindow (a_ebx a),
           \<lambda>f a. ksys_getWindowFB (a_ebx a) (a_ecx a),
           \<lambda>f a. ksys_window_graphics_flush_all gx]
     else [\<lambda>f a. s_handleInvalidSystemCall, \<lambda>f a. s_handleInvalidSystemCall,
           \<lambda>f a. s_handleInvalidSystemCall, \<lambda>f a. s_handleInvalidSystemCall]) @
    [\<lambda>f a. sys_get_os_error,
     \<lambda>f a. ksys_find_bootloaded_file (a_ebx a) (a_ecx a),
     \<lambda>f a. ksys_abortProcess (a_ebx a),
     \<lambda>f a. ksys_test]"

definition s_getSysCallCount :: U32 where "s_getSysCallCount = 18"

text \<open>
  The frame. The processor pushes the stack of the caller only when it changes the privilege level; for a caller in the
  kernel the dispatcher fills in the data segment of the kernel and the stack pointer behind the interrupt frame, which starts
  at the address \<open>ebp\<close>.
\<close>

definition make_frame :: "SystemcallFrame \<Rightarrow> PTR \<Rightarrow> U32 \<Rightarrow> SystemcallFrame" where
  "make_frame pushed ebp ss =
     (if f_cs pushed AND 3 \<noteq> 0 then pushed else pushed\<lparr>f_ss := ss, f_esp := ebp + 4 + 12\<rparr>)"

definition syscall_asm_despatcher ::
  "nat \<Rightarrow> U32 \<Rightarrow> SystemcallFrame \<Rightarrow> PTR \<Rightarrow> U32 \<Rightarrow> syscall_args \<Rightarrow> 'a win_state_scheme \<Rightarrow> (sysresult \<times> 'a win_state_scheme) option" where
  "syscall_asm_despatcher gx eax pushed ebp ss a st =
     (if eax \<ge> s_getSysCallCount then s_handleInvalidSystemCall st
      else (g_syscall_table (graphics_enabled st) gx ! unat eax) (make_frame pushed ebp ss) a st)"

end
