(* ===== verification/Syscall_Facts.thy ===== *)
theory Syscall_Facts
  imports Syscalls
begin

text \<open>
  What the system calls promise: which numbers are refused, that a process that yields is resumed where it was, how events
  reach the caller, and what a handle of a destroyed window still gives.
\<close>

section \<open>Refused numbers\<close>

definition refused :: "bool \<Rightarrow> U32 \<Rightarrow> bool" where
  "refused graphics n \<longleftrightarrow> n \<ge> 18 \<or> (if graphics then n \<in> {4, 5} else n \<in> {10, 11, 12, 13})"

lemma length_syscall_table [simp]: "length (g_syscall_table graphics gx) = unat s_getSysCallCount"
  by (simp add: g_syscall_table_def s_getSysCallCount_def)

text \<open>
  System call numbers outside of the table, and those of calls the build does not have, are refused: the caller gets -1, the last
  error is the one for an invalid system call and nothing else changes, so that the call that asks for the last error then
  returns 21.
\<close>

theorem syscall_refused:
  assumes "refused (graphics_enabled st) n"
  shows "\<exists>st'. syscall_asm_despatcher gx n pushed ebp ss a st = Some (SysReturn (-1), st') \<and>
    st' = st\<lparr>errorNumber := ERR_INVALID_SYSCALL\<rparr> \<and>
    syscall_asm_despatcher gx 14 pushed' ebp' ss' a' st' = Some (SysReturn 21, st')"
  using assms
  by (auto simp: refused_def syscall_asm_despatcher_def s_getSysCallCount_def g_syscall_table_def s_handleInvalidSystemCall_def
      RETURN_ERROR_def KERNEL_EXIT_FAILURE_def sys_get_os_error_def nth_append split: if_splits)

section \<open>Yielding\<close>

text \<open>One yield of the running process, as the specification of the scheduler has it.\<close>

lemma yield_step:
  assumes "sched_ok st" "currentProcess st \<noteq> 0"
  obtains r st' where "kprocess_yield (Some regs) st = Some (r, st')" "sched_ok st'" "currentProcess st' \<noteq> 0"
    "(currentProcess st', sched_queue st') = rr_next (currentProcess st) (sched_queue st)"
    "\<And>p. p \<in> set (sched_queue st) \<Longrightarrow> p \<in> set (sched_queue st')
       \<and> saved_registers st' p = (if p = currentProcess st \<and> currentProcess st' \<noteq> p then regs else saved_registers st p)"
    "currentProcess st' \<noteq> currentProcess st \<Longrightarrow>
       r = SwitchJump (p_flags (pinfos st (currentProcess st'))) (saved_registers st (currentProcess st'))"
proof -
  obtain r st' where y: "kprocess_yield (Some regs) st = Some (r, st')" "sched_ok st'" "currentProcess st' \<noteq> 0"
      and abs: "sched_abs st' = snd (rr_yield (Some regs) (sched_abs st))"
      and res: "case fst (rr_yield (Some regs) (sched_abs st)) of None \<Rightarrow> r = SwitchReturn True
        | Some v \<Rightarrow> r = SwitchJump (p_flags (pinfos st (currentProcess st'))) v
           \<and> cr3 st' = entry_frame (directory_of st (currentProcess st'))"
    using yield_refines [OF assms(1), of "Some regs"] assms(2) by auto
  obtain n qs where n: "rr_next (currentProcess st) (sched_queue st) = (n, qs)"
    by (cases "rr_next (currentProcess st) (sched_queue st)")
  have ne: "sched_queue st \<noteq> []"
    using assms(1) by (simp add: sched_ok_def)
  note perm = rr_next_perm [OF ne n]
  have eqs: "currentProcess st' = n" "sched_queue st' = qs"
    using abs n by (auto simp: rr_yield_def sched_abs_def split: if_splits)
  have saved: "saved_registers st' p = (if p = currentProcess st \<and> n \<noteq> p then regs else saved_registers st p)"
    if "p \<in> set (sched_queue st)" for p
  proof -
    have "Some (saved_registers st' p) = rr_saved (sched_abs st') p"
      using that perm eqs by (simp add: sched_abs_def)
    also have "\<dots> = rr_saved (snd (rr_yield (Some regs) (sched_abs st))) p"
      by (simp only: abs)
    also have "\<dots> = Some (if p = currentProcess st \<and> n \<noteq> p then regs else saved_registers st p)"
      using that n assms(2) by (auto simp: rr_yield_def sched_abs_def)
    finally show ?thesis by simp
  qed
  show ?thesis
  proof (rule that [OF y])
    show "(currentProcess st', sched_queue st') = rr_next (currentProcess st) (sched_queue st)"
      using eqs n by simp
    show "p \<in> set (sched_queue st') \<and> saved_registers st' p = (if p = currentProcess st \<and> currentProcess st' \<noteq> p then regs else saved_registers st p)"
      if "p \<in> set (sched_queue st)" for p
      using saved [OF that] that eqs perm by simp
    show "r = SwitchJump (p_flags (pinfos st (currentProcess st'))) (saved_registers st (currentProcess st'))"
      if "currentProcess st' \<noteq> currentProcess st"
      using res that eqs n perm(3) by (auto simp: rr_yield_def sched_abs_def split: if_splits)
  qed
qed

text \<open>While a process does not run, the yields of the others leave its registers alone.\<close>

lemma yields_keep:
  assumes "sched_ok st" "currentProcess st \<noteq> 0" "p \<in> set (sched_queue st)" "k \<le> length rs"
    and "\<And>j. j \<le> k \<Longrightarrow> rr_rounds j (currentProcess st) (sched_queue st) \<noteq> p"
  shows "\<exists>st'. yields (take k rs) st = Some st' \<and> sched_ok st' \<and> currentProcess st' \<noteq> 0 \<and> currentProcess st' \<noteq> p
    \<and> p \<in> set (sched_queue st') \<and> saved_registers st' p = saved_registers st p
    \<and> (\<forall>i. rr_rounds i (currentProcess st') (sched_queue st') = rr_rounds (k + i) (currentProcess st) (sched_queue st))"
  using assms
proof (induction k arbitrary: st rs)
  case 0
  then show ?case
    using "0.prems"(5) [of 0] by simp
next
  case (Suc k)
  obtain regs rs' where rs: "rs = regs # rs'"
    using Suc.prems(4) by (cases rs) auto
  obtain r st1 where y: "kprocess_yield (Some regs) st = Some (r, st1)" "sched_ok st1" "currentProcess st1 \<noteq> 0"
      and nx: "(currentProcess st1, sched_queue st1) = rr_next (currentProcess st) (sched_queue st)"
      and keep: "p \<in> set (sched_queue st1)" "saved_registers st1 p = saved_registers st p"
    using yield_step [OF Suc.prems(1,2), of regs] Suc.prems(3) Suc.prems(5) [of 0]
    by (metis le0 rr_rounds.simps(1))
  have step: "rr_rounds (Suc j) (currentProcess st) (sched_queue st) = rr_rounds j (currentProcess st1) (sched_queue st1)" for j
    using nx by (auto simp: nx [symmetric])
  have "rr_rounds j (currentProcess st1) (sched_queue st1) \<noteq> p" if "j \<le> k" for j
    using Suc.prems(5) [of "Suc j"] that step by simp
  then obtain st' where st': "yields (take k rs') st1 = Some st' \<and> sched_ok st' \<and> currentProcess st' \<noteq> 0 \<and> currentProcess st' \<noteq> p
    \<and> p \<in> set (sched_queue st') \<and> saved_registers st' p = saved_registers st1 p
    \<and> (\<forall>i. rr_rounds i (currentProcess st') (sched_queue st') = rr_rounds (k + i) (currentProcess st1) (sched_queue st1))"
    using Suc.IH [OF y(2,3) keep(1), of rs'] Suc.prems(4) rs by auto
  have "rr_rounds (Suc k + i) (currentProcess st) (sched_queue st) = rr_rounds (k + i) (currentProcess st1) (sched_queue st1)" for i
    using step [of "k + i"] by simp
  then show ?case
    using st' y(1) rs keep by auto
qed

lemma rr_rounds_one: "rr_rounds (Suc 0) c ps = fst (rr_next c ps)"
  by (simp add: split_def)

text \<open>A process that waits is resumed with the registers that were saved for it.\<close>

lemma waiting_resumed:
  assumes "sched_ok st" "currentProcess st \<noteq> 0" "p \<in> set (sched_queue st)" "p \<noteq> currentProcess st"
    and "length rs = length (sched_queue st)"
  shows "\<exists>k < length rs. \<exists>st' st'' flags. yields (take k rs) st = Some st' \<and> currentProcess st' \<noteq> p
    \<and> kprocess_yield (Some (rs ! k)) st' = Some (SwitchJump flags (saved_registers st p), st'') \<and> currentProcess st'' = p"
proof -
  let ?r = "\<lambda>j. rr_rounds j (currentProcess st) (sched_queue st)"
  obtain i where i: "i < length (sched_queue st)" "sched_queue st ! i = p"
    using assms(3) by (auto simp: in_set_conv_nth)
  have "distinct (sched_queue st)"
    using assms(1) by (auto simp: sched_ok_def ring_distinct)
  then obtain k' where k': "k' \<le> Suc i" "?r k' = p"
    using rr_rounds_reach [of i "sched_queue st" "currentProcess st"] i assms(4) by auto
  define m where "m = (LEAST j. ?r j = p)"
  have m: "?r m = p" "\<And>j. j < m \<Longrightarrow> ?r j \<noteq> p" "m \<le> Suc i"
    unfolding m_def using k' Least_le [of "\<lambda>j. ?r j = p" k'] by (auto intro: LeastI dest: not_less_Least)
  moreover have "m \<noteq> 0"
    using m(1) assms(4) by (cases m) auto
  ultimately obtain k where k: "m = Suc k" "k < length rs" "\<And>j. j \<le> k \<Longrightarrow> ?r j \<noteq> p"
    using i(1) assms(5) by (cases m) auto
  obtain st' where st': "yields (take k rs) st = Some st'" "sched_ok st'" "currentProcess st' \<noteq> 0" "currentProcess st' \<noteq> p"
      "p \<in> set (sched_queue st')" "saved_registers st' p = saved_registers st p"
      "rr_rounds 1 (currentProcess st') (sched_queue st') = ?r (k + 1)"
    using yields_keep [OF assms(1-3), of k rs] k by (auto simp del: rr_rounds.simps)
  obtain r st'' where y: "kprocess_yield (Some (rs ! k)) st' = Some (r, st'')"
      "(currentProcess st'', sched_queue st'') = rr_next (currentProcess st') (sched_queue st')"
      "currentProcess st'' \<noteq> currentProcess st' \<Longrightarrow>
       r = SwitchJump (p_flags (pinfos st' (currentProcess st''))) (saved_registers st' (currentProcess st''))"
    using yield_step [OF st'(2,3), of "rs ! k"] by metis
  have "currentProcess st'' = p"
    using st'(7) m(1) k(1) arg_cong [OF y(2), of fst] by (simp add: rr_rounds_one del: rr_rounds.simps)
  then show ?thesis
    using y(1,3) st' k(2) by (intro exI [of _ k]) auto
qed

text \<open>
  C11. A process that yields is resumed where it was. With another process in the queue, the system call with number 2 switches
  to it; within as many further yields as there are processes, whatever registers those are made with, the caller gets the processor back, and the registers it continues with are
  the ones of its call: \<open>ebx\<close>, \<open>esi\<close> and \<open>edi\<close>, the base pointer, and the instruction pointer, flags, code segment and
  stack of its interrupt frame, for a caller inside of the kernel those of the kernel stack behind the frame.
\<close>

theorem yield_syscall_resumed:
  assumes "sched_ok st" "currentProcess st \<noteq> 0" "2 \<le> length (sched_queue st)" "length rs = length (sched_queue st)"
  shows "\<exists>flags regs st1. syscall_asm_despatcher gx 2 pushed ebp ss a st = Some (SysSwitch flags regs, st1) \<and>
    (\<exists>k < length rs. \<exists>st2 st3 flags'. yields (take k rs) st1 = Some st2 \<and>
      kprocess_yield (Some (rs ! k)) st2 = Some (SwitchJump flags' (caller_registers (make_frame pushed ebp ss) a), st3) \<and>
      currentProcess st3 = currentProcess st)"
proof -
  let ?p = "currentProcess st" and ?v = "caller_registers (make_frame pushed ebp ss) a"
  have p: "?p \<in> set (sched_queue st)"
    using assms(1,2) by (auto simp: sched_ok_def)
  obtain r st1 where y: "kprocess_yield (Some ?v) st = Some (r, st1)" "sched_ok st1" "currentProcess st1 \<noteq> 0"
      and nx: "(currentProcess st1, sched_queue st1) = rr_next ?p (sched_queue st)"
      and keep: "?p \<in> set (sched_queue st1)" "saved_registers st1 ?p = (if currentProcess st1 \<noteq> ?p then ?v else saved_registers st ?p)"
      and sw: "currentProcess st1 \<noteq> ?p \<Longrightarrow>
        r = SwitchJump (p_flags (pinfos st (currentProcess st1))) (saved_registers st (currentProcess st1))"
    using yield_step [OF assms(1,2), of ?v] p by metis
  have "distinct (sched_queue st)"
    using assms(1) by (auto simp: sched_ok_def ring_distinct)
  then have other: "?p \<noteq> currentProcess st1" and len: "length (sched_queue st1) = length (sched_queue st)"
    using nx assms(3) rr_next_perm [of "sched_queue st" ?p "currentProcess st1" "sched_queue st1"]
    by (cases "sched_queue st" rule: remdups_adj.cases; auto split: if_splits)+
  moreover have "syscall_asm_despatcher gx 2 pushed ebp ss a st = Some (switch_result r, st1)"
    using y(1) by (simp add: syscall_asm_despatcher_def s_getSysCallCount_def g_syscall_table_def ksys_yieldProcess_def)
  ultimately show ?thesis
    using waiting_resumed [OF y(2,3) keep(1), of rs] sw keep(2) assms(4) by auto
qed

section \<open>Events\<close>

lemma view_set_view [simp]: "view (set_view m st) = m"
  by (rule ext) (simp add: view_def set_view_def)

lemma set_view_fields [simp]:
  "events_ok (set_view m st) = events_ok st" "sched_queue (set_view m st) = sched_queue st" "pinfos (set_view m st) = pinfos st"
  "pending (set_view m st) p = pending st p" "currentProcess (set_view m st) = currentProcess st"
  by (simp_all add: set_view_def events_ok_def sched_queue_def pending_def event_objects_def kmalloc_inv_def heap_block_def
      kmalloc_segments_def)

lemma popEvent_frame:
  fixes st :: "'a win_state_scheme"
  assumes "kprocess_popEvent pid st = Some (r, st')"
  shows "kmem st' = kmem st" "umem st' = umem st" "cr3 st' = cr3 st" "currentProcess st' = currentProcess st"
  using assms
  by (auto simp: kprocess_popEvent_def s_getProcessInfoFromID_def kfree_def RETURN_ERROR_def Let_def
      elim!: bind_SomeE split: option.splits if_splits prod.splits node.splits)

definition load_event :: "memory \<Rightarrow> PTR \<Rightarrow> KProcessEvent" where
  "load_event m e = \<lparr>ev_event = load32 m e, ev_data = word_cat (load32 m (e + 8)) (load32 m (e + 4))\<rparr>"

lemma load_store_event: "load_event (store_event e ev m) e = ev"
proof -
  have d: "(e + 4) - (e + 8) = - 4" "e - (e + 8) = - 8" "e - (e + 4) = - 4" for e :: PTR
    by simp_all
  have "word_cat (ucast (drop_bit 32 d) :: U32) (ucast d :: U32) = (d :: U64)" for d
    by (rule bit_word_eqI) (auto simp: bit_word_cat_iff bit_simps)
  then show ?thesis
    by (cases ev) (simp add: load_event_def store_event_def load32_store32_other d)
qed

lemma store32_outside: "x - a \<ge> 4 \<Longrightarrow> store32 a w m x = m x"
  by (auto simp: store32_def word_le_nat_alt)

lemma store_event_outside:
  assumes "x - e \<ge> 12"
  shows "store_event e ev m x = m x"
proof -
  have "unat (x - e) \<ge> 12"
    using assms by (simp add: word_le_nat_alt)
  then have "x - (e + 8) \<ge> 4" "x - (e + 4) \<ge> 4" "x - e \<ge> 4"
    by (simp_all add: word_le_nat_alt unat_sub_if' diff_diff_eq [symmetric])
  then show ?thesis
    by (simp add: store_event_def store32_outside)
qed

text \<open>Number 6 in the table.\<close>

lemma pop_event_call:
  assumes ok: "events_ok st" and p: "currentProcess st \<in> set (sched_queue st)" and user: "unat (a_ebx a) + 12 \<le> 0xC0000000"
  shows "\<exists>st'. syscall_asm_despatcher gx 6 pushed ebp ss a st = Some (SysBool True, st') \<and> events_ok st' \<and>
    load_event (view st') (a_ebx a) =
      (case pending st (currentProcess st) of [] \<Rightarrow> \<lparr>ev_event = KERNEL_EVENT_NONE, ev_data = 0\<rparr> | ev # _ \<Rightarrow> ev) \<and>
    (\<forall>x. x - a_ebx a \<ge> 12 \<longrightarrow> view st' x = view st x) \<and>
    (\<forall>x \<ge> MEM_START_KERNEL_LOW_REGION. kmem st' x = kmem st x) \<and>
    pending st' (currentProcess st) = tl (pending st (currentProcess st)) \<and>
    (\<forall>q \<in> set (sched_queue st). q \<noteq> currentProcess st \<longrightarrow> pending st' q = pending st q)"
proof -
  let ?p = "currentProcess st" and ?e = "a_ebx a"
  have pid: "kprocess_getCurrentPID st = processID (pinfos st ?p)"
    using events_okD(3) [OF ok p] by (simp add: kprocess_getCurrentPID_def)
  obtain ev st1 where 1: "kprocess_popEvent (processID (pinfos st ?p)) st = Some ((True, ev), st1)"
      "ev = (case pending st ?p of [] \<Rightarrow> \<lparr>ev_event = KERNEL_EVENT_NONE, ev_data = 0\<rparr> | ev # _ \<Rightarrow> ev)"
      "events_ok st1" "pending st1 ?p = tl (pending st ?p)" "\<forall>q \<in> set (sched_queue st). q \<noteq> ?p \<longrightarrow> pending st1 q = pending st q"
    using popEvent_spec [OF ok p] by blast
  have v: "view st1 = view st"
    using popEvent_frame [OF 1(1)] by (simp add: view_def fun_eq_iff)
  let ?st = "set_view (store_event ?e ev (view st)) st1"
  have call: "syscall_asm_despatcher gx 6 pushed ebp ss a st = Some (SysBool True, ?st)"
    using 1(1) pid v by (simp add: syscall_asm_despatcher_def s_getSysCallCount_def g_syscall_table_def ksys_processPopEvent_def nth_append)
  have far: "x - ?e \<ge> 12" if "x \<ge> MEM_START_KERNEL_LOW_REGION" for x
    using that user by (simp add: MEM_START_KERNEL_LOW_REGION_def word_le_nat_alt unat_sub_if')
  have "kmem ?st x = kmem st x" if "x \<ge> MEM_START_KERNEL_LOW_REGION" for x
    using store_event_outside [OF far [OF that]] that by (simp add: set_view_def view_def)
  with call 1 show ?thesis
    by (intro exI [of _ ?st]) (simp add: load_store_event store_event_outside)
qed

text \<open>
  The system call for events hands over the oldest event. For a structure in the user half of the address space, the
  call with number 6 always succeeds; what the caller then finds in its structure is the oldest event that was pending, or the empty event
  when there was none, the other bytes of the memory it can see are as before, kernel memory included, and exactly that event is gone from the queue of the
  caller.
\<close>

theorem pop_event_syscall:
  assumes ok: "events_ok st" and p: "currentProcess st \<in> set (sched_queue st)" and user: "unat (a_ebx a) + 12 \<le> 0xC0000000"
  shows "\<exists>st'. syscall_asm_despatcher gx 6 pushed ebp ss a st = Some (SysBool True, st') \<and> events_ok st' \<and>
    load_event (view st') (a_ebx a) =
      (case pending st (currentProcess st) of [] \<Rightarrow> \<lparr>ev_event = KERNEL_EVENT_NONE, ev_data = 0\<rparr> | ev # _ \<Rightarrow> ev) \<and>
    (\<forall>x. x - a_ebx a \<ge> 12 \<longrightarrow> view st' x = view st x) \<and>
    (\<forall>x \<ge> MEM_START_KERNEL_LOW_REGION. kmem st' x = kmem st x) \<and>
    pending st' (currentProcess st) = tl (pending st (currentProcess st)) \<and>
    (\<forall>q \<in> set (sched_queue st). q \<noteq> currentProcess st \<longrightarrow> pending st' q = pending st q)"
  by (rule pop_event_call [OF assms])

section \<open>Witnesses\<close>

definition sample_win :: win_state where
  "sample_win = gx_state.extend sample_timer
     \<lparr>windowsListHead = \<lparr>nxt = \<lambda>_. NullNode, prv = \<lambda>_. NullNode\<rparr>, window_count = 0,
      windows = (\<lambda>_. \<lparr>screen_x = 0, screen_y = 0, windowArea = sample_screen, workingArea = sample_screen, win_processID = 0\<rparr>),
      umem = (\<lambda>_ _. 0)\<rparr>"

lemma sample_win_fields:
  "kheap sample_win = kheap sample_timer" "schedulerQueue sample_win = schedulerQueue sample_timer"
  "pinfos sample_win = pinfos sample_timer" "eventsQueue sample_win = eventsQueue sample_timer"
  "kevents sample_win = kevents sample_timer" "currentProcess sample_win = currentProcess sample_timer"
  "graphics_enabled sample_win = graphics_enabled sample_timer" "processCount sample_win = processCount sample_timer"
  "vmms sample_win = vmms sample_timer" "s_pab sample_win = s_pab sample_timer" "phase sample_win = phase sample_timer"
  "s_pmm_completeRegion sample_win = s_pmm_completeRegion sample_timer" "regionLength sample_win = regionLength sample_timer"
  by (simp_all add: sample_win_def gx_state.defs)

lemma sample_win_ok:
  "events_ok sample_win" "sched_queue sample_win = [1, 2, 3]" "pending sample_win p = []"
proof -
  show q: "sched_queue sample_win = [1, 2, 3]"
    using sample_timer_ok(2) by (simp add: sched_queue_def sample_win_fields)
  have e: "event_objects sample_win p = event_objects sample_timer p" for p
    by (simp add: event_objects_def sample_win_fields)
  show "pending sample_win p = []"
    using sample_timer_ok(3) [of p] by (simp add: pending_def e)
  show "events_ok sample_win"
    using sample_timer_ok(1,2) q by (simp add: events_ok_def e sample_win_fields kmalloc_inv_def heap_block_def kmalloc_segments_def)
qed

theorem syscall_refused_witness:
  "\<forall>pushed a. \<exists>st'. syscall_asm_despatcher 1 11 pushed 0 0 a sample_win = Some (SysReturn (-1), st') \<and>
     errorNumber st' = ERR_INVALID_SYSCALL"
  using syscall_refused [of sample_win 11 1] by (auto simp: refused_def sample_win_fields sample_timer_fields)

theorem pop_event_syscall_witness:
  "\<forall>pushed. \<exists>st'. syscall_asm_despatcher 1 6 pushed 0 0 \<lparr>a_ebx = 0x20000, a_ecx = 0, a_edx = 0, a_esi = 0, a_edi = 0\<rparr> sample_win =
      Some (SysBool True, st') \<and> load_event (view st') 0x20000 = \<lparr>ev_event = KERNEL_EVENT_NONE, ev_data = 0\<rparr>"
proof
  fix pushed
  let ?a = "\<lparr>a_ebx = 0x20000, a_ecx = 0, a_edx = 0, a_esi = 0, a_edi = 0\<rparr>"
  have "currentProcess sample_win \<in> set (sched_queue sample_win)" "unat (a_ebx ?a) + 12 \<le> 0xC0000000"
    by (simp_all add: sample_win_ok sample_win_fields sample_timer_fields)
  from pop_event_syscall [OF sample_win_ok(1) this, of 1 pushed 0 0]
  show "\<exists>st'. syscall_asm_despatcher 1 6 pushed 0 0 ?a sample_win = Some (SysBool True, st')
      \<and> load_event (view st') 0x20000 = \<lparr>ev_event = KERNEL_EVENT_NONE, ev_data = 0\<rparr>"
    by (elim exE conjE) (simp add: sample_win_ok)
qed

lemma sample_timer_pmm:
  "s_pab sample_timer = s_pab sample_sched" "s_pmm_completeRegion sample_timer = s_pmm_completeRegion sample_sched"
  "regionLength sample_timer = regionLength sample_sched" "vmms sample_timer = vmms sample_sched" "processCount sample_timer = 3"
  by (simp_all add: sample_chain sample_sched_fields)

lemma sample_win_sched_ok: "sched_ok sample_win"
proof -
  have f: "frames sample_win = frames sample_sched"
    unfolding frames_def by (rule bitmap_states_cong) (simp_all add: s_getBitmapFromRegion_def Let_def sample_win_fields sample_timer_pmm)
  have "phase sample_win = KERNEL_READY"
    by (simp add: sample_win_fields sample_timer_fields)
  then have "pmm_inv sample_win"
    using sample_sched_pmm(2) unfolding pmm_inv_def pmm_wf_def usable_pages_def f sample_win_fields sample_timer_pmm by simp
  then show ?thesis
    using sample_queue_ring
    by (simp add: sched_ok_def f sample_sched_pmm(1) sample_win_ok sample_win_fields sample_timer_fields sample_timer_pmm
        sample_sched_fields runnable_def directory_of_def sample_process_def sample_vmm_fields IS_ALIGNED_4096)
qed

theorem yield_syscall_resumed_witness:
  "\<exists>flags regs st1. syscall_asm_despatcher 1 2 \<lparr>f_ebp = 1, f_eip = 2, f_cs = 0x23, f_eflags = 4, f_esp = 5, f_ss = 6\<rparr> 0 0
       \<lparr>a_ebx = 7, a_ecx = 0, a_edx = 0, a_esi = 8, a_edi = 9\<rparr> sample_win = Some (SysSwitch flags regs, st1) \<and>
     (\<exists>k < 3. \<exists>st2 st3 flags'. yields (take k [sample_registers 4, sample_registers 5, sample_registers 6]) st1 = Some st2 \<and>
       kprocess_yield (Some ([sample_registers 4, sample_registers 5, sample_registers 6] ! k)) st2 = Some (SwitchJump flags'
         \<lparr>r_ebx = 7, r_esi = 8, r_edi = 9, r_esp = 5, r_ebp = 1, r_eip = 2, r_eflags = 4, r_cs = 0x23, r_ds = 6\<rparr>, st3) \<and>
       currentProcess st3 = 2)"
  using yield_syscall_resumed [OF sample_win_sched_ok, of "[sample_registers 4, sample_registers 5, sample_registers 6]" 1
      "\<lparr>f_ebp = 1, f_eip = 2, f_cs = 0x23, f_eflags = 4, f_esp = 5, f_ss = 6\<rparr>" 0 0 "\<lparr>a_ebx = 7, a_ecx = 0, a_edx = 0, a_esi = 8, a_edi = 9\<rparr>"]
  by (simp add: sample_win_ok sample_win_fields sample_timer_fields caller_registers_def make_frame_def numeral_3_eq_3)

end
