(* ===== verification/Kernel_Main.thy ===== *)
theory Kernel_Main
  imports Syscall_Facts
begin

text \<open>
  The start of the kernel: \<open>kernel_main\<close> of \<open>src/kernel/x86/kernel.c\<close> and the functions it calls in that file.

  The addresses of the assembly entry points, what \<open>cpuid\<close> answers, and the bytes that uninitialised locals of the mouse driver
  hold are parameters. Text printed to the debug port (\<open>display_system_info\<close>, \<open>kvmm_printVASList\<close>) does not change the state
  and is left out. From the moment interrupts are enabled handlers may run between the steps; the model has the steps alone.
\<close>

section \<open>Parameters\<close>

record entry_points =
  div_zero_asm_handler :: PTR
  double_fault_asm_handler :: PTR
  page_fault_asm_handler :: PTR
  general_protection_fault_asm_handler :: PTR
  breakpoint_asm_handler :: PTR
  invalid_opcode_asm_handler :: PTR
  sys_dummy_asm_handler :: PTR
  syscall_asm_handler :: PTR
  timer_interrupt_asm_handler :: PTR
  irq_7_asm_handler :: PTR
  irq_15_asm_handler :: PTR
  ps2_mouse_interrupt_asm_handler :: PTR

definition MEM_START_KERNEL_PAGE_DIR :: PTR where "MEM_START_KERNEL_PAGE_DIR = 0xC0023000"
definition MEM_END_KERNEL_LOW_REGION :: PTR where "MEM_END_KERNEL_LOW_REGION = 0xC0046000 - 1"
definition MEM_END_KERNEL_HIGH_REGION :: PTR where "MEM_END_KERNEL_HIGH_REGION = 0xFFC00000 - 1"
definition MEM_END_HIGHER_HALF_MAP :: PTR where "MEM_END_HIGHER_HALF_MAP = 0xC0200000"
definition MEM_START_PAGING_EXT_TEMP_MAP :: PTR where "MEM_START_PAGING_EXT_TEMP_MAP = 0xC03FE000"
definition MEM_START_PAGING_INT_TEMP_MAP :: PTR where "MEM_START_PAGING_INT_TEMP_MAP = 0xC03FF000"
definition MEM_LEN_BYTES_KERNEL_LOW_REGION :: SIZE where
  "MEM_LEN_BYTES_KERNEL_LOW_REGION = MEM_END_KERNEL_LOW_REGION - MEM_START_KERNEL_LOW_REGION + 1"
definition CONFIG_INTERRUPT_CLOCK_FREQ_HZ :: UINT where "CONFIG_INTERRUPT_CLOCK_FREQ_HZ = 1000"

section \<open>The memory managers\<close>

text \<open>The loop that counts pages of one state; it asks for the state of the page behind the last one it counts.\<close>

partial_function (option) blockPages_loop ::
  "BitmapState \<Rightarrow> BitmapState \<Rightarrow> Physical \<Rightarrow> Physical \<Rightarrow> SIZE \<Rightarrow> 'a pmm_state_scheme \<Rightarrow> (SIZE \<times> 'a pmm_state_scheme) option" where
  "blockPages_loop initialState state pa end szPages st =
     (if initialState = state \<and> pa < end then do {
        (state, st) \<leftarrow> kpmm_getPageStatus (pa + CONFIG_PAGE_FRAME_SIZE_BYTES) st;
        (if state = PMM_STATE_INVALID then k_panicOnError st else Some ());
        blockPages_loop initialState state (pa + CONFIG_PAGE_FRAME_SIZE_BYTES) end (szPages + 1) st
      }
      else Some (szPages, st))"

declare blockPages_loop.simps [code]

definition s_getPhysicalBlockPageCount ::
  "Physical \<Rightarrow> Physical \<Rightarrow> 'a pmm_state_scheme \<Rightarrow> (SIZE \<times> 'a pmm_state_scheme) option" where
  "s_getPhysicalBlockPageCount pa end st = do {
     (initialState, st) \<leftarrow> kpmm_getPageStatus pa st;
     blockPages_loop initialState initialState pa end 0 st
   }"

abbreviation RESERVED_PAGES :: UINT where
  "RESERVED_PAGES \<equiv> VMM_MEMMAP_FLAG_KERNEL_PAGE OR VMM_MEMMAP_FLAG_COMMITTED"

text \<open>The pages below the end of the higher half mapping: free ones are unmapped, the others become address spaces.\<close>

partial_function (option) region_loop ::
  "Physical \<Rightarrow> Physical \<Rightarrow> PTR \<Rightarrow> 'a vmm_state_scheme \<Rightarrow> 'a vmm_state_scheme option" where
  "region_loop pa paRegionEnd pd st =
     (if pa < paRegionEnd then do {
        (state, st) \<leftarrow> kpmm_getPageStatus pa st;
        let va = HIGHER_HALF_KERNEL_TO_VA pa
        in if state = PMM_STATE_FREE then do {
             (unmapped, st) \<leftarrow> kpg_unmap pd va st;
             k_assert unmapped;
             region_loop (pa + CONFIG_PAGE_FRAME_SIZE_BYTES) paRegionEnd pd st
           }
           else if state = PMM_STATE_USED \<or> state = PMM_STATE_RESERVED then do {
             (szPages, st) \<leftarrow> s_getPhysicalBlockPageCount pa paRegionEnd st;
             ((r, _), st) \<leftarrow> kvmm_memmap (kcontext st) va None szPages RESERVED_PAGES st;
             k_assert (r \<noteq> 0);
             region_loop (pa + PAGEFRAMES_TO_BYTES szPages) paRegionEnd pd st
           }
           else None
      }
      else Some st)"

declare region_loop.simps [code]

definition s_initializeMemoryManagers :: "'a vmm_state_scheme \<Rightarrow> 'a vmm_state_scheme option" where
  "s_initializeMemoryManagers st =
     (let pageCount = BYTES_TO_PAGEFRAMES_CEILING MEM_LEN_BYTES_KERNEL_LOW_REGION
      in do {
        (ok, st) \<leftarrow> kpmm_allocAt 0 pageCount PMM_REGION_ANY st;
        (if ok then Some () else k_panicOnError st);
        let filesCount = kboot_getBootFileItemCount (boot st)
        in do {
          firstFile \<leftarrow> kboot_getBootFileItem (boot st) 0;
          lastFile \<leftarrow> kboot_getBootFileItem (boot st) (uint filesCount - 1);
          let total = (startLocation lastFile - startLocation firstFile) + ucast (file_length lastFile)
          in do {
            (ok, st) \<leftarrow> kpmm_allocAt (startLocation firstFile) (BYTES_TO_PAGEFRAMES_CEILING total) PMM_REGION_ANY st;
            k_assert ok;
            let (usable, st) = kpmm_getUsableMemorySize PMM_REGION_ANY st
            in do {
              pd \<leftarrow> kpg_getcurrentpd;
              st \<leftarrow> region_loop 0 (0 + min usable (HIGHER_HALF_KERNEL_TO_PA MEM_END_HIGHER_HALF_MAP)) pd st;
              ((r, _), st) \<leftarrow> kvmm_memmap (kcontext st) MEM_START_PAGING_EXT_TEMP_MAP None 1 RESERVED_PAGES st;
              k_assert (r \<noteq> 0);
              ((r, _), st) \<leftarrow> kvmm_memmap (kcontext st) MEM_START_PAGING_INT_TEMP_MAP None 1 RESERVED_PAGES st;
              k_assert (r \<noteq> 0);
              Some st
            }
          }
        }
      })"

section \<open>Descriptor tables\<close>

definition setup_gdt :: "'a dt_state_scheme \<Rightarrow> 'a dt_state_scheme option" where
  "setup_gdt st = do {
     st \<leftarrow> kgdt_edit 4 0 0xFFFFF 0xFA 0xD st;
     st \<leftarrow> kgdt_edit 5 0 0xFFFFF 0xF2 0xD st;
     Some (kgdt_write st)
   }"

definition gate :: "U32 \<Rightarrow> PTR \<Rightarrow> U8 \<Rightarrow> 'a dt_state_scheme \<Rightarrow> 'a dt_state_scheme" where
  "gate i handler dpl = kidt_edit i handler (ucast GDT_SELECTOR_KCODE) IDT_DES_TYPE_32_INTERRUPT_GATE dpl"

definition setup_idt :: "entry_points \<Rightarrow> 'a hw_state_scheme \<Rightarrow> 'a hw_state_scheme option" where
  "setup_idt e st =
     (let st = kidt_init st;
          st = gate 0 (div_zero_asm_handler e) 0 st;
          st = gate 8 (double_fault_asm_handler e) 0 st;
          st = gate 14 (page_fault_asm_handler e) 0 st;
          st = gate 13 (general_protection_fault_asm_handler e) 0 st;
          st = gate 3 (breakpoint_asm_handler e) 0 st;
          st = gate 6 (invalid_opcode_asm_handler e) 0 st;
          st = gate 0x40 (sys_dummy_asm_handler e) 3 st;
          st = gate 0x50 (syscall_asm_handler e) 3 st
      in do {
        st \<leftarrow> pic_init 0x20 0x28 st;
        let st = gate 0x20 (timer_interrupt_asm_handler e) 0 st;
            st = gate 0x27 (irq_7_asm_handler e) 0 st
        in Some (gate 0x2F (irq_15_asm_handler e) 0 st)
      })"

section \<open>The first process\<close>

definition literal :: "string \<Rightarrow> U8 list" where
  "literal s = map of_char s @ [0]"

text \<open>The result is the process that is jumped to; every other outcome halts the machine.\<close>

definition run_root_process :: "'a process_state_scheme \<Rightarrow> ((UINT \<times> ProcessRegisterState) \<times> 'a process_state_scheme) option" where
  "run_root_process st = do {
     fileinfo \<leftarrow> kboot_findBootFileItem (boot st) (literal ''INIT.FLT'');
     (processID, st) \<leftarrow> kprocess_create (HIGHER_HALF_KERNEL_TO_VA (startLocation fileinfo)) (ucast (file_length fileinfo))
        PROCESS_FLAGS_NONE st;
     k_assert (\<not> sint processID < 0);
     k_assert (processID = 1);
     (r, st) \<leftarrow> kprocess_yield None st;
     case r of SwitchJump flags regs \<Rightarrow> Some ((flags, regs), st) | SwitchReturn _ \<Rightarrow> None
   }"

section \<open>The whole start\<close>

definition kprint :: "string \<Rightarrow> varg list \<Rightarrow> 'a vga_state_scheme \<Rightarrow> 'a vga_state_scheme option" where
  "kprint s l st = do { (_, st) \<leftarrow> kearly_printf (literal s) l st; Some st }"

definition kprintln :: "string \<Rightarrow> varg list \<Rightarrow> 'a vga_state_scheme \<Rightarrow> 'a vga_state_scheme option" where
  "kprintln s = kprint (CHR 0x0A # s)"

definition step_ok :: "'a vga_state_scheme \<Rightarrow> 'a vga_state_scheme option" where
  "step_ok = kprint (CHR 0x0D # ''[OK]'') []"

definition step_begin :: "string \<Rightarrow> 'a vga_state_scheme \<Rightarrow> 'a vga_state_scheme option" where
  "step_begin s = kprintln (''[  ]'' @ CHR 0x09 # s) []"

text \<open>Up to the address spaces of the kernel.\<close>

definition start_memory :: "'a win_state_scheme \<Rightarrow> 'a win_state_scheme option" where
  "start_memory st = do {
     st \<leftarrow> KERNEL_PHASE_SET BOOT_COMPLETE st;
     st \<leftarrow> (if graphics_enabled st then Some st else kdisp_init st);
     st \<leftarrow> kpmm_init st;
     st \<leftarrow> step_begin ''Virtual memory management.'' st;
     st \<leftarrow> ksalloc_init st;
     st \<leftarrow> khandle_init st;
     (ctx, st) \<leftarrow> kvmm_new MEM_START_KERNEL_LOW_REGION MEM_END_KERNEL_HIGH_REGION
        (HIGHER_HALF_KERNEL_TO_PA MEM_START_KERNEL_PAGE_DIR) PMM_REGION_ANY st;
     st \<leftarrow> KERNEL_PHASE_SET VMM_READY (st\<lparr>kcontext := ctx\<rparr>);
     st \<leftarrow> s_initializeMemoryManagers st;
     step_ok st
   }"

text \<open>The descriptor tables, the heap and, in builds with graphics, the frame buffer.\<close>

definition start_tables :: "entry_points \<Rightarrow> 'a win_state_scheme \<Rightarrow> 'a win_state_scheme option" where
  "start_tables e st = do {
     st \<leftarrow> step_begin ''TSS setup.'' st;
     st \<leftarrow> ktss_init st;
     st \<leftarrow> step_ok st;
     st \<leftarrow> step_begin ''User mode GDT setup.'' st;
     st \<leftarrow> setup_gdt st;
     st \<leftarrow> step_ok st;
     st \<leftarrow> step_begin ''IDT setup'' st;
     st \<leftarrow> setup_idt e st;
     st \<leftarrow> step_ok st;
     st \<leftarrow> step_begin ''Kernel memory management.'' st;
     st \<leftarrow> kmalloc_init st;
     st \<leftarrow> step_ok st;
     if graphics_enabled st then do {
       (ok, st) \<leftarrow> kgraphics_init (boot st) st;
       k_assert ok;
       kcompose_init st
     }
     else Some st
   }"

definition start_devices :: "entry_points \<Rightarrow> U32 \<Rightarrow> U32 \<Rightarrow> U8 \<Rightarrow> 'a win_state_scheme \<Rightarrow> 'a win_state_scheme option" where
  "start_devices e cpuflags cpuid junk st = do {
     st \<leftarrow> step_begin ''Process management & HW interrupts'' st;
     let st = kprocess_init st
     in do {
       st \<leftarrow> pit_set_interrupt_counter 2 CONFIG_INTERRUPT_CLOCK_FREQ_HZ st;
       st \<leftarrow> pic_enable_disable_irq PIC_IRQ_TIMER True st;
       st \<leftarrow> KERNEL_PHASE_SET KERNEL_READY st;
       st \<leftarrow> step_ok st;
       st \<leftarrow> (if graphics_enabled st then Some st
              else do {
                (_, st) \<leftarrow> kdisp_ioctl (DISP_SETATTR (k_dispAttr 0 2 0)) st;
                st \<leftarrow> kprintln ''Kernel initialization finished..'' [] st;
                (_, st) \<leftarrow> kdisp_ioctl (DISP_SETATTR (k_dispAttr 0 7 0)) st;
                Some st
              });
       st \<leftarrow> kprintln ''CPUID detected: %x'' [Arg32 cpuflags] st;
       st \<leftarrow> kprintln ''CPUID [EAX=0]: %x'' [Arg32 cpuid] st;
       (_, st) \<leftarrow> ps2_init st;
       (mouse, st) \<leftarrow> ps2_mouse_init junk (ps2_mouse_interrupt_asm_handler e) st;
       k_assert mouse;
       Some st
     }
   }"

definition kernel_main ::
  "entry_points \<Rightarrow> U32 \<Rightarrow> U32 \<Rightarrow> U8 \<Rightarrow> 'a win_state_scheme \<Rightarrow> ((UINT \<times> ProcessRegisterState) \<times> 'a win_state_scheme) option" where
  "kernel_main e cpuflags cpuid junk st = do {
     st \<leftarrow> start_memory st;
     st \<leftarrow> start_tables e st;
     st \<leftarrow> start_devices e cpuflags cpuid junk st;
     run_root_process st
   }"

end
