(* ===== verification/Kernel_Start.thy ===== *)
theory Kernel_Start
  imports Kernel_Main
begin

text \<open>
  What the start of the kernel sets up: the gates of the interrupt descriptor table, and that the address spaces and page
  tables of the kernel agree with the physical memory manager.
\<close>

section \<open>The gates\<close>

definition kernel_vectors :: "U32 set" where
  "kernel_vectors = {0, 3, 6, 8, 13, 14, 0x20, 0x27, 0x2F, 0x40, 0x50}"

lemma outb_delay_idt [simp]: "idt (outb_delay xs st) = idt st" "idtr (outb_delay xs st) = idtr st"
  by (induction xs arbitrary: st) (auto simp: outb_def io_delay_def inb_def Let_def split: prod.splits)

lemma pic_init_idt:
  assumes "pic_init a b st = Some st'"
  shows "idt st' = idt st" "idtr st' = idtr st"
  using assms by (auto simp: pic_init_def simp del: outb_delay.simps split: if_splits)

text \<open>A sequence of gates, and the entry of a vector after it: the last gate for the vector, or what was there.\<close>

fun gates :: "(U32 \<times> PTR \<times> U8) list \<Rightarrow> 'a dt_state_scheme \<Rightarrow> 'a dt_state_scheme" where
  "gates [] st = st"
| "gates ((i, h, dpl) # r) st = gates r (gate i h dpl st)"

definition interrupt_gate :: "PTR \<Rightarrow> U8 \<Rightarrow> IdtDescriptor" where
  "interrupt_gate h dpl = \<lparr>offset_low = ucast (h AND 0xFFFF), segment_selector = ucast GDT_SELECTOR_KCODE, idt_zeros = 0,
     idt_type = IDT_DES_TYPE_32_INTERRUPT_GATE, idt_dpl = ucast (dpl AND 0x3), idt_p = 1,
     offset_high = ucast (drop_bit 16 h) AND 0xFFFF\<rparr>"

lemma gates_idtr: "idtr (gates es st) = idtr st"
  by (induction es st rule: gates.induct) (simp_all add: gate_def kidt_edit_def)

lemma gates_idt: "idt (gates es st) v =
    (case map_of (rev es) v of Some (h, dpl) \<Rightarrow> interrupt_gate h dpl | None \<Rightarrow> idt st v)"
  by (induction es st rule: gates.induct)
    (auto simp: gate_def kidt_edit_def interrupt_gate_def map_add_def split: option.splits)

lemma gate_offset_interrupt_gate: "gate_offset (interrupt_gate h dpl) = h"
  by (simp add: interrupt_gate_def gate_offset_def masks assemble_halves)

text \<open>The gates of the start, before and after the interrupt controller is set up.\<close>

definition early_gates :: "entry_points \<Rightarrow> (U32 \<times> PTR \<times> U8) list" where
  "early_gates e = [(0, div_zero_asm_handler e, 0), (8, double_fault_asm_handler e, 0), (14, page_fault_asm_handler e, 0),
    (13, general_protection_fault_asm_handler e, 0), (3, breakpoint_asm_handler e, 0), (6, invalid_opcode_asm_handler e, 0),
    (0x40, sys_dummy_asm_handler e, 3), (0x50, syscall_asm_handler e, 3)]"

definition late_gates :: "entry_points \<Rightarrow> (U32 \<times> PTR \<times> U8) list" where
  "late_gates e = [(0x20, timer_interrupt_asm_handler e, 0), (0x27, irq_7_asm_handler e, 0), (0x2F, irq_15_asm_handler e, 0)]"

text \<open>
  C38. User programs can enter the kernel through two gates only. The setup of the interrupt descriptor table always returns,
  with a table of 256 gates loaded. The gates that are present are those of the exceptions and interrupts the kernel handles,
  each an interrupt gate into the kernel code segment; of these the processor admits a software interrupt from user mode
  for the vectors 40h and 50h only, and vector 50h leads to the dispatcher of the system calls.
\<close>

theorem idt_user_gates:
  "\<exists>st'. setup_idt e st = Some st' \<and> idtr st' = (0x7FF, MEM_START_IDT) \<and> gate_offset (idt st' 0x50) = syscall_asm_handler e \<and>
    (\<forall>v < 256. (idt_p (idt st' v) = 1 \<longleftrightarrow> v \<in> kernel_vectors) \<and>
      (idt_p (idt st' v) = 1 \<and> idt_dpl (idt st' v) = 3 \<longleftrightarrow> v \<in> {0x40, 0x50}) \<and>
      (idt_p (idt st' v) = 1 \<longrightarrow> idt_type (idt st' v) = IDT_DES_TYPE_32_INTERRUPT_GATE \<and>
         segment_selector (idt st' v) = ucast GDT_SELECTOR_KCODE))"
proof -
  obtain st1 where p: "pic_init 0x20 0x28 (gates (early_gates e) (kidt_init st)) = Some st1"
    by (simp add: pic_init_def IS_ALIGNED_def)
  have st1: "idt st1 = idt (gates (early_gates e) (kidt_init st))" "idtr st1 = idtr (kidt_init st)"
    by (simp_all only: pic_init_idt [OF p] gates_idtr)
  let ?st = "gates (late_gates e) st1"
  have "setup_idt e st = Some ?st"
    using p by (simp add: setup_idt_def early_gates_def late_gates_def Let_def)
  moreover have "idtr ?st = (0x7FF, MEM_START_IDT)"
    by (simp only: gates_idtr st1) (simp add: kidt_init_def s_idt_write_def MAX_IDT_DESC_COUNT_def)
  moreover have "gate_offset (idt ?st 0x50) = syscall_asm_handler e"
    by (simp only: gates_idt st1) (simp add: late_gates_def early_gates_def gate_offset_interrupt_gate)
  moreover have "(idt_p (idt ?st v) = 1 \<longleftrightarrow> v \<in> kernel_vectors) \<and>
      (idt_p (idt ?st v) = 1 \<and> idt_dpl (idt ?st v) = 3 \<longleftrightarrow> v \<in> {0x40, 0x50}) \<and>
      (idt_p (idt ?st v) = 1 \<longrightarrow> idt_type (idt ?st v) = IDT_DES_TYPE_32_INTERRUPT_GATE \<and>
         segment_selector (idt ?st v) = ucast GDT_SELECTOR_KCODE)" if "v < 256" for v
    using that
    by (simp only: gates_idt st1) (auto simp: late_gates_def early_gates_def interrupt_gate_def kernel_vectors_def kidt_init_def
        s_idt_write_def MAX_IDT_DESC_COUNT_def)
  ultimately show ?thesis
    by blast
qed

definition sample_entries :: entry_points where
  "sample_entries = \<lparr>div_zero_asm_handler = 0xC0100000, double_fault_asm_handler = 0xC0100010, page_fault_asm_handler = 0xC0100020,
     general_protection_fault_asm_handler = 0xC0100030, breakpoint_asm_handler = 0xC0100040,
     invalid_opcode_asm_handler = 0xC0100050, sys_dummy_asm_handler = 0xC0100060, syscall_asm_handler = 0xC0100070,
     timer_interrupt_asm_handler = 0xC0100080, irq_7_asm_handler = 0xC0100090, irq_15_asm_handler = 0xC01000A0,
     ps2_mouse_interrupt_asm_handler = 0xC01000B0\<rparr>"

theorem idt_user_gates_witness:
  "\<exists>st'. setup_idt sample_entries sample_win = Some st' \<and> gate_offset (idt st' 0x50) = 0xC0100070
    \<and> idt_p (idt st' 14) = 1 \<and> idt_dpl (idt st' 14) \<noteq> 3 \<and> idt_dpl (idt st' 0x50) = 3 \<and> idt_p (idt st' 0x51) \<noteq> 1"
proof -
  obtain st' where st': "setup_idt sample_entries sample_win = Some st'" "gate_offset (idt st' 0x50) = syscall_asm_handler sample_entries"
      "\<forall>v < 256. (idt_p (idt st' v) = 1 \<longleftrightarrow> v \<in> kernel_vectors) \<and>
        (idt_p (idt st' v) = 1 \<and> idt_dpl (idt st' v) = 3 \<longleftrightarrow> v \<in> {0x40, 0x50})"
    using idt_user_gates [of sample_entries sample_win] by blast
  then show ?thesis
    using st'(3) [rule_format, of 14] st'(3) [rule_format, of "0x50"] st'(3) [rule_format, of "0x51"]
    by (intro exI [of _ st']) (simp add: kernel_vectors_def sample_entries_def)
qed

section \<open>Blocks of pages\<close>

text \<open>The number of pages from \<open>i\<close> on, below \<open>e\<close>, that have the state of page \<open>i\<close>.\<close>

definition block_length :: "BitmapState list \<Rightarrow> nat \<Rightarrow> nat \<Rightarrow> nat" where
  "block_length fs i e = length (takeWhile (\<lambda>s. s = fs ! i) (take (e - i) (drop i fs)))"

abbreviation page_address :: "nat \<Rightarrow> Physical" where
  "page_address i \<equiv> of_nat (4096 * i)"

lemma frames_addressable: "pmm_inv st \<Longrightarrow> length (frames st) * 4096 < 2 ^ 32"
  using pmm_wf_size [of st] length_frames [of st] by (simp add: pmm_inv_def pmm_wf_def Let_def)

lemma unat_page_address: "i * 4096 < 2 ^ 32 \<Longrightarrow> unat (page_address i) = 4096 * i"
  by (simp add: unat_of_nat_word32 mult.commute del: of_nat_mult)

lemma page_status:
  assumes "pmm_inv st" "i < length (frames st)"
  shows "kpmm_getPageStatus (page_address i) st = Some (frames st ! i, st)"
proof -
  have "unat (page_address i) = 4096 * i"
    using assms frames_addressable [of st] by (intro unat_page_address) auto
  then show ?thesis
    using kpmm_getPageStatus_used [OF assms(1), of "page_address i"] assms(2) by (simp add: IS_ALIGNED_4096)
qed

lemma blockPages_loop_eq:
  assumes inv: "pmm_inv st" and valid: "\<forall>s \<in> set (frames st). s \<noteq> PMM_STATE_INVALID"
    and e: "e < length (frames st)" and i: "i \<le> e"
  shows "blockPages_loop s (frames st ! i) (page_address i) (page_address e) k st =
    Some (k + of_nat (length (takeWhile (\<lambda>x. x = s) (take (e - i) (drop i (frames st))))), st)"
  using i
proof (induction "e - i" arbitrary: i k)
  case 0
  then show ?case
    by (simp add: blockPages_loop.simps)
next
  case (Suc n)
  then have le: "i < e" by simp
  have lt: "page_address i < page_address e"
    using le e frames_addressable [OF inv] by (simp add: word_less_nat_alt unat_page_address del: of_nat_mult)
  have ip: "page_address i + CONFIG_PAGE_FRAME_SIZE_BYTES = page_address (Suc i)"
    by (simp add: CONFIG_PAGE_FRAME_SIZE_BYTES_def algebra_simps)
  have d: "take (e - i) (drop i (frames st)) = frames st ! i # take (e - Suc i) (drop (Suc i) (frames st))"
    using le e by (simp add: Cons_nth_drop_Suc [symmetric] take_Cons' Suc_diff_Suc)
  have "frames st ! Suc i \<noteq> PMM_STATE_INVALID"
    using valid le e by simp
  then show ?case
    using Suc.hyps(1) [of "Suc i" "k + 1"] Suc.hyps(2) le e lt page_status [OF inv, of "Suc i"]
    by (subst blockPages_loop.simps) (auto simp: ip d simp del: of_nat_mult)
qed

text \<open>
  The size of a block of pages. When no page has the invalid state, \<open>s_getPhysicalBlockPageCount\<close> returns for every page below the
  end of a region whose end is a page the manager knows about: the count is the length of the longest block that starts there,
  has one state and ends with the region, and the state of the kernel is unchanged.
\<close>

lemma block_page_count:
  assumes "pmm_inv st" "\<forall>s \<in> set (frames st). s \<noteq> PMM_STATE_INVALID" "e < length (frames st)" "i < e"
  shows "s_getPhysicalBlockPageCount (page_address i) (page_address e) st = Some (of_nat (block_length (frames st) i e), st)"
  using blockPages_loop_eq [OF assms(1-3), of i "frames st ! i" 0] page_status [OF assms(1), of i] assms(3,4)
  by (simp add: s_getPhysicalBlockPageCount_def block_length_def del: of_nat_mult)

lemma block_length_bounds:
  assumes "i < e" "e < length fs"
  shows "0 < block_length fs i e" "i + block_length fs i e \<le> e" "i \<le> j \<Longrightarrow> j < i + block_length fs i e \<Longrightarrow> fs ! j = fs ! i"
proof -
  have d: "take (e - i) (drop i fs) = fs ! i # take (e - Suc i) (drop (Suc i) fs)"
    using assms by (simp add: Cons_nth_drop_Suc [symmetric] take_Cons' Suc_diff_Suc)
  then show "0 < block_length fs i e"
    by (simp add: block_length_def)
  have le: "block_length fs i e \<le> length (take (e - i) (drop i fs))"
    unfolding block_length_def by (rule length_takeWhile_le)
  then show "i + block_length fs i e \<le> e"
    using assms by simp
  assume j: "i \<le> j" "j < i + block_length fs i e"
  then have "takeWhile (\<lambda>s. s = fs ! i) (take (e - i) (drop i fs)) ! (j - i) = fs ! i"
    using set_takeWhileD [OF nth_mem [of "j - i" "takeWhile (\<lambda>s. s = fs ! i) (take (e - i) (drop i fs))"]]
    by (simp add: block_length_def)
  then have "take (e - i) (drop i fs) ! (j - i) = fs ! i"
    using j by (subst (asm) takeWhile_nth) (auto simp: block_length_def)
  then show "fs ! j = fs ! i"
    using j le assms by simp
qed

section \<open>What unmapping changes\<close>

definition pm_only :: "'a paging_state_scheme \<Rightarrow> 'a paging_state_scheme \<Rightarrow> bool" where
  "pm_only st st' \<longleftrightarrow> st' = st\<lparr>pm := pm st', errorNumber := errorNumber st'\<rparr>"

lemma pm_only_refl: "pm_only st st"
  by (simp add: pm_only_def)

lemma pm_only_trans: "pm_only st st1 \<Longrightarrow> pm_only st1 st2 \<Longrightarrow> pm_only st st2"
  by (cases st; cases st1; cases st2) (simp add: pm_only_def)

lemma pm_only_error: "pm_only st st' \<Longrightarrow> pm_only st (st'\<lparr>errorNumber := c\<rparr>)"
  by (cases st; cases st') (simp add: pm_only_def)

lemma pm_only_vwrite: "vwrite va w st = Some st' \<Longrightarrow> pm_only st st'"
  by (auto simp: vwrite_def set_word_def pm_only_def elim!: bind_SomeE)

lemma pm_only_temporary:
  "s_internal_temporaryMap pa st = Some (va, st') \<Longrightarrow> pm_only st st'"
  "s_internal_temporaryUnmap st = Some st' \<Longrightarrow> pm_only st st'"
  by (auto simp: s_internal_temporaryMap_def s_internal_temporaryUnmap_def s_temporaryMap_def s_temporaryUnmap_def s_setupPTE_def
      elim!: bind_SomeE split: if_splits intro: pm_only_error pm_only_refl pm_only_vwrite)

lemma pm_only_unmap: "kpg_unmap pd va st = Some (r, st') \<Longrightarrow> pm_only st st'"
  by (auto simp: kpg_unmap_def elim!: bind_SomeE split: if_splits dest!: pm_only_temporary pm_only_vwrite)
    (rule pm_only_error | rule pm_only_refl | erule (1) pm_only_trans | (erule pm_only_trans, erule (1) pm_only_trans))+

lemma pm_only_fields:
  fixes st st' :: "'a vmm_state_scheme"
  assumes "pm_only st st'"
  shows "s_pab st' = s_pab st" "s_pmm_completeRegion st' = s_pmm_completeRegion st" "s_next st' = s_next st"
    "s_start st' = s_start st" "phase st' = phase st" "cr3 st' = cr3 st" "kcontext st' = kcontext st" "vmms st' = vmms st"
    "vas_list st' = vas_list st" "vas_at st' = vas_at st"
  using assms unfolding pm_only_def by (cases st; cases st'; simp)+

lemma pm_only_frames: "pm_only st st' \<Longrightarrow> frames st' = frames (st :: 'a vmm_state_scheme)"
  unfolding frames_def by (rule bitmap_states_cong) (simp_all add: s_getBitmapFromRegion_def Let_def pm_only_fields)

section \<open>Address spaces before the heap\<close>

text \<open>
  The memory managers during the start, with the pages below \<open>i\<close> dealt with: the paging structures are well formed, the heap is not ready, and
  the address spaces of the kernel lie below page \<open>i\<close> of the higher half.
\<close>

abbreviation boot_va :: "nat \<Rightarrow> PTR" where
  "boot_va i \<equiv> HIGHER_HALF_KERNEL_TO_VA (page_address i)"

definition boot_ok :: "PTR \<Rightarrow> UINT \<Rightarrow> PTR \<Rightarrow> nat \<Rightarrow> 'a vmm_state_scheme \<Rightarrow> bool" where
  "boot_ok v f pd i st \<longleftrightarrow> paging_ok pd f st \<and> salloc_inv st \<and> \<not> KMALLOC_READY \<le> phase st \<and> v \<noteq> 0 \<and> kcontext st = v
     \<and> vm_start (vmms st v) = 0xC0000000 \<and> vm_end (vmms st v) = 0xFFBFFFFF
     \<and> (\<exists>xs. ring (vas_list st v) xs \<and> (\<forall>x \<in> set xs. 0 < x \<and> x < s_next st))
     \<and> spaced 0xC0000000 (0xC0000000 + 4096 * i) (spaces v st)"

definition static_space :: "PTR \<Rightarrow> SIZE \<Rightarrow> VMemoryAddressSpace" where
  "static_space start len = \<lparr>vas_isStaticAllocated = True, vas_flags = RESERVED_PAGES, start_vm = start, allocationSzBytes = len, share = 0\<rparr>"

lemma unat_boot_va: "i \<le> 1024 \<Longrightarrow> unat (boot_va i) = 0xC0000000 + 4096 * i"
  using unat_page_address [of i] by (simp add: HIGHER_HALF_KERNEL_TO_VA_def unat_add_word32 del: of_nat_mult)

lemma boot_va_nonzero: "i \<le> 1024 \<Longrightarrow> boot_va i \<noteq> 0"
  using unat_boot_va [of i] by (auto simp del: of_nat_mult)

lemma kscalloc_space:
  assumes inv: "salloc_inv st" and room: "salloc_used st + 48 \<le> 0x20000"
  shows "kscalloc sizeof_VMemoryAddressSpace st =
      Some (s_next st, st\<lparr>s_next := s_next st + 48, kmem := k_memset (s_next st) 0 48 (kmem st)\<rparr>)"
    and "salloc_inv (st\<lparr>s_next := s_next st + 48\<rparr>)" "salloc_used (st\<lparr>s_next := s_next st + 48\<rparr>) = salloc_used st + 48"
    and "0 < s_next st" "s_next st < s_next st + 48"
proof -
  have al: "ALIGN_UP 44 SALLOC_GRANUALITY = 48" "ALIGN_UP 48 SALLOC_GRANUALITY = 48" "round8 48 = 48"
    by (simp_all add: ALIGN_UP_def ALIGN_DOWN_def SALLOC_GRANUALITY_def round8_def IS_ALIGNED_def)
  note S = ksalloc_success_inv [OF inv, of 48, unfolded al]
  have "s_next st \<noteq> 0"
    using inv by (auto simp: salloc_inv_def)
  then show "0 < s_next st"
    by (simp add: word_neq_0_conv)
  show "kscalloc sizeof_VMemoryAddressSpace st =
      Some (s_next st, st\<lparr>s_next := s_next st + 48, kmem := k_memset (s_next st) 0 48 (kmem st)\<rparr>)"
    using inv room \<open>s_next st \<noteq> 0\<close> ksalloc_cases [OF inv, of 48]
    by (simp add: kscalloc_def sizeof_VMemoryAddressSpace_def al ARCH_MEM_LEN_BYTES_SALLOC_def salloc_inv_def)
  show "salloc_inv (st\<lparr>s_next := s_next st + 48\<rparr>)"
    using S(1) room by (simp add: ARCH_MEM_LEN_BYTES_SALLOC_def)
  have u: "unat (s_next st + 48) = unat (s_next st) + 48"
    using S(2) room by (simp add: ARCH_MEM_LEN_BYTES_SALLOC_def)
  then show "s_next st < s_next st + 48"
    by (simp add: word_less_nat_alt)
  show "salloc_used (st\<lparr>s_next := s_next st + 48\<rparr>) = salloc_used st + 48"
    using u inv by (simp add: salloc_used_def salloc_inv_def)
qed

text \<open>The loop over the list adds a space above all others at the end.\<close>

lemma addVas_loop_end:
  assumes "\<forall>x \<in> set xs. x \<noteq> 0 \<and> 0 < sz (vas_at st x) \<and> hi (vas_at st x) \<le> lo (vas_at st new)"
    and "0 < sz (vas_at st new)" "hi (vas_at st new) < 2 ^ 32"
  shows "addVas_loop v new xs st = Some (new, update_list v (list_add_before HeadNode (NodeOf new)) st)"
  using assms(1)
proof (induction xs)
  case (Cons x xs)
  have last: "unat (vas_last w) = hi w - 1" if "0 < sz w" "hi w < 2 ^ 32" for w
    using that by (simp add: vas_last_def unat_sub_word32 unat_end unat_add_word32)
  have "hi (vas_at st x) < 2 ^ 32"
    using Cons.prems assms(3) by auto
  then show ?case
    using Cons assms(2,3) by (auto simp: Let_def word_le_nat_alt word_less_nat_alt last)
qed simp

text \<open>The paging structures depend on the page tables and on the frames only.\<close>

lemma paging_ok_cong:
  assumes "pm st' = pm st" "cr3 st' = cr3 st" "s_pab st' = s_pab st" "s_pmm_completeRegion st' = s_pmm_completeRegion st"
    "regionLength st' = regionLength st" "phase st' = phase st"
  shows "frames st' = frames st" "paging_ok pd f st \<Longrightarrow> paging_ok pd f st'"
proof -
  show fr: "frames st' = frames st"
    unfolding frames_def by (rule bitmap_states_cong) (simp_all add: s_getBitmapFromRegion_def Let_def assms)
  have nf: "not_free st' = not_free st"
    by (simp add: not_free_def fun_eq_iff fr)
  have pt: "kernel_pt st' = kernel_pt st"
    by (simp add: kernel_pt_def assms)
  have "pmm_inv st' = pmm_inv st"
    by (simp add: pmm_inv_def pmm_wf_def usable_pages_def fr assms)
  then show "paging_ok pd f st \<Longrightarrow> paging_ok pd f st'"
    by (simp add: paging_ok_def kernel_maps_def dir_ptr_def slot_used_def dir_wf_def structs_used_def assms nf pt)
qed

lemma PAGEFRAMES_of_nat: "n < 2 ^ 20 \<Longrightarrow> PAGEFRAMES_TO_BYTES (of_nat n) = of_nat (4096 * n)"
  by (simp add: word_unat_eq_iff unat_kdefs unat_of_nat_word32 unat_page_address del: of_nat_mult)

lemma early_append:
  assumes ok: "boot_ok v f pd i st" and n: "0 < n" "i + n \<le> 1024" and room: "salloc_used st + 48 \<le> 0x20000"
  shows "\<exists>st'. kvmm_memmap v (boot_va i) None (of_nat n) RESERVED_PAGES st = Some ((boot_va i, None), st')
    \<and> boot_ok v f pd (i + n) st' \<and> spaces v st' = spaces v st @ [static_space (boot_va i) (of_nat (4096 * n))]
    \<and> frames st' = frames st \<and> pm st' = pm st \<and> salloc_used st' = salloc_used st + 48"
proof -
  obtain xs where inv: "paging_ok pd f st" "salloc_inv st" "\<not> KMALLOC_READY \<le> phase st" "v \<noteq> 0" "kcontext st = v"
      "vm_start (vmms st v) = 0xC0000000" "vm_end (vmms st v) = 0xFFBFFFFF"
      and xs: "ring (vas_list st v) xs" "\<forall>x \<in> set xs. 0 < x \<and> x < s_next st"
      and sp: "spaced 0xC0000000 (0xC0000000 + 4096 * i) (spaces v st)"
    using ok by (auto simp: boot_ok_def)
  have spx: "spaces v st = map (vas_at st) xs"
    using il.repr_items [OF xs(1)] by (simp add: spaces_def)
  let ?va = "boot_va i" and ?len = "of_nat (4096 * n) :: SIZE" and ?new = "s_next st"
  let ?w = "static_space ?va ?len"
  have va: "unat ?va = 0xC0000000 + 4096 * i" and len: "unat ?len = 4096 * n"
    using n unat_boot_va [of i] unat_page_address [of n] by simp_all
  have sum: "unat (?va + ?len) = 0xC0000000 + 4096 * (i + n)"
    using n va len by (simp add: unat_add_word32 del: of_nat_mult)
  note K = kscalloc_space [OF inv(2) room]
  have fresh: "?new \<notin> set xs"
    using xs(2) by auto
  let ?st1 = "st\<lparr>s_next := ?new + 48, kmem := k_memset ?new 0 48 (kmem st), vas_at := (vas_at st)(?new := ?w),
     vas_list := (vas_list st)(v := list_init (NodeOf ?new) (vas_list st v))\<rparr>"
  have create: "createNewVirtAddrSpace v ?va ?len RESERVED_PAGES st = Some (?new, ?st1)"
    using inv(3) K(1,4) len
    by (simp add: createNewVirtAddrSpace_def KERNEL_PHASE_CHECK_def word_neq_0_conv IS_ALIGNED_4096 CONFIG_PAGE_FRAME_SIZE_BYTES_def
        static_space_def del: of_nat_mult)
  have r1: "ring (vas_list ?st1 v) xs"
    using ring_frame [OF xs(1) fresh] by simp
  have each: "\<forall>x \<in> set xs. x \<noteq> 0 \<and> 0 < sz (vas_at ?st1 x) \<and> hi (vas_at ?st1 x) \<le> lo (vas_at ?st1 ?new)"
    using xs(2) fresh spaced_bounds(2) [OF sp] va by (auto simp: spx static_space_def word_neq_0_conv)
  define l where "l = (if xs = [] then list_add_after else list_add_before) HeadNode (NodeOf ?new) (vas_list ?st1 v)"
  have rl: "ring l (xs @ [?new])"
    using r1 il.repr_add_front [OF r1, of ?new] il.repr_add_back [OF r1 fresh] by (auto simp: l_def)
  let ?st = "?st1\<lparr>vas_list := (vas_list ?st1)(v := l)\<rparr>"
  have w: "0 < sz (vas_at ?st1 ?new)" "hi (vas_at ?st1 ?new) < 2 ^ 32"
    using n va len by (simp_all add: static_space_def del: of_nat_mult)
  have "addVas_loop v ?new xs ?st1 = Some (?new, update_list v (list_add_before HeadNode (NodeOf ?new)) ?st1)"
    by (rule addVas_loop_end [OF each w])
  moreover have "list_is_empty (vas_list ?st1 v) \<longleftrightarrow> xs = []" "list_for_each (vas_list ?st1 v) = Some xs"
    using r1 by (rule list_is_empty_iff, rule il.repr_items)
  moreover have "IS_ALIGNED ?va 4096" "\<not> ?va < vm_start (vmms st v)" "\<not> vm_end (vmms st v) < ?va + ?len"
    using va sum n inv(6,7) by (simp_all add: IS_ALIGNED_4096 word_less_nat_alt del: of_nat_mult)
  ultimately have add: "addNewVirtualAddressSpace v ?va (of_nat n) RESERVED_PAGES st = Some (?new, ?st)"
    using n create K(4) PAGEFRAMES_of_nat [of n]
    by (simp add: addNewVirtualAddressSpace_def Let_def CONFIG_PAGE_FRAME_SIZE_BYTES_def word_neq_0_conv l_def del: of_nat_mult)
  have new0: "?new \<noteq> 0"
    using K(4) by auto
  have "?va \<noteq> 0"
    using n by (intro boot_va_nonzero) simp
  then have call: "kvmm_memmap v ?va None (of_nat n) RESERVED_PAGES st = Some ((?va, None), ?st)"
    using inv(4) new0 add memmap_lazy [OF inv(4), of RESERVED_PAGES ?va None "of_nat n" st]
    by (simp add: BIT_ISUNSET_def BIT_ISSET_def VMM_MEMMAP_FLAG_KERNEL_PAGE_def VMM_MEMMAP_FLAG_COMMITTED_def
        VMM_MEMMAP_FLAG_IMMCOMMIT_def del: of_nat_mult)
  have sp': "spaces v ?st = spaces v st @ [?w]"
    using fresh il.repr_items [OF rl] by (simp add: spaces_def spx [unfolded spaces_def])
  have "spaced 0xC0000000 (0xC0000000 + 4096 * (i + n)) (spaces v ?st)"
    unfolding sp' spaced_append using sp va len n by (intro exI [of _ "0xC0000000 + 4096 * i"]) (simp add: static_space_def del: of_nat_mult)
  moreover have "paging_ok pd f ?st" "frames ?st = frames st"
    by (rule paging_ok_cong(2) [OF _ _ _ _ _ _ inv(1)]; simp) (rule paging_ok_cong(1); simp)
  moreover have "salloc_inv ?st" "salloc_used ?st = salloc_used st + 48"
    using K(2,3) by (simp_all add: salloc_inv_def salloc_used_def)
  moreover have "\<exists>ys. ring (vas_list ?st v) ys \<and> (\<forall>x \<in> set ys. 0 < x \<and> x < s_next ?st)"
    using rl xs(2) K(4,5) by (intro exI [of _ "xs @ [?new]"]) (auto intro: less_trans)
  ultimately have "boot_ok v f pd (i + n) ?st"
    using inv(3-7) unfolding boot_ok_def by simp
  then show ?thesis
    using call sp' \<open>frames ?st = frames st\<close> \<open>salloc_used ?st = salloc_used st + 48\<close> by (intro exI [of _ ?st]) simp
qed

text \<open>Page \<open>j\<close> of the higher half belongs to one of the spaces.\<close>

definition covered :: "VMemoryAddressSpace list \<Rightarrow> nat \<Rightarrow> bool" where
  "covered vs j \<longleftrightarrow> (\<exists>s \<in> set vs. contains_va s (boot_va j))"

lemma boot_va_page:
  assumes "j \<le> 512"
  shows "drop_bit 12 (boot_va j) = of_nat (0xC0000 + j)" "managed_va (boot_va j)" "IS_ALIGNED (boot_va j) 4096"
proof -
  have u: "unat (boot_va j) = 0xC0000000 + 4096 * j"
    using assms unat_boot_va [of j] by (simp del: of_nat_mult)
  have "unat (drop_bit 12 (boot_va j)) = drop_bit 12 (0xC0000000 + 4096 * j)" "unat (drop_bit 22 (boot_va j)) = drop_bit 22 (0xC0000000 + 4096 * j)"
    using assms by (simp_all only: unsigned_drop_bit_eq u) (simp_all add: take_bit_nat_eq_self)
  then have 12: "unat (drop_bit 12 (boot_va j)) = 0xC0000 + j" and 22: "unat (drop_bit 22 (boot_va j)) = 768"
    using assms by (simp_all only: drop_bit_eq_div) simp_all
  show d: "drop_bit 12 (boot_va j) = of_nat (0xC0000 + j)"
    using 12 assms by (simp add: word_unat_eq_iff unat_of_nat_word32 del: of_nat_mult of_nat_add)
  have "drop_bit 22 (boot_va j) \<noteq> 1023" "drop_bit 12 (boot_va j) \<noteq> 0xC03FE" "drop_bit 12 (boot_va j) \<noteq> 0xC03FF"
    using 12 22 assms by (auto simp: word_unat_eq_iff simp del: of_nat_mult)
  then show "managed_va (boot_va j)"
    by (simp add: managed_va_def del: of_nat_mult)
  show "IS_ALIGNED (boot_va j) 4096"
    using u by (simp add: IS_ALIGNED_4096 del: of_nat_mult)
qed

lemma boot_va_inj: "i \<le> 512 \<Longrightarrow> j \<le> 512 \<Longrightarrow> drop_bit 12 (boot_va i) = drop_bit 12 (boot_va j) \<longleftrightarrow> i = j"
  by (simp only: boot_va_page) (simp add: word_unat_eq_iff unat_of_nat_word32 del: of_nat_add)

lemma covered_static:
  assumes "i + n \<le> 512" "j \<le> 512"
  shows "contains_va (static_space (boot_va i) (of_nat (4096 * n))) (boot_va j) \<longleftrightarrow> i \<le> j \<and> j < i + n"
proof -
  have u: "unat (boot_va i) = 0xC0000000 + 4096 * i" "unat (boot_va j) = 0xC0000000 + 4096 * j" "unat (page_address n) = 4096 * n"
    using assms by (simp_all add: unat_boot_va unat_page_address del: of_nat_mult)
  then have "unat (boot_va i + page_address n) = 0xC0000000 + 4096 * (i + n)"
    using assms by (simp add: unat_add_word32 del: of_nat_mult)
  then show ?thesis
    using u by (simp add: contains_va_def static_space_def word_le_nat_alt word_less_nat_alt del: of_nat_mult) arith
qed

lemma spaced_mono: "spaced a e vs \<Longrightarrow> e \<le> e' \<Longrightarrow> spaced a e' vs"
  by (induction a e vs rule: spaced.induct) auto

definition page_states :: "BitmapState list \<Rightarrow> bool" where
  "page_states fs \<longleftrightarrow> set fs \<subseteq> {PMM_STATE_FREE, PMM_STATE_USED, PMM_STATE_RESERVED}"

text \<open>What the loop does from page \<open>i\<close> on.\<close>

definition mirrored :: "PTR \<Rightarrow> UINT \<Rightarrow> nat \<Rightarrow> nat \<Rightarrow> 'a vmm_state_scheme \<Rightarrow> 'a vmm_state_scheme \<Rightarrow> bool" where
  "mirrored v f i e st st' \<longleftrightarrow> frames st' = frames st
     \<and> (\<exists>new. spaces v st' = spaces v st @ new \<and> (\<forall>j < i. \<not> covered new j)
          \<and> (\<forall>j. i \<le> j \<and> j < e \<longrightarrow> (covered new j \<longleftrightarrow> frames st ! j \<noteq> PMM_STATE_FREE)))
     \<and> (\<forall>va. managed_va va \<longrightarrow> walk (pm st') f va =
          (if \<exists>j. i \<le> j \<and> j < e \<and> frames st ! j = PMM_STATE_FREE \<and> drop_bit 12 va = drop_bit 12 (boot_va j)
           then None else walk (pm st) f va))"

lemma mirroredE:
  assumes "mirrored v f i e st st'"
  obtains new where "frames st' = frames st" "spaces v st' = spaces v st @ new" "\<And>j. j < i \<Longrightarrow> \<not> covered new j"
    "\<And>j. i \<le> j \<Longrightarrow> j < e \<Longrightarrow> covered new j \<longleftrightarrow> frames st ! j \<noteq> PMM_STATE_FREE"
    "\<And>va. managed_va va \<Longrightarrow> walk (pm st') f va =
       (if \<exists>j. i \<le> j \<and> j < e \<and> frames st ! j = PMM_STATE_FREE \<and> drop_bit 12 va = drop_bit 12 (boot_va j)
        then None else walk (pm st) f va)"
  using assms unfolding mirrored_def by blast

lemma mirrored_free:
  assumes m: "mirrored v f (Suc i) e st1 st'" and fr: "frames st1 = frames st" "frames st ! i = PMM_STATE_FREE" and e: "i < e"
    and sp: "spaces v st1 = spaces v st" and w: "walk (pm st1) f (boot_va i) = None"
      "\<forall>va. managed_va va \<longrightarrow> drop_bit 12 va \<noteq> drop_bit 12 (boot_va i) \<longrightarrow> walk (pm st1) f va = walk (pm st) f va"
  shows "mirrored v f i e st st'"
proof -
  from m obtain new where n: "frames st' = frames st1" "spaces v st' = spaces v st1 @ new" "\<And>j. j < Suc i \<Longrightarrow> \<not> covered new j"
      "\<And>j. Suc i \<le> j \<Longrightarrow> j < e \<Longrightarrow> covered new j \<longleftrightarrow> frames st ! j \<noteq> PMM_STATE_FREE"
    and tr: "\<And>va. managed_va va \<Longrightarrow> walk (pm st') f va =
      (if \<exists>j. Suc i \<le> j \<and> j < e \<and> frames st ! j = PMM_STATE_FREE \<and> drop_bit 12 va = drop_bit 12 (boot_va j)
       then None else walk (pm st1) f va)"
    by (rule mirroredE) (simp add: fr(1) del: of_nat_mult)
  have c: "covered new j \<longleftrightarrow> frames st ! j \<noteq> PMM_STATE_FREE" if "i \<le> j" "j < e" for j
    using that n(3,4) fr by (cases "i = j") auto
  have "walk (pm st') f va = (if \<exists>j. i \<le> j \<and> j < e \<and> frames st ! j = PMM_STATE_FREE \<and> drop_bit 12 va = drop_bit 12 (boot_va j)
      then None else walk (pm st) f va)" if va: "managed_va va" for va
  proof (cases "drop_bit 12 va = drop_bit 12 (boot_va i)")
    case True
    then have "walk (pm st1) f va = None"
      using w(1) walk_same_page [of va "boot_va i"] by simp
    then have "walk (pm st') f va = None"
      using tr [OF va] by simp
    moreover have "\<exists>j. i \<le> j \<and> j < e \<and> frames st ! j = PMM_STATE_FREE \<and> drop_bit 12 va = drop_bit 12 (boot_va j)"
      using True e fr(2) by blast
    ultimately show ?thesis
      by (simp only: if_True)
  next
    case False
    have "(\<exists>j. i \<le> j \<and> j < e \<and> frames st ! j = PMM_STATE_FREE \<and> drop_bit 12 va = drop_bit 12 (boot_va j)) \<longleftrightarrow>
        (\<exists>j. Suc i \<le> j \<and> j < e \<and> frames st ! j = PMM_STATE_FREE \<and> drop_bit 12 va = drop_bit 12 (boot_va j))"
      using False by (metis Suc_leI le_neq_implies_less Suc_leD)
    moreover have "walk (pm st1) f va = walk (pm st) f va"
      using w(2) va False by blast
    ultimately show ?thesis
      by (simp only: tr [OF va])
  qed
  moreover have "\<forall>j < i. \<not> covered new j"
    using n(3) by simp
  ultimately show ?thesis
    unfolding mirrored_def using fr(1) n(1,2) c sp by (intro conjI exI [of _ new]) (simp_all del: of_nat_mult)
qed

lemma mirrored_block:
  assumes m: "mirrored v f (i + n) e st1 st'" and fr: "frames st1 = frames st" and e: "i + n \<le> e" "e \<le> 512"
    and sp: "spaces v st1 = spaces v st @ [static_space (boot_va i) (of_nat (4096 * n))]" and pm: "pm st1 = pm st"
    and used: "\<forall>j. i \<le> j \<and> j < i + n \<longrightarrow> frames st ! j \<noteq> PMM_STATE_FREE"
  shows "mirrored v f i e st st'"
proof -
  from m obtain new where n: "frames st' = frames st1" "spaces v st' = spaces v st1 @ new" "\<And>j. j < i + n \<Longrightarrow> \<not> covered new j"
      "\<And>j. i + n \<le> j \<Longrightarrow> j < e \<Longrightarrow> covered new j \<longleftrightarrow> frames st ! j \<noteq> PMM_STATE_FREE"
    and tr: "\<And>va. managed_va va \<Longrightarrow> walk (pm st') f va =
      (if \<exists>j. i + n \<le> j \<and> j < e \<and> frames st ! j = PMM_STATE_FREE \<and> drop_bit 12 va = drop_bit 12 (boot_va j)
       then None else walk (pm st) f va)"
    unfolding mirrored_def fr pm by blast
  let ?new = "static_space (boot_va i) (of_nat (4096 * n)) # new"
  have cov: "covered ?new j \<longleftrightarrow> i \<le> j \<and> j < i + n \<or> covered new j" if "j < e" for j
    using covered_static [of i n j] e that by (auto simp: covered_def simp del: of_nat_mult)
  have c: "covered ?new j \<longleftrightarrow> frames st ! j \<noteq> PMM_STATE_FREE" if "i \<le> j" "j < e" for j
    using cov [OF that(2)] n(4) [of j] used that by (cases "j < i + n") (simp_all add: del: of_nat_mult)
  have low: "\<not> covered ?new j" if "j < i" for j
    using cov [of j] n(3) [of j] e that by simp
  have "(\<exists>j. i \<le> j \<and> j < e \<and> frames st ! j = PMM_STATE_FREE \<and> drop_bit 12 va = drop_bit 12 (boot_va j)) \<longleftrightarrow>
      (\<exists>j. i + n \<le> j \<and> j < e \<and> frames st ! j = PMM_STATE_FREE \<and> drop_bit 12 va = drop_bit 12 (boot_va j))" for va
    using used by (metis add_leD1 not_le)
  then show ?thesis
    unfolding mirrored_def using fr n(1,2) c low sp tr by (intro conjI exI [of _ ?new]) (simp_all del: of_nat_mult)
qed

lemma page_address_lt:
  assumes "i < e" "e \<le> 512"
  shows "page_address i < page_address e" "page_address i + page_address n = page_address (i + n)"
  using assms by (simp_all add: word_less_nat_alt unat_page_address distrib_left del: of_nat_mult)

lemma region_loop_spec:
  assumes "boot_ok v f pd i st" "i \<le> e" "e \<le> 512" "e < length (frames st)" "page_states (frames st)"
    and "salloc_used st + 48 * (e - i) \<le> 0x20000" "\<forall>j. i \<le> j \<and> j < e \<longrightarrow> walk (pm st) f (boot_va j) \<noteq> None"
  shows "\<exists>st'. region_loop (page_address i) (page_address e) pd st = Some st' \<and> boot_ok v f pd e st' \<and> mirrored v f i e st st'"
  using assms
proof (induction "e - i" arbitrary: i st rule: less_induct)
  case less
  note ok = less.prems(1)
  show ?case
  proof (cases "i = e")
    case True
    then show ?thesis
      using ok by (subst region_loop.simps) (auto simp: mirrored_def covered_def simp del: of_nat_mult)
  next
    case False
    then have ie: "i < e" using less.prems(2) by simp
    have inv: "pmm_inv st" "paging_ok pd f st" "kcontext st = v"
      using ok paging_okD(6) by (auto simp: boot_ok_def)
    have il: "i < length (frames st)"
      using ie less.prems(4) by simp
    note lt = page_address_lt(1) [OF ie less.prems(3)] and ps = page_status [OF inv(1) il]
    show ?thesis
    proof (cases "frames st ! i = PMM_STATE_FREE")
      case True
      have "i \<le> 512" using ie less.prems(3) by simp
      then obtain st1 where u: "kpg_unmap pd (boot_va i) st = Some (True, st1)" "paging_ok pd f st1" "walk (pm st1) f (boot_va i) = None"
          "\<forall>va. managed_va va \<longrightarrow> drop_bit 12 va \<noteq> drop_bit 12 (boot_va i) \<longrightarrow> walk (pm st1) f va = walk (pm st) f va"
        using kpg_unmap_spec [OF inv(2) boot_va_page(2,3) [of i]] less.prems(7) ie by (auto simp del: of_nat_mult)
      note po = pm_only_unmap [OF u(1)]
      have fr: "frames st1 = frames st" and sp: "spaces v st1 = spaces v st" and su: "salloc_used st1 = salloc_used st"
        by (simp_all add: pm_only_frames [OF po] spaces_def salloc_used_def pm_only_fields [OF po])
      have "boot_ok v f pd (Suc i) st1"
        using ok u(2) sp spaced_mono [of _ _ "spaces v st" "0xC0000000 + 4096 * Suc i"]
        by (auto simp: boot_ok_def salloc_inv_def pm_only_fields [OF po])
      moreover have "walk (pm st1) f (boot_va j) \<noteq> None" if "Suc i \<le> j" "j < e" for j
        using u(4) less.prems(3,7) that boot_va_page(2) [of j] boot_va_inj [of j i] by (auto simp del: of_nat_mult)
      moreover have "salloc_used st1 + 48 * (e - Suc i) \<le> 0x20000"
        using su less.prems(6) by simp
      ultimately obtain st' where st': "region_loop (page_address (Suc i)) (page_address e) pd st1 = Some st'" "boot_ok v f pd e st'"
          "mirrored v f (Suc i) e st1 st'"
        using less.hyps [OF diff_less_mono2 [OF lessI ie], of st1] less.prems(3-6) ie fr su by (auto simp del: of_nat_mult)
      have "region_loop (page_address i) (page_address e) pd st = Some st'"
        using lt ps True u(1) st'(1) page_address_lt(2) [OF ie less.prems(3), of 1]
        by (subst region_loop.simps) (simp add: CONFIG_PAGE_FRAME_SIZE_BYTES_def add.commute del: of_nat_mult)
      then show ?thesis
        using st'(2) mirrored_free [OF st'(3) fr True ie sp u(3,4)] by blast
    next
      case used: False
      let ?n = "block_length (frames st) i e"
      note bl = block_length_bounds [OF ie less.prems(4)]
      have valid: "\<forall>s \<in> set (frames st). s \<noteq> PMM_STATE_INVALID"
        using less.prems(5) by (auto simp: page_states_def)
      have st: "frames st ! i = PMM_STATE_USED \<or> frames st ! i = PMM_STATE_RESERVED"
        using less.prems(5) used il nth_mem [OF il] unfolding page_states_def by blast
      have "salloc_used st + 48 \<le> 0x20000"
        using less.prems(6) ie by (simp add: Suc_diff_Suc)
      then obtain st1 where a: "kvmm_memmap v (boot_va i) None (of_nat ?n) RESERVED_PAGES st = Some ((boot_va i, None), st1)"
          "boot_ok v f pd (i + ?n) st1" "spaces v st1 = spaces v st @ [static_space (boot_va i) (of_nat (4096 * ?n))]"
          "frames st1 = frames st" "pm st1 = pm st" "salloc_used st1 = salloc_used st + 48"
        using early_append [OF ok bl(1)] bl(2) less.prems(3) by (auto simp del: of_nat_mult)
      have shorter: "e - (i + ?n) < e - i"
        using bl(1,2) by simp
      have "salloc_used st1 + 48 * (e - (i + ?n)) \<le> 0x20000"
        using a(6) less.prems(6) bl(1,2) by simp
      then obtain st' where st': "region_loop (page_address (i + ?n)) (page_address e) pd st1 = Some st'" "boot_ok v f pd e st'"
          "mirrored v f (i + ?n) e st1 st'"
        using less.hyps [of "i + ?n" st1, OF shorter] less.prems(3-7) ie a bl(1,2) by (auto simp del: of_nat_mult)
      have "boot_va i \<noteq> 0"
        using ie less.prems(3) by (intro boot_va_nonzero) simp
      moreover have "page_address i + PAGEFRAMES_TO_BYTES (of_nat ?n) = page_address (i + ?n)"
        using PAGEFRAMES_of_nat [of ?n] bl(2) less.prems(3) by (simp add: distrib_left del: of_nat_mult)
      moreover note block_page_count [OF inv(1) valid less.prems(4) ie]
      ultimately have "region_loop (page_address i) (page_address e) pd st = Some st'"
        using lt ps used st st'(1) a(1) inv(3) by (subst region_loop.simps) (simp only: if_True if_False Let_def
            bind.simps prod.case k_assert_def simp_thms)
      moreover have "\<forall>j. i \<le> j \<and> j < i + ?n \<longrightarrow> frames st ! j \<noteq> PMM_STATE_FREE"
        using bl(3) used by metis
      ultimately show ?thesis
        using st'(2) mirrored_block [OF st'(3) a(4) bl(2) less.prems(3) a(3,5)] by blast
    qed
  qed
qed

text \<open>
  C13. The memory managers agree after the start. Let the paging structures be well formed, the heap not yet initialised, the kernel's
  manager of virtual memory without address spaces, and the first \<open>e\<close> pages mapped in the higher half, \<open>e\<close> at most 512; let the
  static allocator have room for a space per page. Then the loop over these pages ends without a panic, whatever mixture of free, used and
  reserved blocks the physical memory manager records. Afterwards a page of the higher half belongs to an address space exactly
  when its frame is not free; the free ones are unmapped, all others translate as before; the physical memory manager is unchanged, and
  the paging structures and the list of address spaces, in order and without overlaps, are well formed.
\<close>

theorem region_loop_mirrors:
  assumes "boot_ok v f pd 0 st" "spaces v st = []" "e \<le> 512" "e < length (frames st)" "page_states (frames st)"
    and "salloc_used st + 48 * e \<le> 0x20000" "\<forall>j < e. walk (pm st) f (boot_va j) \<noteq> None"
  shows "\<exists>st'. region_loop 0 (page_address e) pd st = Some st' \<and> boot_ok v f pd e st' \<and> frames st' = frames st
    \<and> (\<forall>j < e. (covered (spaces v st') j \<longleftrightarrow> frames st ! j \<noteq> PMM_STATE_FREE)
        \<and> walk (pm st') f (boot_va j) = (if frames st ! j = PMM_STATE_FREE then None else walk (pm st) f (boot_va j)))"
proof -
  obtain st' where st': "region_loop 0 (page_address e) pd st = Some st'" "boot_ok v f pd e st'" "mirrored v f 0 e st st'"
    using region_loop_spec [OF assms(1) _ assms(3-5)] assms(6,7) by auto
  from st'(3) obtain new where n: "frames st' = frames st" "spaces v st' = new"
      "\<And>j. j < e \<Longrightarrow> covered new j \<longleftrightarrow> frames st ! j \<noteq> PMM_STATE_FREE"
    and tr: "\<And>va. managed_va va \<Longrightarrow> walk (pm st') f va =
      (if \<exists>j. 0 \<le> j \<and> j < e \<and> frames st ! j = PMM_STATE_FREE \<and> drop_bit 12 va = drop_bit 12 (boot_va j)
       then None else walk (pm st) f va)"
    unfolding mirrored_def assms(2) by auto
  have "walk (pm st') f (boot_va j) = (if frames st ! j = PMM_STATE_FREE then None else walk (pm st) f (boot_va j))" if "j < e" for j
  proof -
    have "(\<exists>k. 0 \<le> k \<and> k < e \<and> frames st ! k = PMM_STATE_FREE \<and> drop_bit 12 (boot_va j) = drop_bit 12 (boot_va k)) \<longleftrightarrow>
        frames st ! j = PMM_STATE_FREE"
      using that assms(3) boot_va_inj [of j] by fastforce
    then show ?thesis
      using tr [OF boot_va_page(2) [of j]] that assms(3) by simp
  qed
  then show ?thesis
    using st'(1,2) n by blast
qed

text \<open>A machine with four frames, the first one free, and the kernel's page table with the first three pages.\<close>

definition sample_start :: vmm_state where
  "sample_start = paging_state.extend (sample_paging\<lparr>s_pab := [0x54], phase := VMM_READY,
     pm := (\<lambda>_ _. 0)(1 := (\<lambda>_. 0)(768 := 0x2001, 1023 := 0x1001), 2 := (\<lambda>_. 0)(0 := 0x0001, 1 := 0x1001, 2 := 0x2001))\<rparr>)
     \<lparr>vmms = (\<lambda>_. \<lparr>vm_start = 0xC0000000, vm_end = 0xFFBFFFFF, vm_isStaticAllocated = True, parentProcessPD = 0x1000,
        pd_dirty = False, physicalRegion = PMM_REGION_ANY\<rparr>),
      vas_at = (\<lambda>_. new_space 0 0 0), vas_list = (\<lambda>_. list_init HeadNode \<lparr>nxt = \<lambda>_. NullNode, prv = \<lambda>_. NullNode\<rparr>),
      shares = (\<lambda>_. \<lparr>share_count = 0, refcount = 0\<rparr>), kcontext = 0xC0030000\<rparr>"

lemmas sample_start_defs = sample_start_def paging_state.defs sample_paging_def kmalloc_state.defs sample_kmalloc_def handle_state.defs
  sample_handles_def salloc_state.defs sample_salloc_def pmm_state.defs sample_pmm_def

lemma sample_start_fields:
  "s_pab sample_start = [0x54]" "s_pmm_completeRegion sample_start = s_pmm_completeRegion (sample_pmm [0x54])"
  "regionLength sample_start = regionLength (sample_pmm [0x54])" "phase sample_start = VMM_READY" "cr3 sample_start = 1"
  "pm sample_start = (\<lambda>_ _. 0)(1 := (\<lambda>_. 0)(768 := 0x2001, 1023 := 0x1001), 2 := (\<lambda>_. 0)(0 := 0x0001, 1 := 0x1001, 2 := 0x2001))"
  "s_next sample_start = 0xC0026000" "s_start sample_start = 0xC0026000" "kcontext sample_start = 0xC0030000"
  "vm_start (vmms sample_start v) = 0xC0000000" "vm_end (vmms sample_start v) = 0xFFBFFFFF"
  "vas_list sample_start v = list_init HeadNode \<lparr>nxt = \<lambda>_. NullNode, prv = \<lambda>_. NullNode\<rparr>"
  by (simp_all add: sample_start_defs)

lemma sample_start_frames: "frames sample_start = [0, 1, 1, 1]" "pmm_inv sample_start"
proof -
  have f: "frames sample_start = frames (sample_pmm [0x54])"
    unfolding frames_def by (rule bitmap_states_cong) (simp_all add: s_getBitmapFromRegion_def Let_def sample_start_fields, simp add: sample_pmm_def)
  then show "frames sample_start = [0, 1, 1, 1]"
    by (simp add: frames_sample_1)
  have "pmm_inv (sample_pmm [0x54])"
    by (rule sample_pmm_inv) simp
  then show "pmm_inv sample_start"
    unfolding pmm_inv_def pmm_wf_def usable_pages_def f sample_start_fields by (simp add: sample_pmm_def)
qed

lemma sample_start_entries: "entry_present 0x1" "entry_present 0x1001" "entry_present 0x2001" "\<not> entry_present 0"
  "entry_frame 0x1 = 0" "entry_frame 0x1001 = 1" "entry_frame 0x2001 = 2"
  by (simp_all add: entry_present_def entry_frame_def)

lemma sample_start_ok: "boot_ok 0xC0030000 1 0xFFFFF000 0 sample_start" "spaces 0xC0030000 sample_start = []"
proof -
  have pt: "kernel_pt sample_start = 2"
    by (simp add: kernel_pt_def sample_start_fields sample_start_entries)
  have nf: "not_free sample_start 1" "not_free sample_start 2"
    by (simp_all add: not_free_def sample_start_frames nth_Cons')
  have pg: "paging_ok 0xFFFFF000 1 sample_start"
    using sample_start_frames(2) nf
    unfolding paging_ok_def kernel_maps_def dir_ptr_def slot_used_def dir_wf_def structs_used_def pt
    by (simp add: sample_start_fields sample_start_entries)
  have r: "ring (vas_list sample_start v) []" for v
    unfolding sample_start_fields by (rule ring_init)
  then show sp: "spaces 0xC0030000 sample_start = []"
    using il.repr_items [OF r] by (simp add: spaces_def)
  show "boot_ok 0xC0030000 1 0xFFFFF000 0 sample_start"
    using pg r sp by (simp add: boot_ok_def salloc_inv_def sample_start_fields ARCH_MEM_START_SALLOC_def exI [of _ "[]"])
qed

theorem region_loop_mirrors_witness:
  "\<exists>st'. region_loop 0 0x3000 0xFFFFF000 sample_start = Some st' \<and> frames st' = [0, 1, 1, 1]
    \<and> \<not> covered (spaces 0xC0030000 st') 0 \<and> covered (spaces 0xC0030000 st') 2
    \<and> walk (pm st') 1 0xC0000000 = None \<and> walk (pm st') 1 0xC0002000 = Some 2"
proof -
  have va: "boot_va 0 = 0xC0000000" "boot_va 1 = 0xC0001000" "boot_va 2 = 0xC0002000" "page_address 3 = 0x3000"
    by (simp_all add: HIGHER_HALF_KERNEL_TO_VA_def)
  have w: "walk (pm sample_start) 1 0xC0000000 = Some 0" "walk (pm sample_start) 1 0xC0001000 = Some 1"
      "walk (pm sample_start) 1 0xC0002000 = Some 2"
    by (simp_all add: walk_def sample_start_fields sample_start_entries)
  have all: "j < 3 \<longleftrightarrow> j = 0 \<or> j = 1 \<or> j = 2" for j :: nat
    by auto
  have "\<forall>j < 3. walk (pm sample_start) 1 (boot_va j) \<noteq> None"
    using w by (auto simp only: all va)
  moreover have "page_states (frames sample_start)" "salloc_used sample_start + 48 * 3 \<le> 0x20000" "3 < length (frames sample_start)"
    by (simp_all add: page_states_def sample_start_frames salloc_used_def sample_start_fields)
  ultimately obtain st' where st': "region_loop 0 (page_address 3) 0xFFFFF000 sample_start = Some st'" "frames st' = frames sample_start"
      "\<forall>j < 3. (covered (spaces 0xC0030000 st') j \<longleftrightarrow> frames sample_start ! j \<noteq> PMM_STATE_FREE)
        \<and> walk (pm st') 1 (boot_va j) = (if frames sample_start ! j = PMM_STATE_FREE then None else walk (pm sample_start) 1 (boot_va j))"
    using region_loop_mirrors [OF sample_start_ok, of 3] by auto
  have "\<not> covered (spaces 0xC0030000 st') 0" "walk (pm st') 1 0xC0000000 = None"
    using st'(3) [rule_format, of 0] va by (simp_all add: sample_start_frames)
  moreover have "covered (spaces 0xC0030000 st') 2" "walk (pm st') 1 0xC0002000 = Some 2"
    using st'(3) [rule_format, of 2] w va by (simp_all add: sample_start_frames)
  ultimately show ?thesis
    using st'(1,2) va sample_start_frames by (intro exI [of _ st']) simp
qed

end
