(* ===== verification/Demand_Paging.thy ===== *)
theory Demand_Paging
  imports Kernel_Start
begin

text \<open>
  Memory that is committed when it is first used: a page fault of a user program in an address space that was only reserved gets a free frame,
  after which the access succeeds. This composes the page fault handler, the virtual memory manager, the physical memory
  manager and paging.
\<close>

section \<open>The external temporary slot\<close>

lemma slot_1022_ok:
  assumes ok: "paging_ok pd f st" and ptr: "dir_ptr (set_word (kernel_pt st) 1022 w st) pd' f"
  shows "paging_ok pd' f (set_word (kernel_pt st) 1022 w st)"
    and "managed_va va \<Longrightarrow> walk (pm (set_word (kernel_pt st) 1022 w st)) f va = walk (pm st) f va"
proof -
  note D = paging_okD [OF ok]
  let ?st = "set_word (kernel_pt st) 1022 w st"
  have pt: "kernel_pt ?st = kernel_pt st"
    using D(7) by (simp add: kernel_pt_set_word)
  have "\<not> slot_used 1023 ?st" "dir_wf ?st f" "structs_used ?st f"
    using D unfolding slot_used_def dir_wf_def structs_used_def pt by simp_all
  then show "paging_ok pd' f ?st"
    using D(1,6,7) ptr by (simp add: paging_ok_def kernel_maps_set_word)
  assume va: "managed_va va"
  have "i = 768" if "drop_bit 22 va = i" "entry_present (pm st f i)" "entry_frame (pm st f i) = kernel_pt st" for i
    using managed_va_pde [OF va] that D(4) by (simp add: dir_wf_def)
  then have "take_bit 10 (drop_bit 12 va) \<noteq> 1022"
    if "drop_bit 22 va = i" "entry_present (pm st f i)" "entry_frame (pm st f i) = kernel_pt st" for i
    using managed_va_indices [OF va] that by blast
  then show "walk (pm ?st) f va = walk (pm st) f va"
    using walk_set_word_other [of "kernel_pt st" f va "pm st" 1022 w] D(8) by simp
qed

lemma map_current_directory:
  assumes ok: "paging_ok 0xFFFFF000 f st" and free: "\<not> slot_used 1022 st" and f: "unat f < 1048576"
  shows "\<exists>st1. kpg_temporaryMap (PAGEFRAMES_TO_BYTES f) st = Some (0xC03FE000, st1) \<and> paging_ok 0xC03FE000 f st1
    \<and> frames st1 = frames st \<and> (\<forall>va. managed_va va \<longrightarrow> walk (pm st1) f va = walk (pm st) f va)"
proof -
  let ?w = "new_entry (PAGEFRAMES_TO_BYTES f) 7"
  let ?st = "set_word (kernel_pt st) 1022 ?w st"
  note D = paging_okD [OF ok]
  have al: "IS_ALIGNED (PAGEFRAMES_TO_BYTES f) 4096"
    using f by (simp add: IS_ALIGNED_4096 unat_kdefs)
  have "kernel_pt ?st = kernel_pt st"
    using D(7) by (simp add: kernel_pt_set_word)
  then have "dir_ptr ?st 0xC03FE000 f"
    using f by (simp add: dir_ptr_def slot_used_def new_entry_7 entry_frame_new entry_frame_bytes)
  then show ?thesis
    using s_temporaryMap_eq [OF D(1) _ free al] slot_1022_ok [OF ok]
    by (simp add: kpg_temporaryMap_def slot_address_def TEMPORARY_PTE_INDEX_EXTERN_def)
qed

lemma unmap_current_directory:
  assumes ok: "paging_ok 0xC03FE000 f st" and f: "f = cr3 st"
  shows "\<exists>st1. kpg_temporaryUnmap st = Some st1 \<and> paging_ok 0xFFFFF000 f st1 \<and> \<not> slot_used 1022 st1
    \<and> frames st1 = frames st \<and> (\<forall>va. managed_va va \<longrightarrow> walk (pm st1) f va = walk (pm st) f va)"
proof -
  let ?w = "clear_present (pm st (kernel_pt st) 1022)"
  let ?st = "set_word (kernel_pt st) 1022 ?w st"
  note D = paging_okD [OF ok]
  have used: "slot_used 1022 st"
    using D(2) by (simp add: dir_ptr_def)
  have pt: "kernel_pt ?st = kernel_pt st"
    using D(7) by (simp add: kernel_pt_set_word)
  have "dir_ptr ?st 0xFFFFF000 f" "\<not> slot_used 1022 ?st"
    using f by (simp_all add: dir_ptr_def slot_used_def pt)
  then show ?thesis
    using s_temporaryUnmap_eq [OF D(1) _ used] slot_1022_ok [OF ok]
    by (simp add: kpg_temporaryUnmap_def TEMPORARY_PTE_INDEX_EXTERN_def)
qed

section \<open>Frames in use stay in use\<close>

definition keeps_used :: "'a pmm_state_scheme \<Rightarrow> 'a pmm_state_scheme \<Rightarrow> bool" where
  "keeps_used st st' \<longleftrightarrow> (pmm_inv st \<longrightarrow> pmm_inv st' \<and> length (frames st') = length (frames st)
     \<and> (\<forall>i < length (frames st). frames st ! i = PMM_STATE_USED \<longrightarrow> frames st' ! i = PMM_STATE_USED))"

lemma keeps_used_refl: "keeps_used st st"
  by (simp add: keeps_used_def)

lemma keeps_used_trans: "keeps_used st st1 \<Longrightarrow> keeps_used st1 st2 \<Longrightarrow> keeps_used st st2"
  by (simp add: keeps_used_def)

lemma keeps_used_pm:
  fixes st st' :: "'a paging_state_scheme"
  assumes "pm_only st st'"
  shows "keeps_used st st'"
proof -
  have f: "s_pab st' = s_pab st" "s_pmm_completeRegion st' = s_pmm_completeRegion st" "regionLength st' = regionLength st" "phase st' = phase st"
    using assms unfolding pm_only_def by (cases st; cases st'; simp)+
  have fr: "frames st' = frames st"
    unfolding frames_def by (rule bitmap_states_cong) (simp_all add: s_getBitmapFromRegion_def Let_def f)
  have "pmm_inv st' = pmm_inv st"
    by (simp add: pmm_inv_def pmm_wf_def usable_pages_def fr f)
  then show ?thesis
    by (simp add: keeps_used_def fr)
qed

lemma keeps_used_alloc:
  assumes "kpmm_alloc 1 reg st = Some (r, st')"
  shows "keeps_used st st'"
proof -
  have "pmm_inv st' \<and> length (frames st') = length (frames st)
     \<and> (\<forall>i < length (frames st). frames st ! i = PMM_STATE_USED \<longrightarrow> frames st' ! i = PMM_STATE_USED)" if inv: "pmm_inv st"
  proof -
    have one: "0 < (1 :: UINT)" "unat (1 :: UINT) < 2 ^ 31"
      by simp_all
    from inv one show ?thesis
    proof (cases rule: kpmm_alloc_cases [where reg = reg])
      case out_of_mem
      then show ?thesis
        using assms inv by auto
    next
      case (allocated f st1)
      then show ?thesis
        using assms by (auto simp: nth_list_update run_at_def)
    qed
  qed
  then show ?thesis
    by (simp add: keeps_used_def)
qed

lemma pm_only_clear: "clear_page va st = Some st' \<Longrightarrow> pm_only st st'"
  by (auto simp: clear_page_def pm_only_def elim!: bind_SomeE)

lemma pm_only_setup:
  "s_setupPDE va pa flags st = Some st' \<Longrightarrow> pm_only st st'" "s_setupPTE va pa flags st = Some st' \<Longrightarrow> pm_only st st'"
  by (auto simp: s_setupPDE_def s_setupPTE_def dest: pm_only_vwrite elim!: bind_SomeE split: if_splits)

lemmas keeps_used_steps = keeps_used_alloc pm_only_clear [THEN keeps_used_pm] pm_only_setup [THEN keeps_used_pm]
  pm_only_temporary [THEN keeps_used_pm]

lemma keeps_used_error: "keeps_used st st' \<Longrightarrow> keeps_used st (st'\<lparr>errorNumber := e\<rparr>)"
  by (simp add: keeps_used_def)

lemma keeps_used_map: "kpg_map pd va pa flags st = Some (r, st') \<Longrightarrow> keeps_used st st'"
  by (auto simp: kpg_map_def elim!: bind_SomeE split: if_splits dest!: keeps_used_steps)
    (assumption | rule keeps_used_refl keeps_used_error | erule keeps_used_trans)+

section \<open>Committing a page\<close>

text \<open>A state in which a user program runs: its directory is loaded and the temporary slots are free.\<close>

definition user_running :: "PTR \<Rightarrow> UINT \<Rightarrow> 'a vmm_state_scheme \<Rightarrow> bool" where
  "user_running ctx f st \<longleftrightarrow> paging_ok 0xFFFFF000 f st \<and> f = cr3 st \<and> unat f < 1048576 \<and> \<not> slot_used 1022 st
     \<and> ctx \<noteq> 0 \<and> parentProcessPD (vmms st ctx) = PAGEFRAMES_TO_BYTES f
     \<and> (\<exists>xs. ring (vas_list st ctx) xs \<and> 0 \<notin> set xs)"

definition two_free :: "BitmapState list \<Rightarrow> bool" where
  "two_free fs \<longleftrightarrow> (\<exists>i j. i < j \<and> j < length fs \<and> fs ! i = PMM_STATE_FREE \<and> fs ! j = PMM_STATE_FREE)"

text \<open>The first free frame.\<close>

definition first_free :: "BitmapState list \<Rightarrow> nat \<Rightarrow> bool" where
  "first_free fs k \<longleftrightarrow> k < length fs \<and> fs ! k = PMM_STATE_FREE \<and> (\<forall>i < k. fs ! i \<noteq> PMM_STATE_FREE)"

lemma paging_frame_vmm:
  fixes st st' :: "'a vmm_state_scheme"
  assumes "paging_frame st st'"
  shows "vmms st' = vmms st" "vas_list st' = vas_list st" "vas_at st' = vas_at st" "kcontext st' = kcontext st"
  using assms by (cases st; cases st'; simp add: paging_frame_def)+

lemma commit_flags:
  "BIT_ISUNSET (PG_MAP_FLAG_DEFAULT OR (if a then PG_MAP_FLAG_KERNEL else 0) OR (if b then 0 else PG_MAP_FLAG_WRITABLE)) PG_MAP_FLAG_NOT_PRESENT"
  by (simp add: BIT_ISUNSET_def BIT_ISSET_def PG_MAP_FLAG_NOT_PRESENT_def PG_MAP_FLAG_DEFAULT_def PG_MAP_FLAG_CACHE_ENABLED_def PG_MAP_FLAG_KERNEL_def
      PG_MAP_FLAG_WRITABLE_def)

lemma frame_address:
  assumes "unat t < 1048576"
  shows "drop_bit 12 (PAGEFRAMES_TO_BYTES t) = t" "IS_ALIGNED (PAGEFRAMES_TO_BYTES t) 4096"
  using assms by (simp_all add: word_unat_eq_iff unat_drop_bit32 IS_ALIGNED_4096 unat_kdefs)

text \<open>The frame that is allocated, and what is left.\<close>

lemma alloc_one_frame:
  assumes ok: "paging_ok pd f st" and mem: "two_free (frames st)"
  obtains t st1 where "kpmm_alloc 1 reg st = Some (Some (PAGEFRAMES_TO_BYTES t), st1)" "first_free (frames st) (unat t)" "unat t < 1048576"
    "paging_ok pd f st1" "pm st1 = pm st" "cr3 st1 = cr3 st" "kernel_pt st1 = kernel_pt st" "frames st1 = (frames st)[unat t := PMM_STATE_USED]"
    "\<exists>k. run_at (frames st1) PMM_STATE_FREE k 1"
proof -
  obtain i j where ij: "i < j" "j < length (frames st)" "frames st ! i = PMM_STATE_FREE" "frames st ! j = PMM_STATE_FREE"
    using mem by (auto simp: two_free_def)
  have one: "0 < (1 :: UINT)" "unat (1 :: UINT) < 2 ^ 31"
    by simp_all
  from paging_okD(6) [OF ok] one show ?thesis
  proof (cases rule: kpmm_alloc_cases [where reg = reg])
    case out_of_mem
    then show ?thesis
      using ij by (auto simp: run_at_def dest: spec [of _ i])
  next
    case (allocated t st1)
    have fr: "frames st1 = (frames st)[unat t := PMM_STATE_USED]"
      using allocated(6) by simp
    have t: "unat t < length (frames st)" "frames st ! unat t = PMM_STATE_FREE"
      using allocated(2) by (auto simp: run_at_def)
    have first: "frames st ! k \<noteq> PMM_STATE_FREE" if "k < unat t" for k
      using allocated(3) that t by (auto simp: run_at_def)
    then have "unat t < j"
      using ij by (metis le_less_trans not_le)
    then have "run_at (frames st1) PMM_STATE_FREE j 1"
      using ij by (simp add: run_at_def fr)
    moreover have "unat t < 1048576"
      using t frames_addressable [OF paging_okD(6) [OF ok]] by simp
    ultimately show ?thesis
      using paging_ok_alloc [OF ok allocated(7,5,6)] allocated(1) t first fr by (intro that) (auto simp: first_free_def)
  qed
qed

lemma commit_one_page:
  assumes run: "user_running ctx f st" and mem: "two_free (frames st)"
    and va: "managed_va va" "IS_ALIGNED va 4096" and un: "walk (pm st) f va = None"
  shows "\<exists>k pa st'. commitVirtualPages ctx va None 1 vas st = Some ((True, pa), st') \<and> first_free (frames st) (unat k)
    \<and> user_running ctx f st' \<and> walk (pm st') f va = Some k \<and> frames st' ! unat k = PMM_STATE_USED
    \<and> (\<forall>va'. managed_va va' \<longrightarrow> drop_bit 12 va' \<noteq> drop_bit 12 va \<longrightarrow> walk (pm st') f va' = walk (pm st) f va')
    \<and> vas_list st' = vas_list st \<and> vas_at st' = vas_at st \<and> kcontext st' = kcontext st"
proof -
  have U: "paging_ok 0xFFFFF000 f st" "f = cr3 st" "unat f < 1048576" "\<not> slot_used 1022 st" "ctx \<noteq> 0"
      "parentProcessPD (vmms st ctx) = PAGEFRAMES_TO_BYTES f" "\<exists>xs. ring (vas_list st ctx) xs \<and> 0 \<notin> set xs"
    using run unfolding user_running_def by blast+
  obtain t st1 where A: "kpmm_alloc 1 (physicalRegion (vmms st ctx)) st = Some (Some (PAGEFRAMES_TO_BYTES t), st1)"
      "first_free (frames st) (unat t)" "unat t < 1048576"
      "paging_ok 0xFFFFF000 f st1" "pm st1 = pm st" "cr3 st1 = cr3 st" "kernel_pt st1 = kernel_pt st"
      "frames st1 = (frames st)[unat t := PMM_STATE_USED]" "\<exists>k. run_at (frames st1) PMM_STATE_FREE k 1"
    using alloc_one_frame [OF U(1) mem] by metis
  have free1: "\<not> slot_used 1022 st1"
    using U(4) by (simp add: slot_used_def A(5,7))
  obtain st2 where B: "kpg_temporaryMap (PAGEFRAMES_TO_BYTES f) st1 = Some (0xC03FE000, st2)" "paging_ok 0xC03FE000 f st2"
      "frames st2 = frames st1" "\<forall>va. managed_va va \<longrightarrow> walk (pm st2) f va = walk (pm st) f va"
    using map_current_directory [OF A(4) free1 U(3)] by (auto simp: A(5))
  define flags where "flags = PG_MAP_FLAG_DEFAULT
      OR (if BIT_ISSET (vas_flags (vas_at st1 vas)) VMM_MEMMAP_FLAG_KERNEL_PAGE then PG_MAP_FLAG_KERNEL else 0)
      OR (if BIT_ISSET (vas_flags (vas_at st1 vas)) VMM_MEMMAP_FLAG_READONLY then 0 else PG_MAP_FLAG_WRITABLE)"
  have fl: "BIT_ISUNSET flags PG_MAP_FLAG_NOT_PRESENT"
    unfolding flags_def by (rule commit_flags)
  have un2: "walk (pm st2) f va = None"
    using B(4) va(1) un by simp
  obtain st3 where C: "kpg_map 0xC03FE000 va (PAGEFRAMES_TO_BYTES t) flags st2 = Some (True, st3)" "paging_ok 0xC03FE000 f st3"
      "walk (pm st3) f va = Some t"
      "\<forall>va'. managed_va va' \<longrightarrow> drop_bit 12 va' \<noteq> drop_bit 12 va \<longrightarrow> walk (pm st3) f va' = walk (pm st2) f va'"
    using kpg_map_spec [OF B(2) va frame_address(2) [OF A(3)] _ fl] A(9) B(3) un2 frame_address(1) [OF A(3)] by auto
  have F: "paging_frame st st1" "paging_frame st1 st2" "paging_frame st2 st3"
    using A(1) B(1) C(1) by (auto dest: frames_of)
  then have F3: "paging_frame st st3"
    by (blast intro: paging_frame_trans)
  then have "f = cr3 st3"
    using U(2) by (simp add: paging_frame_def)
  then obtain st4 where E: "kpg_temporaryUnmap st3 = Some st4" "paging_ok 0xFFFFF000 f st4" "\<not> slot_used 1022 st4"
      "frames st4 = frames st3" "\<forall>va. managed_va va \<longrightarrow> walk (pm st4) f va = walk (pm st3) f va"
    using unmap_current_directory [OF C(2)] by blast
  have F4: "paging_frame st st4"
    using F3 E(1) by (blast intro: paging_frame_trans dest: frames_of)
  let ?st = "st4\<lparr>vmms := (vmms st4)(ctx := (vmms st4 ctx)\<lparr>pd_dirty := True\<rparr>)\<rparr>"
  have call: "commitVirtualPages ctx va None 1 vas st = Some ((True, Some (PAGEFRAMES_TO_BYTES t)), ?st)"
    using A(1) B(1) C(1) E(1) paging_frame_vmm(1) [OF F(1)] U(6)
    by (simp add: commitVirtualPages_def flags_def [symmetric] kpg_mapContinous_def Let_def)
  have "keeps_used st2 st3"
    by (rule keeps_used_map [OF C(1)])
  then have used: "frames st3 ! unat t = PMM_STATE_USED"
    using A(2,8) B(3) paging_okD(6) [OF B(2)] by (simp add: keeps_used_def first_free_def)
  have pg: "paging_ok 0xFFFFF000 f ?st" "frames ?st = frames st4"
    by (rule paging_ok_cong(2) [OF _ _ _ _ _ _ E(2)]; simp) (rule paging_ok_cong(1); simp)
  have "user_running ctx f ?st"
    using pg(1) E(3) U F4 paging_frame_vmm [OF F4]
    by (simp add: user_running_def paging_frame_def slot_used_def kernel_pt_def)
  then show ?thesis
    using call A(2) C(3,4) E(4,5) B(4) used pg(2) va(1) paging_frame_vmm [OF F4]
    by (intro exI [of _ t] exI [of _ "Some (PAGEFRAMES_TO_BYTES t)"] exI [of _ ?st]) simp
qed

section \<open>The page fault\<close>

definition lazy_space :: "VMemoryAddressSpace \<Rightarrow> bool" where
  "lazy_space s \<longleftrightarrow> \<not> BIT_ISSET (vas_flags s) VMM_MEMMAP_FLAG_IMMCOMMIT \<and> \<not> BIT_ISSET (vas_flags s) VMM_MEMMAP_FLAG_COMMITTED
     \<and> \<not> BIT_ISSET (vas_flags s) VMM_MEMMAP_FLAG_NULLPAGE"

text \<open>The space a user address belongs to is one whose pages are committed on demand.\<close>

definition on_demand :: "PTR \<Rightarrow> PTR \<Rightarrow> 'a vmm_state_scheme \<Rightarrow> bool" where
  "on_demand ctx va st \<longleftrightarrow> (case List.find (\<lambda>s. contains_va s va) (spaces ctx st) of None \<Rightarrow> False | Some s \<Rightarrow> lazy_space s)"

lemma find_map: "List.find P (map f xs) = map_option f (List.find (\<lambda>x. P (f x)) xs)"
  by (induction xs) auto

lemma page_start:
  "drop_bit 12 (ALIGN_DOWN va CONFIG_PAGE_FRAME_SIZE_BYTES) = drop_bit 12 va" "IS_ALIGNED (ALIGN_DOWN va CONFIG_PAGE_FRAME_SIZE_BYTES) 4096"
  by (simp_all add: word_unat_eq_iff unat_drop_bit32 IS_ALIGNED_4096 CONFIG_PAGE_FRAME_SIZE_BYTES_def unat_kdefs)

lemma user_va_managed:
  assumes "va < (0xC0000000 :: PTR)"
  shows "managed_va va" "managed_va (ALIGN_DOWN va CONFIG_PAGE_FRAME_SIZE_BYTES)"
proof -
  have u: "unat va < 0xC0000000"
    using assms by (simp add: word_less_nat_alt)
  then have m: "managed_va x" if "drop_bit 12 x = drop_bit 12 va" for x
  proof -
    have "unat (drop_bit 12 va) < 0xC0000"
      using u by (simp add: unat_drop_bit32)
    moreover have "unat (drop_bit 22 x) = unat (drop_bit 12 x) div 1024"
      by (simp add: unat_drop_bit32 div_mult2_eq [symmetric])
    ultimately show ?thesis
      using that by (auto simp: managed_va_def word_unat_eq_iff)
  qed
  show "managed_va va" "managed_va (ALIGN_DOWN va CONFIG_PAGE_FRAME_SIZE_BYTES)"
    using m page_start by blast+
qed

text \<open>The address space that the handler finds.\<close>

lemma find_space:
  assumes run: "user_running ctx f st"
  obtains (none) "find_vas ctx va st = Some 0" "\<not> on_demand ctx va st"
  | (found) x where "find_vas ctx va st = Some x" "x \<noteq> 0" "on_demand ctx va st \<longleftrightarrow> lazy_space (vas_at st x)"
proof -
  obtain xs where xs: "ring (vas_list st ctx) xs" "0 \<notin> set xs"
    using run by (auto simp: user_running_def)
  let ?find = "List.find (\<lambda>x. contains_va (vas_at st x) va) xs"
  have sp: "spaces ctx st = map (vas_at st) xs"
    using il.repr_items [OF xs(1)] by (simp add: spaces_def)
  have f: "find_vas ctx va st = Some (case ?find of None \<Rightarrow> 0 | Some x \<Rightarrow> x)"
    by (simp add: find_vas_def list_find_ring [OF xs(1)])
  show ?thesis
  proof (cases ?find)
    case None
    then show ?thesis
      using none f by (simp add: on_demand_def sp find_map)
  next
    case (Some x)
    then have "x \<noteq> 0"
      using xs(2) by (metis find_Some_iff nth_mem)
    then show ?thesis
      using found f Some by (simp add: on_demand_def sp find_map)
  qed
qed

lemma commit_page_demand:
  assumes run: "user_running ctx f st" and mem: "two_free (frames st)" and va: "va < 0xC0000000" and un: "walk (pm st) f va = None"
    and dem: "on_demand ctx va st"
  shows "\<exists>k st'. kvmm_commitPage ctx va st = Some (True, st') \<and> first_free (frames st) (unat k)
        \<and> user_running ctx f st' \<and> walk (pm st') f va = Some k \<and> frames st' ! unat k = PMM_STATE_USED
        \<and> (\<forall>va'. managed_va va' \<longrightarrow> drop_bit 12 va' \<noteq> drop_bit 12 va \<longrightarrow> walk (pm st') f va' = walk (pm st) f va')
        \<and> spaces ctx st' = spaces ctx st \<and> kcontext st' = kcontext st"
proof -
  let ?va = "ALIGN_DOWN va CONFIG_PAGE_FRAME_SIZE_BYTES"
  obtain x where x: "find_vas ctx va st = Some x" "x \<noteq> 0" "lazy_space (vas_at st x)"
    using find_space [OF run, of va] dem by metis
  have w: "walk m f ?va = walk m f va" for m
    by (rule walk_same_page) (rule page_start)
  obtain k pa st' where "commitVirtualPages ctx ?va None 1 x st = Some ((True, pa), st')" "first_free (frames st) (unat k)"
      "user_running ctx f st'" "walk (pm st') f ?va = Some k" "frames st' ! unat k = PMM_STATE_USED"
      "\<forall>va'. managed_va va' \<longrightarrow> drop_bit 12 va' \<noteq> drop_bit 12 ?va \<longrightarrow> walk (pm st') f va' = walk (pm st) f va'"
      "vas_list st' = vas_list st" "vas_at st' = vas_at st" "kcontext st' = kcontext st"
    using commit_one_page [OF run mem user_va_managed(2) [OF va] page_start(2), of x] un w by auto
  moreover from this have "spaces ctx st' = spaces ctx st"
    by (simp add: spaces_def)
  moreover have "ctx \<noteq> 0"
    using run by (simp add: user_running_def)
  ultimately show ?thesis
    using x w page_start(1) [of va] by (simp add: kvmm_commitPage_def Let_def lazy_space_def)
qed

lemma commit_page_refused:
  assumes run: "user_running ctx f st" and no: "\<not> on_demand ctx va st \<or> PMM_STATE_FREE \<notin> set (frames st)"
  shows "\<exists>st'. kvmm_commitPage ctx va st = Some (False, st')"
  using run
proof (cases rule: find_space [where va = va])
  case none
  then show ?thesis
    using run by (simp add: kvmm_commitPage_def RETURN_ERROR_def user_running_def)
next
  case (found x)
  show ?thesis
  proof (cases "lazy_space (vas_at st x)")
    case True
    then have full: "PMM_STATE_FREE \<notin> set (frames st)"
      using no found(3) by simp
    have inv: "pmm_inv st"
      using run by (auto simp: user_running_def dest: paging_okD(6))
    have "0 < (1 :: UINT)" "unat (1 :: UINT) < 2 ^ 31"
      by simp_all
    with inv obtain st1 where "kpmm_alloc 1 (physicalRegion (vmms st ctx)) st = Some (None, st1)"
    proof (cases rule: kpmm_alloc_cases [where reg = "physicalRegion (vmms st ctx)"])
      case (allocated f' st1)
      then have "unat f' < length (frames st)" "frames st ! unat f' = PMM_STATE_FREE"
        by (auto simp: run_at_def)
      then have "PMM_STATE_FREE \<in> set (frames st)"
        using nth_mem by metis
      then show ?thesis
        using full by simp
    qed auto
    then show ?thesis
      using found True run
      by (simp add: kvmm_commitPage_def Let_def lazy_space_def user_running_def commitVirtualPages_def RETURN_ERROR_def)
  next
    case False
    then show ?thesis
      using found run by (auto simp: kvmm_commitPage_def Let_def lazy_space_def RETURN_ERROR_def user_running_def)
  qed
qed

text \<open>
  C7. Memory is committed when it is first used. Let a user program run with well formed paging structures, and let it fault at an address
  below the kernel. When the processor reports a violation of protection, when the address does not lie in a space that was reserved without being
  committed (so also for the page at address 0), or when no frame is free, the handler does not return, whether or not the page is mapped. Otherwise, if the
  address is not translated and at least two frames are free (one may become a page table), the handler returns; the directory that is loaded then translates the address to the lowest
  frame that was free, now marked as used; every other page translates as before, the
  address spaces are unchanged and the program can go on.
\<close>

theorem page_fault_commits:
  assumes "user_running ctx (cr3 st) st" "va < 0xC0000000"
    and "currentProcess st \<noteq> 0" "p_context (pinfos st (currentProcess st)) = ctx" "ctx \<noteq> kcontext st"
    and "kcontext st \<noteq> 0" "vm_start (vmms st (kcontext st)) = 0xC0000000"
  shows "if bit errorcode 0 \<or> \<not> on_demand ctx va st \<or> PMM_STATE_FREE \<notin> set (frames st)
    then page_fault_handler errorcode va st = None
    else walk (pm st) (cr3 st) va = None \<longrightarrow> two_free (frames st) \<longrightarrow>
      (\<exists>k st'. page_fault_handler errorcode va st = Some st' \<and> first_free (frames st) (unat k)
        \<and> walk (pm st') (cr3 st') va = Some k \<and> frames st' ! unat k = PMM_STATE_USED
        \<and> (\<forall>va'. managed_va va' \<longrightarrow> drop_bit 12 va' \<noteq> drop_bit 12 va \<longrightarrow> walk (pm st') (cr3 st') va' = walk (pm st) (cr3 st) va')
        \<and> spaces ctx st' = spaces ctx st \<and> user_running ctx (cr3 st) st')"
proof -
  have b: "kvmm_checkbounds (kcontext st) va st = Some False"
    using assms(2,6,7) by (simp add: kvmm_checkbounds_def not_le [symmetric])
  have h: "page_fault_handler errorcode va st = page_fault_commit ctx errorcode va st"
    using b assms(3,4) by (simp add: page_fault_handler_def kprocess_getCurrentContext_def)
  show ?thesis
  proof (cases "bit errorcode 0 \<or> \<not> on_demand ctx va st \<or> PMM_STATE_FREE \<notin> set (frames st)")
    case True
    then show ?thesis
      using commit_page_refused [OF assms(1), of va] by (auto simp: h page_fault_commit_def)
  next
    case False
    have c: "cr3 x = cr3 st" if "user_running ctx (cr3 st) x" for x
      using that by (simp add: user_running_def)
    from False show ?thesis
      using commit_page_demand [OF assms(1) _ assms(2)] assms(5) by (auto simp: h page_fault_commit_def c)
  qed
qed

section \<open>A concrete page fault\<close>

text \<open>The processes of \<open>sample_sched\<close> on a machine with four frames, of which the first and the last are free; one page is reserved at 64 KB.\<close>

definition sample_fault :: process_state where
  "sample_fault = sample_sched\<lparr>s_pab := [0x14], kcontext := 0xC0031000,
     vmms := (vmms sample_vmm)(0xC0031000 := \<lparr>vm_start = 0xC0000000, vm_end = 0xFFBFFFFF, vm_isStaticAllocated = True,
       parentProcessPD = 0x1000, pd_dirty = False, physicalRegion = PMM_REGION_ANY\<rparr>),
     vas_at := \<lambda>_. new_space 0x10000 0x1000 0, vas_list := vas_list sample_vmm1\<rparr>"

lemma sample_fault_fields:
  "s_pab sample_fault = [0x14]" "s_pmm_completeRegion sample_fault = s_pmm_completeRegion (sample_pmm [0x14])"
  "regionLength sample_fault = regionLength (sample_pmm [0x14])" "phase sample_fault = KERNEL_READY" "cr3 sample_fault = 1"
  "pm sample_fault = (\<lambda>_ _. 0)(1 := (\<lambda>_. 0)(768 := 0x2001, 1023 := 0x1001))" "kcontext sample_fault = 0xC0031000"
  "vm_start (vmms sample_fault 0xC0031000) = 0xC0000000" "parentProcessPD (vmms sample_fault 0xC0030000) = 0x1000"
  "vas_list sample_fault = vas_list sample_vmm1" "vas_at sample_fault = (\<lambda>_. new_space 0x10000 0x1000 0)"
  "currentProcess sample_fault = 2" "p_context (pinfos sample_fault 2) = 0xC0030000"
  by (simp_all add: sample_fault_def sample_vmm_fields)
    (simp_all add: sample_sched_def vmm_state.defs sample_vmm_def sample_start_defs sample_process_def)

lemma sample_fault_frames: "frames sample_fault = [0, 1, 1, 0]" "pmm_inv sample_fault"
proof -
  have f: "frames sample_fault = frames (sample_pmm [0x14])"
    unfolding frames_def by (rule bitmap_states_cong) (simp_all add: s_getBitmapFromRegion_def Let_def sample_fault_fields, simp add: sample_pmm_def)
  then show "frames sample_fault = [0, 1, 1, 0]"
    by (simp add: frames_sample_1)
  have "pmm_inv (sample_pmm [0x14])"
    by (rule sample_pmm_inv) simp
  then show "pmm_inv sample_fault"
    unfolding pmm_inv_def pmm_wf_def usable_pages_def f sample_fault_fields by (simp add: sample_pmm_def)
qed

lemma sample_fault_ring: "ring (vas_list sample_fault v) [0xC0026000]"
  using il.repr_add_front [OF sample_vmm_fields(4), of "0xC0026000"] by (simp add: sample_fault_fields sample_vmm1_def)

lemma sample_fault_running: "user_running 0xC0030000 (cr3 sample_fault) sample_fault"
proof -
  have pt: "kernel_pt sample_fault = 2"
    by (simp add: kernel_pt_def sample_fault_fields sample_start_entries)
  have nf: "not_free sample_fault 1" "not_free sample_fault 2"
    by (simp_all add: not_free_def sample_fault_frames nth_Cons')
  have "paging_ok 0xFFFFF000 1 sample_fault"
    using sample_fault_frames(2) nf
    unfolding paging_ok_def kernel_maps_def dir_ptr_def slot_used_def dir_wf_def structs_used_def pt
    by (simp add: sample_fault_fields sample_start_entries)
  moreover have "\<not> slot_used 1022 sample_fault"
    unfolding slot_used_def pt by (simp add: sample_fault_fields sample_start_entries)
  moreover have "PAGEFRAMES_TO_BYTES 1 = 0x1000"
    by (simp add: PAGEFRAMES_TO_BYTES_def kdefs)
  ultimately show ?thesis
    using sample_fault_ring by (simp add: user_running_def sample_fault_fields) (intro exI [of _ "[0xC0026000]"], simp)
qed

theorem page_fault_commits_witness:
  "\<exists>st'. page_fault_handler 6 0x10010 sample_fault = Some st' \<and> walk (pm st') 1 0x10010 = Some 0 \<and> frames st' ! 0 = PMM_STATE_USED"
proof -
  have un: "walk (pm sample_fault) (cr3 sample_fault) 0x10010 = None"
    by (simp add: walk_def sample_fault_fields sample_start_entries)
  have two: "two_free (frames sample_fault)"
    unfolding two_free_def sample_fault_frames by (rule exI [of _ 0], rule exI [of _ 3]) simp
  have "spaces 0xC0030000 sample_fault = [new_space 0x10000 0x1000 0]"
    using il.repr_items [OF sample_fault_ring, of "0xC0030000"] by (simp add: spaces_def sample_fault_fields(11))
  then have dem: "on_demand 0xC0030000 0x10010 sample_fault"
    by (simp add: on_demand_def contains_va_def lazy_space_def BIT_ISSET_def VMM_MEMMAP_FLAG_IMMCOMMIT_def
        VMM_MEMMAP_FLAG_COMMITTED_def VMM_MEMMAP_FLAG_NULLPAGE_def)
  have six: "\<not> bit (6 :: UINT) 0"
    by simp
  obtain k st' where k: "page_fault_handler 6 0x10010 sample_fault = Some st'" "first_free [0, 1, 1, 0] (unat k)"
      "walk (pm st') (cr3 st') 0x10010 = Some k" "frames st' ! unat k = PMM_STATE_USED" "user_running 0xC0030000 (cr3 sample_fault) st'"
    using page_fault_commits [OF sample_fault_running, of "0x10010" 6] dem six un two by (auto simp: sample_fault_fields sample_fault_frames)
  have "k = 0"
    using k(2) by (auto simp: first_free_def word_unat_eq_iff)
  moreover have "cr3 st' = 1"
    using k(5) by (simp add: user_running_def sample_fault_fields)
  ultimately show ?thesis
    using k by auto
qed

end
