(* ===== verification/App_Library.thy ===== *)
theory App_Library
  imports App_Heap Demand_Paging
begin

text \<open>
  The library that applications are linked with: the wrappers around the system calls (\<open>include/cm/cm.h\<close>, \<open>include/cm/syscall.h\<close>,
  \<open>include/cm/err.h\<close>), \<open>src/cm/syscalls.c\<close>, \<open>src/cm/process.c\<close> and \<open>src/cm/cm.c\<close>.

  A library function runs in user mode on top of the kernel: it takes the state of the kernel, in which the memory of the process is a part, and
  enters it through the dispatcher of the system calls. The globals of the library are a record of their own. What is outside of
  the library and of the kernel is the parameter \<open>app_env\<close>: the interrupt frame the processor pushes, the
  content of \<open>eax\<close> after a handler without a result (for a Boolean result, of its bits above \<open>al\<close>), the address of the local structure of the running function, the interrupts that arrive before a
  call, what the other processes do until the caller is resumed, and the code of the application behind a handler pointer.
\<close>

section \<open>State and environment\<close>

text \<open>\<open>app_event_handlers\<close> has three entries; 0 is the null pointer.\<close>

record cm_lib = cm_state +
  app_event_handlers :: "PTR list"

record 'w app_env =
  env_gx :: nat
  env_frame :: SystemcallFrame
  env_ebp :: PTR
  env_ss :: U32
  env_eax :: U32
  env_local :: PTR
  env_interrupts :: "'w \<Rightarrow> 'w option"
  env_resume :: "UINT \<Rightarrow> ProcessRegisterState \<Rightarrow> 'w \<Rightarrow> 'w option"
  env_handler :: "PTR \<Rightarrow> PTR \<Rightarrow> cm_lib \<Rightarrow> 'w \<Rightarrow> (cm_lib \<times> 'w) option"

definition OSIF_PROCESS_EVENTS_COUNT :: nat where "OSIF_PROCESS_EVENTS_COUNT = 3"
definition OSIF_PROCESS_EVENT_NONE :: U32 where "OSIF_PROCESS_EVENT_NONE = 0"
definition OSIF_PROCESS_EVENT_PROCCESS_YIELD_REQ :: U32 where "OSIF_PROCESS_EVENT_PROCCESS_YIELD_REQ = 1"
definition OSIF_PROCESS_EVENT_PROCCESS_CHILD_KILLED :: U32 where "OSIF_PROCESS_EVENT_PROCCESS_CHILD_KILLED = 2"
definition CM_ERR_EVENT_HANDLER_ALREADY_REGISTERED :: U32 where "CM_ERR_EVENT_HANDLER_ALREADY_REGISTERED = 101"
definition CM_FAILURE :: U32 where "CM_FAILURE = -1"

section \<open>System calls\<close>

text \<open>What a handler that returns a Boolean leaves in \<open>eax\<close>: the value in \<open>al\<close>, and in the other bits whatever they held.\<close>

definition eax_of_bool :: "U32 \<Rightarrow> bool \<Rightarrow> U32" where
  "eax_of_bool eax b = push_bit 8 (drop_bit 8 eax) OR of_bool b"

lemma eax_of_bool_nonzero [simp]: "eax_of_bool eax b \<noteq> 0 \<longleftrightarrow> b \<or> drop_bit 8 eax \<noteq> 0"
proof (cases b)
  case True
  then have "bit (eax_of_bool eax b) 0"
    by (simp add: eax_of_bool_def bit_simps)
  with True show ?thesis
    by auto
next
  case False
  have "bit eax (8 + n) \<Longrightarrow> n < 24" for n
    using bit_imp_le_length [of eax "8 + n"] by simp
  then have "drop_bit 8 (push_bit 8 (drop_bit 8 eax)) = drop_bit 8 eax"
    by (intro bit_word_eqI) (auto simp: bit_simps)
  then show ?thesis
    using False by (auto simp: eax_of_bool_def)
qed

text \<open>The interrupt instruction: the result is that of the dispatcher; when the kernel switches to another process, the call returns when the caller is resumed.\<close>

definition int_0x50 :: "('a win_state_scheme) app_env \<Rightarrow> U32 \<Rightarrow> syscall_args \<Rightarrow> 'a win_state_scheme \<Rightarrow> (sysresult \<times> 'a win_state_scheme) option" where
  "int_0x50 env fn a st = do {
     st \<leftarrow> env_interrupts env st;
     syscall_asm_despatcher (env_gx env) fn (env_frame env) (env_ebp env) (env_ss env) a st
   }"

definition syscall ::
  "('a win_state_scheme) app_env \<Rightarrow> U32 \<Rightarrow> U32 \<Rightarrow> U32 \<Rightarrow> U32 \<Rightarrow> U32 \<Rightarrow> U32 \<Rightarrow> 'a win_state_scheme \<Rightarrow> (U32 \<times> 'a win_state_scheme) option" where
  "syscall env fn arg1 arg2 arg3 arg4 arg5 st = do {
     (r, st) \<leftarrow> int_0x50 env fn \<lparr>a_ebx = arg1, a_ecx = arg2, a_edx = arg3, a_esi = arg4, a_edi = arg5\<rparr> st;
     case r of SysReturn v \<Rightarrow> Some (v, st)
     | SysBool b \<Rightarrow> Some (eax_of_bool (env_eax env) b, st)
     | SysVoid \<Rightarrow> Some (env_eax env, st)
     | SysSwitch flags regs \<Rightarrow> do { st \<leftarrow> env_resume env flags regs st; Some (env_eax env, st) }
   }"

text \<open>A call that does not come back: the result is the process that runs instead. Coming back is undefined in the code.\<close>

definition syscall_noreturn ::
  "('a win_state_scheme) app_env \<Rightarrow> U32 \<Rightarrow> U32 \<Rightarrow> 'a win_state_scheme \<Rightarrow> ((UINT \<times> ProcessRegisterState) \<times> 'a win_state_scheme) option" where
  "syscall_noreturn env fn arg1 st = do {
     (r, st) \<leftarrow> int_0x50 env fn \<lparr>a_ebx = arg1, a_ecx = 0, a_edx = 0, a_esi = 0, a_edi = 0\<rparr> st;
     case r of SysSwitch flags regs \<Rightarrow> Some ((flags, regs), st) | _ \<Rightarrow> None
   }"

definition cm_get_tick_period_us :: UINT where
  "cm_get_tick_period_us = CONFIG_TICK_PERIOD_MICROSEC"

definition cm_tickcount_to_microsec :: "UINT \<Rightarrow> UINT" where
  "cm_tickcount_to_microsec tick = tick * cm_get_tick_period_us"

definition cm_putstr :: "('a win_state_scheme) app_env \<Rightarrow> PTR \<Rightarrow> 'a win_state_scheme \<Rightarrow> 'a win_state_scheme option" where
  "cm_putstr env txt st = do { (_, st) \<leftarrow> syscall env 0 txt 0 0 0 0 st; Some st }"

definition cm_get_tickcount :: "('a win_state_scheme) app_env \<Rightarrow> 'a win_state_scheme \<Rightarrow> (U32 \<times> 'a win_state_scheme) option" where
  "cm_get_tickcount env st = syscall env 8 0 0 0 0 0 st"

definition cm_window_create :: "('a win_state_scheme) app_env \<Rightarrow> PTR \<Rightarrow> 'a win_state_scheme \<Rightarrow> (UINT \<times> 'a win_state_scheme) option" where
  "cm_window_create env title st = syscall env 10 title 0 0 0 0 st"

definition cm_window_destory :: "('a win_state_scheme) app_env \<Rightarrow> UINT \<Rightarrow> 'a win_state_scheme \<Rightarrow> (U32 \<times> 'a win_state_scheme) option" where
  "cm_window_destory env h st = syscall env 11 h 0 0 0 0 st"

definition cm_window_flush_graphics :: "('a win_state_scheme) app_env \<Rightarrow> 'a win_state_scheme \<Rightarrow> 'a win_state_scheme option" where
  "cm_window_flush_graphics env st = do { (_, st) \<leftarrow> syscall env 13 0 0 0 0 0 st; Some st }"

definition cm_window_getFB :: "('a win_state_scheme) app_env \<Rightarrow> UINT \<Rightarrow> PTR \<Rightarrow> 'a win_state_scheme \<Rightarrow> (bool \<times> 'a win_state_scheme) option" where
  "cm_window_getFB env h wfb st = do { (r, st) \<leftarrow> syscall env 12 h wfb 0 0 0 st; Some (r \<noteq> 0, st) }"

definition cm_get_os_error :: "('a win_state_scheme) app_env \<Rightarrow> 'a win_state_scheme \<Rightarrow> (U32 \<times> 'a win_state_scheme) option" where
  "cm_get_os_error env st = syscall env 14 0 0 0 0 0 st"

definition cm_get_bootloaded_file :: "('a win_state_scheme) app_env \<Rightarrow> PTR \<Rightarrow> PTR \<Rightarrow> 'a win_state_scheme \<Rightarrow> 'a win_state_scheme option" where
  "cm_get_bootloaded_file env filename dest st = do { (_, st) \<leftarrow> syscall env 15 filename dest 0 0 0 st; Some st }"

definition cm_process_pop_event :: "('a win_state_scheme) app_env \<Rightarrow> PTR \<Rightarrow> 'a win_state_scheme \<Rightarrow> (bool \<times> 'a win_state_scheme) option" where
  "cm_process_pop_event env e st = do { (r, st) \<leftarrow> syscall env 6 e 0 0 0 0 st; Some (r \<noteq> 0, st) }"

definition cm_process_yield :: "('a win_state_scheme) app_env \<Rightarrow> 'a win_state_scheme \<Rightarrow> 'a win_state_scheme option" where
  "cm_process_yield env st = do { (_, st) \<leftarrow> syscall env 2 0 0 0 0 0 st; Some st }"

definition cm_process_kill ::
  "('a win_state_scheme) app_env \<Rightarrow> UINT \<Rightarrow> 'a win_state_scheme \<Rightarrow> ((UINT \<times> ProcessRegisterState) \<times> 'a win_state_scheme) option" where
  "cm_process_kill env code st = syscall_noreturn env 3 code st"

definition cm_process_abort ::
  "('a win_state_scheme) app_env \<Rightarrow> UINT \<Rightarrow> 'a win_state_scheme \<Rightarrow> ((UINT \<times> ProcessRegisterState) \<times> 'a win_state_scheme) option" where
  "cm_process_abort env code st = syscall_noreturn env 16 code st"

definition CM_ABORT_EXIT_CODE :: UINT where "CM_ABORT_EXIT_CODE = 127"

definition cm_panic :: "('a win_state_scheme) app_env \<Rightarrow> 'a win_state_scheme \<Rightarrow> ((UINT \<times> ProcessRegisterState) \<times> 'a win_state_scheme) option" where
  "cm_panic env st = cm_process_abort env CM_ABORT_EXIT_CODE st"

definition cm_process_get_pid :: "('a win_state_scheme) app_env \<Rightarrow> 'a win_state_scheme \<Rightarrow> (U32 \<times> 'a win_state_scheme) option" where
  "cm_process_get_pid env st = syscall env 7 0 0 0 0 0 st"

definition cm_process_get_datamem_start :: "('a win_state_scheme) app_env \<Rightarrow> 'a win_state_scheme \<Rightarrow> (PTR \<times> 'a win_state_scheme) option" where
  "cm_process_get_datamem_start env st = syscall env 9 0 0 0 0 0 st"

section \<open>Events\<close>

text \<open>An index outside of the array is undefined in the code.\<close>

definition cm_process_register_event_handler :: "U32 \<Rightarrow> PTR \<Rightarrow> cm_lib \<Rightarrow> (bool \<times> cm_lib) option" where
  "cm_process_register_event_handler e h lib =
     (if unat e \<ge> length (app_event_handlers lib) then None
      else if app_event_handlers lib ! unat e \<noteq> 0 then CM_RETURN_ERROR CM_ERR_EVENT_HANDLER_ALREADY_REGISTERED False lib
      else Some (True, lib\<lparr>app_event_handlers := (app_event_handlers lib)[unat e := h]\<rparr>))"

definition call_handler ::
  "('a win_state_scheme) app_env \<Rightarrow> U32 \<Rightarrow> cm_lib \<Rightarrow> 'a win_state_scheme \<Rightarrow> (cm_lib \<times> 'a win_state_scheme) option" where
  "call_handler env event lib st =
     (let h = app_event_handlers lib ! unat event
      in if h \<noteq> 0 then env_handler env h (env_local env) lib st else Some (lib, st))"

definition cm_process_handle_events ::
  "('a win_state_scheme) app_env \<Rightarrow> cm_lib \<Rightarrow> 'a win_state_scheme \<Rightarrow> ((bool \<times> cm_lib) \<times> 'a win_state_scheme) option" where
  "cm_process_handle_events env lib st =
     (let e = env_local env;
          st = set_view (store_event e \<lparr>ev_event = 0, ev_data = 0\<rparr> (view st)) st
      in do {
        (popped, st) \<leftarrow> cm_process_pop_event env e st;
        if \<not> popped then do {
          (err, st) \<leftarrow> cm_get_os_error env st;
          r \<leftarrow> CM_RETURN_ERROR err False lib;
          Some (r, st)
        }
        else
          let event = load32 (view st) e
          in if event = OSIF_PROCESS_EVENT_PROCCESS_YIELD_REQ then do {
               (lib, st) \<leftarrow> call_handler env event lib st;
               st \<leftarrow> cm_process_yield env st;
               Some ((True, lib), st)
             }
             else if event = OSIF_PROCESS_EVENT_PROCCESS_CHILD_KILLED then do {
               (lib, st) \<leftarrow> call_handler env event lib st;
               Some ((True, lib), st)
             }
             else Some ((True, lib), st)
      })"

section \<open>Processes and threads\<close>

definition load16 :: "memory \<Rightarrow> PTR \<Rightarrow> U16" where
  "load16 m a = word_cat (m (a + 1)) (m a)"

definition finish_create ::
  "('a win_state_scheme) app_env \<Rightarrow> U32 \<Rightarrow> cm_lib \<Rightarrow> 'a win_state_scheme \<Rightarrow> ((U32 \<times> cm_lib) \<times> 'a win_state_scheme) option" where
  "finish_create env pid lib st =
     (if sint pid < 0 then do {
        (err, st) \<leftarrow> cm_get_os_error env st;
        r \<leftarrow> CM_RETURN_ERROR err CM_FAILURE lib;
        Some (r, st)
      }
      else Some ((pid, lib), st))"

definition cm_process_create ::
  "('a win_state_scheme) app_env \<Rightarrow> PTR \<Rightarrow> bool \<Rightarrow> cm_lib \<Rightarrow> 'a win_state_scheme \<Rightarrow> ((U32 \<times> cm_lib) \<times> 'a win_state_scheme) option" where
  "cm_process_create env filename isKernelMode lib st =
     (if filename = 0 then do { r \<leftarrow> CM_RETURN_ERROR CM_ERR_INVALID_INPUT CM_FAILURE lib; Some (r, st) }
      else
        let flags = PROCESS_FLAGS_NONE OR (if isKernelMode then PROCESS_FLAGS_KERNEL_PROCESS else 0);
            f = env_local env;
            st = set_view (store16 (f + 4) 0 (store32 f 0 (view st))) st
        in do {
          st \<leftarrow> cm_get_bootloaded_file env filename f st;
          (pid, st) \<leftarrow> syscall env 1 (load32 (view st) f) (ucast (load16 (view st) (f + 4))) flags 0 0 st;
          finish_create env pid lib st
        })"

definition cm_thread_create ::
  "('a win_state_scheme) app_env \<Rightarrow> PTR \<Rightarrow> bool \<Rightarrow> cm_lib \<Rightarrow> 'a win_state_scheme \<Rightarrow> ((U32 \<times> cm_lib) \<times> 'a win_state_scheme) option" where
  "cm_thread_create env start isKernelMode lib st =
     (if start = 0 then do { r \<leftarrow> CM_RETURN_ERROR CM_ERR_INVALID_INPUT CM_FAILURE lib; Some (r, st) }
      else
        let flags = PROCESS_FLAGS_THREAD OR (if isKernelMode then PROCESS_FLAGS_KERNEL_PROCESS else 0)
        in do {
          (pid, st) \<leftarrow> syscall env 1 start 0 flags 0 0 st;
          finish_create env pid lib st
        })"

section \<open>Waiting\<close>

definition cm_MICRODEC_TO_TICK_COUNT :: "UINT \<Rightarrow> UINT" where
  "cm_MICRODEC_TO_TICK_COUNT us = us div cm_get_tick_period_us"

partial_function (option) cm_delay_loop ::
  "('a win_state_scheme) app_env \<Rightarrow> U32 \<Rightarrow> cm_lib \<Rightarrow> 'a win_state_scheme \<Rightarrow> (cm_lib \<times> 'a win_state_scheme) option" where
  "cm_delay_loop env end_tick lib st = do {
     (now, st) \<leftarrow> cm_get_tickcount env st;
     if now < end_tick then do {
       ((_, lib), st) \<leftarrow> cm_process_handle_events env lib st;
       cm_delay_loop env end_tick lib st
     }
     else Some (lib, st)
   }"

declare cm_delay_loop.simps [code]

definition cm_delay :: "('a win_state_scheme) app_env \<Rightarrow> UINT \<Rightarrow> cm_lib \<Rightarrow> 'a win_state_scheme \<Rightarrow> (cm_lib \<times> 'a win_state_scheme) option" where
  "cm_delay env ms lib st =
     (let us = ms * 1000
      in do {
        (start_tick, st) \<leftarrow> cm_get_tickcount env st;
        cm_delay_loop env (start_tick + cm_MICRODEC_TO_TICK_COUNT us) lib st
      })"

definition cm_get_lib_error :: "cm_lib \<Rightarrow> U32" where
  "cm_get_lib_error lib = cm_error_num lib"

section \<open>The heap of the process\<close>

text \<open>\<open>cm_malloc_init\<close> with the system call that gives it the start of its buffer.\<close>

definition cm_malloc_start :: "('a win_state_scheme) app_env \<Rightarrow> cm_lib \<Rightarrow> 'a win_state_scheme \<Rightarrow> (cm_lib \<times> 'a win_state_scheme) option" where
  "cm_malloc_start env lib st = do {
     (buffer, st) \<leftarrow> cm_process_get_datamem_start env st;
     lib \<leftarrow> cm_malloc_init buffer lib;
     Some (lib, st)
   }"

end
