(* ===== verification/App_Facts.thy ===== *)
theory App_Facts
  imports App_Library
begin

text \<open>
  What the library promises on top of the kernel: a process that handles its events gives up the processor when its period is over.
  This composes the timer interrupt, the queues of events, the dispatcher of the system calls, the library and the scheduler.
\<close>

section \<open>What the scheduler depends on\<close>

definition sched_frame :: "'a process_state_scheme \<Rightarrow> 'a process_state_scheme \<Rightarrow> bool" where
  "sched_frame st st' \<longleftrightarrow> s_pab st' = s_pab st \<and> s_pmm_completeRegion st' = s_pmm_completeRegion st \<and> regionLength st' = regionLength st
     \<and> phase st' = phase st \<and> schedulerQueue st' = schedulerQueue st \<and> processCount st' = processCount st
     \<and> currentProcess st' = currentProcess st \<and> pinfos st' = pinfos st \<and> vmms st' = vmms st \<and> reg_states st' = reg_states st"

lemma sched_frame_trans [trans]: "sched_frame st st1 \<Longrightarrow> sched_frame st1 st2 \<Longrightarrow> sched_frame st st2"
  by (simp add: sched_frame_def)

lemma sched_frameD:
  assumes "sched_frame st st'"
  shows "sched_ok st' = sched_ok st" "sched_queue st' = sched_queue st" "saved_registers st' = saved_registers st"
    "currentProcess st' = currentProcess st" "pinfos st' = pinfos st"
proof -
  have F: "s_pab st' = s_pab st" "s_pmm_completeRegion st' = s_pmm_completeRegion st" "regionLength st' = regionLength st"
      "phase st' = phase st" "schedulerQueue st' = schedulerQueue st" "processCount st' = processCount st"
      "currentProcess st' = currentProcess st" "pinfos st' = pinfos st" "vmms st' = vmms st" "reg_states st' = reg_states st"
    using assms by (simp_all add: sched_frame_def)
  have fr: "frames st' = frames st"
    unfolding frames_def by (rule bitmap_states_cong) (simp_all add: s_getBitmapFromRegion_def Let_def F)
  have q: "sched_queue st' = sched_queue st"
    by (simp add: sched_queue_def F)
  show "sched_ok st' = sched_ok st" "saved_registers st' = saved_registers st"
    by (simp_all add: sched_ok_def pmm_inv_def pmm_wf_def usable_pages_def runnable_def directory_of_def saved_registers_def fun_eq_iff fr q F)
  show "sched_queue st' = sched_queue st" "currentProcess st' = currentProcess st" "pinfos st' = pinfos st"
    by (rule q, rule F, rule F)
qed

lemma sched_frame_push: "kprocess_pushEvent pid i d st = Some (r, st') \<Longrightarrow> sched_frame st st'"
  by (auto simp: sched_frame_def kprocess_pushEvent_def s_getProcessInfoFromID_def kmalloc_def RETURN_ERROR_def Let_def
      elim!: bind_SomeE split: option.splits if_splits)

lemma sched_frame_pop: "kprocess_popEvent pid st = Some (r, st') \<Longrightarrow> sched_frame st st'"
  by (auto simp: sched_frame_def kprocess_popEvent_def s_getProcessInfoFromID_def kfree_def RETURN_ERROR_def Let_def
      elim!: bind_SomeE split: option.splits if_splits prod.splits node.splits)

lemma sched_frame_updates [simp]:
  "sched_frame st (st'\<lparr>io_log := l\<rparr>) = sched_frame st st'" "sched_frame st st"
  by (simp_all add: sched_frame_def)

lemma sched_frame_tick [simp]:
  "sched_frame st (st'\<lparr>tick_count := t\<rparr>) = sched_frame st st'" "sched_frame (st\<lparr>tick_count := t\<rparr>) st' = sched_frame st st'"
  by (simp_all add: sched_frame_def)

lemma sched_frame_view [simp]: "sched_frame st (set_view m st') = sched_frame st st'"
  by (simp add: sched_frame_def set_view_def)

lemma sched_frame_timer:
  assumes "\<not> graphics_enabled st" "timer_interrupt_handler gx st = Some st'"
  shows "sched_frame st st'"
proof -
  obtain s1 where s1: "keventmanager_invoke gx (st\<lparr>tick_count := tick_count st + 1\<rparr>) = Some s1"
      "(let (_, st) = pic_read_IRR_ISR False True False s1 in pic_send_eoi PIC_IRQ_TIMER st) = Some st'"
    using assms(2) by (auto simp: timer_interrupt_handler_def elim!: bind_SomeE)
  have "sched_frame st s1"
    using s1(1) assms(1)
    by (auto simp: keventmanager_invoke_def Let_def elim!: bind_SomeE split: if_splits)
      (frule pushEvent_frame(1), drule sched_frame_push, simp)+
  then show ?thesis
    using s1(2) by (auto simp: pic_read_log Let_def pic_eoi_log pic_irqs)
qed

lemma sched_frame_pop_call:
  assumes "syscall_asm_despatcher gx 6 pushed ebp ss a st = Some (r, st')"
  shows "sched_frame st st'"
  using assms
  by (auto simp: syscall_asm_despatcher_def s_getSysCallCount_def g_syscall_table_def ksys_processPopEvent_def nth_append RETURN_ERROR_def
      elim!: bind_SomeE split: if_splits dest!: sched_frame_pop)

lemma rr_next_other: "distinct ps \<Longrightarrow> 2 \<le> length ps \<Longrightarrow> fst (rr_next c ps) \<noteq> c"
  by (cases ps rule: remdups_adj.cases) (auto split: if_splits)

section \<open>A period that is over\<close>

text \<open>The environment of a process without further interrupts.\<close>

definition quiet :: "('a win_state_scheme) app_env \<Rightarrow> bool" where
  "quiet env \<longleftrightarrow> env_interrupts env = Some \<and> unat (env_local env) + 12 \<le> 0xC0000000"

lemma pop_event_library:
  assumes q: "quiet env" and ok: "events_ok st" "currentProcess st \<in> set (sched_queue st)"
  shows "\<exists>st'. cm_process_pop_event env (env_local env) st = Some (True, st') \<and> events_ok st' \<and> sched_frame st st'
    \<and> load_event (view st') (env_local env) =
        (case pending st (currentProcess st) of [] \<Rightarrow> \<lparr>ev_event = KERNEL_EVENT_NONE, ev_data = 0\<rparr> | ev # _ \<Rightarrow> ev)
    \<and> pending st' (currentProcess st) = tl (pending st (currentProcess st))"
proof -
  let ?a = "\<lparr>a_ebx = env_local env, a_ecx = 0, a_edx = 0, a_esi = 0, a_edi = 0\<rparr>"
  have "unat (a_ebx ?a) + 12 \<le> 0xC0000000"
    using q by (simp add: quiet_def)
  from pop_event_call [OF ok this, of "env_gx env" "env_frame env" "env_ebp env" "env_ss env"]
  obtain st' where st': "syscall_asm_despatcher (env_gx env) 6 (env_frame env) (env_ebp env) (env_ss env) ?a st = Some (SysBool True, st')"
      "events_ok st'" "load_event (view st') (env_local env) =
        (case pending st (currentProcess st) of [] \<Rightarrow> \<lparr>ev_event = KERNEL_EVENT_NONE, ev_data = 0\<rparr> | ev # _ \<Rightarrow> ev)"
      "pending st' (currentProcess st) = tl (pending st (currentProcess st))"
    by auto
  then show ?thesis
    using q sched_frame_pop_call [OF st'(1)]
    by (simp add: cm_process_pop_event_def syscall_def int_0x50_def quiet_def)
qed

lemma yield_library:
  assumes q: "quiet env" and ok: "sched_ok st" "currentProcess st \<noteq> 0" and two: "2 \<le> length (sched_queue st)"
  shows "\<exists>st' flags. cm_process_yield env st = env_resume env flags (saved_registers st (currentProcess st')) st'
    \<and> (currentProcess st', sched_queue st') = rr_next (currentProcess st) (sched_queue st) \<and> currentProcess st' \<noteq> currentProcess st
    \<and> saved_registers st' (currentProcess st) = caller_registers (make_frame (env_frame env) (env_ebp env) (env_ss env))
        \<lparr>a_ebx = 0, a_ecx = 0, a_edx = 0, a_esi = 0, a_edi = 0\<rparr> \<and> sched_ok st'"
proof -
  let ?p = "currentProcess st" and ?v = "caller_registers (make_frame (env_frame env) (env_ebp env) (env_ss env))
        \<lparr>a_ebx = 0, a_ecx = 0, a_edx = 0, a_esi = 0, a_edi = 0\<rparr>"
  have p: "?p \<in> set (sched_queue st)" and "distinct (sched_queue st)"
    using ok by (auto simp: sched_ok_def ring_distinct)
  obtain r st1 where y: "kprocess_yield (Some ?v) st = Some (r, st1)" "sched_ok st1"
      and nx: "(currentProcess st1, sched_queue st1) = rr_next ?p (sched_queue st)"
      and keep: "saved_registers st1 ?p = (if currentProcess st1 \<noteq> ?p then ?v else saved_registers st ?p)"
      and sw: "currentProcess st1 \<noteq> ?p \<Longrightarrow>
        r = SwitchJump (p_flags (pinfos st (currentProcess st1))) (saved_registers st (currentProcess st1))"
    using yield_step [OF ok, of ?v] p by metis
  have other: "currentProcess st1 \<noteq> ?p"
    using rr_next_other [OF \<open>distinct (sched_queue st)\<close> two, of ?p] arg_cong [OF nx, of fst] by simp
  have "cm_process_yield env st = env_resume env (p_flags (pinfos st (currentProcess st1))) (saved_registers st (currentProcess st1)) st1"
    using q y(1) sw [OF other]
    by (cases "env_resume env (p_flags (pinfos st (currentProcess st1))) (saved_registers st (currentProcess st1)) st1")
      (simp_all add: cm_process_yield_def syscall_def int_0x50_def quiet_def syscall_asm_despatcher_def s_getSysCallCount_def
        g_syscall_table_def ksys_yieldProcess_def)
  then show ?thesis
    using nx other keep y(2) by auto
qed

text \<open>
  C10. A process that handles its events is preempted when its period is over. In a build without graphics, with at least two processes and no pending
  events of the running one, let a timer interrupt complete a period of 20 ticks while the kernel heap has room for an event. When the process next handles its events through the library, having registered no
  handler for requests to yield, the kernel has switched to the next process of the round robin: the library function continues only when the
  process is resumed, which happens with the registers of its call saved; the next process continues with the registers that were saved for it.
  The library function then returns true.
\<close>

theorem period_over_switches:
  assumes "events_ok st" "sched_ok st" "\<not> graphics_enabled st" "currentProcess st \<noteq> 0" "2 \<le> length (sched_queue st)"
    and "processID (pinfos st (currentProcess st)) \<noteq> PROCESS_ID_KERNEL" "pending st (currentProcess st) = []"
    and "unat (tick_count st + 1) mod 20 = 0" "\<exists>(x, n, a) \<in> set (kmalloc_segments st). \<not> a \<and> 84 \<le> unat n"
    and "quiet env" "app_event_handlers lib ! 1 = 0"
  shows "\<exists>st1 st2 flags. timer_interrupt_handler gx st = Some st1
    \<and> cm_process_handle_events env lib st1 =
        map_option (\<lambda>st'. ((True, lib), st')) (env_resume env flags (saved_registers st (currentProcess st2)) st2)
    \<and> (currentProcess st2, sched_queue st2) = rr_next (currentProcess st) (sched_queue st) \<and> currentProcess st2 \<noteq> currentProcess st
    \<and> saved_registers st2 (currentProcess st) = caller_registers (make_frame (env_frame env) (env_ebp env) (env_ss env))
        \<lparr>a_ebx = 0, a_ecx = 0, a_edx = 0, a_esi = 0, a_edi = 0\<rparr> \<and> sched_ok st2"
proof -
  let ?p = "currentProcess st" and ?e = "env_local env"
  have p: "?p \<in> set (sched_queue st)"
    using assms(2,4) by (auto simp: sched_ok_def)
  obtain st1 where t: "timer_interrupt_handler gx st = Some st1" "events_ok st1"
      "pending st1 ?p = [\<lparr>ev_event = KERNEL_EVENT_PROCCESS_YIELD_REQ, ev_data = ucast (tick_count st + 1)\<rparr>]"
    using timer_step [OF assms(1,3) p assms(6), of gx] assms(7-9) by fastforce
  note F1 = sched_frame_timer [OF assms(3) t(1)]
  let ?s = "set_view (store_event ?e \<lparr>ev_event = 0, ev_data = 0\<rparr> (view st1)) st1"
  have s: "sched_frame st ?s" "events_ok ?s" "currentProcess ?s \<in> set (sched_queue ?s)" "pending ?s ?p = pending st1 ?p" "currentProcess ?s = ?p"
    using F1 t(2) p by (simp_all add: sched_frameD [OF F1])
  obtain st2 where pop: "cm_process_pop_event env ?e ?s = Some (True, st2)" "sched_frame ?s st2"
      "load_event (view st2) ?e = \<lparr>ev_event = KERNEL_EVENT_PROCCESS_YIELD_REQ, ev_data = ucast (tick_count st + 1)\<rparr>"
    using pop_event_library [OF assms(10) s(2,3)] t(3) s(4,5) by auto
  have F2: "sched_frame st st2"
    using s(1) pop(2) by (rule sched_frame_trans)
  note D = sched_frameD [OF F2]
  obtain st3 flags where y: "cm_process_yield env st2 = env_resume env flags (saved_registers st (currentProcess st3)) st3"
      "(currentProcess st3, sched_queue st3) = rr_next ?p (sched_queue st)" "currentProcess st3 \<noteq> ?p"
      "saved_registers st3 ?p = caller_registers (make_frame (env_frame env) (env_ebp env) (env_ss env))
        \<lparr>a_ebx = 0, a_ecx = 0, a_edx = 0, a_esi = 0, a_edi = 0\<rparr>" "sched_ok st3"
    using yield_library [OF assms(10), of st2] assms(2,4,5) by (auto simp: D)
  have "load32 (view st2) ?e = 1"
    using arg_cong [OF pop(3), of ev_event] by (simp add: load_event_def KERNEL_EVENT_PROCCESS_YIELD_REQ_def)
  then have "cm_process_handle_events env lib st1 =
      map_option (\<lambda>st'. ((True, lib), st')) (env_resume env flags (saved_registers st (currentProcess st3)) st3)"
    using pop(1) y(1) assms(11)
    by (cases "env_resume env flags (saved_registers st (currentProcess st3)) st3")
      (simp_all add: cm_process_handle_events_def Let_def call_handler_def OSIF_PROCESS_EVENT_PROCCESS_YIELD_REQ_def)
  then show ?thesis
    using t(1) y by blast
qed

section \<open>Registering handlers\<close>

text \<open>The first handler that is registered for an event stays: a second registration fails and changes the last error only.\<close>

lemma register_handler_first_wins:
  assumes "length (app_event_handlers lib) = OSIF_PROCESS_EVENTS_COUNT" "unat e < OSIF_PROCESS_EVENTS_COUNT" "h \<noteq> 0"
    and "app_event_handlers lib ! unat e = 0"
  shows "\<exists>lib1. cm_process_register_event_handler e h lib = Some (True, lib1) \<and> app_event_handlers lib1 ! unat e = h
    \<and> (\<forall>i \<noteq> unat e. app_event_handlers lib1 ! i = app_event_handlers lib ! i)
    \<and> cm_process_register_event_handler e h' lib1 = Some (False, lib1\<lparr>cm_error_num := 101\<rparr>)"
  using assms
  by (simp add: cm_process_register_event_handler_def CM_RETURN_ERROR_def CM_ERR_EVENT_HANDLER_ALREADY_REGISTERED_def nth_list_update)

section \<open>Witness\<close>

definition sample_env :: "win_state app_env" where
  "sample_env = \<lparr>env_gx = 1, env_frame = \<lparr>f_ebp = 1, f_eip = 2, f_cs = 0x23, f_eflags = 4, f_esp = 5, f_ss = 6\<rparr>, env_ebp = 0, env_ss = 0,
     env_eax = 0, env_local = 0x20000, env_interrupts = Some, env_resume = (\<lambda>_ _. Some), env_handler = (\<lambda>_ _ lib st. Some (lib, st))\<rparr>"

definition sample_lib :: cm_lib where
  "sample_lib = \<lparr>cm_error_num = 0, cmem = (\<lambda>_. 0), cheap = blank_heap, app_event_handlers = [0, 0, 0]\<rparr>"

theorem period_over_switches_witness:
  "\<exists>st1 st2. timer_interrupt_handler 1 sample_win = Some st1 \<and>
     cm_process_handle_events sample_env sample_lib st1 = Some ((True, sample_lib), st2) \<and>
     currentProcess sample_win = 2 \<and> currentProcess st2 = 1 \<and> sched_queue st2 = [2, 3, 1] \<and> r_eip (saved_registers st2 2) = 2"
proof -
  have seg: "\<exists>(x, n, a) \<in> set (kmalloc_segments sample_win). \<not> a \<and> 84 \<le> unat n"
    using sample_timer_ok(4) by (simp add: kmalloc_segments_def sample_win_fields)
  have env: "quiet sample_env" "app_event_handlers sample_lib ! 1 = 0"
    by (simp_all add: quiet_def sample_env_def sample_lib_def)
  have st: "\<not> graphics_enabled sample_win" "currentProcess sample_win = 2" "2 \<le> length (sched_queue sample_win)"
      "processID (pinfos sample_win (currentProcess sample_win)) \<noteq> PROCESS_ID_KERNEL" "pending sample_win (currentProcess sample_win) = []"
      "unat (tick_count sample_win + 1) mod 20 = 0"
    by (simp_all add: sample_win_ok sample_win_fields sample_timer_fields sample_process_def PROCESS_ID_KERNEL_def)
      (simp add: sample_win_def gx_state.defs sample_timer_fields)
  obtain st1 st2 flags where r: "timer_interrupt_handler 1 sample_win = Some st1"
      "cm_process_handle_events sample_env sample_lib st1 =
        map_option (\<lambda>st'. ((True, sample_lib), st')) (env_resume sample_env flags (saved_registers sample_win (currentProcess st2)) st2)"
      "(currentProcess st2, sched_queue st2) = rr_next 2 [1, 2, 3]"
      "saved_registers st2 2 = caller_registers (make_frame (env_frame sample_env) (env_ebp sample_env) (env_ss sample_env))
        \<lparr>a_ebx = 0, a_ecx = 0, a_edx = 0, a_esi = 0, a_edi = 0\<rparr>"
    using period_over_switches [OF sample_win_ok(1) sample_win_sched_ok st(1) _ st(3-6) seg env, of 1] st(2) by (auto simp: sample_win_ok)
  then show ?thesis
    using st(2) by (intro exI [of _ st1] exI [of _ st2]) (simp add: sample_env_def make_frame_def caller_registers_def)
qed

end
