(* ===== verification/Debug_Log.thy ===== *)
theory Debug_Log
  imports App_Facts
begin

text \<open>
  Messages for the developer: the log of the kernel (\<open>src/kernel/kdebug.c\<close>) and of the library (\<open>src/cm/debug.c\<close>), which goes to port E9h of the
  emulator, and the screen of a panic (\<open>src/kernel/kpanic.c\<close>). The log exists in builds with \<open>PORT_E9_ENABLED\<close> only, and nothing in
  the other theories depends on it.

  A buffer on the stack is a function from offsets to bytes; what the bytes hold before is a parameter. The code may write
  past the end of a buffer. What happens then depends on how the compiler lays out the stack (the arguments that are still to be formatted may be among
  what is overwritten), so the model ends at such a write: the functions of the kernel have no result, and those of the library the result \<open>Overrun\<close>. The model of \<open>kpanic_ndu\<close> ends where the processor halts.
\<close>

section \<open>Buffers\<close>

definition write_at :: "nat \<Rightarrow> U8 list \<Rightarrow> (nat \<Rightarrow> U8) \<Rightarrow> nat \<Rightarrow> U8" where
  "write_at off bytes buf i = (if off \<le> i \<and> i < off + length bytes then bytes ! (i - off) else buf i)"

text \<open>
  Formatting behind what the buffer holds already, with the limit \<open>bufsz\<close> on the characters that are written. All buffers of
  the kernel have room for \<open>MAX_PRINTABLE_STRING_LENGTH\<close> bytes.
\<close>

definition append_text :: "UINT \<Rightarrow> U8 list \<Rightarrow> varg list \<Rightarrow> (nat \<Rightarrow> U8) \<times> nat \<Rightarrow> ((nat \<Rightarrow> U8) \<times> nat) option" where
  "append_text bufsz fmt l b = do {
     (bytes, n) \<leftarrow> kearly_vsnprintf bufsz fmt l;
     if snd b + length bytes \<le> unat MAX_PRINTABLE_STRING_LENGTH
     then Some (write_at (snd b) bytes (fst b), snd b + nat n)
     else None
   }"

text \<open>The text in a buffer, up to the first zero byte.\<close>

partial_function (option) buffer_text :: "(nat \<Rightarrow> U8) \<Rightarrow> nat \<Rightarrow> U8 list option" where
  "buffer_text buf i = (if buf i = 0 then Some [] else do { s \<leftarrow> buffer_text buf (Suc i); Some (buf i # s) })"

declare buffer_text.simps [code]

section \<open>The log of the kernel\<close>

datatype KernelDebugLogType = KDEBUG_LOG_TYPE_INFO | KDEBUG_LOG_TYPE_FUNC | KDEBUG_LOG_TYPE_ERROR | KDEBUG_LOG_TYPE_WARN

abbreviation ESC :: char where "ESC \<equiv> CHR 0x1B"
abbreviation LF :: char where "LF \<equiv> CHR 0x0A"

definition ANSI_COL_GRAY :: "U8 list" where "ANSI_COL_GRAY = literal (ESC # ''[90m'')"
definition ANSI_COL_YELLOW :: "U8 list" where "ANSI_COL_YELLOW = literal (ESC # ''[93m'')"
definition ANSI_COL_RED :: "U8 list" where "ANSI_COL_RED = literal (ESC # ''[31m'')"
definition ANSI_COL_GREEN :: "U8 list" where "ANSI_COL_GREEN = literal (ESC # ''[32m'')"
definition ANSI_COL_RESET :: "U8 list" where "ANSI_COL_RESET = literal (ESC # ''[0m'')"

fun log_color :: "KernelDebugLogType \<Rightarrow> U8 list" where
  "log_color KDEBUG_LOG_TYPE_INFO = ANSI_COL_GREEN"
| "log_color KDEBUG_LOG_TYPE_FUNC = ANSI_COL_YELLOW"
| "log_color KDEBUG_LOG_TYPE_ERROR = ANSI_COL_RED"
| "log_color KDEBUG_LOG_TYPE_WARN = ANSI_COL_YELLOW"

fun kdebug_message :: "KernelDebugLogType \<Rightarrow> U8 list" where
  "kdebug_message KDEBUG_LOG_TYPE_INFO = literal (LF # ''  %s[%u][ INFO ]%s %s:%u %s|'')"
| "kdebug_message KDEBUG_LOG_TYPE_FUNC = literal (LF # ''%s[%u]%s[ %s:%u ]%s|'')"
| "kdebug_message KDEBUG_LOG_TYPE_ERROR = literal (LF # ''  %s[%u][ ERROR ]%s %s:%u %s|'')"
| "kdebug_message KDEBUG_LOG_TYPE_WARN = literal (LF # ''  %s[%u][ WARN ]%s %s:%u %s|'')"

definition s_qemu_debugPutString :: "U8 list \<Rightarrow> 'a hw_state_scheme \<Rightarrow> 'a hw_state_scheme" where
  "s_qemu_debugPutString s st = fold (outb 0xE9) s st"

definition log_header :: "U8 list \<Rightarrow> U32 \<Rightarrow> U8 list \<Rightarrow> UINT \<Rightarrow> varg list" where
  "log_header color tick func line = [ArgStr color, Arg32 tick, ArgStr ANSI_COL_GRAY, ArgStr func, Arg32 line, ArgStr ANSI_COL_RESET]"

definition kdebug_log_ndu ::
  "(nat \<Rightarrow> U8) \<Rightarrow> KernelDebugLogType \<Rightarrow> U8 list \<Rightarrow> UINT \<Rightarrow> U8 list \<Rightarrow> varg list \<Rightarrow> 'a gx_state_scheme
   \<Rightarrow> 'a gx_state_scheme option" where
  "kdebug_log_ndu junk type func line fmt l st = do {
     b \<leftarrow> append_text MAX_PRINTABLE_STRING_LENGTH (kdebug_message type) (log_header (log_color type) (tick_count st) func line) (junk, 0);
     (buf, _) \<leftarrow> append_text MAX_PRINTABLE_STRING_LENGTH fmt l b;
     s \<leftarrow> buffer_text buf 0;
     Some (s_qemu_debugPutString s st)
   }"

section \<open>The log of the library\<close>

datatype CM_DebugLogType = CM_DEBUG_LOG_TYPE_INFO | CM_DEBUG_LOG_TYPE_FUNC | CM_DEBUG_LOG_TYPE_ERROR | CM_DEBUG_LOG_TYPE_WARN

definition CM_MAX_PRINTABLE_STRING_LENGTH :: UINT where "CM_MAX_PRINTABLE_STRING_LENGTH = 100"

fun cm_log_color :: "CM_DebugLogType \<Rightarrow> U8 list" where
  "cm_log_color CM_DEBUG_LOG_TYPE_INFO = ANSI_COL_GREEN"
| "cm_log_color CM_DEBUG_LOG_TYPE_FUNC = ANSI_COL_YELLOW"
| "cm_log_color CM_DEBUG_LOG_TYPE_ERROR = ANSI_COL_RED"
| "cm_log_color CM_DEBUG_LOG_TYPE_WARN = ANSI_COL_YELLOW"

fun cm_debug_message :: "CM_DebugLogType \<Rightarrow> U8 list" where
  "cm_debug_message CM_DEBUG_LOG_TYPE_INFO = literal (LF # ''  %s[%u][MLC][ INFO ]%s %s:%u %s|'')"
| "cm_debug_message CM_DEBUG_LOG_TYPE_FUNC = literal (LF # ''%s[%u][MLC]%s[ %s:%u ]%s|'')"
| "cm_debug_message CM_DEBUG_LOG_TYPE_ERROR = literal (LF # ''  %s[%u][MLC][ ERROR ]%s %s:%u %s|'')"
| "cm_debug_message CM_DEBUG_LOG_TYPE_WARN = literal (LF # ''  %s[%u][MLC][ WARN ]%s %s:%u %s|'')"

datatype 'a log_result = Logged 'a | Overrun

text \<open>The buffer has room for \<open>CM_MAX_PRINTABLE_STRING_LENGTH\<close> bytes, and this is also the limit that is given to the formatting functions.\<close>

definition cm_append_text :: "UINT \<Rightarrow> U8 list \<Rightarrow> varg list \<Rightarrow> (nat \<Rightarrow> U8) \<times> nat \<Rightarrow> ((nat \<Rightarrow> U8) \<times> nat) log_result option" where
  "cm_append_text bufsz fmt l b = do {
     (bytes, n) \<leftarrow> cm_vsnprintf bufsz fmt l;
     Some (if snd b + length bytes \<le> unat CM_MAX_PRINTABLE_STRING_LENGTH
       then Logged (write_at (snd b) bytes (fst b), snd b + nat n)
       else Overrun)
   }"

definition qemu_putString :: "U8 list \<Rightarrow> 'a hw_state_scheme \<Rightarrow> 'a hw_state_scheme" where
  "qemu_putString s st = fold (outb 0xE9) s st"

definition cm_debug_log_ndu ::
  "('a win_state_scheme) app_env \<Rightarrow> (nat \<Rightarrow> U8) \<Rightarrow> CM_DebugLogType \<Rightarrow> U8 list \<Rightarrow> UINT \<Rightarrow> U8 list \<Rightarrow> varg list \<Rightarrow> 'a win_state_scheme
   \<Rightarrow> ('a win_state_scheme) log_result option" where
  "cm_debug_log_ndu env junk type func line fmt l st = do {
     (tick, st) \<leftarrow> cm_get_tickcount env st;
     r \<leftarrow> cm_append_text CM_MAX_PRINTABLE_STRING_LENGTH (cm_debug_message type) (log_header (cm_log_color type) tick func line) (junk, 0);
     case r of Overrun \<Rightarrow> Some Overrun
     | Logged b \<Rightarrow> do {
         r \<leftarrow> cm_append_text CM_MAX_PRINTABLE_STRING_LENGTH fmt l b;
         case r of Overrun \<Rightarrow> Some Overrun
         | Logged b \<Rightarrow> do {
             s \<leftarrow> buffer_text (fst b) 0;
             Some (Logged (qemu_putString s st))
           }
       }
   }"

section \<open>The panic\<close>

definition CONFIG_MAX_CALL_TRACE_DEPTH :: nat where "CONFIG_MAX_CALL_TRACE_DEPTH = 10"

text \<open>The frames of the callers are linked by the saved base pointers; the return address is behind the link.\<close>

fun arch_dump_call_trace :: "nat \<Rightarrow> memory \<Rightarrow> PTR \<Rightarrow> PTR list" where
  "arch_dump_call_trace 0 m frame = []"
| "arch_dump_call_trace (Suc n) m frame =
     (if load32 m frame = 0 then [] else load32 m (frame + 4) # arch_dump_call_trace n m (load32 m frame))"

definition COLOR_BG_BSOD :: "nat \<Rightarrow> Color" where "COLOR_BG_BSOD gx = (if gx = 1 then 106 else 0x390071)"

definition kpanic_gx_ui :: "nat \<Rightarrow> U8 list \<Rightarrow> 'a gx_state_scheme \<Rightarrow> 'a gx_state_scheme option" where
  "kpanic_gx_ui gx text st =
     (if KERNEL_PHASE_CHECK GRAPHICS_READY st then
        let ga = gx_hwfb st;
            m = kgraphics_rect gx ga 0 0 (width_px ga) (height_px ga) (COLOR_BG_BSOD gx) (kmem st)
        in do {
          m \<leftarrow> kgraphics_drawstring gx (gi_fontsData (gxi st)) ga 0 0 text (COLOR_WHITE gx) (COLOR_BG_BSOD gx) m;
          Some (st\<lparr>kmem := m\<rparr>)
        }
      else Some st)"

fun append_trace :: "PTR list \<Rightarrow> (nat \<Rightarrow> U8) \<times> nat \<Rightarrow> ((nat \<Rightarrow> U8) \<times> nat) option" where
  "append_trace [] b = Some b"
| "append_trace (a # as) b =
     (if a = 0 then Some b
      else do {
        b \<leftarrow> append_text MAX_PRINTABLE_STRING_LENGTH (literal '' %x'') [Arg32 a] b;
        append_trace as b
      })"

text \<open>The text of the panic, from the base pointer of the function on the stack.\<close>

definition panic_text ::
  "(nat \<Rightarrow> U8) \<Rightarrow> PTR \<Rightarrow> UINT \<Rightarrow> U8 list \<Rightarrow> U8 list \<Rightarrow> varg list \<Rightarrow> 'a gx_state_scheme \<Rightarrow> U8 list option" where
  "panic_text junk ebp line file fmt l st =
     (let bufsz = MAX_PRINTABLE_STRING_LENGTH;
          raddrs = arch_dump_call_trace CONFIG_MAX_CALL_TRACE_DEPTH (kmem st) ebp
      in do {
        b \<leftarrow> append_text bufsz (literal (LF # LF # ''Kernel Panic:'')) [] (junk, 0);
        b \<leftarrow> append_text bufsz (literal (LF # ''At: %s: %u'')) [ArgStr file, Arg32 line] b;
        b \<leftarrow> append_text bufsz (literal (LF # ''Kernel error: %x'' @ [LF, LF])) [Arg32 (error_code (errorNumber st))] b;
        b \<leftarrow> append_text bufsz fmt l b;
        b \<leftarrow> append_text bufsz (literal (LF # LF # ''Call stack:'' @ [LF] @ ''-'')) [] b;
        b \<leftarrow> append_trace raddrs b;
        (buf, _) \<leftarrow> append_text bufsz (literal (LF # ''------------'' @ [LF])) [] b;
        buffer_text buf 0
      })"

definition kpanic_ndu ::
  "nat \<Rightarrow> (nat \<Rightarrow> U8) \<Rightarrow> PTR \<Rightarrow> UINT \<Rightarrow> U8 list \<Rightarrow> U8 list \<Rightarrow> varg list \<Rightarrow> 'a gx_state_scheme \<Rightarrow> 'a gx_state_scheme option" where
  "kpanic_ndu gx junk ebp line file fmt l st = do {
     text \<leftarrow> panic_text junk ebp line file fmt l st;
     st \<leftarrow> (if graphics_enabled st then kpanic_gx_ui gx (text @ [0]) st else Some st);
     (_, st) \<leftarrow> kearly_printf (text @ [0]) [] st;
     Some st
   }"

section \<open>What is written\<close>

lemma vsnprintf_text:
  assumes "0 < n" "format_text fmt l = Some tx" "length tx < unat n \<or> 37 \<notin> set tx"
  shows "kearly_vsnprintf n fmt l = Some (take (unat n - 1) tx @ [0], int (length tx))"
    and "cm_vsnprintf n fmt l = Some (take (unat n - 1) tx @ [0], int (length tx))"
proof -
  have u: "uint n = int (unat n)"
    by simp
  have "percents_fit (uint n) ([] @ tx)"
    using assms(3) by (auto simp: u simp del: of_nat_unat)
  then obtain d where "vsnprintf_loop fmt l \<lparr>out = [], size_left = uint n\<rparr> = Some d" "holds (uint n) tx d"
    using vsnprintf_loop_holds [OF holds_Nil assms(2), of "uint n"] by auto
  moreover have "nat (uint n - 1) = unat n - 1"
    unfolding u by linarith
  ultimately show "kearly_vsnprintf n fmt l = Some (take (unat n - 1) tx @ [0], int (length tx))"
      "cm_vsnprintf n fmt l = Some (take (unat n - 1) tx @ [0], int (length tx))"
    by (simp_all add: kearly_vsnprintf_def cm_vsnprintf_def holds_def)
qed

lemma write_at_append: "write_at (length h) m (write_at 0 (h @ [x]) buf) = write_at 0 (h @ m) buf" if "m \<noteq> []"
  using that by (cases m) (auto simp: write_at_def fun_eq_iff nth_append)

lemma buffer_text_write:
  assumes "0 \<notin> set s"
  shows "buffer_text (write_at 0 (s @ [0]) buf) 0 = Some s"
proof -
  have "buffer_text (write_at 0 (s @ [0]) buf) i = Some (drop i s)" if "i \<le> length s" for i
    using that
  proof (induction "length s - i" arbitrary: i)
    case 0
    then show ?case
      by (subst buffer_text.simps) (auto simp: write_at_def nth_append)
  next
    case (Suc n)
    then have i: "i < length s" by simp
    then have "s ! i \<noteq> 0"
      using assms nth_mem by metis
    then show ?case
      using Suc.hyps(1) [of "Suc i"] Suc.hyps(2) i
      by (subst buffer_text.simps) (simp add: write_at_def nth_append Cons_nth_drop_Suc)
  qed
  from this [of 0] show ?thesis by simp
qed

lemma fold_outb: "fold (outb p) s st = st\<lparr>io_log := io_log st @ map (OutB p) s\<rparr>"
  by (induction s arbitrary: st) (simp_all add: outb_def)

lemma header_nonempty: "format_text (cm_debug_message type) l = Some H \<Longrightarrow> 0 < length H"
  by (cases type) (auto simp: literal_def format_text_Cons)

text \<open>
  C39. A line of the library's log has room for 99 characters. Let \<open>H\<close> be the heading of the line and \<open>M\<close> the message. If they have
  less than 100 characters together, the logger prints exactly heading and message to port E9h and changes nothing else. If they
  have more, it does not shorten the line but writes past its buffer of 100 bytes.
\<close>

theorem cm_debug_log_written:
  assumes "cm_get_tickcount env st = Some (tick, st1)"
    and "format_text (cm_debug_message type) (log_header (cm_log_color type) tick func line) = Some H" "length H < 100 \<or> 37 \<notin> set H"
    and "format_text fmt l = Some M" "length M < 100 \<or> 37 \<notin> set M" "0 \<notin> set (H @ M)"
  shows "cm_debug_log_ndu env junk type func line fmt l st =
    Some (if length (H @ M) < 100 then Logged (st1\<lparr>io_log := io_log st1 @ map (OutB 0xE9) (H @ M)\<rparr>) else Overrun)"
proof -
  have h: "cm_append_text 100 (cm_debug_message type) (log_header (cm_log_color type) tick func line) (junk, 0) =
      Some (Logged (write_at 0 (take 99 H @ [0]) junk, length H))"
    using vsnprintf_text(2) [OF _ assms(2), of 100] assms(3) by (simp add: cm_append_text_def CM_MAX_PRINTABLE_STRING_LENGTH_def)
  have m: "cm_append_text 100 fmt l (buf, length H) =
      Some (if length H + length M < 100 then Logged (write_at (length H) (M @ [0]) buf, length H + length M) else Overrun)" for buf
  proof -
    have "length H + length (take 99 M @ [0 :: U8]) \<le> 100 \<longleftrightarrow> length H + length M < 100"
      using header_nonempty [OF assms(2)] by (simp del: length_greater_0_conv) linarith
    then show ?thesis
      using vsnprintf_text(2) [OF _ assms(4), of 100] assms(5)
      by (auto simp: cm_append_text_def CM_MAX_PRINTABLE_STRING_LENGTH_def)
  qed
  have "buffer_text (write_at (length H) (M @ [0]) (write_at 0 (H @ [0]) junk)) 0 = Some (H @ M)"
    using buffer_text_write [OF assms(6), of junk] by (simp add: write_at_append)
  then show ?thesis
    using assms(1) h m by (simp add: cm_debug_log_ndu_def CM_MAX_PRINTABLE_STRING_LENGTH_def qemu_putString_def fold_outb)
qed

text \<open>The kernel has room for a screen of text.\<close>

lemma kdebug_log_written:
  assumes "format_text (kdebug_message type) (log_header (log_color type) (tick_count st) func line) = Some H"
    and "format_text fmt l = Some M" "length (H @ M) < 4000" "0 \<notin> set (H @ M)"
  shows "kdebug_log_ndu junk type func line fmt l st = Some (st\<lparr>io_log := io_log st @ map (OutB 0xE9) (H @ M)\<rparr>)"
proof -
  note n = MAX_PRINTABLE_STRING_LENGTH_def VGA_COLUMNS_def VGA_ROWS_def
  have h: "append_text 4000 (kdebug_message type) (log_header (log_color type) (tick_count st) func line) (junk, 0) =
      Some (write_at 0 (H @ [0]) junk, length H)"
    using vsnprintf_text(1) [OF _ assms(1), of 4000] assms(3) by (simp add: append_text_def n)
  have m: "append_text 4000 fmt l (write_at 0 (H @ [0]) junk, length H) =
      Some (write_at 0 (H @ M @ [0]) junk, length H + length M)"
    using vsnprintf_text(1) [OF _ assms(2), of 4000] assms(3) by (simp add: append_text_def write_at_append n)
  have "buffer_text (write_at 0 (H @ M @ [0]) junk) 0 = Some (H @ M)"
    using buffer_text_write [OF assms(4), of junk] by simp
  then show ?thesis
    using h m by (simp add: kdebug_log_ndu_def n s_qemu_debugPutString_def fold_outb)
qed

section \<open>Witness\<close>

lemma format_plain: "\<forall>c \<in> set s. c \<noteq> 0 \<and> c \<noteq> 37 \<Longrightarrow> format_text (s @ [0]) [] = Some s"
  by (induction s) (simp_all add: format_text_Cons)

lemma sample_header:
  "format_text (cm_debug_message CM_DEBUG_LOG_TYPE_FUNC) (log_header (cm_log_color CM_DEBUG_LOG_TYPE_FUNC) 19 [102, 0] 1) =
    Some ([10, 27, 91, 57, 51, 109, 91, 49, 57, 93, 91, 77, 76, 67, 93, 27, 91, 57, 48, 109, 91, 32, 102, 58, 49, 32, 93, 27, 91, 48, 109, 124])"
  by (simp add: literal_def log_header_def ANSI_COL_YELLOW_def ANSI_COL_GRAY_def ANSI_COL_RESET_def format_text_Cons is_conversion_def
      directive_text_def Let_def num_text.simps [of 10 19] num_text.simps [of 10 "Suc 0"] chars_def)

theorem cm_debug_log_written_witness:
  "cm_debug_log_ndu sample_env (\<lambda>_. 0) CM_DEBUG_LOG_TYPE_FUNC [102, 0] 1 (replicate 67 65 @ [0]) [] sample_win \<noteq> Some Overrun
    \<and> cm_debug_log_ndu sample_env (\<lambda>_. 0) CM_DEBUG_LOG_TYPE_FUNC [102, 0] 1 (replicate 68 65 @ [0]) [] sample_win = Some Overrun"
proof -
  have "tick_count sample_win = 19"
    by (simp add: sample_win_def gx_state.defs sample_timer_fields)
  then have t: "cm_get_tickcount sample_env sample_win = Some (19, sample_win)"
    by (simp add: cm_get_tickcount_def syscall_def int_0x50_def sample_env_def syscall_asm_despatcher_def s_getSysCallCount_def
        g_syscall_table_def ksys_get_tickcount_def nth_append)
  have m: "format_text (replicate n 65 @ [0]) [] = Some (replicate n 65)" for n
    by (rule format_plain) simp
  show ?thesis
    using cm_debug_log_written [OF t sample_header _ m [of 67], of "\<lambda>_. 0"] cm_debug_log_written [OF t sample_header _ m [of 68], of "\<lambda>_. 0"]
    by simp
qed

end
