(* ===== verification/Exceptions.thy ===== *)
theory Exceptions
  imports Debug_Log
begin

text \<open>
  The handlers of \<open>src/kernel/x86/interrupts.c\<close> that end in a panic, down to the text on the screen, and the text of a panic. The
  result is the state in which the processor halts. The place of the call (\<open>__FILE__\<close> and \<open>__LINE__\<close>), the base pointer and the
  bytes on the stack are parameters.
\<close>

record InterruptFrame =
  i_ip :: U32
  i_cs :: U32
  i_flags :: U32
  i_sp :: U32
  i_ss :: U32

record panic_site =
  s_gx :: nat
  s_junk :: "nat \<Rightarrow> U8"
  s_ebp :: PTR
  s_line :: UINT
  s_file :: "U8 list"

definition k_panic :: "panic_site \<Rightarrow> U8 list \<Rightarrow> varg list \<Rightarrow> 'a gx_state_scheme \<Rightarrow> 'a gx_state_scheme option" where
  "k_panic s fmt l st = kpanic_ndu (s_gx s) (s_junk s) (s_ebp s) (s_line s) (s_file s) fmt l st"

definition s_appendStackFrame :: "InterruptFrame \<Rightarrow> int \<Rightarrow> (nat \<Rightarrow> U8) \<times> nat \<Rightarrow> ((nat \<Rightarrow> U8) \<times> nat) option" where
  "s_appendStackFrame frame bufsz b =
     append_text (word_of_int bufsz)
       (literal (LF # LF # ''Interrupt Frame:'' @ LF # ''- EIP: %x'' @ LF # ''- CS: %x'' @ LF # ''- EFLAGS: %x'' @ LF # ''- ESP: %x'' @ LF # ''- SS: %x''))
       [Arg32 (i_ip frame), Arg32 (i_cs frame), Arg32 (i_flags frame), Arg32 (i_sp frame), Arg32 (i_ss frame)] b"

definition s_callPanic :: "panic_site \<Rightarrow> InterruptFrame \<Rightarrow> U8 list \<Rightarrow> varg list \<Rightarrow> 'a gx_state_scheme \<Rightarrow> 'a gx_state_scheme option" where
  "s_callPanic s frame fmt l st =
     (let bufsz = MAX_PRINTABLE_STRING_LENGTH
      in do {
        (buf, len) \<leftarrow> append_text bufsz fmt l (\<lambda>i. if i < unat bufsz then 0 else s_junk s i, 0);
        (buf, _) \<leftarrow> s_appendStackFrame frame (int (unat bufsz) - int len) (buf, len);
        text \<leftarrow> buffer_text buf 0;
        k_panic s (literal ''%s'') [ArgStr (text @ [0])] st
      })"

definition double_fault_handler :: "panic_site \<Rightarrow> UINT \<Rightarrow> 'a gx_state_scheme \<Rightarrow> 'a gx_state_scheme option" where
  "double_fault_handler s errorcode st = k_panic s (literal ''Double fault - Fatal error (Error code: %x)'') [Arg32 errorcode] st"

text \<open>Bit \<open>n\<close> of an error code, as the bit fields give it.\<close>

abbreviation flag :: "UINT \<Rightarrow> nat \<Rightarrow> varg" where
  "flag w n \<equiv> Arg32 (of_bool (bit w n))"

definition page_fault_args :: "UINT \<Rightarrow> PTR \<Rightarrow> varg list" where
  "page_fault_args e fault_addr =
     [Arg32 fault_addr, Arg32 e, flag e 0, flag e 1, flag e 2, flag e 3, flag e 4, flag e 5, flag e 6, flag e 15]"

definition page_fault_panic :: "panic_site \<Rightarrow> InterruptFrame \<Rightarrow> UINT \<Rightarrow> PTR \<Rightarrow> 'a gx_state_scheme \<Rightarrow> 'a gx_state_scheme option" where
  "page_fault_panic s frame errorcode fault_addr st =
     s_callPanic s frame
       (literal (''Page fault when accessing address %x (error: %x)'' @
          LF # LF # ''- P: %x'' @ LF # ''- Write: %x'' @ LF # ''- UserM: %x'' @ LF # ''- ResV: %x'' @
          LF # ''- InsF: %x'' @ LF # ''- PKV: %x'' @ LF # ''- SSA: %x'' @ LF # ''- SGX: %x''))
       (page_fault_args errorcode fault_addr) st"

definition protection_fault_args :: "UINT \<Rightarrow> varg list" where
  "protection_fault_args e = [flag e 0, Arg32 (take_bit 2 (drop_bit 1 e)), Arg32 (take_bit 13 (drop_bit 3 e))]"

definition general_protection_fault_handler :: "panic_site \<Rightarrow> InterruptFrame \<Rightarrow> UINT \<Rightarrow> 'a gx_state_scheme \<Rightarrow> 'a gx_state_scheme option" where
  "general_protection_fault_handler s frame errorcode st =
     s_callPanic s frame (literal (''General Protection Fault.'' @ LF # ''- Ext: %x'' @ LF # ''- Table: %x'' @ LF # ''- Index: %x''))
       (protection_fault_args errorcode) st"

definition div_zero_handler :: "panic_site \<Rightarrow> InterruptFrame \<Rightarrow> 'a gx_state_scheme \<Rightarrow> 'a gx_state_scheme option" where
  "div_zero_handler s frame st = s_callPanic s frame (literal ''%s'') [ArgStr (literal ''Division by zero.'')] st"

definition invalid_opcode_handler :: "panic_site \<Rightarrow> InterruptFrame \<Rightarrow> 'a gx_state_scheme \<Rightarrow> 'a gx_state_scheme option" where
  "invalid_opcode_handler s frame st = s_callPanic s frame (literal ''%s'') [ArgStr (literal ''Invalid opcode detected'')] st"

definition breakpoint_handler :: "panic_site \<Rightarrow> InterruptFrame \<Rightarrow> 'a gx_state_scheme \<Rightarrow> 'a gx_state_scheme option" where
  "breakpoint_handler s frame st = s_callPanic s frame (literal ''%s'') [ArgStr (literal ''Breakpoint triggered'')] st"

text \<open>The handler of vector 40h returns.\<close>

definition sys_dummy_handler :: "'a vga_state_scheme \<Rightarrow> 'a vga_state_scheme option" where
  "sys_dummy_handler st = kprintln ''Inside sys_dummy routine..'' [] st"

section \<open>The text of a panic\<close>

text \<open>A buffer that holds a text and its terminator.\<close>

definition filled :: "(nat \<Rightarrow> U8) \<Rightarrow> U8 list \<Rightarrow> (nat \<Rightarrow> U8) \<times> nat" where
  "filled junk tx = (write_at 0 (tx @ [0]) junk, length tx)"

lemma buffer_size: "MAX_PRINTABLE_STRING_LENGTH = 4000"
  by (simp add: MAX_PRINTABLE_STRING_LENGTH_def VGA_COLUMNS_def VGA_ROWS_def)

lemma append_filled:
  assumes "format_text fmt l = Some m" "length (tx @ m) < 4000"
  shows "append_text 4000 fmt l (filled junk tx) = Some (filled junk (tx @ m))"
  using vsnprintf_text(1) [OF _ assms(1), of 4000] assms(2) by (simp add: append_text_def filled_def write_at_append buffer_size)

lemma append_first:
  assumes "format_text fmt l = Some m" "length m < 4000"
  shows "append_text 4000 fmt l (junk, 0) = Some (filled junk m)"
  using vsnprintf_text(1) [OF _ assms(1), of 4000] assms(2) by (simp add: append_text_def filled_def buffer_size)

lemma num_text_length: "base \<in> {2, 8, 10, 16} \<Longrightarrow> length (num_text base (unat (v :: U32))) \<le> 64"
proof -
  assume b: "base \<in> {2, 8, 10, 16}"
  have u: "unat (of_nat base :: U32) = base"
    using b by auto
  have "unat (ucast v :: U64) < 2 ^ 64"
    using unsigned_less [of "ucast v :: U64", where ?'a = nat] by simp
  then obtain digits where "rev digits = num_text base (unat v)" "length digits \<le> max 1 64"
    using itoa_loop_num_text [of "of_nat base" "ucast v" 64 0] b unfolding u by auto
  then show ?thesis
    by (metis length_rev max_def one_le_numeral)
qed

definition trace_text :: "PTR list \<Rightarrow> U8 list" where
  "trace_text as = concat (map (\<lambda>a. 32 # num_text 16 (unat a) @ [104]) (takeWhile (\<lambda>a. a \<noteq> 0) as))"

lemma trace_text_length: "length (trace_text as) \<le> 66 * length as"
proof (induction as)
  case (Cons a as)
  then show ?case
    using num_text_length [of 16 a] by (simp add: trace_text_def)
qed (simp add: trace_text_def)

lemma append_trace_filled:
  "length tx + 66 * length as < 4000 \<Longrightarrow> append_trace as (filled junk tx) = Some (filled junk (tx @ trace_text as))"
proof (induction as arbitrary: tx)
  case (Cons a as)
  have f: "format_text (literal '' %x'') [Arg32 a] = Some (32 # num_text 16 (unat a) @ [104])"
    by (simp add: literal_def format_text_Cons is_conversion_def directive_text_def Let_def)
  have n: "length (num_text 16 (unat a)) \<le> 64"
    by (rule num_text_length) simp
  then have "append_text 4000 (literal '' %x'') [Arg32 a] (filled junk tx) =
      Some (filled junk (tx @ 32 # num_text 16 (unat a) @ [104]))"
    using append_filled [OF f, of tx junk] Cons.prems by simp
  moreover have "length (tx @ 32 # num_text 16 (unat a) @ [104]) + 66 * length as < 4000"
    using n Cons.prems by simp
  ultimately show ?case
    using Cons.IH [of "tx @ 32 # num_text 16 (unat a) @ [104]"] by (simp add: trace_text_def buffer_size)
qed (simp add: trace_text_def)

lemma call_trace_length: "length (arch_dump_call_trace n m frame) \<le> n"
  by (induction n m frame rule: arch_dump_call_trace.induct) auto

lemma c_string_nonzero: "c_string s = Some t \<Longrightarrow> 0 \<notin> set t"
  by (induction s arbitrary: t) (auto split: if_splits elim!: bind_SomeE)

lemma num_text_nonzero: "2 \<le> base \<Longrightarrow> base \<le> 16 \<Longrightarrow> 0 \<notin> set (num_text base n)"
proof (induction base n rule: num_text.induct)
  case (1 base n)
  have nz: "chars ! k \<noteq> 0" if "k < 16" for k
    using digit_value_chars [OF that] that by (cases "k = 0") (auto simp: chars_def digit_value_def)
  show ?case
    using 1 nz [of n] nz [of "n mod base"] by (subst num_text.simps) (auto simp: less_le_trans [of _ base])
qed

definition text_of :: "string \<Rightarrow> U8 list" where
  "text_of s = map of_char s"

text \<open>
  The text of a panic states where it happened, the last error of the kernel, the message and the return addresses of the callers, as
  long as the name of the file and the message fit into the buffer with the rest.
\<close>

lemma panic_text_parts:
  assumes "c_string file = Some F" "format_text fmt l = Some M" "length F + length M < 3000"
    and "0 \<notin> set M"
  shows "panic_text junk ebp line file fmt l st = Some (text_of (LF # LF # ''Kernel Panic:'') @
      text_of (LF # ''At: '') @ F @ text_of '': '' @ num_text 10 (unat line) @
      text_of (LF # ''Kernel error: '') @ num_text 16 (unat (error_code (errorNumber st))) @ text_of (''h'' @ [LF, LF]) @ M @
      text_of (LF # LF # ''Call stack:'' @ [LF] @ ''-'') @ trace_text (arch_dump_call_trace 10 (kmem st) ebp) @
      text_of (LF # ''------------'' @ [LF]))"
proof -
  let ?trace = "arch_dump_call_trace 10 (kmem st) ebp"
  define e where "e = error_code (errorNumber st)"
  define t1 where "t1 = text_of (LF # LF # ''Kernel Panic:'')"
  define t2 where "t2 = text_of (LF # ''At: '') @ F @ text_of '': '' @ num_text 10 (unat line)"
  define t3 where "t3 = text_of (LF # ''Kernel error: '') @ num_text 16 (unat e) @ text_of (''h'' @ [LF, LF])"
  define t5 where "t5 = text_of (LF # LF # ''Call stack:'' @ [LF] @ ''-'')"
  define t6 where "t6 = text_of (LF # ''------------'' @ [LF])"
  have len: "length t1 = 15" "length t2 \<le> length F + 71" "length t3 \<le> 82" "length t5 = 15" "length t6 = 14"
    using num_text_length [of 10 line] num_text_length [of 16 e] by (simp_all add: t1_def t2_def t3_def t5_def t6_def text_of_def)
  have tr: "length (trace_text ?trace) \<le> 660" "length ?trace \<le> 10"
    using trace_text_length [of ?trace] call_trace_length [of 10 "kmem st" ebp] by simp_all
  note f = literal_def text_of_def format_text_Cons is_conversion_def directive_text_def Let_def
  have "format_text (literal (LF # LF # ''Kernel Panic:'')) [] = Some t1"
      "format_text (literal (LF # ''At: %s: %u'')) [ArgStr file, Arg32 line] = Some t2"
      "format_text (literal (LF # ''Kernel error: %x'' @ [LF, LF])) [Arg32 e] = Some t3"
      "format_text (literal (LF # LF # ''Call stack:'' @ [LF] @ ''-'')) [] = Some t5"
      "format_text (literal (LF # ''------------'' @ [LF])) [] = Some t6"
    using assms(1) by (simp_all add: t1_def t2_def t3_def t5_def t6_def f)
  note steps = append_first [OF this(1), of junk] append_filled [OF this(2), of t1 junk] append_filled [OF this(3), of "t1 @ t2" junk]
    append_filled [OF assms(2), of "t1 @ t2 @ t3" junk] append_filled [OF this(4), of "t1 @ t2 @ t3 @ M" junk]
    append_trace_filled [of "t1 @ t2 @ t3 @ M @ t5" ?trace junk] append_filled [OF this(5), of "t1 @ t2 @ t3 @ M @ t5 @ trace_text ?trace" junk]
  let ?T = "t1 @ t2 @ t3 @ M @ t5 @ trace_text ?trace @ t6"
  have "0 \<notin> set ?T"
    using assms(4) c_string_nonzero [OF assms(1)] num_text_nonzero [of 10] num_text_nonzero [of 16]
    by (auto simp: text_of_def t1_def t2_def t3_def t5_def t6_def trace_text_def)
  from buffer_text_write [OF this, of junk]
  have "buffer_text (fst (filled junk ?T)) 0 = Some ?T"
    by (simp only: filled_def fst_conv)
  then have "panic_text junk ebp line file fmt l st = Some ?T"
    unfolding panic_text_def Let_def buffer_size CONFIG_MAX_CALL_TRACE_DEPTH_def e_def [symmetric]
    using steps len tr assms(3) by (simp add: case_prod_beta)
  then show ?thesis
    by (simp add: t1_def t2_def t3_def t5_def t6_def e_def)
qed

end
