(* ===== verification/VMM_Labels.thy ===== *)
theory VMM_Labels
  imports Debug_Log
begin

text \<open>
  The labels of address spaces (\<open>kvmm_setAddressSpaceMetadata\<close> of \<open>src/kernel/vmm.c\<close>) and the log of a list of address spaces
  (\<open>kvmm_printVASList\<close>). The fields \<open>processID\<close> and \<open>purpose\<close> of an address space exist in debugging builds only and no other operation reads them; they are
  the bytes 28 to 41 of the object in kernel memory. The calls that set labels are left out of the other theories.
\<close>

definition vas_processID :: "PTR \<Rightarrow> PTR" where "vas_processID vas = vas + 28"
definition vas_purpose :: "PTR \<Rightarrow> PTR" where "vas_purpose vas = vas + 32"
definition PURPOSE_LENGTH :: SIZE where "PURPOSE_LENGTH = 10"

text \<open>The address space is used without a test that there is one; the access through a null pointer is a page fault.\<close>

definition kvmm_setAddressSpaceMetadata :: "PTR \<Rightarrow> PTR \<Rightarrow> PTR \<Rightarrow> U32 option \<Rightarrow> 'a vmm_state_scheme \<Rightarrow> 'a vmm_state_scheme option" where
  "kvmm_setAddressSpaceMetadata vmm addr purpose pid st = do {
     k_assert (vmm \<noteq> 0);
     vas \<leftarrow> find_vas vmm addr st;
     st \<leftarrow> (case pid of None \<Rightarrow> Some st
            | Some p \<Rightarrow> if vas = 0 then None else Some (st\<lparr>kmem := store32 (vas_processID vas) p (kmem st)\<rparr>));
     if purpose = 0 then Some st
     else if vas = 0 then None
     else Some (st\<lparr>kmem := k_strncpy (vas_purpose vas) purpose PURPOSE_LENGTH (kmem st)\<rparr>)
   }"

text \<open>The lines of the log; the function and the line of each call and the bytes of its buffer are parameters.\<close>

definition FUNC_ENTRY :: "(nat \<Rightarrow> U8) \<Rightarrow> UINT \<Rightarrow> U8 list \<Rightarrow> varg list \<Rightarrow> 'a gx_state_scheme \<Rightarrow> 'a gx_state_scheme option" where
  "FUNC_ENTRY junk line fmt l st = do {
     st \<leftarrow> kdebug_log_ndu junk KDEBUG_LOG_TYPE_FUNC (literal ''kvmm_printVASList'') line fmt l st;
     Some st
   }"

definition INFO :: "(nat \<Rightarrow> U8) \<Rightarrow> UINT \<Rightarrow> U8 list \<Rightarrow> varg list \<Rightarrow> 'a gx_state_scheme \<Rightarrow> 'a gx_state_scheme option" where
  "INFO junk line fmt l st = do {
     st \<leftarrow> kdebug_log_ndu junk KDEBUG_LOG_TYPE_INFO (literal ''kvmm_printVASList'') line fmt l st;
     Some st
   }"

fun printVAS_loop :: "(nat \<Rightarrow> U8) \<Rightarrow> PTR list \<Rightarrow> 'a gx_state_scheme \<Rightarrow> 'a gx_state_scheme option" where
  "printVAS_loop junk [] st = Some st"
| "printVAS_loop junk (vas # r) st = do {
     purpose \<leftarrow> read_string (kmem st) (vas_purpose vas);
     let v = vas_at st vas
     in do {
       st \<leftarrow> INFO junk 468 (literal ''* %x -> %x. size (bytes): %x, flags: %x, pid: %u, purpose: %s'')
         [Arg32 (start_vm v), Arg32 (start_vm v + allocationSzBytes v - 1), Arg32 (allocationSzBytes v), Arg32 (vas_flags v),
          Arg32 (load32 (kmem st) (vas_processID vas)), ArgStr purpose] st;
       printVAS_loop junk r st
     }
   }"

definition kvmm_printVASList :: "(nat \<Rightarrow> U8) \<Rightarrow> PTR \<Rightarrow> 'a gx_state_scheme \<Rightarrow> 'a gx_state_scheme option" where
  "kvmm_printVASList junk vmm st = do {
     st \<leftarrow> FUNC_ENTRY junk 456 (literal ''vmm: %x'') [Arg32 vmm] st;
     st \<leftarrow> (if list_is_empty (vas_list st vmm) then INFO junk 460 (literal ''List is empty'') [] st else Some st);
     nodes \<leftarrow> list_for_each (vas_list st vmm);
     printVAS_loop junk nodes st
   }"

section \<open>What a label is\<close>

text \<open>The copy stores the bytes of the source up to its terminator, at most ten.\<close>

lemma strncpy_loop_bytes:
  assumes "\<forall>i < n. m (s + of_nat i) \<noteq> 0" "\<forall>i < n. \<forall>j < n. s + of_nat i \<noteq> d + of_nat j" "n < 2 ^ 32"
  shows "strncpy_loop n d s m x = (if unat (x - d) < n then m (s + (x - d)) else m x)"
  using assms
proof (induction n arbitrary: d s m)
  case (Suc n)
  let ?m = "m(d := m s)"
  have d: "m s \<noteq> 0"
    using Suc.prems(1) by (auto dest: spec [of _ 0])
  have same: "?m (s + 1 + of_nat i) = m (s + of_nat (Suc i))" if "i < n" for i
    using Suc.prems(2) [rule_format, of "Suc i" 0] that by (auto simp: algebra_simps)
  have IH: "strncpy_loop n (d + 1) (s + 1) ?m x = (if unat (x - (d + 1)) < n then ?m (s + 1 + (x - (d + 1))) else ?m x)"
  proof (rule Suc.IH)
    show "\<forall>i < n. ?m (s + 1 + of_nat i) \<noteq> 0"
      using same Suc.prems(1) by (auto dest: spec [of _ "Suc i" for i])
    show "\<forall>i < n. \<forall>j < n. s + 1 + of_nat i \<noteq> d + 1 + of_nat j"
      using Suc.prems(2) by (auto dest: spec [of _ "Suc i" for i])
  qed (use Suc.prems(3) in simp)
  show ?case
  proof (cases "x = d")
    case True
    have "unat (- 1 :: PTR) = 2 ^ 32 - 1"
      by (simp add: unsigned_minus_1_eq_mask mask_eq_exp_minus_1)
    then have "\<not> unat (- 1 :: PTR) < n"
      using Suc.prems(3) by linarith
    then show ?thesis
      using IH d True by simp
  next
    case False
    then have pos: "0 < unat (x - d)"
      by (simp add: unat_gt_0)
    then have prev: "unat (x - (d + 1)) = unat (x - d) - 1"
      using unat_sub_word32 [of 1 "x - d"] by (simp add: diff_diff_eq [symmetric])
    have "s + (x - d) \<noteq> d" if "unat (x - d) < Suc n"
      using Suc.prems(2) [rule_format, OF that, of 0] by simp
    then show ?thesis
      using IH d False pos prev by (auto simp: algebra_simps)
  qed
qed simp

text \<open>
  A purpose of ten or more characters is stored without a terminator, because the field has ten bytes: the log then reads on into the memory behind
  the object. The kernel uses two such labels.
\<close>

lemma long_label_unterminated:
  assumes "vmm \<noteq> 0" "find_vas vmm addr st = Some vas" "vas \<noteq> 0" "purpose \<noteq> 0"
    and "\<forall>i < 10. kmem st (purpose + of_nat i) \<noteq> 0" "\<forall>i < 10. \<forall>j < 10. purpose + of_nat i \<noteq> vas_purpose vas + of_nat j"
  shows "\<exists>st'. kvmm_setAddressSpaceMetadata vmm addr purpose None st = Some st'
    \<and> (\<forall>i < 10. kmem st' (vas_purpose vas + of_nat i) = kmem st (purpose + of_nat i) \<and> kmem st' (vas_purpose vas + of_nat i) \<noteq> 0)
    \<and> (\<forall>x. unat (x - vas_purpose vas) \<ge> 10 \<longrightarrow> kmem st' x = kmem st x)"
proof -
  have "unat (of_nat i :: PTR) = i" if "i < 10" for i :: nat
    using that by (simp add: unat_of_nat_word32)
  then show ?thesis
    using assms strncpy_loop_bytes [OF assms(5,6)]
    by (simp add: kvmm_setAddressSpaceMetadata_def k_strncpy_def PURPOSE_LENGTH_def)
qed

end
