(* ===== verification/System_Info.thy ===== *)
theory System_Info
  imports VMM_Labels
begin

text \<open>
  What the kernel logs about the machine and its processes in builds with the debug port: \<open>display_system_info\<close> of \<open>src/kernel/x86/kernel.c\<close> and \<open>s_showQueueItems\<close> of
  \<open>src/kernel/x86/process.c\<close>. As in the other theories about logs, the bytes of the buffers are a parameter, and the calls are left out of the functions that make them.
\<close>

section \<open>The functions\<close>

definition log_line ::
  "(nat \<Rightarrow> U8) \<Rightarrow> KernelDebugLogType \<Rightarrow> string \<Rightarrow> UINT \<Rightarrow> string \<Rightarrow> varg list \<Rightarrow> 'a gx_state_scheme \<Rightarrow> 'a gx_state_scheme option" where
  "log_line junk type func line fmt l st = kdebug_log_ndu junk type (literal func) line (literal fmt) l st"

definition sysinfo :: "(nat \<Rightarrow> U8) \<Rightarrow> UINT \<Rightarrow> string \<Rightarrow> varg list \<Rightarrow> 'a gx_state_scheme \<Rightarrow> 'a gx_state_scheme option" where
  "sysinfo junk line fmt l st = log_line junk KDEBUG_LOG_TYPE_INFO ''display_system_info'' line fmt l st"

text \<open>The macros for the number of pages, on 64 bits.\<close>

definition pageframes_ceiling64 :: "U64 \<Rightarrow> U64" where
  "pageframes_ceiling64 b =
     (let n = ucast CONFIG_PAGE_FRAME_SIZE_BYTES;
          up = (if b AND (n - 1) = 0 then b else (b div n + 1) * n)
      in up div n AND ucast (BIT_MASK CONFIG_PAGE_FRAME_SIZE_BITS 0))"

text \<open>The loops over the files and over the memory map, from an index on.\<close>

fun files_loop :: "(nat \<Rightarrow> U8) \<Rightarrow> int list \<Rightarrow> 'a gx_state_scheme \<Rightarrow> 'a gx_state_scheme option" where
  "files_loop junk [] st = Some st"
| "files_loop junk (i # is) st = do {
     file \<leftarrow> kboot_getBootFileItem (boot st) i;
     st \<leftarrow> sysinfo junk 262 ''* file: Start = %x, Length = %u bytes'' [Arg32 (startLocation file), Arg32 (ucast (file_length file))] st;
     files_loop junk is st
   }"

fun map_loop :: "(nat \<Rightarrow> U8) \<Rightarrow> int list \<Rightarrow> U64 \<Rightarrow> 'a gx_state_scheme \<Rightarrow> (U64 \<times> 'a gx_state_scheme) option" where
  "map_loop junk [] installed_memory st = Some (installed_memory, st)"
| "map_loop junk (i # is) installed_memory st = do {
     item \<leftarrow> kboot_getBootMemoryMapItem (boot st) i;
     st \<leftarrow> sysinfo junk 275 ''* map: Start = %llx, Length = %llx, Type = %u'' [Arg64 (baseAddr item), Arg64 (map_length item), Arg32 (map_type item)] st;
     map_loop junk is (installed_memory + map_length item) st
   }"

definition display_system_info :: "(nat \<Rightarrow> U8) \<Rightarrow> 'a gx_state_scheme \<Rightarrow> 'a gx_state_scheme option" where
  "display_system_info junk st = do {
     st \<leftarrow> log_line junk KDEBUG_LOG_TYPE_FUNC ''display_system_info'' 251 '''' [] st;
     let loadedFilesCount = kboot_getBootFileItemCount (boot st)
     in do {
       st \<leftarrow> sysinfo junk 256 ''Loaded kernel files:'' [] st;
       st \<leftarrow> files_loop junk (map int [0..<unat loadedFilesCount]) st;
       let memoryMapItemCount = kboot_getBootMemoryMapItemCount (boot st)
       in do {
         st \<leftarrow> sysinfo junk 266 ''BIOS Memory map:'' [] st;
         (installed_memory, st) \<leftarrow> map_loop junk (map int [0..<unat memoryMapItemCount]) 0 st;
         st \<leftarrow> sysinfo junk 278 ''Kernel files loaded: %u'' [Arg32 (ucast loadedFilesCount)] st;
         st \<leftarrow> sysinfo junk 279 ''Max RAM Pages: %u'' [Arg32 MAX_PAB_ADDRESSABLE_PAGE_COUNT] st;
         st \<leftarrow> sysinfo junk 280 ''Installed RAM bytes: %llx bytes'' [Arg64 installed_memory] st;
         st \<leftarrow> sysinfo junk 282 ''Installed RAM Pages: %u'' [Arg32 (ucast (pageframes_ceiling64 installed_memory))] st;
         (free, st) \<leftarrow> kpmm_getFreeMemorySize st;
         sysinfo junk 283 ''Free RAM bytes: %x bytes'' [Arg32 free] st
       }
     }
   }"

text \<open>The nodes of a queue from its end to its front.\<close>

definition queue_for_each_backward :: "'o links \<Rightarrow> 'o list option" where
  "queue_for_each_backward l = list_for_each \<lparr>nxt = prv l, prv = nxt l\<rparr>"

fun show_items :: "(nat \<Rightarrow> U8) \<Rightarrow> UINT \<Rightarrow> PTR list \<Rightarrow> 'a gx_state_scheme \<Rightarrow> 'a gx_state_scheme option" where
  "show_items junk line [] st = Some st"
| "show_items junk line (q # qs) st = do {
     st \<leftarrow> log_line junk KDEBUG_LOG_TYPE_INFO ''s_showQueueItems'' line ''%u'' [Arg32 (processID (pinfos st q))] st;
     show_items junk line qs st
   }"

definition s_showQueueItems :: "(nat \<Rightarrow> U8) \<Rightarrow> PTR links \<Rightarrow> bool \<Rightarrow> 'a gx_state_scheme \<Rightarrow> 'a gx_state_scheme option" where
  "s_showQueueItems junk forward directionForward st = do {
     st \<leftarrow> log_line junk KDEBUG_LOG_TYPE_INFO ''s_showQueueItems'' 148 ''Going %s:''
       [ArgStr (literal (if directionForward then ''from forward to backward'' else ''from backward to forward''))] st;
     if directionForward then do { qs \<leftarrow> list_for_each forward; show_items junk 155 qs st }
     else do { qs \<leftarrow> queue_for_each_backward forward; show_items junk 161 qs st }
   }"

section \<open>What they leave alone\<close>

text \<open>A line of the log changes nothing but the record of what went through the ports.\<close>

definition logged :: "'a hw_state_scheme \<Rightarrow> 'a hw_state_scheme \<Rightarrow> bool" where
  "logged st st' \<longleftrightarrow> st'\<lparr>io_log := []\<rparr> = st\<lparr>io_log := []\<rparr>"

lemma logged_refl [simp]: "logged st st"
  by (simp add: logged_def)

lemma logged_trans: "logged st st1 \<Longrightarrow> logged st1 st2 \<Longrightarrow> logged st st2"
  by (simp add: logged_def)

lemma log_line_logged: "log_line junk type func line fmt l st = Some st' \<Longrightarrow> logged st st'"
proof -
  assume "log_line junk type func line fmt l st = Some st'"
  then obtain s where "st' = s_qemu_debugPutString s st"
    by (auto simp: log_line_def kdebug_log_ndu_def elim!: bind_SomeE)
  then show ?thesis
    by (simp add: logged_def s_qemu_debugPutString_def fold_outb)
qed

lemma logged_boot:
  assumes "logged st st'"
  shows "boot st' = boot st"
proof -
  have "boot (st'\<lparr>io_log := []\<rparr>) = boot (st\<lparr>io_log := []\<rparr>)"
    using assms by (simp only: logged_def)
  then show ?thesis
    by simp
qed

lemma files_loop_logged: "files_loop junk is st = Some st' \<Longrightarrow> logged st st'"
  by (induction "is" arbitrary: st) (auto simp: sysinfo_def elim!: bind_SomeE dest!: log_line_logged intro: logged_trans)

lemma show_items_logged: "show_items junk line qs st = Some st' \<Longrightarrow> logged st st'"
  by (induction qs arbitrary: st) (auto elim!: bind_SomeE dest!: log_line_logged intro: logged_trans)

lemma map_loop_logged:
  "map_loop junk is acc st = Some (r, st') \<Longrightarrow>
    logged st st' \<and> (\<exists>ms. map (kboot_getBootMemoryMapItem (boot st)) is = map Some ms \<and> r = acc + sum_list (map map_length ms))"
proof (induction "is" arbitrary: acc st)
  case (Cons i "is")
  obtain item st1 where s: "kboot_getBootMemoryMapItem (boot st) i = Some item" "logged st st1"
      "map_loop junk is (acc + map_length item) st1 = Some (r, st')"
    using Cons.prems by (auto simp: sysinfo_def elim!: bind_SomeE dest!: log_line_logged)
  then obtain ms where "logged st1 st'" "map (kboot_getBootMemoryMapItem (boot st)) is = map Some ms"
      "r = acc + map_length item + sum_list (map map_length ms)"
    using Cons.IH [OF s(3)] logged_boot [OF s(2)] by auto
  then show ?case
    using s logged_trans [OF s(2)] by (auto intro!: exI [of _ "item # ms"] simp: add.assoc)
qed simp

text \<open>The sum the log prints is that of the function the rest of the kernel uses.\<close>

lemma map_items:
  assumes "map (kboot_getBootMemoryMapItem bli) (map int [0..<unat (count bli)]) = map Some ms"
  shows "sum_list (map map_length ms) = kboot_calculateInstalledMemory bli"
proof -
  have len: "length ms = unat (count bli)"
    using arg_cong [OF assms, of length] by simp
  have n: "kboot_getBootMemoryMapItem bli (int i) = Some (ms ! i)" if "i < unat (count bli)" for i
    using arg_cong [OF assms, of "\<lambda>xs. xs ! i"] that len by simp
  have i: "i < length (items bli) \<and> items bli ! i = ms ! i" if "i < unat (count bli)" for i
    using n [OF that] by (auto simp: kboot_getBootMemoryMapItem_def nth_opt_def elim!: bind_SomeE split: if_splits)
  have "unat (count bli) \<le> length (items bli)"
    using i [of "unat (count bli) - 1"] by (cases "unat (count bli)") auto
  then have "ms = take (unat (count bli)) (items bli)"
    using i len by (intro nth_equalityI) auto
  then show ?thesis
    by (simp add: kboot_calculateInstalledMemory_def)
qed

lemma map_loop_installed:
  assumes "map_loop junk (map int [0..<unat (kboot_getBootMemoryMapItemCount (boot st))]) 0 st = Some (r, st')"
  shows "logged st st'" "r = kboot_calculateInstalledMemory (boot st)"
  using map_loop_logged [OF assms] map_items [of "boot st"] by (auto simp: kboot_getBootMemoryMapItemCount_def)

end
