(* ===== verification/Machine.thy ===== *)
theory Machine
  imports Syscall_Facts
begin

text \<open>
  The processor as the assembly parts of the kernel use it: the code between the interrupt gates and the functions in C (\<open>include/x86/interrupt.h\<close>,
  \<open>src/kernel/x86/syscalls.c\<close>) and the jump to a process (\<open>src/kernel/x86/process.c\<close>).

  The state has the general registers, the segment selectors, the flags and the memory. Of the status flags only carry and zero are
  kept, those the code tests. All segments are flat, so a selector has no influence on addresses, and the checks of the
  processor on selectors and pages are not part of the model. A value pushed from a selector is zero extended.
\<close>

section \<open>State\<close>

datatype reg = EAX | EBX | ECX | EDX | ESI | EDI | EBP | ESP

datatype sreg = CS | DS | ES | FS | GS | SS

record machine =
  m_regs :: "reg \<Rightarrow> U32"
  m_segs :: "sreg \<Rightarrow> U16"
  m_eip :: U32
  m_eflags :: U32
  m_cf :: bool
  m_zf :: bool
  m_cr3 :: U32
  m_mem :: memory

abbreviation set_reg :: "reg \<Rightarrow> U32 \<Rightarrow> machine \<Rightarrow> machine" where
  "set_reg r v m \<equiv> m\<lparr>m_regs := (m_regs m)(r := v)\<rparr>"

abbreviation set_seg :: "sreg \<Rightarrow> U16 \<Rightarrow> machine \<Rightarrow> machine" where
  "set_seg s v m \<equiv> m\<lparr>m_segs := (m_segs m)(s := v)\<rparr>"

text \<open>The direction flag.\<close>

definition m_df :: "machine \<Rightarrow> bool" where
  "m_df m = bit (m_eflags m) 10"

lemma all_reg: "(\<forall>r. P r) \<longleftrightarrow> P EAX \<and> P EBX \<and> P ECX \<and> P EDX \<and> P ESI \<and> P EDI \<and> P EBP \<and> P ESP"
  by (metis reg.exhaust)

lemma all_sreg: "(\<forall>s. P s) \<longleftrightarrow> P CS \<and> P DS \<and> P ES \<and> P FS \<and> P GS \<and> P SS"
  by (metis sreg.exhaust)

lemma selector_extended [simp]: "(ucast (ucast (s :: U16) :: U32) :: U16) = s"
  by (rule bit_word_eqI) (auto simp: bit_simps)

section \<open>Instructions\<close>

text \<open>Operands: \<open>R\<close> a register, \<open>S\<close> a selector, \<open>M\<close> a register with a displacement in memory, \<open>I\<close> a constant.\<close>

datatype operand = R reg | S sreg | M reg U32 | I U32

datatype instr =
    Push operand | Pop operand | Pushad | Popad | Popfd
  | Mov operand operand | MovCr3 reg
  | Lea reg reg U32 | LeaScaled reg U32 reg U32
  | Add reg U32 | Sub reg U32 | Cmp reg reg | Test reg U32
  | Jae string | Jnz string | Jz string | Jmp string | Label string
  | Call string | CallMem reg | JmpMem reg U32
  | RepMovsb | Iret

fun read :: "operand \<Rightarrow> machine \<Rightarrow> U32" where
  "read (R r) m = m_regs m r"
| "read (S s) m = ucast (m_segs m s)"
| "read (M r d) m = load32 (m_mem m) (m_regs m r + d)"
| "read (I v) m = v"

fun assign :: "operand \<Rightarrow> U32 \<Rightarrow> machine \<Rightarrow> machine" where
  "assign (R r) v m = set_reg r v m"
| "assign (S s) v m = set_seg s (ucast v) m"
| "assign (M r d) v m = m\<lparr>m_mem := store32 (m_regs m r + d) v (m_mem m)\<rparr>"
| "assign (I _) v m = m"

definition push :: "U32 \<Rightarrow> machine \<Rightarrow> machine" where
  "push v m = (let m = set_reg ESP (m_regs m ESP - 4) m in m\<lparr>m_mem := store32 (m_regs m ESP) v (m_mem m)\<rparr>)"

definition pop_into :: "operand \<Rightarrow> machine \<Rightarrow> machine" where
  "pop_into x m = (let v = load32 (m_mem m) (m_regs m ESP) in assign x v (set_reg ESP (m_regs m ESP + 4) m))"

definition set_flags :: "U32 \<Rightarrow> machine \<Rightarrow> machine" where
  "set_flags f m = m\<lparr>m_eflags := f, m_cf := bit f 0, m_zf := bit f 6\<rparr>"

text \<open>The string move with a repeat prefix: bytes one after the other, downwards when the direction flag is set.\<close>

fun rep_movsb :: "nat \<Rightarrow> bool \<Rightarrow> PTR \<Rightarrow> PTR \<Rightarrow> memory \<Rightarrow> memory" where
  "rep_movsb 0 df s d mem = mem"
| "rep_movsb (Suc n) df s d mem =
     (if df then rep_movsb n df (s - 1) (d - 1) (mem(d := mem s)) else rep_movsb n df (s + 1) (d + 1) (mem(d := mem s)))"

definition exec_movsb :: "machine \<Rightarrow> machine" where
  "exec_movsb m =
     (let n = m_regs m ECX; k = (if m_df m then - n else n)
      in m\<lparr>m_mem := rep_movsb (unat n) (m_df m) (m_regs m ESI) (m_regs m EDI) (m_mem m),
           m_regs := (m_regs m)(ESI := m_regs m ESI + k, EDI := m_regs m EDI + k, ECX := 0)\<rparr>)"

text \<open>The return from an interrupt: the stack of the interrupted program is restored when the privilege level changes.\<close>

definition iret :: "machine \<Rightarrow> machine" where
  "iret m =
     (let mem = m_mem m; esp = m_regs m ESP;
          ip = load32 mem esp; cs = ucast (load32 mem (esp + 4)); fl = load32 mem (esp + 8);
          outer = (cs AND 3 \<noteq> m_segs m CS AND 3);
          m = set_flags fl (set_seg CS cs (m\<lparr>m_eip := ip\<rparr>))
      in if outer then set_seg SS (ucast (load32 mem (esp + 16))) (set_reg ESP (load32 mem (esp + 12)) m)
         else set_reg ESP (esp + 12) m)"

fun step :: "instr \<Rightarrow> machine \<Rightarrow> machine" where
  "step (Push x) m = push (read x m) m"
| "step (Pop x) m = pop_into x m"
| "step Pushad m =
     (let esp = m_regs m ESP
      in fold push [m_regs m EAX, m_regs m ECX, m_regs m EDX, m_regs m EBX, esp, m_regs m EBP, m_regs m ESI, m_regs m EDI] m)"
| "step Popad m =
     (let m = pop_into (R EBP) (pop_into (R ESI) (pop_into (R EDI) m));
          m = set_reg ESP (m_regs m ESP + 4) m
      in pop_into (R EAX) (pop_into (R ECX) (pop_into (R EDX) (pop_into (R EBX) m))))"
| "step Popfd m = set_flags (load32 (m_mem m) (m_regs m ESP)) (set_reg ESP (m_regs m ESP + 4) m)"
| "step (Mov x y) m = assign x (read y m) m"
| "step (MovCr3 r) m = m\<lparr>m_cr3 := m_regs m r\<rparr>"
| "step (Lea r b d) m = set_reg r (m_regs m b + d) m"
| "step (LeaScaled r k b d) m = set_reg r (k * m_regs m b + d) m"
| "step (Add r v) m = (let x = m_regs m r + v in (set_reg r x m)\<lparr>m_cf := x < v, m_zf := x = 0\<rparr>)"
| "step (Sub r v) m = (let x = m_regs m r in (set_reg r (x - v) m)\<lparr>m_cf := x < v, m_zf := x = v\<rparr>)"
| "step (Cmp r q) m = m\<lparr>m_cf := m_regs m r < m_regs m q, m_zf := m_regs m r = m_regs m q\<rparr>"
| "step (Test r v) m = m\<lparr>m_cf := False, m_zf := m_regs m r AND v = 0\<rparr>"
| "step RepMovsb m = exec_movsb m"
| "step _ m = m"

section \<open>Programs\<close>

text \<open>
  The functions in C that the code calls are a parameter: from the state at the entry of the function, with the return address on the
  stack, to the state after its return, or \<open>None\<close> when it does not return. A function is called by its name or through a pointer. All jumps of the
  programs go forward, to a label in the rest of the program.
\<close>

datatype target = Named string | At U32

record callees =
  ret_address :: U32
  callee :: "target \<Rightarrow> machine \<Rightarrow> machine option"

definition after_label :: "string \<Rightarrow> instr list \<Rightarrow> instr list" where
  "after_label l code = dropWhile (\<lambda>i. i \<noteq> Label l) code"

lemma after_label_length [simp]: "length (after_label l code) < Suc (length code)"
  unfolding after_label_def by (simp add: length_dropWhile_le less_Suc_eq_le)

lemma after_label_simps [simp]:
  "after_label l [] = []" "after_label l (i # code) = (if i = Label l then i # code else after_label l code)"
  by (simp_all add: after_label_def)

fun jumps :: "instr \<Rightarrow> machine \<Rightarrow> string option" where
  "jumps (Jae l) m = (if m_cf m then None else Some l)"
| "jumps (Jnz l) m = (if m_zf m then None else Some l)"
| "jumps (Jz l) m = (if m_zf m then Some l else None)"
| "jumps (Jmp l) m = Some l"
| "jumps _ m = None"

fun called :: "instr \<Rightarrow> machine \<Rightarrow> target option" where
  "called (Call f) m = Some (Named f)"
| "called (CallMem r) m = Some (At (load32 (m_mem m) (m_regs m r)))"
| "called _ m = None"

fun leaves :: "instr \<Rightarrow> machine \<Rightarrow> machine option" where
  "leaves Iret m = Some (iret m)"
| "leaves (JmpMem r d) m = Some (m\<lparr>m_eip := load32 (m_mem m) (m_regs m r + d)\<rparr>)"
| "leaves _ m = None"

text \<open>The state after the program left through \<open>iret\<close> or a jump out of it.\<close>

fun run :: "callees \<Rightarrow> instr list \<Rightarrow> machine \<Rightarrow> machine option" where
  "run E [] m = None"
| "run E (i # code) m =
     (case leaves i m of Some m' \<Rightarrow> Some m'
      | None \<Rightarrow>
        (case jumps i m of Some l \<Rightarrow> run E (after_label l code) m
         | None \<Rightarrow>
           (case called i m of Some f \<Rightarrow> Option.bind (callee E f (push (ret_address E) m)) (run E code)
            | None \<Rightarrow> run E code (step i m))))"

text \<open>Code without jumps, calls and returns is the composition of its steps.\<close>

fun straight :: "instr \<Rightarrow> bool" where
  "straight (Jae l) = False"
| "straight (Jnz l) = False"
| "straight (Jz l) = False"
| "straight (Jmp l) = False"
| "straight (Call f) = False"
| "straight (CallMem r) = False"
| "straight (JmpMem r d) = False"
| "straight Iret = False"
| "straight _ = True"

lemma straight_cases: "straight i \<Longrightarrow> leaves i m = None \<and> jumps i m = None \<and> called i m = None"
  by (cases i) simp_all

lemma run_straight: "list_all straight code \<Longrightarrow> run E (code @ rest) m = run E rest (fold step code m)"
  by (induction code arbitrary: m) (simp_all add: straight_cases)

text \<open>The state in which a program calls the function of its instruction \<open>n\<close>.\<close>

definition stub_state :: "callees \<Rightarrow> nat \<Rightarrow> instr list \<Rightarrow> machine \<Rightarrow> machine" where
  "stub_state E n code m = push (ret_address E) (fold step (take n code) m)"

lemma run_stub:
  assumes "n < length code" "list_all straight (take n code)"
    and "called (code ! n) (fold step (take n code) m) = Some f"
  shows "run E code m = Option.bind (callee E f (stub_state E n code m)) (run E (drop (Suc n) code))"
proof -
  have "leaves (code ! n) x = None \<and> jumps (code ! n) x = None" for x
    using assms(3) by (cases "code ! n") simp_all
  then have "run E (take n code @ code ! n # drop (Suc n) code) m =
      Option.bind (callee E f (stub_state E n code m)) (run E (drop (Suc n) code))"
    using assms(2,3) by (simp only: run_straight run.simps stub_state_def option.simps)
  then show ?thesis
    using id_take_nth_drop [OF assms(1)] by simp
qed

lemma run_stub_named:
  "n < length code \<Longrightarrow> list_all straight (take n code) \<Longrightarrow> code ! n = Call f \<Longrightarrow> k = Suc n \<Longrightarrow>
    run E code m = Option.bind (callee E (Named f) (stub_state E n code m)) (run E (drop k code))"
  by (simp only:, rule run_stub) simp_all

text \<open>A branch over straight code.\<close>

lemma after_label_append: "Label l \<notin> set code \<Longrightarrow> after_label l (code @ rest) = after_label l rest"
  by (induction code) auto

lemma run_branch:
  assumes "list_all straight pre" "list_all straight code" "Label l \<notin> set code"
  shows "run E (pre @ Jnz l # code @ Label l # rest) m =
    (let m' = fold step pre m in run E rest (if m_zf m' then fold step code m' else m'))"
  using assms by (simp add: run_straight after_label_append Let_def)

section \<open>Addresses on the stack\<close>

lemma stack_addresses:
  fixes b :: U32
  shows "b - numeral u - numeral v = b - (numeral u + numeral v)" "b - numeral u + numeral v = b - (numeral u - numeral v)"
    "b - numeral u + - numeral v = b - (numeral u + numeral v)" "b + numeral u - numeral v = b + (numeral u - numeral v)"
    "b + numeral u + numeral v = b + (numeral u + numeral v)" "(b - numeral u) - (b - numeral v) = numeral v - numeral u"
    "(b + numeral u) - (b - numeral v) = numeral v + numeral u" "(b - numeral u) - (b + numeral v) = - (numeral v + numeral u)"
    "b - (b - numeral v) = numeral v" "b - numeral v - b = - numeral v"
  by (simp_all only: diff_conv_add_uminus minus_add_distrib minus_minus ac_simps add_minus_cancel minus_add_cancel)

lemmas machine_simps = Let_def push_def pop_into_def set_flags_def load32_store32_other stack_addresses

text \<open>Words stored below an address leave the 128 bytes above it alone.\<close>

lemma store32_below:
  assumes "a - b < 128" "4 \<le> unat k" "unat k \<le> 1000"
  shows "store32 (b - k) v mem a = mem a"
proof -
  have "unat (a - b) < 128"
    using assms(1) by (simp add: word_less_nat_alt)
  then have "unat (a - b + k) \<ge> 4"
    using assms(2,3) by (simp add: unat_word_ariths)
  moreover have "a - (b - k) = a - b + k"
    by simp
  ultimately show ?thesis
    by (intro store32_outside) (simp only: word_le_nat_alt, simp)
qed

lemma load32_cong:
  assumes "\<And>x. x - b < 128 \<Longrightarrow> mem' x = mem x" "a - b \<le> 124"
  shows "load32 mem' a = load32 mem a"
proof -
  have "mem' (a + of_nat k) = mem (a + of_nat k)" if "k < 4" for k
  proof (rule assms(1))
    have "unat (a - b) \<le> 124"
      using assms(2) by (simp add: word_le_nat_alt)
    then have "unat (a - b + of_nat k) < 128"
      using that by (simp add: unat_word_ariths unat_of_nat_word32)
    moreover have "a + of_nat k - b = a - b + of_nat k"
      by simp
    ultimately show "a + of_nat k - b < 128"
      by (simp only: word_less_nat_alt) simp
  qed
  from this [of 0] this [of 1] this [of 2] this [of 3] show ?thesis
    by (simp add: load32_def)
qed

section \<open>Moving bytes upwards\<close>

lemma rep_movsb_up:
  assumes "\<And>j. j < n \<Longrightarrow> n \<le> unat (s + of_nat j - d)" "n < 4294967296"
  shows "rep_movsb n False s d mem a = (if unat (a - d) < n then mem (s + (a - d)) else mem a)"
  using assms
proof (induction n arbitrary: s d mem)
  case (Suc n)
  have far: "Suc n \<le> unat (s + of_nat j - d)" if "j \<le> n" for j
    using Suc.prems(1) [of j] that by simp
  have IH: "rep_movsb n False (s + 1) (d + 1) (mem(d := mem s)) a =
      (if unat (a - (d + 1)) < n then (mem(d := mem s)) (s + 1 + (a - (d + 1))) else (mem(d := mem s)) a)"
  proof (rule Suc.IH)
    fix j assume j: "j < n"
    have e: "s + 1 + of_nat j - (d + 1) = s + of_nat j - d"
      by simp
    show "n \<le> unat (s + 1 + of_nat j - (d + 1))"
      unfolding e using far [of j] j by linarith
  qed (use Suc.prems(2) in simp)
  have d: "unat (a - (d + 1)) = (if a = d then 4294967295 else unat (a - d) - 1)"
  proof (cases "a = d")
    case False
    then have "unat (a - d) \<noteq> 0"
      by (simp add: unat_eq_zero)
    then have "unat (a - d - 1) = unat (a - d) - 1"
      by (subst unat_sub) (simp_all add: word_le_nat_alt)
    with False show ?thesis
      by (simp add: diff_diff_eq)
  qed (simp add: unsigned_minus_1_eq_mask mask_eq_exp_minus_1)
  have "s + (a - d) \<noteq> d" if "unat (a - d) < Suc n"
  proof
    assume "s + (a - d) = d"
    then have "s + of_nat (unat (a - d)) - d = 0"
      by simp
    then show False
      using far [of "unat (a - d)"] that by simp
  qed
  moreover have "a \<noteq> d \<Longrightarrow> 0 < unat (a - d)"
    by (simp add: unat_gt_0)
  ultimately show ?case
    using Suc.prems(2) d by (auto simp: IH)
qed simp

lemma load32_movsb:
  assumes "\<And>j. j < n \<Longrightarrow> n \<le> unat (s + of_nat j - d)" "n < 4294967296"
  shows "unat (a - d) + 4 \<le> n \<Longrightarrow> load32 (rep_movsb n False s d mem) a = load32 mem (s + (a - d))"
    and "n \<le> unat (a - d) \<Longrightarrow> unat (a - d) \<le> 4294967292 \<Longrightarrow> load32 (rep_movsb n False s d mem) a = load32 mem a"
proof -
  have sh: "a + of_nat k - d = a - d + of_nat k" for k
    by simp
  have u: "unat (a - d + of_nat k) = unat (a - d) + k" if "unat (a - d) \<le> 4294967292" "k < 4" for k
    using that by (simp add: unat_word_ariths unat_of_nat_word32)
  show "load32 (rep_movsb n False s d mem) a = load32 mem (s + (a - d))" if "unat (a - d) + 4 \<le> n"
  proof -
    have "rep_movsb n False s d mem (a + of_nat k) = mem (s + (a - d) + of_nat k)" if "k < 4" for k
      using u [OF _ that] that \<open>unat (a - d) + 4 \<le> n\<close> assms(2) by (simp add: rep_movsb_up [OF assms] sh add.assoc)
    from this [of 0] this [of 1] this [of 2] this [of 3] show ?thesis
      by (simp add: load32_def)
  qed
  show "load32 (rep_movsb n False s d mem) a = load32 mem a" if "n \<le> unat (a - d)" "unat (a - d) \<le> 4294967292"
  proof -
    have "rep_movsb n False s d mem (a + of_nat k) = mem (a + of_nat k)" if "k < 4" for k
      using u [OF _ that] \<open>n \<le> unat (a - d)\<close> \<open>unat (a - d) \<le> 4294967292\<close> by (simp add: rep_movsb_up [OF assms] sh)
    from this [of 0] this [of 1] this [of 2] this [of 3] show ?thesis
      by (simp add: load32_def)
  qed
qed

section \<open>Moving bytes downwards\<close>

lemma rep_movsb_down:
  assumes "\<And>j. j < n \<Longrightarrow> n \<le> unat (d - (s - of_nat j))" "n < 4294967296"
  shows "rep_movsb n True s d mem a = (if unat (d - a) < n then mem (s - (d - a)) else mem a)"
  using assms
proof (induction n arbitrary: s d mem)
  case (Suc n)
  have far: "Suc n \<le> unat (d - (s - of_nat j))" if "j \<le> n" for j
    using Suc.prems(1) [of j] that by simp
  have IH: "rep_movsb n True (s - 1) (d - 1) (mem(d := mem s)) a =
      (if unat (d - 1 - a) < n then (mem(d := mem s)) (s - 1 - (d - 1 - a)) else (mem(d := mem s)) a)"
  proof (rule Suc.IH)
    fix j assume j: "j < n"
    have e: "d - 1 - (s - 1 - of_nat j) = d - (s - of_nat j)"
      by simp
    show "n \<le> unat (d - 1 - (s - 1 - of_nat j))"
      unfolding e using far [of j] j by linarith
  qed (use Suc.prems(2) in simp)
  have d: "unat (d - 1 - a) = (if a = d then 4294967295 else unat (d - a) - 1)"
  proof (cases "a = d")
    case False
    then have "unat (d - a) \<noteq> 0"
      by (simp add: unat_eq_zero)
    then have "unat (d - a - 1) = unat (d - a) - 1"
      by (subst unat_sub) (simp_all add: word_le_nat_alt)
    moreover have "d - 1 - a = d - a - 1"
      by simp
    ultimately show ?thesis
      using False by (simp only: if_False)
  qed (simp add: unsigned_minus_1_eq_mask mask_eq_exp_minus_1)
  have s: "s - 1 - (d - 1 - a) = s - (d - a)"
    by simp
  have "s - (d - a) \<noteq> d" if "unat (d - a) < Suc n"
  proof
    assume e: "s - (d - a) = d"
    have "of_nat (unat (d - a)) = d - a"
      by simp
    then show False
      using far [of "unat (d - a)"] that by (simp only: e) simp
  qed
  moreover have "a \<noteq> d \<Longrightarrow> 0 < unat (d - a)"
    by (simp add: unat_gt_0)
  ultimately show ?case
    using Suc.prems(2) d by (auto simp: IH s)
qed simp

end
