(* ===== verification/Entry_Code.thy ===== *)
theory Entry_Code
  imports Machine
begin

text \<open>
  The assembly between the interrupt gates and the functions in C: the stubs of interrupts and exceptions (\<open>include/x86/interrupt.h\<close>), the dispatcher
  of the system calls (\<open>src/kernel/x86/syscalls.c\<close>) and \<open>jump_to_process\<close> (\<open>src/kernel/x86/process.c\<close>), instruction by instruction, with the
  offsets of their structures as constants.
\<close>

section \<open>The programs\<close>

definition INTERRUPT_HANDLER :: "string \<Rightarrow> instr list" where
  "INTERRUPT_HANDLER fn =
    [Push (R EBP),
     Mov (R EBP) (R ESP),
     Pushad,
     Push (S DS),
     Push (S ES),
     Push (S FS),
     Push (S GS),
     Lea EAX EBP 4,
     Push (R EAX),
     Call fn,
     Add ESP 4,
     Pop (S GS),
     Pop (S FS),
     Pop (S ES),
     Pop (S DS),
     Popad,
     Pop (R EBP),
     Iret]"

definition EXCEPTION_WITH_CODE_HANDLER :: "string \<Rightarrow> instr list" where
  "EXCEPTION_WITH_CODE_HANDLER fn =
    [Sub ESP 4,
     Push (R EBP),
     Mov (R EBP) (R ESP),
     Push (R EAX),
     Mov (R EAX) (M EBP 12),
     Mov (M EBP 4) (R EAX),
     Pop (R EAX),
     Pushad,
     Push (S DS),
     Push (S ES),
     Push (S FS),
     Push (S GS),
     Mov (R EAX) (M EBP 8),
     Lea EBX EBP 12,
     Push (R EAX),
     Push (R EBX),
     Call fn,
     Add ESP 8,
     Pop (S GS),
     Pop (S FS),
     Pop (S ES),
     Pop (S DS),
     Popad,
     Pop (R EBP),
     Add ESP 4,
     Add ESP 4,
     Iret]"

text \<open>The offsets of the frame of a system call; those of the arguments follow it.\<close>

definition field_cs :: U32 where "field_cs = 8"
definition field_esp :: U32 where "field_esp = 16"
definition field_ss :: U32 where "field_ss = 20"
definition interrupt_frame_struct_size :: U32 where "interrupt_frame_struct_size = 24"
definition field_ebx :: U32 where "field_ebx = 24"
definition field_ecx :: U32 where "field_ecx = 28"
definition field_edx :: U32 where "field_edx = 32"
definition field_esi :: U32 where "field_esi = 36"
definition field_edi :: U32 where "field_edi = 40"
definition syscall_frame_struct_size :: U32 where "syscall_frame_struct_size = 44"

lemmas field_defs = field_cs_def field_esp_def field_ss_def interrupt_frame_struct_size_def field_ebx_def field_ecx_def field_edx_def
  field_esi_def field_edi_def syscall_frame_struct_size_def

definition despatcher_check :: "instr list" where
  "despatcher_check =
    [Push (R EBP),
     Mov (R EBP) (R ESP),
     Push (R EAX),
     Push (R EBX),
     Mov (R EBX) (R EAX),
     Call ''s_getSysCallCount'',
     Cmp EBX EAX,
     Pop (R EBX),
     Pop (R EAX),
     Jae ''.fail'']"

definition despatcher_frame :: "instr list" where
  "despatcher_frame =
    [Sub ESP syscall_frame_struct_size,
     Push (R EDI),
     Push (R ESI),
     Push (R ECX),
     Lea ESI EBP 0,
     Lea EDI EBP (- syscall_frame_struct_size),
     Mov (R ECX) (I interrupt_frame_struct_size),
     RepMovsb,
     Pop (R ECX),
     Pop (R ESI),
     Pop (R EDI),
     Push (R EAX),
     Mov (R EAX) (M EBP (field_cs - syscall_frame_struct_size)),
     Test EAX 3,
     Pop (R EAX),
     Jnz ''.cont1'',
     Push (R EAX),
     Mov (R EAX) (S SS),
     Mov (M EBP (field_ss - syscall_frame_struct_size)) (R EAX),
     Lea EAX EBP 16,
     Mov (M EBP (field_esp - syscall_frame_struct_size)) (R EAX),
     Pop (R EAX),
     Label ''.cont1'']"

definition despatcher_call :: "U32 \<Rightarrow> instr list" where
  "despatcher_call g_table =
    [Mov (M EBP (field_edi - syscall_frame_struct_size)) (R EDI),
     Mov (M EBP (field_esi - syscall_frame_struct_size)) (R ESI),
     Mov (M EBP (field_edx - syscall_frame_struct_size)) (R EDX),
     Mov (M EBP (field_ecx - syscall_frame_struct_size)) (R ECX),
     Mov (M EBP (field_ebx - syscall_frame_struct_size)) (R EBX),
     LeaScaled EAX 4 EAX g_table,
     CallMem EAX]"

definition despatcher_return :: "instr list" where
  "despatcher_return =
    [Add ESP syscall_frame_struct_size,
     Jmp ''.fini'',
     Label ''.fail'',
     Call ''s_handleInvalidSystemCall'',
     Label ''.fini'',
     Pop (R EBP),
     Iret]"

text \<open>\<open>g_table\<close> is the address of \<open>g_syscall_table\<close>.\<close>

definition despatcher_code :: "U32 \<Rightarrow> instr list" where
  "despatcher_code g_table = despatcher_check @ despatcher_frame @ despatcher_call g_table @ despatcher_return"

definition jump_to_process_code :: "instr list" where
  "jump_to_process_code =
    [Mov (R EBP) (R ESP),
     Mov (R EAX) (M EBP 4),
     Mov (R ECX) (M EBP 8),
     Mov (R EDX) (M EBP 12),
     Mov (R EBX) (M EDX 0),
     Mov (R ESI) (M EDX 4),
     Mov (R EDI) (M EDX 8),
     Mov (R EBP) (M EDX 16),
     Mov (S DS) (M EDX 32),
     Mov (S ES) (M EDX 32),
     Mov (S FS) (M EDX 32),
     Mov (S GS) (M EDX 32),
     MovCr3 ECX,
     Test EAX PROCESS_FLAGS_KERNEL_PROCESS,
     Jz ''.load_user_process'',
     Push (M EDX 24),
     Popfd,
     Mov (R ESP) (M EDX 12),
     JmpMem EDX 20,
     Label ''.load_user_process'',
     Push (S DS),
     Push (M EDX 12),
     Push (M EDX 24),
     Push (M EDX 28),
     Push (M EDX 20),
     Iret]"

section \<open>The calling convention\<close>

text \<open>
  What a function in C keeps for the code that called it with \<open>n\<close> bytes of arguments: it removes its return address, restores the
  registers that are not scratch and the selectors, and leaves the stack of its caller above the arguments alone. 128 bytes are more than
  the programs above use.
\<close>

definition returns :: "U32 \<Rightarrow> machine \<Rightarrow> machine \<Rightarrow> bool" where
  "returns n m m' \<longleftrightarrow> m_regs m' ESP = m_regs m ESP + 4 \<and> m_regs m' EBX = m_regs m EBX \<and> m_regs m' ESI = m_regs m ESI
     \<and> m_regs m' EDI = m_regs m EDI \<and> m_regs m' EBP = m_regs m EBP \<and> m_segs m' = m_segs m
     \<and> (\<forall>a. a - (m_regs m ESP + 4 + n) < 128 \<longrightarrow> m_mem m' a = m_mem m a)"

lemma returns_load32:
  assumes "returns n m m'" "a - (m_regs m ESP + 4 + n) \<le> 124"
  shows "load32 (m_mem m') a = load32 (m_mem m) a"
  by (rule load32_cong [OF _ assms(2)]) (use assms(1) in \<open>simp add: returns_def\<close>)

section \<open>Sample machines\<close>

text \<open>Functions that return at once, and a machine that was interrupted in the code segment \<open>cs\<close> with the flags \<open>fl\<close>.\<close>

definition sample_callees :: callees where
  "sample_callees = \<lparr>ret_address = 0x9000, callee = (\<lambda>f m. Some (m\<lparr>m_regs := (m_regs m)(ESP := m_regs m ESP + 4,
     EAX := (if f = Named ''s_getSysCallCount'' then s_getSysCallCount else 0))\<rparr>))\<rparr>"

definition sample_machine :: "U32 \<Rightarrow> U32 \<Rightarrow> machine" where
  "sample_machine cs fl = \<lparr>m_regs = (\<lambda>_. 2)(EBX := 7, EBP := 0x500, ESP := 0x1000), m_segs = (\<lambda>_. 0x2B)(CS := 8, SS := 0x10), m_eip = 0,
     m_eflags = fl, m_cf = False, m_zf = False, m_cr3 = 0,
     m_mem = store32 0x1000 0x40 (store32 0x1004 cs (store32 0x1008 0x202 (store32 0x100C 0x8000 (store32 0x1010 0x2B (\<lambda>_. 0)))))\<rparr>"

lemma sample_machine_iret: "m_eip (iret (sample_machine cs fl)) = 0x40"
  by (simp add: sample_machine_def iret_def set_flags_def Let_def load32_store32_other)

section \<open>Interrupts\<close>


lemma interrupt_stub_call:
  "run E (INTERRUPT_HANDLER fn) m =
     Option.bind (callee E (Named fn) (stub_state E 9 (INTERRUPT_HANDLER fn) m)) (run E (drop 10 (INTERRUPT_HANDLER fn)))"
  by (rule run_stub_named) (simp_all add: INTERRUPT_HANDLER_def)

lemma interrupt_stub_state:
  fixes m :: machine and E :: callees and fn :: string
  defines "m1 \<equiv> stub_state E 9 (INTERRUPT_HANDLER fn) m" and "b \<equiv> m_regs m ESP"
  shows "m_regs m1 ESP = b - 60" "m_segs m1 = m_segs m"
    "map (\<lambda>k. load32 (m_mem m1) (b - k)) [56, 52, 48, 44, 40, 36, 32, 28, 24, 20, 16, 12, 8, 4] =
      [b, ucast (m_segs m GS), ucast (m_segs m FS), ucast (m_segs m ES), ucast (m_segs m DS), m_regs m EDI, m_regs m ESI,
       b - 4, b - 4, m_regs m EBX, m_regs m EDX, m_regs m ECX, m_regs m EAX, m_regs m EBP]"
    "a - b < 128 \<Longrightarrow> m_mem m1 a = m_mem m a"
  unfolding m1_def b_def INTERRUPT_HANDLER_def stub_state_def
  by (simp_all add: machine_simps store32_below)

text \<open>The interrupted program.\<close>

definition same_program :: "machine \<Rightarrow> machine \<Rightarrow> bool" where
  "same_program m m' \<longleftrightarrow> m_regs m' = m_regs m \<and> m_segs m' = m_segs m \<and> m_eip m' = m_eip m \<and> m_eflags m' = m_eflags m"

lemma interrupt_stub_return:
  assumes "returns 4 (stub_state E 9 (INTERRUPT_HANDLER fn) m) m2"
  shows "\<exists>m3. run E (drop 10 (INTERRUPT_HANDLER fn)) m2 = Some m3 \<and> same_program (iret m) m3"
proof -
  let ?m1 = "stub_state E 9 (INTERRUPT_HANDLER fn) m" and ?b = "m_regs m ESP"
  note s = interrupt_stub_state [where E = E and fn = fn and m = m]
  have l: "load32 (m_mem m2) a = load32 (m_mem ?m1) a" if "a - (?b - 52) \<le> 124" for a
    using returns_load32 [OF assms, of a] that by (simp add: s(1) stack_addresses)
  have l': "load32 (m_mem ?m1) a = load32 (m_mem m) a" if "a - ?b \<le> 124" for a
    by (rule load32_cong [OF s(4) that])
  have r: "m_regs m2 ESP = ?b - 56" "m_segs m2 = m_segs m"
    using assms by (simp_all add: returns_def s(1,2) stack_addresses)
  show ?thesis
    unfolding INTERRUPT_HANDLER_def
    using s(3)
    by (simp add: machine_simps r l l' iret_def Let_def same_program_def fun_eq_iff all_reg all_sreg)
qed

text \<open>
  C15. The stub of an interrupt is transparent to the program it interrupts. It calls its function with a pointer to the frame the processor
  pushed, which is unchanged in memory. When the function returns by the calling convention, the program ends with all general registers, all selectors, the
  instruction pointer and the flags as if the return from the interrupt had been executed at once.
\<close>

theorem interrupt_stub_transparent:
  "\<exists>m1. run E (INTERRUPT_HANDLER fn) m = Option.bind (callee E (Named fn) m1) (run E (drop 10 (INTERRUPT_HANDLER fn)))
    \<and> load32 (m_mem m1) (m_regs m1 ESP + 4) = m_regs m ESP
    \<and> (\<forall>a. a - m_regs m ESP < 128 \<longrightarrow> m_mem m1 a = m_mem m a)
    \<and> (\<forall>m2. returns 4 m1 m2 \<longrightarrow> (\<exists>m3. run E (drop 10 (INTERRUPT_HANDLER fn)) m2 = Some m3 \<and> same_program (iret m) m3))"
proof -
  let ?m1 = "stub_state E 9 (INTERRUPT_HANDLER fn) m"
  note s = interrupt_stub_state [where E = E and fn = fn and m = m]
  have "load32 (m_mem ?m1) (m_regs ?m1 ESP + 4) = m_regs m ESP"
    using s(3) by (simp add: s(1) stack_addresses)
  then show ?thesis
    using interrupt_stub_call s(4) interrupt_stub_return by blast
qed

theorem interrupt_stub_transparent_witness:
  "\<exists>m3. run sample_callees (INTERRUPT_HANDLER ''timer_interrupt_handler'') (sample_machine 0x23 0) = Some m3
    \<and> same_program (iret (sample_machine 0x23 0)) m3 \<and> m_eip (iret (sample_machine 0x23 0)) = 0x40"
proof -
  let ?c = "INTERRUPT_HANDLER ''timer_interrupt_handler''" and ?m = "sample_machine 0x23 0"
  obtain m1 where m1: "run sample_callees ?c ?m =
        Option.bind (callee sample_callees (Named ''timer_interrupt_handler'') m1) (run sample_callees (drop 10 ?c))"
      "\<And>m2. returns 4 m1 m2 \<Longrightarrow> \<exists>m3. run sample_callees (drop 10 ?c) m2 = Some m3 \<and> same_program (iret ?m) m3"
    using interrupt_stub_transparent [of sample_callees "''timer_interrupt_handler''" ?m] by blast
  obtain m2 where m2: "callee sample_callees (Named ''timer_interrupt_handler'') m1 = Some m2" "returns 4 m1 m2"
    by (simp add: sample_callees_def returns_def)
  show ?thesis
    using m1(1) m1(2) [OF m2(2)] m2(1) sample_machine_iret by auto
qed

section \<open>Exceptions with an error code\<close>

lemma exception_stub_call:
  "run E (EXCEPTION_WITH_CODE_HANDLER fn) m =
     Option.bind (callee E (Named fn) (stub_state E 16 (EXCEPTION_WITH_CODE_HANDLER fn) m)) (run E (drop 17 (EXCEPTION_WITH_CODE_HANDLER fn)))"
  by (rule run_stub_named) (simp_all add: EXCEPTION_WITH_CODE_HANDLER_def)

lemma exception_stub_state:
  fixes m :: machine and E :: callees and fn :: string
  defines "m1 \<equiv> stub_state E 16 (EXCEPTION_WITH_CODE_HANDLER fn) m" and "b \<equiv> m_regs m ESP"
  shows "m_regs m1 ESP = b - 68" "m_segs m1 = m_segs m"
    "map (\<lambda>k. load32 (m_mem m1) (b - k)) [64, 60, 56, 52, 48, 44, 40, 36, 24, 20, 16, 12, 8, 4] =
      [b + 4, load32 (m_mem m) b, ucast (m_segs m GS), ucast (m_segs m FS), ucast (m_segs m ES), ucast (m_segs m DS), m_regs m EDI, m_regs m ESI,
       m_regs m EBX, m_regs m EDX, m_regs m ECX, m_regs m EAX, m_regs m EBP, load32 (m_mem m) (b + 4)]"
    "a - b < 128 \<Longrightarrow> m_mem m1 a = m_mem m a" "m_regs m1 EBP = b - 8"
  unfolding m1_def b_def EXCEPTION_WITH_CODE_HANDLER_def stub_state_def
  by (simp_all add: machine_simps store32_below)

lemma exception_stub_return:
  assumes "returns 8 (stub_state E 16 (EXCEPTION_WITH_CODE_HANDLER fn) m) m2"
  shows "\<exists>m3. run E (drop 17 (EXCEPTION_WITH_CODE_HANDLER fn)) m2 = Some m3 \<and> same_program (iret (set_reg ESP (m_regs m ESP + 4) m)) m3"
proof -
  let ?m1 = "stub_state E 16 (EXCEPTION_WITH_CODE_HANDLER fn) m" and ?b = "m_regs m ESP"
  note s = exception_stub_state [where E = E and fn = fn and m = m]
  have l: "load32 (m_mem m2) a = load32 (m_mem ?m1) a" if "a - (?b - 56) \<le> 124" for a
    using returns_load32 [OF assms, of a] that by (simp add: s(1) stack_addresses)
  have l': "load32 (m_mem ?m1) a = load32 (m_mem m) a" if "a - ?b \<le> 124" for a
    by (rule load32_cong [OF s(4) that])
  have r: "m_regs m2 ESP = ?b - 64" "m_segs m2 = m_segs m"
    using assms by (simp_all add: returns_def s(1,2) stack_addresses)
  show ?thesis
    unfolding EXCEPTION_WITH_CODE_HANDLER_def
    using s(3)
    by (simp add: machine_simps r l l' iret_def Let_def same_program_def fun_eq_iff all_reg all_sreg)
qed

text \<open>
  C16. The stub of an exception with an error code calls its function with a pointer to the frame of the processor and with the error
  code, and leaves a copy of the interrupted instruction pointer behind the saved base pointer for the call stack. When the function returns by the calling convention, the
  error code is removed and the program continues with all its registers, as if the return from the interrupt had been executed at once.
\<close>

theorem exception_stub_transparent:
  "\<exists>m1. run E (EXCEPTION_WITH_CODE_HANDLER fn) m = Option.bind (callee E (Named fn) m1) (run E (drop 17 (EXCEPTION_WITH_CODE_HANDLER fn)))
    \<and> load32 (m_mem m1) (m_regs m1 ESP + 4) = m_regs m ESP + 4 \<and> load32 (m_mem m1) (m_regs m1 ESP + 8) = load32 (m_mem m) (m_regs m ESP)
    \<and> (\<forall>a. a - m_regs m ESP < 128 \<longrightarrow> m_mem m1 a = m_mem m a)
    \<and> load32 (m_mem m1) (m_regs m1 EBP) = m_regs m EBP \<and> load32 (m_mem m1) (m_regs m1 EBP + 4) = load32 (m_mem m) (m_regs m ESP + 4)
    \<and> (\<forall>m2. returns 8 m1 m2 \<longrightarrow> (\<exists>m3. run E (drop 17 (EXCEPTION_WITH_CODE_HANDLER fn)) m2 = Some m3
        \<and> same_program (iret (set_reg ESP (m_regs m ESP + 4) m)) m3))"
proof -
  let ?m1 = "stub_state E 16 (EXCEPTION_WITH_CODE_HANDLER fn) m"
  note s = exception_stub_state [where E = E and fn = fn and m = m]
  have "load32 (m_mem ?m1) (m_regs ?m1 ESP + 4) = m_regs m ESP + 4" "load32 (m_mem ?m1) (m_regs ?m1 ESP + 8) = load32 (m_mem m) (m_regs m ESP)"
    using s(3) by (simp_all add: s(1) stack_addresses)
  moreover have "load32 (m_mem ?m1) (m_regs ?m1 EBP) = m_regs m EBP" "load32 (m_mem ?m1) (m_regs ?m1 EBP + 4) = load32 (m_mem m) (m_regs m ESP + 4)"
    using s(3) by (simp_all add: s(5) stack_addresses)
  ultimately show ?thesis
    using exception_stub_call s(4) exception_stub_return by blast
qed

theorem exception_stub_transparent_witness:
  "\<exists>m3. run sample_callees (EXCEPTION_WITH_CODE_HANDLER ''page_fault_handler'') (set_reg ESP 0xFFC (sample_machine 0x23 0)) = Some m3
    \<and> same_program (iret (sample_machine 0x23 0)) m3 \<and> m_eip (iret (sample_machine 0x23 0)) = 0x40"
proof -
  let ?c = "EXCEPTION_WITH_CODE_HANDLER ''page_fault_handler''" and ?m = "set_reg ESP 0xFFC (sample_machine 0x23 0)"
  have up: "set_reg ESP (m_regs ?m ESP + 4) ?m = sample_machine 0x23 0"
    by (simp add: sample_machine_def fun_upd_twist)
  obtain m1 where m1: "run sample_callees ?c ?m =
        Option.bind (callee sample_callees (Named ''page_fault_handler'') m1) (run sample_callees (drop 17 ?c))"
      "\<And>m2. returns 8 m1 m2 \<Longrightarrow> \<exists>m3. run sample_callees (drop 17 ?c) m2 = Some m3 \<and> same_program (iret (sample_machine 0x23 0)) m3"
    using exception_stub_transparent [of sample_callees "''page_fault_handler''" ?m] unfolding up by blast
  obtain m2 where m2: "callee sample_callees (Named ''page_fault_handler'') m1 = Some m2" "returns 8 m1 m2"
    by (simp add: sample_callees_def returns_def)
  show ?thesis
    using m1(1) m1(2) [OF m2(2)] m2(1) sample_machine_iret by auto
qed

section \<open>System calls\<close>

text \<open>The frame and the arguments of a system call in memory.\<close>

definition frame_at :: "memory \<Rightarrow> PTR \<Rightarrow> SystemcallFrame" where
  "frame_at mem a = \<lparr>f_ebp = load32 mem a, f_eip = load32 mem (a + 4), f_cs = load32 mem (a + 8), f_eflags = load32 mem (a + 12),
     f_esp = load32 mem (a + 16), f_ss = load32 mem (a + 20)\<rparr>"

definition args_at :: "memory \<Rightarrow> PTR \<Rightarrow> syscall_args" where
  "args_at mem a = \<lparr>a_ebx = load32 mem a, a_ecx = load32 mem (a + 4), a_edx = load32 mem (a + 8), a_esi = load32 mem (a + 12),
     a_edi = load32 mem (a + 16)\<rparr>"

text \<open>What the processor pushed, below the base pointer of the caller, and the registers with the arguments.\<close>

definition pushed_frame :: "machine \<Rightarrow> SystemcallFrame" where
  "pushed_frame m = (let b = m_regs m ESP; mem = m_mem m
     in \<lparr>f_ebp = m_regs m EBP, f_eip = load32 mem b, f_cs = load32 mem (b + 4), f_eflags = load32 mem (b + 8),
         f_esp = load32 mem (b + 12), f_ss = load32 mem (b + 16)\<rparr>)"

definition register_args :: "machine \<Rightarrow> syscall_args" where
  "register_args m = \<lparr>a_ebx = m_regs m EBX, a_ecx = m_regs m ECX, a_edx = m_regs m EDX, a_esi = m_regs m ESI, a_edi = m_regs m EDI\<rparr>"

text \<open>The call of \<open>s_getSysCallCount\<close>, and the state after it with the registers restored.\<close>

definition count_state :: "callees \<Rightarrow> machine \<Rightarrow> machine" where
  "count_state E m = stub_state E 5 despatcher_check m"

lemma despatcher_check_call:
  "run E (despatcher_check @ rest) m =
     Option.bind (callee E (Named ''s_getSysCallCount'') (count_state E m))
       (\<lambda>m2. let m3 = fold step [Cmp EBX EAX, Pop (R EBX), Pop (R EAX)] m2
             in run E (if m_cf m3 then rest else after_label ''.fail'' rest) m3)"
proof -
  let ?c = "despatcher_check @ rest"
  have "run E (drop 6 ?c) m2 =
      (let m3 = fold step [Cmp EBX EAX, Pop (R EBX), Pop (R EAX)] m2 in run E (if m_cf m3 then rest else after_label ''.fail'' rest) m3)" for m2
    by (simp add: despatcher_check_def Let_def)
  moreover have "run E ?c m = Option.bind (callee E (Named ''s_getSysCallCount'') (count_state E m)) (run E (drop 6 ?c))"
    using run_stub_named [where n = 5 and code = ?c and f = "''s_getSysCallCount''" and m = m and E = E and k = 6]
    by (simp add: count_state_def stub_state_def despatcher_check_def del: fold.simps fold_simps run.simps)
  ultimately show ?thesis
    by presburger
qed

text \<open>The function that counts the system calls returns their number, and keeps the direction flag and the registers with the second and third argument.\<close>

definition counts :: "machine \<Rightarrow> machine \<Rightarrow> bool" where
  "counts m m' \<longleftrightarrow> returns 0 m m' \<and> m_regs m' EAX = s_getSysCallCount \<and> m_df m' = m_df m
     \<and> m_regs m' ECX = m_regs m ECX \<and> m_regs m' EDX = m_regs m EDX"

lemma count_state_facts:
  fixes m :: machine and E :: callees
  defines "m1 \<equiv> count_state E m" and "b \<equiv> m_regs m ESP"
  shows "m_regs m1 = (m_regs m)(EBX := m_regs m EAX, EBP := b - 4, ESP := b - 16)" "m_segs m1 = m_segs m" "m_df m1 = m_df m"
    "map (\<lambda>k. load32 (m_mem m1) (b - k)) [12, 8, 4] = [m_regs m EBX, m_regs m EAX, m_regs m EBP]"
    "a - b < 128 \<Longrightarrow> m_mem m1 a = m_mem m a"
  unfolding m1_def b_def count_state_def stub_state_def despatcher_check_def
  by (simp_all add: machine_simps store32_below m_df_def fun_eq_iff all_reg)

lemma despatcher_checked:
  fixes m :: machine and E :: callees and m2 :: machine
  defines "m3 \<equiv> fold step [Cmp EBX EAX, Pop (R EBX), Pop (R EAX)] m2" and "b \<equiv> m_regs m ESP"
  assumes "counts (count_state E m) m2"
  shows "m_cf m3 = (m_regs m EAX < s_getSysCallCount)" "m_regs m3 = (m_regs m)(EBP := b - 4, ESP := b - 4)" "m_segs m3 = m_segs m"
    "m_df m3 = m_df m" "load32 (m_mem m3) (b - 4) = m_regs m EBP" "a - b \<le> 100 \<Longrightarrow> load32 (m_mem m3) a = load32 (m_mem m) a"
    "load32 (m_mem m2) (b - 8) = m_regs m EAX" "load32 (m_mem m2) (b - 12) = m_regs m EBX" "m_mem m3 = m_mem m2" "m_df m2 = m_df m"
proof -
  note s = count_state_facts [where E = E and m = m, folded b_def]
  have r: "returns 0 (count_state E m) m2"
    using assms(3) by (simp add: counts_def)
  have l: "load32 (m_mem m2) a = load32 (m_mem (count_state E m)) a" if "a - (b - 12) \<le> 124" for a
    using returns_load32 [OF r, of a] that by (simp add: s(1) stack_addresses)
  have m2: "m_regs m2 ESP = b - 12" "m_regs m2 EBX = m_regs m EAX" "m_regs m2 EAX = s_getSysCallCount" "m_segs m2 = m_segs m"
      "m_regs m2 EBP = b - 4" "m_regs m2 ECX = m_regs m ECX" "m_regs m2 EDX = m_regs m EDX" "m_regs m2 ESI = m_regs m ESI"
      "m_regs m2 EDI = m_regs m EDI" "m_df m2 = m_df m"
    using assms(3) by (simp_all add: counts_def returns_def s stack_addresses)
  show "m_cf m3 = (m_regs m EAX < s_getSysCallCount)" "m_segs m3 = m_segs m" "m_df m3 = m_df m" "load32 (m_mem m3) (b - 4) = m_regs m EBP"
    using m2(10) s(4) by (simp_all add: m3_def machine_simps m2 l m_df_def)
  show "load32 (m_mem m2) (b - 8) = m_regs m EAX" "load32 (m_mem m2) (b - 12) = m_regs m EBX" "m_mem m3 = m_mem m2" "m_df m2 = m_df m"
    using s(4) by (simp_all add: m3_def machine_simps m2 l)
  show "m_regs m3 = (m_regs m)(EBP := b - 4, ESP := b - 4)"
    using s(4) by (simp add: m3_def machine_simps m2 l fun_eq_iff all_reg)
  show "load32 (m_mem m3) a = load32 (m_mem m) a" if "a - b \<le> 100"
  proof -
    have "unat (a - b) \<le> 100"
      using that by (simp add: word_le_nat_alt)
    moreover have "a - (b - 12) = a - b + 12"
      by simp
    ultimately have "a - (b - 12) \<le> 124" "a - b \<le> 124"
      by (simp_all only: word_le_nat_alt) (simp_all add: unat_word_ariths)
    then show ?thesis
      using load32_cong [of b "m_mem (count_state E m)" "m_mem m" a] s(5) by (simp add: m3_def machine_simps l)
  qed
qed

text \<open>The way through the code that builds the frame, for a caller in user mode and for one in the kernel.\<close>

definition despatcher_path :: "bool \<Rightarrow> instr list" where
  "despatcher_path user = take 15 despatcher_frame @ (if user then [] else take 6 (drop 16 despatcher_frame))"

definition handler_state :: "U32 \<Rightarrow> bool \<Rightarrow> machine \<Rightarrow> machine" where
  "handler_state g_table user m = fold step (despatcher_path user @ take 6 (despatcher_call g_table)) m"

text \<open>Stacks as the check leaves them.\<close>

definition checked :: "machine \<Rightarrow> machine \<Rightarrow> bool" where
  "checked m m3 \<longleftrightarrow> m_regs m3 = (m_regs m)(EBP := m_regs m ESP - 4, ESP := m_regs m ESP - 4) \<and> m_segs m3 = m_segs m
     \<and> \<not> m_df m3 \<and> load32 (m_mem m3) (m_regs m ESP - 4) = m_regs m EBP
     \<and> (\<forall>a. a - m_regs m ESP \<le> 100 \<longrightarrow> load32 (m_mem m3) a = load32 (m_mem m) a)"

lemma frame_copied:
  fixes b :: U32
  shows "unat (48 - k) \<le> 20 \<Longrightarrow> load32 (rep_movsb 24 False (b - 4) (b - 48) mem) (b - k) = load32 mem (b - k + 44)"
    and "24 \<le> unat (48 - k) \<Longrightarrow> unat (48 - k) \<le> 4294967292 \<Longrightarrow> load32 (rep_movsb 24 False (b - 4) (b - 48) mem) (b - k) = load32 mem (b - k)"
proof -
  have "24 \<le> unat (b - 4 + of_nat j - (b - 48))" if "j < 24" for j :: nat
  proof -
    have e: "b - 4 + of_nat j - (b - 48) = 44 + of_nat j"
      by simp
    show ?thesis
      unfolding e using that by (simp add: unat_word_ariths unat_of_nat_word32)
  qed
  note l = load32_movsb [where n = 24 and s = "b - 4" and d = "b - 48" and a = "b - k" and mem = mem, OF this]
  have e: "b - k - (b - 48) = 48 - k" "b - 4 + (48 - k) = b - k + 44"
    by simp_all
  show "unat (48 - k) \<le> 20 \<Longrightarrow> load32 (rep_movsb 24 False (b - 4) (b - 48) mem) (b - k) = load32 mem (b - k + 44)"
    using l(1) unfolding e by simp
  show "24 \<le> unat (48 - k) \<Longrightarrow> unat (48 - k) \<le> 4294967292 \<Longrightarrow> load32 (rep_movsb 24 False (b - 4) (b - 48) mem) (b - k) = load32 mem (b - k)"
    using l(2) unfolding e by simp
qed

lemma frame_copied_above:
  fixes b :: U32
  assumes "unat k \<le> 100"
  shows "load32 (rep_movsb 24 False (b - 4) (b - 48) mem) (b + k) = load32 mem (b + k)"
  using frame_copied(2) [of "- k" b mem] assms by (simp add: unat_word_ariths)

lemmas handler_state_defs = handler_state_def despatcher_path_def despatcher_frame_def despatcher_call_def field_defs machine_simps exec_movsb_def
  m_df_def frame_copied frame_copied_above frame_copied_above [where k = 0, simplified]

lemma handler_state_facts:
  fixes m :: machine and m3 :: machine and g_table :: U32
  assumes "checked m m3"
  defines "user \<equiv> f_cs (pushed_frame m) AND 3 \<noteq> 0" and "b \<equiv> m_regs m ESP"
  defines "m4 \<equiv> handler_state g_table user m3"
  shows "m_regs m4 ESP = b - 48" "m_regs m4 EBP = b - 4" "m_regs m4 EAX = 4 * m_regs m EAX + g_table" 
    "frame_at (m_mem m4) (b - 48) = make_frame (pushed_frame m) (b - 4) (ucast (m_segs m SS))"
    "args_at (m_mem m4) (b - 24) = register_args m" "m_segs m4 = m_segs m"
    "map (m_regs m4) [EBX, ESI, EDI] = map (m_regs m) [EBX, ESI, EDI]"
    "map (\<lambda>k. load32 (m_mem m4) (b - 4 + k)) [0, 4, 8, 12, 16, 20] =
      m_regs m EBP # map (\<lambda>k. load32 (m_mem m) (b + k)) [0, 4, 8, 12, 16]"
proof -
  have r: "m_regs m3 = (m_regs m)(EBP := b - 4, ESP := b - 4)" "m_segs m3 = m_segs m" "\<not> m_df m3"
      and l: "load32 (m_mem m3) (b - 4) = m_regs m EBP" "\<And>a. a - b \<le> 100 \<Longrightarrow> load32 (m_mem m3) a = load32 (m_mem m) a"
    using assms(1) by (simp_all add: checked_def b_def)
  have df: "\<not> bit (m_eflags m3) 10"
    using r(3) by (simp add: m_df_def)
  show "m_regs m4 ESP = b - 48" "m_regs m4 EBP = b - 4" "m_regs m4 EAX = 4 * m_regs m EAX + g_table" 
    by (simp_all add: m4_def handler_state_defs df r)
  show "m_segs m4 = m_segs m" "map (m_regs m4) [EBX, ESI, EDI] = map (m_regs m) [EBX, ESI, EDI]"
    by (simp_all add: m4_def handler_state_defs df r)
  show "map (\<lambda>k. load32 (m_mem m4) (b - 4 + k)) [0, 4, 8, 12, 16, 20] =
      m_regs m EBP # map (\<lambda>k. load32 (m_mem m) (b + k)) [0, 4, 8, 12, 16]"
    by (simp_all add: m4_def handler_state_defs df r l)
  show "frame_at (m_mem m4) (b - 48) = make_frame (pushed_frame m) (b - 4) (ucast (m_segs m SS))"
    by (simp_all add: m4_def handler_state_defs df r frame_at_def l make_frame_def pushed_frame_def user_def b_def [symmetric])
  show "args_at (m_mem m4) (b - 24) = register_args m"
    by (simp_all add: m4_def handler_state_defs df r args_at_def l register_args_def b_def [symmetric])
qed

text \<open>The state after the handler: the frame is removed, and the caller continues behind the interrupt instruction.\<close>

lemma despatcher_returned:
  assumes "checked m m3" "returns 44 (push ra (handler_state g_table (f_cs (pushed_frame m) AND 3 \<noteq> 0) m3)) m5"
  shows "\<exists>m6. run E despatcher_return m5 = Some m6
    \<and> same_program (iret (m\<lparr>m_regs := (m_regs m)(EAX := m_regs m5 EAX, ECX := m_regs m5 ECX, EDX := m_regs m5 EDX)\<rparr>)) m6"
proof -
  let ?m4 = "handler_state g_table (f_cs (pushed_frame m) AND 3 \<noteq> 0) m3" and ?b = "m_regs m ESP"
  note h = handler_state_facts [OF assms(1), of g_table]
  have l: "load32 (m_mem m5) a = load32 (m_mem (push ra ?m4)) a" if "a - (?b - 4) \<le> 124" for a
    using returns_load32 [OF assms(2), of a] that by (simp add: push_def Let_def h(1) stack_addresses)
  have r: "m_regs m5 ESP = ?b - 48" "m_segs m5 = m_segs m" "m_regs m5 EBX = m_regs m EBX" "m_regs m5 ESI = m_regs m ESI" "m_regs m5 EDI = m_regs m EDI"
    using assms(2) h(1,6,7) by (simp_all add: returns_def push_def Let_def stack_addresses)
  show ?thesis
    using h(8)
    by (simp add: despatcher_return_def machine_simps field_defs r l h(1) iret_def same_program_def fun_eq_iff all_reg all_sreg)
qed

lemma despatcher_path_called:
  assumes "m_zf (fold step (take 15 despatcher_frame) m3) \<longleftrightarrow> \<not> user"
  shows "run E (despatcher_frame @ despatcher_call g_table @ despatcher_return) m3 =
    (let m4 = handler_state g_table user m3
     in Option.bind (callee E (At (load32 (m_mem m4) (m_regs m4 EAX))) (push (ret_address E) m4)) (run E despatcher_return))"
proof -
  let ?pre = "take 15 despatcher_frame" and ?k = "take 6 (drop 16 despatcher_frame)" and ?c = "take 6 (despatcher_call g_table)"
  let ?s = "fold step ?pre m3"
  have code: "despatcher_frame @ despatcher_call g_table @ despatcher_return =
      ?pre @ Jnz ''.cont1'' # ?k @ Label ''.cont1'' # ?c @ CallMem EAX # despatcher_return"
    by (simp add: despatcher_frame_def despatcher_call_def)
  have st: "list_all straight ?pre" "list_all straight ?k" "Label ''.cont1'' \<notin> set ?k" "list_all straight ?c"
    by (simp_all add: despatcher_frame_def despatcher_call_def)
  have "fold step ?c (if m_zf ?s then fold step ?k ?s else ?s) = handler_state g_table user m3"
    using assms by (auto simp: handler_state_def despatcher_path_def)
  then show ?thesis
    unfolding code run_branch [OF st(1-3)] Let_def run_straight [OF st(4)] by simp
qed

lemma despatcher_called:
  assumes "checked m m3"
  shows "run E (despatcher_frame @ despatcher_call g_table @ despatcher_return) m3 =
    (let m4 = handler_state g_table (f_cs (pushed_frame m) AND 3 \<noteq> 0) m3
     in Option.bind (callee E (At (load32 (m_mem m4) (4 * m_regs m EAX + g_table))) (push (ret_address E) m4)) (run E despatcher_return))"
proof -
  have "m_zf (fold step (take 15 despatcher_frame) m3) \<longleftrightarrow> \<not> f_cs (pushed_frame m) AND 3 \<noteq> 0"
    using assms by (simp add: checked_def handler_state_defs pushed_frame_def)
  from despatcher_path_called [OF this] show ?thesis
    using handler_state_facts(3) [OF assms, of g_table] by simp
qed

lemma checkedI:
  assumes "counts (count_state E m) m2" "\<not> m_df m"
  shows "checked m (fold step [Cmp EBX EAX, Pop (R EBX), Pop (R EAX)] m2)"
  unfolding checked_def using despatcher_checked [OF assms(1)] assms(2) by blast

text \<open>
  C8. The machine code of the dispatcher implements its model. A caller enters with a number in range and a clear direction flag. The code calls the function that the table holds for the
  number, and the frame and arguments this function finds on its stack are those that the model of the dispatcher gives its handler, for a caller in user
  mode and for one in the kernel. When the function returns by the calling convention, the caller continues as if the return from the interrupt had been executed at
  once, with the result in \<open>eax\<close> and only the scratch registers changed. The function that counts the system calls is assumed to keep \<open>ecx\<close> and \<open>edx\<close>.
\<close>

theorem despatcher_refines:
  assumes "\<not> m_df m" "m_regs m EAX < s_getSysCallCount"
    and "callee E (Named ''s_getSysCallCount'') (count_state E m) = Some m2" "counts (count_state E m) m2"
  shows "\<exists>m4. run E (despatcher_code g_table) m =
      Option.bind (callee E (At (load32 (m_mem m4) (4 * m_regs m EAX + g_table))) (push (ret_address E) m4)) (run E despatcher_return)
    \<and> syscall_asm_despatcher gx (m_regs m EAX) (pushed_frame m) (m_regs m ESP - 4) (ucast (m_segs m SS)) (register_args m) st =
        (g_syscall_table (graphics_enabled st) gx ! unat (m_regs m EAX))
          (frame_at (m_mem m4) (m_regs m4 ESP)) (args_at (m_mem m4) (m_regs m4 ESP + 24)) st
    \<and> (\<forall>m5. returns 44 (push (ret_address E) m4) m5 \<longrightarrow> (\<exists>m6. run E despatcher_return m5 = Some m6 \<and>
        same_program (iret (m\<lparr>m_regs := (m_regs m)(EAX := m_regs m5 EAX, ECX := m_regs m5 ECX, EDX := m_regs m5 EDX)\<rparr>)) m6))"
proof -
  let ?m3 = "fold step [Cmp EBX EAX, Pop (R EBX), Pop (R EAX)] m2" and ?user = "f_cs (pushed_frame m) AND 3 \<noteq> 0"
  let ?m4 = "handler_state g_table ?user ?m3"
  have ch: "checked m ?m3"
    by (rule checkedI [OF assms(4,1)])
  have "run E (despatcher_code g_table) m = run E (despatcher_frame @ despatcher_call g_table @ despatcher_return) ?m3"
    using despatcher_checked(1) [OF assms(4)] assms(2) by (simp add: despatcher_code_def despatcher_check_call assms(3) Let_def del: fold.simps fold_simps run.simps)
  then have "run E (despatcher_code g_table) m =
      Option.bind (callee E (At (load32 (m_mem ?m4) (4 * m_regs m EAX + g_table))) (push (ret_address E) ?m4)) (run E despatcher_return)"
    by (simp only: despatcher_called [OF ch] Let_def)
  moreover have "frame_at (m_mem ?m4) (m_regs ?m4 ESP) = make_frame (pushed_frame m) (m_regs m ESP - 4) (ucast (m_segs m SS))"
      "args_at (m_mem ?m4) (m_regs ?m4 ESP + 24) = register_args m"
    using handler_state_facts [OF ch, of g_table] by (simp_all add: stack_addresses)
  ultimately show ?thesis
    using despatcher_returned [OF ch, of "ret_address E" g_table] assms(2)
    by (intro exI [of _ ?m4]) (simp add: syscall_asm_despatcher_def not_le [symmetric] del: fold.simps fold_simps run.simps)
qed

text \<open>A number that is out of range.\<close>

lemma despatcher_refuses:
  assumes "\<not> m_regs m EAX < s_getSysCallCount"
    and "callee E (Named ''s_getSysCallCount'') (count_state E m) = Some m2" "counts (count_state E m) m2"
  shows "\<exists>m4. run E (despatcher_code g_table) m =
      Option.bind (callee E (Named ''s_handleInvalidSystemCall'') (push (ret_address E) m4)) (run E (drop 4 despatcher_return))
    \<and> (\<forall>m5. returns 0 (push (ret_address E) m4) m5 \<longrightarrow> (\<exists>m6. run E (drop 4 despatcher_return) m5 = Some m6 \<and>
        same_program (iret (m\<lparr>m_regs := (m_regs m)(EAX := m_regs m5 EAX, ECX := m_regs m5 ECX, EDX := m_regs m5 EDX)\<rparr>)) m6))"
proof -
  let ?m3 = "fold step [Cmp EBX EAX, Pop (R EBX), Pop (R EAX)] m2" and ?b = "m_regs m ESP"
  note c = despatcher_checked [OF assms(3)]
  have "after_label ''.fail'' (despatcher_frame @ despatcher_call g_table @ despatcher_return) = drop 2 despatcher_return"
    by (simp add: despatcher_frame_def despatcher_call_def despatcher_return_def)
  then have "run E (despatcher_code g_table) m = run E (drop 2 despatcher_return) ?m3"
    using c(1) assms(1) by (simp add: despatcher_code_def despatcher_check_call assms(2) Let_def del: fold.simps fold_simps run.simps)
  also have "\<dots> = Option.bind (callee E (Named ''s_handleInvalidSystemCall'') (push (ret_address E) ?m3)) (run E (drop 4 despatcher_return))"
    by (simp add: despatcher_return_def del: fold.simps fold_simps)
  finally have eq: "run E (despatcher_code g_table) m =
      Option.bind (callee E (Named ''s_handleInvalidSystemCall'') (push (ret_address E) ?m3)) (run E (drop 4 despatcher_return))" .
  have "\<exists>m6. run E (drop 4 despatcher_return) m5 = Some m6 \<and>
      same_program (iret (m\<lparr>m_regs := (m_regs m)(EAX := m_regs m5 EAX, ECX := m_regs m5 ECX, EDX := m_regs m5 EDX)\<rparr>)) m6"
    if ret: "returns 0 (push (ret_address E) ?m3) m5" for m5
  proof -
    have l: "load32 (m_mem m5) a = load32 (m_mem (push (ret_address E) ?m3)) a" if "a - (?b - 4) \<le> 124" for a
      using returns_load32 [OF ret, of a] that c(2) by (simp add: push_def Let_def stack_addresses del: fold.simps fold_simps)
    have r: "m_regs m5 ESP = ?b - 4" "m_segs m5 = m_segs m" "m_regs m5 EBX = m_regs m EBX" "m_regs m5 ESI = m_regs m ESI" "m_regs m5 EDI = m_regs m EDI"
      using ret c(2,3) by (simp_all add: returns_def push_def Let_def stack_addresses del: fold.simps fold_simps)
    show ?thesis
      using c(5,6)
      by (simp add: despatcher_return_def machine_simps r l c(2) iret_def same_program_def fun_eq_iff all_reg all_sreg del: fold.simps fold_simps)
  qed
  then show ?thesis
    using eq by blast
qed

section \<open>Witness\<close>

lemma sample_counts:
  "callee sample_callees (Named ''s_getSysCallCount'') (count_state sample_callees m) =
     Some (set_reg EAX s_getSysCallCount (set_reg ESP (m_regs (count_state sample_callees m) ESP + 4) (count_state sample_callees m)))"
  "counts (count_state sample_callees m)
     (set_reg EAX s_getSysCallCount (set_reg ESP (m_regs (count_state sample_callees m) ESP + 4) (count_state sample_callees m)))"
  by (simp_all add: sample_callees_def counts_def returns_def m_df_def)

theorem despatcher_refines_witness:
  "\<exists>m6. run sample_callees (despatcher_code 0x5000) (sample_machine 0x23 0x202) = Some m6 \<and> m_eip m6 = 0x40 \<and> m_regs m6 EAX = 0
    \<and> m_regs m6 EBX = 7 \<and> m_regs m6 ESP = 0x8000"
proof -
  let ?E = sample_callees and ?m = "sample_machine 0x23 0x202"
  have "\<not> m_df ?m" "m_regs ?m EAX < s_getSysCallCount"
    by (simp_all add: sample_machine_def m_df_def s_getSysCallCount_def bit_iff_odd)
  from despatcher_refines [where gx = 1 and st = sample_win and g_table = "0x5000", OF this sample_counts]
  obtain m4 where m4: "run ?E (despatcher_code 0x5000) ?m =
        Option.bind (callee ?E (At (load32 (m_mem m4) (4 * m_regs ?m EAX + 0x5000))) (push (ret_address ?E) m4)) (run ?E despatcher_return)"
      "\<And>m5. returns 44 (push (ret_address ?E) m4) m5 \<Longrightarrow> \<exists>m6. run ?E despatcher_return m5 = Some m6 \<and>
        same_program (iret (?m\<lparr>m_regs := (m_regs ?m)(EAX := m_regs m5 EAX, ECX := m_regs m5 ECX, EDX := m_regs m5 EDX)\<rparr>)) m6"
    by blast
  obtain m5 where m5: "callee ?E (At h) (push (ret_address ?E) m4) = Some m5" "returns 44 (push (ret_address ?E) m4) m5" "m_regs m5 EAX = 0" for h
    by (simp add: sample_callees_def returns_def)
  from m4(2) [OF m5(2)] obtain m6 where "run ?E despatcher_return m5 = Some m6"
      "same_program (iret (?m\<lparr>m_regs := (m_regs ?m)(EAX := m_regs m5 EAX, ECX := m_regs m5 ECX, EDX := m_regs m5 EDX)\<rparr>)) m6"
    by blast
  then show ?thesis
    using m4(1) m5(1,3) by (simp add: same_program_def iret_def set_flags_def Let_def sample_machine_def load32_store32_other)
qed

end
