(* ===== verification/Context_Switch.thy ===== *)
theory Context_Switch
  imports Entry_Code
begin

text \<open>
  Switching between processes at the level of the processor: \<open>jump_to_process\<close> of \<open>src/kernel/x86/process.c\<close> restores what the dispatcher
  of the system calls found when the process yielded.
\<close>

section \<open>Leaving for a process\<close>

definition registers_at :: "memory \<Rightarrow> PTR \<Rightarrow> ProcessRegisterState" where
  "registers_at mem a = \<lparr>r_ebx = load32 mem a, r_esi = load32 mem (a + 4), r_edi = load32 mem (a + 8), r_esp = load32 mem (a + 12),
     r_ebp = load32 mem (a + 16), r_eip = load32 mem (a + 20), r_eflags = load32 mem (a + 24), r_cs = load32 mem (a + 28), r_ds = load32 mem (a + 32)\<rparr>"

text \<open>The kernel stack, 32 bytes below its top, does not reach into the structure with the registers.\<close>

definition apart :: "U32 \<Rightarrow> PTR \<Rightarrow> bool" where
  "apart sp p \<longleftrightarrow> 32 \<le> unat (p - (sp - 32)) \<and> unat (p - (sp - 32)) \<le> 0xFFFFFF00"

lemma apart_load:
  assumes "apart sp p" "unat c \<le> 32" "4 \<le> unat k" "unat k \<le> 20"
  shows "load32 (store32 (sp - k) v mem) (p + c) = load32 mem (p + c)"
proof -
  have D: "32 \<le> unat (p - (sp - 32))" "unat (p - (sp - 32)) \<le> 0xFFFFFF00"
    using assms(1) by (simp_all add: apart_def)
  have e: "p + c - (sp - k) = (p - (sp - 32) - 32) + (c + k)"
    by simp
  have "unat (p - (sp - 32) - 32) = unat (p - (sp - 32)) - 32"
    using D(1) by (subst unat_sub) (simp_all add: word_le_nat_alt)
  moreover have "unat (c + k) = unat c + unat k"
    using assms(2-4) by (subst unat_plus_if') simp
  ultimately have "unat (p + c - (sp - k)) = unat (p - (sp - 32)) - 32 + (unat c + unat k)"
    unfolding e using D assms(2-4) by (subst unat_plus_if') simp
  then show ?thesis
    using D assms(2-4) by (intro load32_store32_other) linarith+
qed

lemma selector_level: "(ucast (x :: U32) :: U16) AND 3 = 0 \<longleftrightarrow> x AND 3 = 0"
proof -
  have "(ucast (x :: U32) :: U16) AND 3 = ucast (x AND 3)"
    by (rule bit_word_eqI) (auto simp: bit_simps)
  moreover have "x AND 3 \<le> 3"
    by (rule word_and_le1)
  then have "unat (ucast (x AND 3) :: U16) = unat (x AND 3)"
    by (simp add: unsigned_ucast_eq take_bit_nat_eq_self_iff word_le_nat_alt)
  then have "(ucast (x AND 3) :: U16) = 0 \<longleftrightarrow> x AND 3 = 0"
    by (metis unat_0 unat_eq_zero)
  ultimately show ?thesis
    by simp
qed

lemma jump_to_process_loaded:
  fixes m :: machine
  defines "sp \<equiv> m_regs m ESP" and "mem \<equiv> m_mem m"
  defines "regs \<equiv> registers_at mem (load32 mem (sp + 12))" and "kproc \<equiv> load32 mem (sp + 4) AND PROCESS_FLAGS_KERNEL_PROCESS \<noteq> 0"
  assumes "apart sp (load32 mem (sp + 12))" "m_segs m CS AND 3 = 0" "kproc \<or> r_cs regs AND 3 \<noteq> 0"
  shows "\<exists>m'. run E jump_to_process_code m = Some m' \<and> m_cr3 m' = load32 mem (sp + 8)
    \<and> m_regs m' EBX = r_ebx regs \<and> m_regs m' ESI = r_esi regs \<and> m_regs m' EDI = r_edi regs \<and> m_regs m' EBP = r_ebp regs
    \<and> m_regs m' ESP = r_esp regs \<and> m_eip m' = r_eip regs \<and> m_eflags m' = r_eflags regs
    \<and> (\<forall>s \<in> {DS, ES, FS, GS}. m_segs m' s = ucast (r_ds regs))
    \<and> (if kproc then m_segs m' CS = m_segs m CS \<and> m_segs m' SS = m_segs m SS
       else m_segs m' CS = ucast (r_cs regs) \<and> m_segs m' SS = ucast (r_ds regs))"
proof (cases kproc)
  case True
  have z: "load32 mem (sp + 4) AND PROCESS_FLAGS_KERNEL_PROCESS \<noteq> 0"
    using True by (simp add: kproc_def)
  show ?thesis
    using z True apart_load [OF assms(5), of "12" 4] apart_load [OF assms(5), of "20" 4]
    by (simp add: jump_to_process_code_def machine_simps sp_def mem_def regs_def registers_at_def)
next
  case False
  have z: "load32 mem (sp + 4) AND PROCESS_FLAGS_KERNEL_PROCESS = 0"
    using False by (simp add: kproc_def)
  show ?thesis
    using z False assms(6,7) 
    by (simp add: jump_to_process_code_def machine_simps sp_def mem_def regs_def registers_at_def iret_def selector_level 
      apart_load [OF assms(5) [unfolded sp_def mem_def]])
qed

section \<open>Yielding and resuming\<close>

text \<open>
  C9. A process that yields is resumed where it was, at the level of the processor. Let \<open>m\<close> be the machine when the process enters the dispatcher of the system
  calls, and \<open>n\<close> the machine when the kernel later leaves for the process through \<open>jump_to_process\<close>, with the registers that \<open>ksys_yieldProcess\<close> saves for it and
  with the flag of a kernel process exactly when the caller was in the kernel. Then the process continues in the given page directory with its base and
  stack pointer, instruction pointer, flags, code and stack segment and the registers that are not scratch, as if its system call had
  returned at once; its data segments are set to its stack segment.
\<close>

theorem context_switch_roundtrip:
  fixes m n :: machine
  defines "frame \<equiv> make_frame (pushed_frame m) (m_regs m ESP - 4) (ucast (m_segs m SS))" and "sp \<equiv> m_regs n ESP"
  assumes "registers_at (m_mem n) (load32 (m_mem n) (sp + 12)) = caller_registers frame (register_args m)"
    and "apart sp (load32 (m_mem n) (sp + 12))" "m_segs n CS = m_segs m CS" "m_segs n SS = m_segs m SS" "m_segs m CS AND 3 = 0"
    and "load32 (m_mem n) (sp + 4) AND PROCESS_FLAGS_KERNEL_PROCESS \<noteq> 0 \<longleftrightarrow> f_cs frame AND 3 = 0"
    and "f_cs frame AND 3 = 0 \<longrightarrow> ucast (f_cs frame) = m_segs m CS"
  shows "\<exists>n'. run E jump_to_process_code n = Some n' \<and> m_cr3 n' = load32 (m_mem n) (sp + 8)
    \<and> (\<forall>r \<in> {EBX, ESI, EDI, EBP, ESP}. m_regs n' r = m_regs (iret m) r)
    \<and> m_eip n' = m_eip (iret m) \<and> m_eflags n' = m_eflags (iret m)
    \<and> m_segs n' CS = m_segs (iret m) CS \<and> m_segs n' SS = m_segs (iret m) SS
    \<and> (\<forall>s \<in> {DS, ES, FS, GS}. m_segs n' s = m_segs (iret m) SS)"
proof -
  let ?regs = "caller_registers frame (register_args m)"
  have "load32 (m_mem n) (sp + 4) AND PROCESS_FLAGS_KERNEL_PROCESS \<noteq> 0 \<or> r_cs ?regs AND 3 \<noteq> 0"
    using assms(8) by (auto simp: caller_registers_def)
  with jump_to_process_loaded [of n, folded sp_def, unfolded assms(3), of E] assms(4-9)
  show ?thesis
    by (auto simp: iret_def Let_def set_flags_def selector_level frame_def make_frame_def pushed_frame_def caller_registers_def register_args_def stack_addresses)
qed

definition sample_switch :: machine where
  "sample_switch = (sample_machine 0x23 0)\<lparr>m_regs := (\<lambda>_. 0)(ESP := 0x2000),
     m_mem := fold (\<lambda>(a, v). store32 a v) [(0x2004, 0), (0x2008, 0x7000), (0x200C, 0x3000), (0x3000, 7), (0x3004, 2), (0x3008, 2),
       (0x300C, 0x8000), (0x3010, 0x500), (0x3014, 0x40), (0x3018, 0x202), (0x301C, 0x23), (0x3020, 0x2B)] (\<lambda>_. 0)\<rparr>"

theorem context_switch_roundtrip_witness:
  "\<exists>n'. run sample_callees jump_to_process_code sample_switch = Some n' \<and> m_cr3 n' = 0x7000 \<and> m_regs n' EBX = 7 \<and> m_eip n' = 0x40
    \<and> m_regs n' ESP = 0x8000 \<and> m_segs n' CS = 0x23"
proof -
  let ?m = "sample_machine 0x23 0" and ?n = sample_switch
  let ?f = "make_frame (pushed_frame ?m) (m_regs ?m ESP - 4) (ucast (m_segs ?m SS))"
  note l = sample_machine_def sample_switch_def load32_store32_other
  have p: "m_regs ?n ESP = 0x2000" "load32 (m_mem ?n) 0x2004 = 0" "load32 (m_mem ?n) 0x2008 = 0x7000" "load32 (m_mem ?n) 0x200C = 0x3000"
      "m_segs ?n = m_segs ?m"
    by (simp_all add: l)
  have f: "?f = \<lparr>f_ebp = 0x500, f_eip = 0x40, f_cs = 0x23, f_eflags = 0x202, f_esp = 0x8000, f_ss = 0x2B\<rparr>"
    by (simp add: make_frame_def pushed_frame_def Let_def l)
  have r: "registers_at (m_mem ?n) 0x3000 = caller_registers ?f (register_args ?m)"
    unfolding f by (simp add: registers_at_def caller_registers_def register_args_def l)
  have i: "m_regs (iret ?m) EBX = 7" "m_regs (iret ?m) ESP = 0x8000" "m_segs (iret ?m) CS = 0x23"
    by (simp_all add: iret_def set_flags_def Let_def l)
  have a: "apart 0x2000 0x3000" "m_segs ?m CS AND 3 = 0"
    by (simp_all add: apart_def sample_machine_def)
  show ?thesis
    using context_switch_roundtrip [of ?n ?m sample_callees] r a by (auto simp: p f i sample_machine_iret)
qed

end
