(* ===== verification/Direction_Flag.thy ===== *)
theory Direction_Flag
  imports Entry_Code
begin

text \<open>
  The dispatcher of the system calls copies the frame with a string move and takes the direction flag as the caller left it: what its handler
  gets from a caller that has set the flag.
\<close>

lemma frame_copied_down:
  fixes b :: U32
  shows "3 \<le> unat (k - 48) \<Longrightarrow> unat (k - 48) < 24 \<Longrightarrow>
      load32 (rep_movsb 24 True (b - 4) (b - 48) mem) (b - k) = load32 mem (b - k + 44)"
    and "4 \<le> unat (48 - k) \<Longrightarrow> unat (48 - k) \<le> 100 \<Longrightarrow> load32 (rep_movsb 24 True (b - 4) (b - 48) mem) (b - k) = load32 mem (b - k)"
proof -
  have unat_uminus: "unat (- x) = (if x = 0 then 0 else 4294967296 - unat x)" for x :: U32
    using unat_sub_if' [of 0 x] by (simp add: unat_eq_zero)
  have "24 \<le> unat (b - 48 - (b - 4 - of_nat j))" if "j < 24" for j :: nat
  proof -
    have e: "b - 48 - (b - 4 - of_nat j) = of_nat j - 44"
      by simp
    have "(of_nat j - 44 :: U32) = of_nat (j + 4294967252)"
      by simp
    then show ?thesis
      unfolding e using that by (simp add: unat_of_nat_word32 del: of_nat_add)
  qed
  note m = rep_movsb_down [where n = 24 and d = "b - 48" and s = "b - 4" and mem = mem, OF this, simplified]
  have e: "b - 48 - (b - k + of_nat i) = k - 48 - of_nat i" "b - 4 - (k - 48 - of_nat i) = b - k + 44 + of_nat i" for i
    by simp_all
  show "load32 (rep_movsb 24 True (b - 4) (b - 48) mem) (b - k) = load32 mem (b - k + 44)" if "3 \<le> unat (k - 48)" "unat (k - 48) < 24"
  proof -
    have "rep_movsb 24 True (b - 4) (b - 48) mem (b - k + of_nat i) = mem (b - k + 44 + of_nat i)" if "i < 4" for i
    proof -
      have "unat (k - 48 - of_nat i) = unat (k - 48) - i"
        using that \<open>3 \<le> unat (k - 48)\<close> by (subst unat_sub) (simp_all add: word_le_nat_alt unat_of_nat_word32)
      then show ?thesis
        using m [of "b - k + of_nat i"] \<open>unat (k - 48) < 24\<close> unfolding e by (simp add: less_imp_diff_less)
    qed
    from this [of 0] this [of 1] this [of 2] this [of 3] show ?thesis
      by (simp add: load32_def)
  qed
  show "load32 (rep_movsb 24 True (b - 4) (b - 48) mem) (b - k) = load32 mem (b - k)" if "4 \<le> unat (48 - k)" "unat (48 - k) \<le> 100"
  proof -
    have "rep_movsb 24 True (b - 4) (b - 48) mem (b - k + of_nat i) = mem (b - k + of_nat i)" if "i < 4" for i
    proof -
      have "unat (48 - k + of_nat i) = unat (48 - k) + i"
        using that \<open>unat (48 - k) \<le> 100\<close> by (simp add: unat_word_ariths unat_of_nat_word32)
      moreover have "k - 48 - of_nat i = - (48 - k + of_nat i)"
        by simp
      ultimately have "24 \<le> unat (k - 48 - of_nat i)"
        using that \<open>4 \<le> unat (48 - k)\<close> \<open>unat (48 - k) \<le> 100\<close> by (simp only: unat_uminus) (auto simp: word_unat_eq_iff)
      then show ?thesis
        using m [of "b - k + of_nat i"] unfolding e by simp
    qed
    from this [of 0] this [of 1] this [of 2] this [of 3] show ?thesis
      by (simp add: load32_def)
  qed
qed

lemmas down_defs = handler_state_def despatcher_path_def despatcher_frame_def despatcher_call_def field_defs machine_simps exec_movsb_def
  m_df_def frame_copied_down

text \<open>
  C27. A program that sets the direction flag before a system call makes the dispatcher copy the frame downwards. The instruction pointer, code segment and
  flags in the frame of the handler are then what the kernel stack held below the stack pointer before, and not those of the caller; the copy also overwrites
  the saved registers, so that the handler gets \<open>ebx\<close> as its fourth and the number of the system call as its fifth argument. The stub does not clear the flag.
\<close>

theorem despatcher_direction_flag:
  assumes "m_df m" "m_regs m EAX < s_getSysCallCount"
    and "callee E (Named ''s_getSysCallCount'') (count_state E m) = Some m2" "counts (count_state E m) m2"
  shows "\<exists>m4. run E (despatcher_code g_table) m =
      Option.bind (callee E (At (load32 (m_mem m4) (4 * m_regs m EAX + g_table))) (push (ret_address E) m4)) (run E despatcher_return)
    \<and> (let f = frame_at (m_mem m4) (m_regs m4 ESP); a = args_at (m_mem m4) (m_regs m4 ESP + 24); b = m_regs m ESP
       in f_eip f = load32 (m_mem m2) (b - 44) \<and> f_cs f = load32 (m_mem m2) (b - 40) \<and> f_eflags f = load32 (m_mem m2) (b - 36)
        \<and> a_ebx a = m_regs m EBX \<and> a_edx a = m_regs m EDX \<and> a_esi a = m_regs m EBX \<and> a_edi a = m_regs m EAX)"
proof -
  let ?m3 = "fold step [Cmp EBX EAX, Pop (R EBX), Pop (R EAX)] m2" and ?b = "m_regs m ESP"
  let ?user = "load32 (m_mem m2) (?b - 40) AND 3 \<noteq> 0"
  let ?m4 = "handler_state g_table ?user ?m3"
  note c = despatcher_checked [OF assms(4)]
  define m3 where "m3 = ?m3"
  have r: "m_regs m3 = (m_regs m)(EBP := ?b - 4, ESP := ?b - 4)" "m_mem m3 = m_mem m2" "bit (m_eflags m3) 10"
    using c(2,4,9) assms(1) by (simp_all add: m3_def m_df_def del: fold.simps fold_simps)
  have "m_zf (fold step (take 15 despatcher_frame) m3) \<longleftrightarrow> \<not> ?user"
    by (simp add: down_defs r)
  from despatcher_path_called [OF this] 
  have run: "run E (despatcher_code g_table) m = (let m4 = handler_state g_table ?user m3
     in Option.bind (callee E (At (load32 (m_mem m4) (m_regs m4 EAX))) (push (ret_address E) m4)) (run E despatcher_return))"
    using c(1) assms(2)
    by (simp add: despatcher_code_def despatcher_check_call assms(3) Let_def m3_def del: fold.simps fold_simps run.simps)
  have h: "m_regs (handler_state g_table u m3) ESP = ?b - 48" "m_regs (handler_state g_table u m3) EAX = 4 * m_regs m EAX + g_table" for u
    by (cases u; simp add: down_defs r)+
  have f: "f_eip (frame_at (m_mem (handler_state g_table u m3)) (?b - 48)) = load32 (m_mem m2) (?b - 44)"
      "f_cs (frame_at (m_mem (handler_state g_table u m3)) (?b - 48)) = load32 (m_mem m2) (?b - 40)"
      "f_eflags (frame_at (m_mem (handler_state g_table u m3)) (?b - 48)) = load32 (m_mem m2) (?b - 36)" for u
    by (cases u; simp add: down_defs r frame_at_def)+
  have "args_at (m_mem (handler_state g_table u m3)) (?b - 24) = \<lparr>a_ebx = m_regs m EBX, a_ecx = load32 (m_mem m2) (?b - 16), a_edx = m_regs m EDX,
      a_esi = m_regs m EBX, a_edi = m_regs m EAX\<rparr>" for u
    by (cases u; simp add: down_defs r args_at_def c(7,8))
  then show ?thesis
    using run h f by (intro exI [of _ "handler_state g_table ?user m3"]) (simp add: Let_def stack_addresses del: fold.simps fold_simps run.simps)
qed

theorem despatcher_direction_flag_witness:
  "m_df (sample_machine 0x23 0x602) \<and> (\<exists>m4 h. run sample_callees (despatcher_code 0x5000) (sample_machine 0x23 0x602) =
      Option.bind (callee sample_callees (At h) (push (ret_address sample_callees) m4)) (run sample_callees despatcher_return)
    \<and> f_eip (frame_at (m_mem m4) (m_regs m4 ESP)) = 0 \<and> f_eip (pushed_frame (sample_machine 0x23 0x602)) = 0x40
    \<and> a_edi (args_at (m_mem m4) (m_regs m4 ESP + 24)) = 2)"
proof -
  let ?m = "sample_machine 0x23 0x602"
  have m: "m_df ?m" "m_regs ?m EAX < s_getSysCallCount"
    by (simp_all add: sample_machine_def m_df_def s_getSysCallCount_def bit_iff_odd)
  have stale: "load32 (m_mem (count_state sample_callees ?m)) (m_regs ?m ESP - 44) = 0"
    by (simp add: count_state_def stub_state_def despatcher_check_def machine_simps sample_machine_def) (simp add: load32_def)
  show ?thesis
    using despatcher_direction_flag [where g_table = "0x5000", OF m sample_counts] m(1) stale
    by (auto simp: Let_def pushed_frame_def sample_machine_def load32_store32_other)
qed

end
