(* ===== verification/Windows.thy ===== *)
theory Windows
  imports Syscall_Facts
begin

text \<open>
  The windows on the screen. A window is an object on the kernel heap and its place in the list of the compositor; where it
  appears is decided when it is created. The theory follows the compositor from its start through any sequence of windows being created and destroyed, between which
  the rest of the kernel may do what does not touch the compositor, and shows that no two windows overlap.
\<close>

section \<open>Objects on the heap stay\<close>

text \<open>A call that frees nothing: the heap stays well formed, and what was allocated stays allocated.\<close>

definition keeps_blocks :: "'a kmalloc_state_scheme \<Rightarrow> 'a kmalloc_state_scheme \<Rightarrow> bool" where
  "keeps_blocks st st' \<longleftrightarrow> (kmalloc_inv st \<longrightarrow> kmalloc_inv st' \<and> (\<forall>x. heap_block st x \<longrightarrow> heap_block st' x))"

lemma keeps_blocks_same:
  assumes "kheap st' = kheap st" "phase st' = phase st"
  shows "keeps_blocks st st'" "kmalloc_inv st' = kmalloc_inv st" "heap_block st' = heap_block st"
  using assms by (simp_all add: keeps_blocks_def kmalloc_inv_def heap_block_def kmalloc_segments_def fun_eq_iff)

lemma keeps_blocks_refl [simp]: "keeps_blocks st st"
  by (simp add: keeps_blocks_def)

lemma keeps_blocks_trans [trans]: "keeps_blocks st st1 \<Longrightarrow> keeps_blocks st1 st2 \<Longrightarrow> keeps_blocks st st2"
  by (simp add: keeps_blocks_def)

lemma keeps_blocks_updates [simp]:
  "keeps_blocks st (st'\<lparr>errorNumber := e\<rparr>) = keeps_blocks st st'"
  "keeps_blocks st (st'\<lparr>kmem := m\<rparr>) = keeps_blocks st st'"
  "keeps_blocks st (st'\<lparr>s_next := n\<rparr>) = keeps_blocks st st'"
  by (simp_all add: keeps_blocks_def heap_block_def kmalloc_segments_def kmalloc_inv_def)

lemma keeps_blocks_vmm_updates [simp]:
  "keeps_blocks st (st'\<lparr>vmms := v\<rparr>) = keeps_blocks st st'"
  "keeps_blocks st (st'\<lparr>vas_at := a\<rparr>) = keeps_blocks st st'"
  "keeps_blocks st (st'\<lparr>vas_list := l\<rparr>) = keeps_blocks st st'"
  by (simp_all add: keeps_blocks_def heap_block_def)

lemma keeps_blocks_paging: "paging_frame st st' \<Longrightarrow> keeps_blocks st st'"
  by (rule keeps_blocks_same) (simp_all add: paging_frame_def)

lemma keeps_blocks_kmalloc:
  assumes "kmalloc n st = Some (p, st')" "small_request n"
  shows "keeps_blocks st st'"
proof (cases "p = 0")
  case True
  then show ?thesis
    using kmalloc_frame [OF assms(1)] by simp
next
  case False
  then show ?thesis
    using heap_block_new [OF _ assms(2,1)] by (auto simp: keeps_blocks_def)
qed

lemma keeps_blocks_createNew:
  assumes "createNewVirtAddrSpace vmm va n flags st = Some (p, st')"
  shows "keeps_blocks st st'"
  using assms
  by (auto simp: createNewVirtAddrSpace_def kmallocz_def kscalloc_def ksalloc_def Let_def elim!: bind_SomeE split: if_splits
      dest!: keeps_blocks_kmalloc)

lemma keeps_blocks_addVas: "addVas_loop vmm new xs st = Some (p, st') \<Longrightarrow> keeps_blocks st st'"
  by (induction xs) (auto simp: Let_def elim!: bind_SomeE split: if_splits)

lemma keeps_blocks_addNew:
  assumes "addNewVirtualAddressSpace vmm va n flags st = Some (p, st')"
  shows "keeps_blocks st st'"
  using assms
  by (auto simp: addNewVirtualAddressSpace_def Let_def elim!: bind_SomeE split: if_splits
      dest!: keeps_blocks_createNew keeps_blocks_addVas intro: keeps_blocks_trans)

lemma keeps_blocks_reserve:
  assumes "kvmm_memmap vmm va pa n VMM_MEMMAP_FLAG_NONE st = Some (r, st')"
  shows "keeps_blocks st st'"
proof -
  have "BIT_ISUNSET VMM_MEMMAP_FLAG_NONE VMM_MEMMAP_FLAG_IMMCOMMIT"
    by (simp add: BIT_ISUNSET_def BIT_ISSET_def VMM_MEMMAP_FLAG_NONE_def VMM_MEMMAP_FLAG_IMMCOMMIT_def)
  then show ?thesis
    using assms by (auto simp: kvmm_memmap_def elim!: bind_SomeE split: if_splits dest!: keeps_blocks_addNew)
qed

section \<open>The invariant\<close>

text \<open>Where a window is on the screen: left, top, width and height.\<close>

definition window_rect :: "'a win_state_scheme \<Rightarrow> PTR \<Rightarrow> nat \<times> nat \<times> nat \<times> nat" where
  "window_rect st w = (let win = windows st w in
     (unat (screen_x win), unat (screen_y win), unat (width_px (windowArea win)), unat (height_px (windowArea win))))"

text \<open>The list links the windows \<open>ws\<close>, which are objects on the heap, and each has a cell of its own among those given out.\<close>

definition windows_ok :: "PTR list \<Rightarrow> 'a win_state_scheme \<Rightarrow> bool" where
  "windows_ok ws st \<longleftrightarrow> ring (windowsListHead st) ws \<and> kmalloc_inv st \<and> (\<forall>w \<in> set ws. heap_block st w)
     \<and> window_count st \<le> WINMAN_GRID_CELL_COUNT
     \<and> (\<exists>cell. inj_on cell (set ws) \<and> (\<forall>w \<in> set ws. cell w < window_count st \<and> window_rect st w = cell_rect (gx_backfb st) (cell w)))"

lemma windows_ok_cong:
  assumes "windows_ok ws st" "ring (windowsListHead st') ws'" "set ws' \<subseteq> set ws" "kmalloc_inv st'" "\<forall>w \<in> set ws'. heap_block st' w"
    and "window_count st \<le> window_count st'" "window_count st' \<le> WINMAN_GRID_CELL_COUNT" "gx_backfb st' = gx_backfb st"
    and "\<forall>w \<in> set ws'. windows st' w = windows st w"
  shows "windows_ok ws' st'"
proof -
  obtain cell where c: "inj_on cell (set ws)" "\<forall>w \<in> set ws. cell w < window_count st \<and> window_rect st w = cell_rect (gx_backfb st) (cell w)"
    using assms(1) by (auto simp: windows_ok_def)
  have "inj_on cell (set ws')"
    using c(1) assms(3) by (rule inj_on_subset)
  moreover have "cell w < window_count st' \<and> window_rect st' w = cell_rect (gx_backfb st') (cell w)" if "w \<in> set ws'" for w
    using that c(2) assms(3,6,8,9) by (auto simp: window_rect_def intro: less_le_trans)
  ultimately show ?thesis
    using assms(2,4,5,7) by (auto simp: windows_ok_def)
qed

lemma vmm_frame_win:
  fixes st st' :: "'a win_state_scheme"
  assumes "vmm_frame st st'"
  shows "windows st' = windows st" "windowsListHead st' = windowsListHead st" "window_count st' = window_count st" "gx_backfb st' = gx_backfb st"
  using assms by (cases st; cases st'; simp add: vmm_frame_def)+

lemma four_cells: "WINMAN_GRID_CELL_COUNT = 4"
  by (simp add: WINMAN_GRID_CELL_COUNT_def WINMAN_GRID_ROWS_MAX_def WINMAN_GRID_COLS_MAX_def)

lemma small_window: "small_request sizeof_Window"
  by (simp add: small_request_def sizeof_Window_def)

section \<open>Creating a window\<close>

text \<open>What \<open>allocWindow\<close> does when it returns: nothing to the windows there are, and a new one has the place and the size of a cell.\<close>

lemma allocWindow_facts:
  fixes st st' :: "'a win_state_scheme"
  assumes "allocWindow pid sx sy st = Some (w, st')" "kmalloc_inv st"
  shows "window_count st' = window_count st \<and> gx_backfb st' = gx_backfb st \<and> keeps_blocks st st' \<and>
    (w = 0 \<longrightarrow> windows st' = windows st \<and> windowsListHead st' = windowsListHead st) \<and>
    (w \<noteq> 0 \<longrightarrow> heap_block st' w \<and> \<not> heap_block st w \<and> windowsListHead st' = list_init (NodeOf w) (windowsListHead st)
      \<and> (\<forall>v. v \<noteq> w \<longrightarrow> windows st' v = windows st v)
      \<and> window_rect st' w = (unat sx, unat sy, unat (WINMAN_GRID_CELL_WIDTH_PX (gx_backfb st)), unat (WINMAN_GRID_CELL_HEIGHT_PX (gx_backfb st))))"
proof -
  let ?sz = "BYTES_TO_PAGEFRAMES_CEILING (getWindowAreaSizeBytes (gx_backfb st))"
  obtain buf pa st1 where m: "kvmm_memmap (kprocess_getCurrentContext st) 0 None ?sz VMM_MEMMAP_FLAG_NONE st = Some ((buf, pa), st1)"
    using assms(1) by (auto simp: allocWindow_def Let_def elim!: bind_SomeE)
  note F = vmm_frame_win [OF vmm_frame_memmap [OF m]] and K = keeps_blocks_reserve [OF m]
  show ?thesis
  proof (cases "buf = 0")
    case True
    then show ?thesis
      using assms(1) m F K by (auto simp: allocWindow_def RETURN_ERROR_def)
  next
    case False
    then obtain p st2 where k: "kmalloc sizeof_Window st1 = Some (p, st2)" "p \<noteq> 0"
      using assms(1) m by (auto simp: allocWindow_def Let_def destory_window_def elim!: bind_SomeE split: if_splits)
    have inv1: "kmalloc_inv st1"
      using K assms(2) by (simp add: keeps_blocks_def)
    note N = heap_block_new [OF inv1 small_window k]
    note F2 = vmm_frame_win [OF vmm_frame_heap(1) [OF k(1)]]
    obtain win where st': "w = p" "st' = st2\<lparr>windows := (windows st2)(p := win), windowsListHead := list_init (NodeOf p) (windowsListHead st2)\<rparr>"
        "screen_x win = sx" "screen_y win = sy" "width_px (windowArea win) = WINMAN_GRID_CELL_WIDTH_PX (gx_backfb st)"
        "height_px (windowArea win) = WINMAN_GRID_CELL_HEIGHT_PX (gx_backfb st)"
      using assms(1) m k False by (auto simp: allocWindow_def Let_def)
    have same: "kmalloc_inv st' = kmalloc_inv st2" "heap_block st' = heap_block st2"
      by (rule keeps_blocks_same; simp add: st'(2))+
    have "keeps_blocks st1 st'"
      using N by (simp add: keeps_blocks_def same)
    then have "keeps_blocks st st'"
      using K keeps_blocks_trans by blast
    moreover have "\<not> heap_block st p"
      using K N(3) [of p] assms(2) by (auto simp: keeps_blocks_def)
    moreover have "heap_block st' p"
      using N(2) by (simp add: same)
    moreover have "windows st' = (windows st2)(p := win)" "windowsListHead st' = list_init (NodeOf p) (windowsListHead st2)"
        "window_count st' = window_count st2" "gx_backfb st' = gx_backfb st2"
      by (simp_all add: st'(2))
    ultimately show ?thesis
      using k(2) F F2 st'(1,3-6) by (simp add: window_rect_def)
  qed
qed

lemma create_ok:
  fixes st st' :: "'a win_state_scheme"
  assumes ok: "windows_ok ws st" and c: "kcompose_createWindow gx title st = Some (w, st')"
  shows "windows_ok (if w = 0 then ws else w # ws) st'"
proof (cases "window_count st = WINMAN_GRID_CELL_COUNT")
  case True
  then have st': "w = 0" "st' = st\<lparr>errorNumber := ERR_OUT_OF_MEM\<rparr>"
    using c by (auto simp: kcompose_createWindow_def RETURN_ERROR_def split: if_splits)
  have "kmalloc_inv st' = kmalloc_inv st" "heap_block st' = heap_block st"
    by (rule keeps_blocks_same; simp add: st'(2))+
  then show ?thesis
    using ok by (auto simp: st' windows_ok_def window_rect_def)
next
  case False
  let ?n = "window_count st" and ?fb = "gx_backfb st"
  let ?st = "st\<lparr>window_count := ?n + 1\<rparr>"
  have same: "kmalloc_inv ?st = kmalloc_inv st" "heap_block ?st = heap_block st"
    by (rule keeps_blocks_same; simp)+
  have W: "ring (windowsListHead st) ws" "kmalloc_inv st" "\<forall>w \<in> set ws. heap_block st w" "?n < WINMAN_GRID_CELL_COUNT"
    using ok False by (auto simp: windows_ok_def)
  have n1: "?n < ?n + 1" "?n + 1 \<le> WINMAN_GRID_CELL_COUNT"
    using W(4) cell_index_cases [of ?n] unfolding four_cells by auto
  obtain st1 m where a: "allocWindow (kprocess_getCurrentPID ?st) (WINMAN_GRID_CELL_X ?fb (WINMAN_GRID_CELL_COL ?n))
      (WINMAN_GRID_CELL_Y ?fb (WINMAN_GRID_CELL_ROW ?n)) ?st = Some (w, st1)"
    and st': "w = 0 \<Longrightarrow> st' = st1\<lparr>errorNumber := errorNumber st1\<rparr>"
      "w \<noteq> 0 \<Longrightarrow> st' = set_view m (st1\<lparr>windowsListHead := list_add_after HeadNode (NodeOf w) (windowsListHead st1)\<rparr>)"
    using c False by (auto simp: kcompose_createWindow_def RETURN_ERROR_def Let_def elim!: bind_SomeE split: if_splits)
  note A = allocWindow_facts [OF a, unfolded same, OF W(2)]
  have I: "kmalloc_inv st1" "\<forall>v. heap_block st v \<longrightarrow> heap_block st1 v"
    using A W(2) same by (auto simp: keeps_blocks_def)
  show ?thesis
  proof (cases "w = 0")
    case True
    have "windows_ok ws st1"
      by (rule windows_ok_cong [OF ok]) (use W A I n1 True in auto)
    then show ?thesis
      using st'(1) True by simp
  next
    case w: False
    have B: "heap_block st1 w" "w \<notin> set ws" "windowsListHead st1 = list_init (NodeOf w) (windowsListHead st)"
        "\<forall>v. v \<noteq> w \<longrightarrow> windows st1 v = windows st v" "window_rect st1 w = cell_rect ?fb ?n" "gx_backfb st1 = ?fb" "window_count st1 = ?n + 1"
      using A w W(3) by (auto simp: cell_rect_def)
    note m = st'(2) [OF w]
    have h: "kmalloc_inv st' = kmalloc_inv st1" "heap_block st' = heap_block st1"
      by (rule keeps_blocks_same; simp add: m set_view_def)+
    have f: "windowsListHead st' = list_add_after HeadNode (NodeOf w) (windowsListHead st1)" "window_count st' = window_count st1"
        "gx_backfb st' = gx_backfb st1" "window_rect st' = window_rect st1"
      by (simp_all add: m set_view_def window_rect_def fun_eq_iff)
    have ring: "ring (windowsListHead st') (w # ws)"
      unfolding f(1) B(3) by (rule il.repr_add_front [OF ring_frame [OF W(1) B(2)] B(2)])
    obtain cell where cell: "inj_on cell (set ws)" "\<forall>w \<in> set ws. cell w < ?n \<and> window_rect st w = cell_rect ?fb (cell w)"
      using ok by (auto simp: windows_ok_def)
    have new: "?n \<notin> cell ` set ws"
      using cell(2) by auto
    have im: "(cell(w := ?n)) ` set ws = cell ` set ws" "set ws - {w} = set ws"
      using B(2) by auto
    have "inj_on (cell(w := ?n)) (set ws)"
      using cell(1) new by (rule inj_on_fun_updI)
    then have "inj_on (cell(w := ?n)) (set (w # ws))"
      using new im by simp
    moreover have "(cell(w := ?n)) v < ?n + 1 \<and> window_rect st' v = cell_rect ?fb ((cell(w := ?n)) v)" if "v \<in> set (w # ws)" for v
    proof (cases "v = w")
      case True
      then show ?thesis
        using n1 B(5) by (simp add: f)
    next
      case False
      then have "v \<in> set ws" "window_rect st1 v = window_rect st v"
        using that B(4) by (auto simp: window_rect_def)
      moreover from this cell(2) have "cell v < ?n" "window_rect st v = cell_rect ?fb (cell v)"
        by blast+
      ultimately show ?thesis
        using False less_trans [OF \<open>cell v < ?n\<close> n1(1)] by (simp add: f)
    qed
    ultimately have "\<exists>cell. inj_on cell (set (w # ws))
        \<and> (\<forall>v \<in> set (w # ws). cell v < window_count st' \<and> window_rect st' v = cell_rect (gx_backfb st') (cell v))"
      unfolding f(2,3) B(6,7) by blast
    moreover have "\<forall>v \<in> set (w # ws). heap_block st' v"
      using I(2) W(3) B(1) by (auto simp: h)
    ultimately have "windows_ok (w # ws) st'"
      unfolding windows_ok_def using ring I(1) n1(2) B(7) h(1) f(2) by metis
    then show ?thesis
      using w by simp
  qed
qed

section \<open>Destroying a window\<close>

lemma frame_freePages: "freePages_loop n pd va vas st = Some st' \<Longrightarrow> paging_frame st st'"
proof (induction n arbitrary: va st)
  case (Suc n)
  then obtain r st1 st2 where s: "kpg_doesMappingExists pd va st = Some (r, st1)"
      "(case r of None \<Rightarrow> Some st1
         | Some pa \<Rightarrow> do {
             (success, st) \<leftarrow> kpg_unmap pd va st1;
             (if success then Some () else k_panicOnError st);
             if share (vas_at st vas) = 0 \<or> refcount (shares st (share (vas_at st vas))) = 1 then do {
               (success, st) \<leftarrow> kpmm_free pa 1 st;
               (if success then Some () else k_panicOnError st);
               Some st
             }
             else Some st
           }) = Some st2"
      "freePages_loop n pd (va + CONFIG_PAGE_FRAME_SIZE_BYTES) vas st2 = Some st'"
    by (auto simp: bind_eq_Some_conv [of _ _ st'])
  note paging_frame_exists [OF s(1)]
  also have "paging_frame st1 st2"
    using s(2) by (auto split: option.splits if_splits elim!: bind_SomeE dest!: frames_of intro: paging_frame_trans)
  also have "paging_frame st2 st'"
    by (rule Suc.IH [OF s(3)])
  finally show ?case .
qed simp

text \<open>\<open>kvmm_free\<close> up to the point where it gives the object of the address space back to the heap.\<close>

lemma kvmm_free_cases:
  assumes "kvmm_free vmm va st = Some (r, st')"
  obtains (failed) e where "st' = st\<lparr>errorNumber := e\<rparr>"
  | (freed) vas st1 b where "find_vas vmm va st = Some vas" "vas \<noteq> 0" "vmm_frame st st1" "kheap st1 = kheap st" "kmem st1 = kmem st"
      "handles st1 = handles st" "kfree vas st1 = Some (b, st')"
proof -
  obtain vas where v: "vmm \<noteq> 0" "va \<noteq> 0" "find_vas vmm va st = Some vas"
    using assms by (auto simp: kvmm_free_def elim!: bind_SomeE split: if_splits)
  show ?thesis
  proof (cases "vas = 0 \<or> vas_isStaticAllocated (vas_at st vas)")
    case True
    then show ?thesis
      using assms v failed by (auto simp: kvmm_free_def RETURN_ERROR_def split: if_splits)
  next
    case False
    define st0 where "st0 = (if share (vas_at st vas) \<noteq> 0
                 then st\<lparr>shares := (shares st)(share (vas_at st vas) := (shares st (share (vas_at st vas)))
                   \<lparr>refcount := refcount (shares st (share (vas_at st vas))) - 1\<rparr>)\<rparr>
                 else st)"
    have s0: "vmm_frame st st0" "kheap st0 = kheap st" "kmem st0 = kmem st" "handles st0 = handles st"
      by (simp_all add: st0_def)
    obtain pd sa n sb sc b where s: "kpg_temporaryMap (parentProcessPD (vmms st0 vmm)) st0 = Some (pd, sa)"
        "freePages_loop n pd va vas sa = Some sb" "kpg_temporaryUnmap sb = Some sc"
        "kfree vas (update_list vmm (list_remove (NodeOf vas)) sc) = Some (b, st')"
      using assms v False unfolding kvmm_free_def st0_def [symmetric] Let_def by (auto elim!: bind_SomeE simp: st0_def)
    have p: "paging_frame st0 sc"
      using frames_of(1) s frame_freePages [OF s(2)] by (blast intro: paging_frame_trans dest: frames_of)
    have "vmm_frame st (update_list vmm (list_remove (NodeOf vas)) sc)"
      using vmm_frame_trans [OF s0(1) paging_vmm_frame [OF p]] by simp
    then show ?thesis
      using freed [OF v(3) _ _ _ _ _ s(4)] False p s0 by (simp add: paging_frame_def)
  qed
qed

lemma coalesce_allocated: "(x, n, True) \<in> set (coalesce xs) \<Longrightarrow> (x, n, True) \<in> set xs"
  by (induction xs rule: coalesce.induct) (auto split: if_splits)

text \<open>Giving back a block frees this block and no other; an address that is no block changes nothing.\<close>

lemma kfree_keeps:
  assumes "kfree p st = Some (b, st')" "kmalloc_inv st"
  shows "kmalloc_inv st'" "heap_block st x \<Longrightarrow> x \<noteq> p \<Longrightarrow> heap_block st' x" "\<not> heap_block st' p"
proof -
  have "kmalloc_inv st' \<and> (heap_block st x \<longrightarrow> x \<noteq> p \<longrightarrow> heap_block st' x) \<and> \<not> heap_block st' p"
  proof (cases "\<exists>n. (p - 32, n, True) \<in> set (kmalloc_segments st)")
    case True
    then obtain st1 where s: "kfree p st = Some (True, st1)" "kmalloc_inv st1"
        "kmalloc_segments st1 = coalesce (mark_free (p - 32) (kmalloc_segments st))"
      using km.free_law [OF assms(2)] by blast
    have "heap_block st1 x" if x: "heap_block st x" "x \<noteq> p"
    proof -
      obtain m where m: "x \<noteq> 0" "(x - 32, m, True) \<in> set (kmalloc_segments st)"
        using x(1) by (auto simp: heap_block_def)
      then have "(x - 32, m, True) \<in> set (mark_free (p - 32) (kmalloc_segments st))"
        using x(2) by (force simp: mark_free_def)
      then show ?thesis
        using m(1) coalesce_keeps by (force simp: heap_block_def s(3))
    qed
    moreover have "\<not> heap_block st1 p"
      by (auto simp: heap_block_def s(3) mark_free_def dest!: coalesce_allocated)
    ultimately show ?thesis
      using s assms(1) by simp
  next
    case False
    then have "heap_free p (kheap st) = Some (False, kheap st)"
      using heap_free_spec [of "kheap st" ARCH_MEM_LEN_BYTES_KMALLOC p] assms(2)
      by (auto simp: kmalloc_inv_def kmalloc_segments_def split: if_splits)
    then have "st' = st\<lparr>errorNumber := ERR_DOUBLE_FREE\<rparr>"
      using assms by (auto simp: kfree_def kmalloc_inv_def RETURN_ERROR_def)
    then show ?thesis
      using assms(2) False by (auto simp: heap_block_def)
  qed
  then show "kmalloc_inv st'" "heap_block st x \<Longrightarrow> x \<noteq> p \<Longrightarrow> heap_block st' x" "\<not> heap_block st' p"
    by blast+
qed

lemma destroy_ok:
  fixes st st' :: "'a win_state_scheme"
  assumes ok: "windows_ok ws st" and w: "w \<in> set ws" and d: "kcompose_destroyWindow w st = Some (b, st')"
    and vas: "ring (vas_list st (kprocess_getCurrentContext st)) xs" "set xs \<inter> set ws = {}"
  shows "windows_ok (remove1 w ws) st'"
proof -
  let ?st = "st\<lparr>windowsListHead := list_remove (NodeOf w) (windowsListHead st)\<rparr>"
  have same: "kmalloc_inv ?st = kmalloc_inv st" "heap_block ?st = heap_block st"
    by (rule keeps_blocks_same; simp)+
  have W: "ring (windowsListHead st) ws" "kmalloc_inv st" "\<forall>w \<in> set ws. heap_block st w" "window_count st \<le> WINMAN_GRID_CELL_COUNT"
    using ok by (auto simp: windows_ok_def)
  obtain r st1 b' where f: "kvmm_free (kprocess_getCurrentContext st) (buffer (windowArea (windows st w))) ?st = Some (r, st1)"
      "kfree w st1 = Some (b', st')"
    using d by (auto simp: kcompose_destroyWindow_def destory_window_def kprocess_getCurrentContext_def Let_def elim!: bind_SomeE split: if_splits)
  have 1: "vmm_frame ?st st1 \<and> kmalloc_inv st1 \<and> (\<forall>v \<in> set ws. heap_block st1 v)"
    using f(1)
  proof (cases rule: kvmm_free_cases)
    case (failed e)
    then have "kmalloc_inv st1 = kmalloc_inv st" "heap_block st1 = heap_block st"
      by (intro keeps_blocks_same; simp)+
    then show ?thesis
      using W failed by simp
  next
    case (freed x st0 c)
    then have "x \<in> set xs"
      using list_find_ring [OF vas(1)] by (auto simp: find_vas_def find_Some_iff split: option.splits)
    then have "x \<notin> set ws"
      using vas(2) by auto
    moreover have "phase st0 = phase ?st"
      using freed(3) by (simp add: vmm_frame_def)
    then have "kmalloc_inv st0" "heap_block st0 = heap_block st"
      using keeps_blocks_same [OF freed(4)] same W(2) by simp_all
    ultimately show ?thesis
      using kfree_keeps [OF freed(7)] W(3) vmm_frame_trans [OF freed(3) vmm_frame_heap(3) [OF freed(7)]] by fastforce
  qed
  have 2: "kmalloc_inv st'" "\<forall>v \<in> set (remove1 w ws). heap_block st' v"
    using kfree_keeps [OF f(2)] 1 ring_distinct [OF W(1)] by (auto simp: set_remove1_eq)
  note F = vmm_frame_win [OF vmm_frame_trans [OF conjunct1 [OF 1] vmm_frame_heap(3) [OF f(2)]]]
  have "ring (windowsListHead st') (remove1 w ws)"
    using il.repr_delete_remove1 [OF W(1) w] F(2) by simp
  then show ?thesis
    using windows_ok_cong [OF ok _ _ 2] W(4) F set_remove1_subset [of w ws] by simp
qed

section \<open>Every state of the compositor\<close>

text \<open>
  The states that the compositor reaches with the windows \<open>ws\<close>, the newest first. Between its own operations the kernel may do anything that leaves the list, the
  windows, their number and the size of the screen alone and frees no window. When a window is destroyed, the objects of
  the address spaces of the running process are not windows.
\<close>

inductive compositor :: "nat \<Rightarrow> PTR list \<Rightarrow> 'a win_state_scheme \<Rightarrow> bool" for gx where
  start: "kmalloc_inv st \<Longrightarrow> kcompose_init st = Some st' \<Longrightarrow> compositor gx [] st'"
| create: "compositor gx ws st \<Longrightarrow> kcompose_createWindow gx title st = Some (w, st') \<Longrightarrow>
    compositor gx (if w = 0 then ws else w # ws) st'"
| destroy: "compositor gx ws st \<Longrightarrow> w \<in> set ws \<Longrightarrow> ring (vas_list st (kprocess_getCurrentContext st)) xs \<Longrightarrow>
    set xs \<inter> set ws = {} \<Longrightarrow> kcompose_destroyWindow w st = Some (b, st') \<Longrightarrow> compositor gx (remove1 w ws) st'"
| other: "compositor gx ws st \<Longrightarrow> windowsListHead st' = windowsListHead st \<Longrightarrow> window_count st' = window_count st \<Longrightarrow>
    \<forall>w \<in> set ws. windows st' w = windows st w \<Longrightarrow> gx_backfb st' = gx_backfb st \<Longrightarrow> kmalloc_inv st' \<Longrightarrow>
    \<forall>w \<in> set ws. heap_block st' w \<Longrightarrow> compositor gx ws st'"

lemma init_ok: "kmalloc_inv st \<Longrightarrow> kcompose_init st = Some st' \<Longrightarrow> windows_ok [] st'"
  by (auto simp: kcompose_init_def windows_ok_def kmalloc_inv_def elim!: bind_SomeE split: if_splits)

lemma compositor_ok: "compositor gx ws st \<Longrightarrow> windows_ok ws st"
proof (induction rule: compositor.induct)
  case (other ws st st')
  have "ring (windowsListHead st) ws" "window_count st \<le> WINMAN_GRID_CELL_COUNT"
    using other.IH by (auto simp: windows_ok_def)
  then show ?case
    using windows_ok_cong [OF other.IH, of st' ws] other.hyps by simp
qed (blast intro: init_ok create_ok destroy_ok)+

text \<open>
  C36. The windows of the compositor do not overlap. In every state that the compositor reaches from its start by creating and destroying windows, with whatever else the kernel
  does in between, the list that is drawn holds exactly the windows that were created and not destroyed, at most four; each of them lies on the screen as a whole, and any
  two of them are disjoint.
\<close>

theorem windows_do_not_overlap:
  assumes "compositor gx ws st"
  shows "list_for_each (windowsListHead st) = Some ws \<and> length ws \<le> 4 \<and>
    (\<forall>v \<in> set ws. (case window_rect st v of (x, y, w, h) \<Rightarrow> x + w \<le> unat (width_px (gx_backfb st)) \<and> y + h \<le> unat (height_px (gx_backfb st))) \<and>
      (\<forall>w \<in> set ws. w \<noteq> v \<longrightarrow> rects_disjoint (window_rect st v) (window_rect st w)))"
proof -
  have ok: "windows_ok ws st"
    by (rule compositor_ok [OF assms])
  obtain cell where c: "inj_on cell (set ws)" "\<And>w. w \<in> set ws \<Longrightarrow> cell w < 4 \<and> window_rect st w = cell_rect (gx_backfb st) (cell w)"
    using ok unfolding windows_ok_def four_cells by (metis less_le_trans)
  have ring: "ring (windowsListHead st) ws"
    using ok by (simp add: windows_ok_def)
  have "cell ` set ws \<subseteq> {0, 1, 2, 3}"
    using c(2) cell_index_cases by blast
  then have "card (cell ` set ws) \<le> card {0, 1, 2, 3 :: UINT}"
    by (rule card_mono [rotated]) simp
  then have "length ws \<le> 4"
    using c(1) ring_distinct [OF ring] by (simp add: card_image distinct_card)
  moreover have "list_for_each (windowsListHead st) = Some ws"
    by (rule il.repr_items [OF ring])
  moreover have "cell w \<noteq> cell v" if "v \<in> set ws" "w \<in> set ws" "w \<noteq> v" for v w
    using c(1) that by (auto simp: inj_on_def)
  ultimately show ?thesis
    using cells_disjoint [unfolded four_cells] c(2) by auto
qed

section \<open>Witness\<close>

text \<open>The second process creates a window on the empty screen.\<close>

definition sample_start :: win_state where
  "sample_start = sample_win\<lparr>windowsListHead := list_init HeadNode (windowsListHead sample_win), window_count := 0\<rparr>"

text \<open>\<open>kcompose_createWindow\<close> with an empty title, whose drawing leaves \<open>m\<close> and \<open>u\<close> in memory.\<close>

definition place_window :: "memory \<Rightarrow> (U32 \<Rightarrow> memory) \<Rightarrow> 'a win_state_scheme \<Rightarrow> (PTR \<times> 'a win_state_scheme) option" where
  "place_window m u st =
     (let n = window_count st; fb = gx_backfb st; st = st\<lparr>window_count := n + 1\<rparr>
      in do {
        (w, st) \<leftarrow> allocWindow (kprocess_getCurrentPID st) (WINMAN_GRID_CELL_X fb (WINMAN_GRID_CELL_COL n))
          (WINMAN_GRID_CELL_Y fb (WINMAN_GRID_CELL_ROW n)) st;
        Some (w, st\<lparr>windowsListHead := list_add_after HeadNode (NodeOf w) (windowsListHead st), kmem := m, umem := u\<rparr>)
      })"

lemma create_place:
  assumes ready: "phase st = KERNEL_READY" "window_count st \<noteq> WINMAN_GRID_CELL_COUNT"
    and place: "\<And>m u. case place_window m u st of None \<Rightarrow> False | Some (v, st') \<Rightarrow> v = w \<and> P st'" and w: "w \<noteq> 0"
  shows "\<exists>st'. kcompose_createWindow gx [0] st = Some (w, st') \<and> P st'"
proof -
  let ?st = "st\<lparr>window_count := window_count st + 1\<rparr>" and ?fb = "gx_backfb st"
  let ?alloc = "allocWindow (kprocess_getCurrentPID ?st) (WINMAN_GRID_CELL_X ?fb (WINMAN_GRID_CELL_COL (window_count st)))
    (WINMAN_GRID_CELL_Y ?fb (WINMAN_GRID_CELL_ROW (window_count st))) ?st"
  obtain v st1 where v: "?alloc = Some (v, st1)"
    using place by (cases ?alloc) (auto simp: place_window_def Let_def)
  have p: "v = w \<and> P (st1\<lparr>windowsListHead := list_add_after HeadNode (NodeOf v) (windowsListHead st1), kmem := m, umem := u\<rparr>)" for m u
    using place [of m u] v by (auto simp: place_window_def Let_def)
  then have a: "?alloc = Some (w, st1)"
      and p: "P (st1\<lparr>windowsListHead := list_add_after HeadNode (NodeOf w) (windowsListHead st1), kmem := m, umem := u\<rparr>)" for m u
    using v by auto
  let ?st1 = "st1\<lparr>windowsListHead := list_add_after HeadNode (NodeOf w) (windowsListHead st1)\<rparr>"
  obtain m where m: "drawWindowDecorations gx (gi_fontsData (gxi st1)) (windowArea (windows st1 w)) [0] (view ?st1) = Some m"
    by (simp add: drawWindowDecorations_def kgraphics_drawstring_def Let_def)
  have "kcompose_createWindow gx [0] st = Some (w, set_view m ?st1)"
    using ready a m w by (simp add: kcompose_createWindow_def Let_def)
  moreover have "P (set_view m ?st1)"
    unfolding set_view_def by (rule p)
  ultimately show ?thesis
    by blast
qed

lemma sample_place:
  "case place_window m u sample_start of None \<Rightarrow> False | Some (v, st) \<Rightarrow> v = 0xC020006C \<and> window_rect st v = (0, 0, 8, 6)"
  by code_simp

theorem windows_do_not_overlap_witness:
  "\<exists>w (st :: win_state). compositor 1 [w] st \<and> window_rect st w = (0, 0, 8, 6) \<and> list_for_each (windowsListHead st) = Some [w]
    \<and> 8 \<le> unat (width_px (gx_backfb st)) \<and> 6 \<le> unat (height_px (gx_backfb st))"
proof -
  have f: "phase sample_win = KERNEL_READY" "kmalloc_inv sample_win"
    using sample_win_ok(1) by (simp_all add: sample_win_fields sample_timer_fields events_ok_def)
  then have "compositor 1 [] sample_start"
    by (intro compositor.start [of sample_win]) (simp_all add: kcompose_init_def sample_start_def)
  moreover have "\<exists>st. kcompose_createWindow 1 [0] sample_start = Some (0xC020006C, st) \<and> window_rect st 0xC020006C = (0, 0, 8, 6)"
  proof (rule create_place)
    show "phase sample_start = KERNEL_READY" "window_count sample_start \<noteq> WINMAN_GRID_CELL_COUNT"
      by (simp_all add: sample_start_def f four_cells)
    show "case place_window m u sample_start of None \<Rightarrow> False | Some (v, st') \<Rightarrow> v = 0xC020006C \<and> window_rect st' 0xC020006C = (0, 0, 8, 6)" for m u
      using sample_place [of m u] by (auto split: option.splits)
  qed simp
  then obtain st where c: "kcompose_createWindow 1 [0] sample_start = Some (0xC020006C, st)" "window_rect st 0xC020006C = (0, 0, 8, 6)"
    by blast
  ultimately have st: "compositor 1 [0xC020006C] st"
    using compositor.create [of 1 "[]" sample_start "[0]" "0xC020006C" st] by simp
  from windows_do_not_overlap [OF st] st c(2) show ?thesis
    by (intro exI [of _ "0xC020006C"] exI [of _ st]) simp
qed

end
