(* ===== verification/Window_Handles.thy ===== *)
theory Window_Handles
  imports App_Facts Windows
begin

text \<open>
  What a program learns about its windows from the library: the calls that take the handle of a window, through the dispatcher, down to the table of handles
  and back to the value that the library makes of \<open>eax\<close>.
\<close>

section \<open>The table of handles\<close>





section \<open>The calls\<close>




end
