(* ===== verification/App_Delay.thy ===== *)
theory App_Delay
  imports App_Facts
begin

text \<open>
  Waiting in an application: \<open>cm_delay\<close> of \<open>src/cm/cm.c\<close> handles events until the tick counter has reached its goal. It ends as long as
  timer interrupts arrive and the other processes give the processor back.
\<close>

section \<open>What yielding leaves alone\<close>

definition same_events :: "'a process_state_scheme \<Rightarrow> 'a process_state_scheme \<Rightarrow> bool" where
  "same_events st st' \<longleftrightarrow> phase st' = phase st \<and> kheap st' = kheap st \<and> kevents st' = kevents st \<and> eventsQueue st' = eventsQueue st
     \<and> (\<forall>p. processID (pinfos st' p) = processID (pinfos st p)) \<and> graphics_enabled st' = graphics_enabled st"

lemma same_events_refl [simp]: "same_events st st"
  by (simp add: same_events_def)

lemma same_events_trans: "same_events st st1 \<Longrightarrow> same_events st1 st2 \<Longrightarrow> same_events st st2"
  by (simp add: same_events_def)

lemma yield_loop_frame:
  fixes st :: "'a gx_state_scheme"
  assumes "yield_loop st = Some y"
  shows "same_events st (snd y) \<and> tick_count (snd y) = tick_count st"
proof (rule yield_loop.raw_induct [where P = "\<lambda>st y. same_events st (snd y) \<and> tick_count (snd y) = tick_count st", OF _ assms])
  fix f and st :: "'a gx_state_scheme" and y
  assume IH: "\<And>st y. f st = Some y \<Longrightarrow> same_events st (snd y) \<and> tick_count (snd y) = tick_count st"
    and eq: "do { (pinfo, st) \<leftarrow> s_dequeue st;
      if pinfo = 0 then None
      else do { (ok, st) \<leftarrow> s_enqueue pinfo st;
        if \<not> ok then RETURN_ERROR (errorNumber st) None st
        else if processCount st > 1 \<and> currentProcess st \<noteq> 0 \<and> processID (pinfos st pinfo) = processID (pinfos st (currentProcess st))
        then f st else Some (Some pinfo, st) } } = Some y"
  obtain p s1 where d: "s_dequeue st = Some (p, s1)" "p \<noteq> 0"
      and rest: "do { (ok, st) \<leftarrow> s_enqueue p s1;
        if \<not> ok then RETURN_ERROR (errorNumber st) None st
        else if processCount st > 1 \<and> currentProcess st \<noteq> 0 \<and> processID (pinfos st p) = processID (pinfos st (currentProcess st))
        then f st else Some (Some p, st) } = Some y"
    using eq by (auto elim!: bind_SomeE split: if_splits)
  obtain ok s2 where e: "s_enqueue p s1 = Some (ok, s2)"
      "(if \<not> ok then RETURN_ERROR (errorNumber s2) None s2
        else if processCount s2 > 1 \<and> currentProcess s2 \<noteq> 0 \<and> processID (pinfos s2 p) = processID (pinfos s2 (currentProcess s2))
        then f s2 else Some (Some p, s2)) = Some y"
    using rest by (auto elim!: bind_SomeE)
  have "same_events st s1 \<and> tick_count s1 = tick_count st"
    using d by (auto simp: s_dequeue_def RETURN_ERROR_def same_events_def Let_def split: prod.splits node.splits)
  moreover have "same_events s1 s2 \<and> tick_count s2 = tick_count s1"
    using e(1) by (auto simp: s_enqueue_def RETURN_ERROR_def same_events_def split: if_splits)
  moreover have "same_events s2 (snd y) \<and> tick_count (snd y) = tick_count s2"
    using e(2) IH [of s2 y] by (auto simp: RETURN_ERROR_def same_events_def split: if_splits)
  ultimately show "same_events st (snd y) \<and> tick_count (snd y) = tick_count st"
    using same_events_trans by metis
qed

lemma yield_frame:
  fixes st :: "'a gx_state_scheme"
  assumes "kprocess_yield regs st = Some (r, st')"
  shows "same_events st st' \<and> tick_count st' = tick_count st"
  using assms
  by (fastforce simp: kprocess_yield_def s_switchProcess_def kpmm_getPageStatus_def RETURN_ERROR_def same_events_def Let_def
      elim!: bind_SomeE dest!: yield_loop_frame split: option.splits if_splits bool.splits)

lemma events_ok_same:
  assumes "events_ok st" "same_events st st'" "ring (schedulerQueue st') (sched_queue st')" "set (sched_queue st') = set (sched_queue st)"
  shows "events_ok st'"
proof -
  have o: "event_objects st' p = event_objects st p" for p
    using assms(2) by (simp add: event_objects_def same_events_def)
  have b: "heap_block st' e = heap_block st e" "kmalloc_inv st' = kmalloc_inv st" for e
    using assms(2) by (simp_all add: heap_block_def kmalloc_segments_def kmalloc_inv_def same_events_def)
  show ?thesis
    using assms unfolding events_ok_def o b by (simp add: same_events_def)
qed

section \<open>A running application\<close>

text \<open>The kernel is well formed, has no graphics, and runs one of its processes.\<close>

definition app_ok :: "'a win_state_scheme \<Rightarrow> bool" where
  "app_ok st \<longleftrightarrow> events_ok st \<and> sched_ok st \<and> \<not> graphics_enabled st \<and> currentProcess st \<noteq> 0
     \<and> (\<forall>p \<in> set (sched_queue st). processID (pinfos st p) \<noteq> PROCESS_ID_KERNEL)"

lemma app_ok_current: "app_ok st \<Longrightarrow> currentProcess st \<in> set (sched_queue st)"
  by (auto simp: app_ok_def sched_ok_def)

lemma app_ok_view [simp]: "app_ok (set_view m st) = app_ok st"
proof -
  have "sched_frame st (set_view m st)"
    by simp
  from sched_frameD [OF this] show ?thesis
    by (simp add: app_ok_def) (simp add: set_view_def)
qed

lemma app_ok_frame:
  assumes "app_ok st" "events_ok st'" "sched_frame st st'" "graphics_enabled st' = graphics_enabled st"
  shows "app_ok st'"
  using assms sched_frameD [OF assms(3)] by (simp add: app_ok_def)

lemma popEvent_rest:
  fixes st :: "'a gx_state_scheme"
  assumes "kprocess_popEvent pid st = Some (r, st')"
  shows "graphics_enabled st' = graphics_enabled st \<and> tick_count st' = tick_count st"
  using assms
  by (auto simp: kprocess_popEvent_def s_getProcessInfoFromID_def kfree_def RETURN_ERROR_def Let_def
      elim!: bind_SomeE split: option.splits if_splits prod.splits node.splits)

lemma pop_call_rest:
  assumes "syscall_asm_despatcher gx 6 pushed ebp ss a st = Some (r, st')"
  shows "graphics_enabled st' = graphics_enabled st \<and> tick_count st' = tick_count st"
  using assms
  by (auto simp: syscall_asm_despatcher_def s_getSysCallCount_def g_syscall_table_def ksys_processPopEvent_def nth_append RETURN_ERROR_def set_view_def
      elim!: bind_SomeE split: if_splits dest!: popEvent_rest)

lemma timer_graphics:
  assumes "\<not> graphics_enabled st" "timer_interrupt_handler gx st = Some st'"
  shows "\<not> graphics_enabled st'"
proof -
  obtain s1 where s1: "keventmanager_invoke gx (st\<lparr>tick_count := tick_count st + 1\<rparr>) = Some s1"
      "(let (_, st) = pic_read_IRR_ISR False True False s1 in pic_send_eoi PIC_IRQ_TIMER st) = Some st'"
    using assms(2) by (auto simp: timer_interrupt_handler_def elim!: bind_SomeE)
  have "\<not> graphics_enabled s1"
    using s1(1) assms(1)
    by (auto simp: keventmanager_invoke_def Let_def elim!: bind_SomeE split: if_splits dest!: pushEvent_frame(1))
  then show ?thesis
    using s1(2) by (auto simp: pic_read_log Let_def pic_eoi_log pic_irqs)
qed

lemma timer_app_ok:
  assumes "app_ok st" "unat (tick_count st) + 1 < 2 ^ 32"
  shows "\<exists>st'. timer_interrupt_handler gx st = Some st' \<and> app_ok st' \<and> unat (tick_count st') = unat (tick_count st) + 1"
proof -
  have a: "events_ok st" "\<not> graphics_enabled st" "processID (pinfos st (currentProcess st)) \<noteq> PROCESS_ID_KERNEL"
    using assms(1) app_ok_current [OF assms(1)] by (simp_all add: app_ok_def)
  obtain st' where t: "timer_interrupt_handler gx st = Some st'" "tick_count st' = tick_count st + 1" "events_ok st'"
    using timer_step [OF a(1,2) app_ok_current [OF assms(1)] a(3)] by blast
  have "app_ok st'"
    using app_ok_frame [OF assms(1) t(3) sched_frame_timer [OF a(2) t(1)]] timer_graphics [OF a(2) t(1)] a(2) by simp
  moreover have "unat (tick_count st') = unat (tick_count st) + 1"
    using assms(2) by (simp add: t(2) unat_word_ariths)
  ultimately show ?thesis
    using t(1) by blast
qed

section \<open>System calls between interrupts\<close>

lemma syscall_interrupted:
  "env_interrupts env st = Some st1 \<Longrightarrow> syscall env fn a b c d e st = syscall (env\<lparr>env_interrupts := Some\<rparr>) fn a b c d e st1"
  by (simp add: syscall_def int_0x50_def cong del: sysresult.case_cong_weak)

lemma pop_app_ok:
  assumes ok: "app_ok st" and q: "quiet env"
  shows "\<exists>st'. cm_process_pop_event env (env_local env) st = Some (True, st') \<and> app_ok st' \<and> tick_count st' = tick_count st"
proof -
  let ?a = "\<lparr>a_ebx = env_local env, a_ecx = 0, a_edx = 0, a_esi = 0, a_edi = 0\<rparr>"
  have e: "events_ok st" "unat (a_ebx ?a) + 12 \<le> 0xC0000000"
    using ok q by (simp_all add: app_ok_def quiet_def)
  obtain st' where st': "syscall_asm_despatcher (env_gx env) 6 (env_frame env) (env_ebp env) (env_ss env) ?a st = Some (SysBool True, st')" "events_ok st'"
    using pop_event_call [OF e(1) app_ok_current [OF ok] e(2), of "env_gx env" "env_frame env" "env_ebp env" "env_ss env"] by blast
  show ?thesis
    using st'(1) q app_ok_frame [OF ok st'(2) sched_frame_pop_call [OF st'(1)]] pop_call_rest [OF st'(1)]
    by (simp add: cm_process_pop_event_def syscall_def int_0x50_def quiet_def)
qed

lemma yield_app_ok:
  assumes ok: "app_ok st" and q: "quiet env"
  shows "\<exists>st'. app_ok st' \<and> tick_count st' = tick_count st
    \<and> (cm_process_yield env st = Some st' \<or> (\<exists>flags regs. cm_process_yield env st = env_resume env flags regs st'))"
proof -
  let ?v = "caller_registers (make_frame (env_frame env) (env_ebp env) (env_ss env)) \<lparr>a_ebx = 0, a_ecx = 0, a_edx = 0, a_esi = 0, a_edi = 0\<rparr>"
  have o: "sched_ok st" "currentProcess st \<noteq> 0" "sched_queue st \<noteq> []"
    using ok by (auto simp: app_ok_def sched_ok_def)
  obtain r st1 where y: "kprocess_yield (Some ?v) st = Some (r, st1)" "sched_ok st1" "currentProcess st1 \<noteq> 0"
      and nx: "(currentProcess st1, sched_queue st1) = rr_next (currentProcess st) (sched_queue st)"
    using yield_step [OF o(1,2), of ?v] by metis
  note F = yield_frame [OF y(1)]
  have set: "set (sched_queue st1) = set (sched_queue st)"
    using rr_next_perm [OF o(3)] nx by (metis)
  have "events_ok st1"
    using events_ok_same [OF _ _ _ set] ok F y(2) by (simp add: app_ok_def sched_ok_def)
  then have "app_ok st1"
    using ok y(2,3) F set by (simp add: app_ok_def same_events_def)
  moreover have "cm_process_yield env st = Some st1 \<or> (\<exists>flags regs. cm_process_yield env st = env_resume env flags regs st1)"
  proof (cases r)
    case (SwitchReturn b)
    then show ?thesis
      using q y(1) by (simp add: cm_process_yield_def syscall_def int_0x50_def quiet_def syscall_asm_despatcher_def s_getSysCallCount_def
          g_syscall_table_def ksys_yieldProcess_def)
  next
    case (SwitchJump flags regs)
    then have "cm_process_yield env st = env_resume env flags regs st1"
      using q y(1) by (cases "env_resume env flags regs st1") (simp_all add: cm_process_yield_def syscall_def int_0x50_def quiet_def
          syscall_asm_despatcher_def s_getSysCallCount_def g_syscall_table_def ksys_yieldProcess_def)
    then show ?thesis
      by blast
  qed
  ultimately show ?thesis
    using F by blast
qed

section \<open>Time that passes\<close>

definition passed :: "nat \<Rightarrow> 'a win_state_scheme \<Rightarrow> 'a win_state_scheme \<Rightarrow> bool" where
  "passed most st st' \<longleftrightarrow> app_ok st' \<and> unat (tick_count st) \<le> unat (tick_count st') \<and> unat (tick_count st') \<le> unat (tick_count st) + most"

lemma passed_trans: "passed a st st1 \<Longrightarrow> passed b st1 st2 \<Longrightarrow> passed (a + b) st st2"
  by (simp add: passed_def)

text \<open>
  What the application relies on: before each of its system calls there is at least one timer interrupt, and at most \<open>most\<close>; when another process runs, the
  application is resumed after at most \<open>most\<close> ticks. This as long as the counter does not overflow.
\<close>

locale app_environment =
  fixes env :: "('a win_state_scheme) app_env" and most :: nat
  assumes local_area: "unat (env_local env) + 12 \<le> 0xC0000000"
    and interrupted: "app_ok st \<Longrightarrow> unat (tick_count st) + most < 2 ^ 32 \<Longrightarrow>
      \<exists>st'. env_interrupts env st = Some st' \<and> passed most st st' \<and> tick_count st \<noteq> tick_count st'"
    and resumed: "app_ok st \<Longrightarrow> unat (tick_count st) + most < 2 ^ 32 \<Longrightarrow> \<exists>st'. env_resume env flags regs st = Some st' \<and> passed most st st'"
begin

abbreviation calm :: "('a win_state_scheme) app_env" where
  "calm \<equiv> env\<lparr>env_interrupts := Some\<rparr>"

lemma calm_quiet: "quiet calm"
  using local_area by (simp add: quiet_def)

lemma get_tickcount:
  assumes "app_ok st" "unat (tick_count st) + most < 2 ^ 32"
  shows "\<exists>st'. cm_get_tickcount env st = Some (tick_count st', st') \<and> passed most st st'"
proof -
  obtain st1 where st1: "env_interrupts env st = Some st1" "passed most st st1"
    using interrupted [OF assms] by blast
  have "cm_get_tickcount env st = Some (tick_count st1, st1)"
    by (simp add: cm_get_tickcount_def syscall_interrupted [OF st1(1)])
      (simp add: syscall_def int_0x50_def syscall_asm_despatcher_def s_getSysCallCount_def g_syscall_table_def nth_append ksys_get_tickcount_def)
  then show ?thesis
    using st1(2) by blast
qed

lemma pop_event:
  assumes "app_ok st" "unat (tick_count st) + most < 2 ^ 32"
  shows "\<exists>st'. cm_process_pop_event env (env_local env) st = Some (True, st') \<and> passed most st st' \<and> tick_count st \<noteq> tick_count st'"
proof -
  obtain st1 where st1: "env_interrupts env st = Some st1" "passed most st st1" "tick_count st \<noteq> tick_count st1"
    using interrupted [OF assms] by blast
  then obtain st2 where "cm_process_pop_event calm (env_local calm) st1 = Some (True, st2)" "app_ok st2" "tick_count st2 = tick_count st1"
    using pop_app_ok [OF _ calm_quiet, of st1] by (auto simp: passed_def)
  then show ?thesis
    using st1 by (simp add: cm_process_pop_event_def syscall_interrupted [OF st1(1)] passed_def)
qed

lemma yield:
  assumes "app_ok st" "unat (tick_count st) + 2 * most < 2 ^ 32"
  shows "\<exists>st'. cm_process_yield env st = Some st' \<and> passed (2 * most) st st'"
proof -
  obtain st1 where st1: "env_interrupts env st = Some st1" "passed most st st1"
    using interrupted [OF assms(1)] assms(2) by auto
  obtain st2 where st2: "app_ok st2" "tick_count st2 = tick_count st1"
      "cm_process_yield calm st1 = Some st2 \<or> (\<exists>flags regs. cm_process_yield calm st1 = env_resume calm flags regs st2)"
    using yield_app_ok [OF _ calm_quiet, of st1] st1(2) by (auto simp: passed_def)
  have y: "cm_process_yield env st = cm_process_yield calm st1"
    by (simp add: cm_process_yield_def syscall_interrupted [OF st1(1)])
  have "unat (tick_count st2) + most < 2 ^ 32"
    using st1(2) st2(2) assms(2) by (simp add: passed_def)
  then have "\<exists>st'. env_resume env flags regs st2 = Some st' \<and> passed most st2 st'" for flags regs
    using resumed st2(1) by blast
  moreover have "passed (2 * most) st st'" if "passed most st2 st'" for st'
    using that st1(2) st2(2) by (simp add: passed_def)
  moreover have "passed (2 * most) st st2"
    using st1(2) st2 by (simp add: passed_def)
  ultimately show ?thesis
    using st2(3) unfolding y by fastforce
qed

lemma handle_events:
  assumes ok: "app_ok st" "unat (tick_count st) + 3 * most < 2 ^ 32" and no: "app_event_handlers lib ! 1 = 0" "app_event_handlers lib ! 2 = 0"
  shows "\<exists>st'. cm_process_handle_events env lib st = Some ((True, lib), st') \<and> passed (3 * most) st st' \<and> tick_count st \<noteq> tick_count st'"
proof -
  let ?e = "env_local env"
  let ?s = "set_view (store_event ?e \<lparr>ev_event = 0, ev_data = 0\<rparr> (view st)) st"
  have s: "app_ok ?s" "tick_count ?s = tick_count st"
    using ok by (simp, simp add: set_view_def)
  obtain st1 where p: "cm_process_pop_event env ?e ?s = Some (True, st1)" "passed most ?s st1" "tick_count ?s \<noteq> tick_count st1"
    using pop_event [OF s(1)] s(2) ok(2) by auto
  have p1: "passed most st st1" "tick_count st \<noteq> tick_count st1"
    using p s(2) by (simp_all add: passed_def)
  show ?thesis
  proof (cases "load32 (view st1) ?e = OSIF_PROCESS_EVENT_PROCCESS_YIELD_REQ")
    case True
    obtain st2 where y: "cm_process_yield env st1 = Some st2" "passed (2 * most) st1 st2"
      using yield [of st1] p1(1) ok(2) by (auto simp: passed_def)
    have "unat (tick_count st) < unat (tick_count st1)"
      using p1 by (simp add: passed_def word_unat_eq_iff)
    then have "passed (3 * most) st st2" "tick_count st \<noteq> tick_count st2"
      using passed_trans [OF p1(1) y(2)] y(2) by (auto simp: passed_def)
    then show ?thesis
      using True p(1) y(1) no(1)
      by (simp add: cm_process_handle_events_def Let_def call_handler_def OSIF_PROCESS_EVENT_PROCCESS_YIELD_REQ_def)
  next
    case False
    moreover have "passed (3 * most) st st1"
      using p1(1) by (simp add: passed_def)
    ultimately show ?thesis
      using p(1) p1(2) no(2)
      by (simp add: cm_process_handle_events_def Let_def call_handler_def OSIF_PROCESS_EVENT_PROCCESS_YIELD_REQ_def
          OSIF_PROCESS_EVENT_PROCCESS_CHILD_KILLED_def)
  qed
qed

lemma delay_loop_returns:
  assumes no: "app_event_handlers lib ! 1 = 0" "app_event_handlers lib ! 2 = 0" and big: "unat end_tick + 4 * most < 2 ^ 32"
  shows "app_ok st \<Longrightarrow> unat (tick_count st) \<le> unat end_tick + 3 * most \<Longrightarrow>
    \<exists>st'. cm_delay_loop env end_tick lib st = Some (lib, st') \<and> app_ok st' \<and> unat end_tick \<le> unat (tick_count st')
      \<and> unat (tick_count st') \<le> unat end_tick + 4 * most"
proof (induction "unat end_tick + 3 * most - unat (tick_count st)" arbitrary: st rule: less_induct)
  case less
  obtain st1 where t: "cm_get_tickcount env st = Some (tick_count st1, st1)" "passed most st st1"
    using get_tickcount [OF less.prems(1)] less.prems(2) big by auto
  show ?case
  proof (cases "tick_count st1 < end_tick")
    case False
    then have "cm_delay_loop env end_tick lib st = Some (lib, st1)"
      by (subst cm_delay_loop.simps) (simp add: t(1))
    then show ?thesis
      using t(2) less.prems(2) False by (simp add: passed_def word_less_nat_alt)
  next
    case True
    then have lt: "unat (tick_count st1) < unat end_tick"
      by (simp add: word_less_nat_alt)
    obtain st2 where h: "cm_process_handle_events env lib st1 = Some ((True, lib), st2)" "passed (3 * most) st1 st2" "tick_count st1 \<noteq> tick_count st2"
      using handle_events [OF _ _ no, of st1] t(2) lt big by (auto simp: passed_def)
    have b: "unat (tick_count st) < unat (tick_count st2)" "unat (tick_count st2) \<le> unat end_tick + 3 * most" "app_ok st2"
      using t(2) h(2,3) lt by (auto simp: passed_def word_unat_eq_iff)
    have "cm_delay_loop env end_tick lib st = cm_delay_loop env end_tick lib st2"
      by (subst cm_delay_loop.simps) (simp add: t(1) True h(1))
    moreover have "unat end_tick + 3 * most - unat (tick_count st2) < unat end_tick + 3 * most - unat (tick_count st)"
      using b(1,2) by linarith
    ultimately show ?thesis
      using less.hyps [OF _ b(3,2)] by simp
  qed
qed

lemma delay_returns:
  assumes "app_ok st" "app_event_handlers lib ! 1 = 0" "app_event_handlers lib ! 2 = 0"
    and small: "unat ms * 1000 < 2 ^ 32" "unat (tick_count st) + unat ms + 5 * most < 2 ^ 32"
  shows "\<exists>st'. cm_delay env ms lib st = Some (lib, st') \<and> app_ok st' \<and> unat (tick_count st) + unat ms \<le> unat (tick_count st')
    \<and> unat (tick_count st') \<le> unat (tick_count st) + unat ms + 5 * most"
proof -
  obtain st1 where t: "cm_get_tickcount env st = Some (tick_count st1, st1)" "passed most st st1"
    using get_tickcount [OF assms(1)] small(2) by auto
  have ms: "cm_MICRODEC_TO_TICK_COUNT (ms * 1000) = ms"
  proof -
    have "unat (ms * 1000) = unat ms * 1000"
      using small(1) by (simp add: unat_word_ariths)
    then show ?thesis
      by (simp add: cm_MICRODEC_TO_TICK_COUNT_def cm_get_tick_period_us_def CONFIG_TICK_PERIOD_MICROSEC_def word_unat_eq_iff unat_div_distrib)
  qed
  have e: "unat (tick_count st1 + ms) = unat (tick_count st1) + unat ms"
    using t(2) small(2) by (simp add: passed_def unat_word_ariths)
  obtain st2 where "cm_delay_loop env (tick_count st1 + ms) lib st1 = Some (lib, st2)" "app_ok st2" "unat (tick_count st1 + ms) \<le> unat (tick_count st2)"
      "unat (tick_count st2) \<le> unat (tick_count st1 + ms) + 4 * most"
    using delay_loop_returns [OF assms(2,3), of "tick_count st1 + ms" st1] t(2) small(2) by (auto simp: e passed_def)
  then show ?thesis
    using t by (simp add: cm_delay_def Let_def ms e passed_def)
qed

end

section \<open>The timer\<close>

text \<open>An environment in which the timer interrupts the process once before each of its system calls.\<close>

definition timed :: "('a win_state_scheme) app_env \<Rightarrow> ('a win_state_scheme) app_env" where
  "timed env = env\<lparr>env_interrupts := timer_interrupt_handler (env_gx env)\<rparr>"

locale resumable =
  fixes env :: "('a win_state_scheme) app_env" and most :: nat
  assumes one_tick: "1 \<le> most" and area: "unat (env_local env) + 12 \<le> 0xC0000000"
    and resume: "app_ok st \<Longrightarrow> unat (tick_count st) + most < 2 ^ 32 \<Longrightarrow> \<exists>st'. env_resume env flags regs st = Some st' \<and> passed most st st'"

sublocale resumable \<subseteq> timer: app_environment "timed env" most
proof unfold_locales
  show "unat (env_local (timed env)) + 12 \<le> 0xC0000000"
    using area by (simp add: timed_def)
  show "\<exists>st'. env_interrupts (timed env) st = Some st' \<and> passed most st st' \<and> tick_count st \<noteq> tick_count st'"
    if ok: "app_ok st" "unat (tick_count st) + most < 2 ^ 32" for st
  proof -
    obtain st' where "timer_interrupt_handler (env_gx env) st = Some st'" "app_ok st'" "unat (tick_count st') = unat (tick_count st) + 1"
      using timer_app_ok [OF ok(1), of "env_gx env"] ok(2) one_tick by auto
    then show ?thesis
      using one_tick by (auto simp: timed_def passed_def)
  qed
  show "\<exists>st'. env_resume (timed env) flags regs st = Some st' \<and> passed most st st'"
    if "app_ok st" "unat (tick_count st) + most < 2 ^ 32" for st flags regs
    using resume [OF that] by (simp add: timed_def)
qed

context resumable
begin

lemmas timed_delay = timer.delay_returns

end

text \<open>
  C12. \<open>cm_delay\<close> returns, and in time. In a build without graphics, let the timer interrupt the process before each of its system calls, and let the other processes resume
  it after at most \<open>most\<close> ticks each time it gives up the processor. Then a delay of \<open>ms\<close> milliseconds ends, at least \<open>ms\<close> ticks of one millisecond later and at most
  \<open>5 * most\<close> ticks after that, with the kernel well formed; in between the process gives up the processor whenever its period is over. The product with 1000 and the tick counter must
  not overflow, and the process has no handlers for events.
\<close>

theorem cm_delay_returns:
  assumes "1 \<le> most" "unat (env_local env) + 12 \<le> 0xC0000000"
    and "\<And>st flags regs. app_ok st \<Longrightarrow> unat (tick_count st) + most < 2 ^ 32 \<Longrightarrow> \<exists>st'. env_resume env flags regs st = Some st' \<and> passed most st st'"
    and "app_ok st" "app_event_handlers lib ! 1 = 0" "app_event_handlers lib ! 2 = 0"
    and "unat ms * 1000 < 2 ^ 32" "unat (tick_count st) + unat ms + 5 * most < 2 ^ 32"
  shows "\<exists>st'. cm_delay (timed env) ms lib st = Some (lib, st') \<and> app_ok st' \<and> unat (tick_count st) + unat ms \<le> unat (tick_count st')
    \<and> unat (tick_count st') \<le> unat (tick_count st) + unat ms + 5 * most"
  by (rule resumable.timed_delay [OF resumable.intro [OF assms(1-3)] assms(4-8)])

section \<open>Witness\<close>

interpretation sample_resumed: resumable sample_env 1
  by unfold_locales (auto simp: sample_env_def passed_def)

lemma sample_win_app_ok: "app_ok sample_win"
proof -
  have "processID (pinfos sample_win p) \<noteq> PROCESS_ID_KERNEL" if "p \<in> {1, 2, 3}" for p
    using that by (auto simp: sample_win_ok sample_win_fields sample_timer_fields sample_process_def PROCESS_ID_KERNEL_def)
  then show ?thesis
    by (auto simp: app_ok_def sample_win_ok sample_win_sched_ok sample_win_fields sample_timer_fields)
qed

theorem cm_delay_returns_witness:
  "\<exists>st'. cm_delay (timed sample_env) 5 sample_lib sample_win = Some (sample_lib, st') \<and> unat (tick_count sample_win) + 5 \<le> unat (tick_count st')
    \<and> unat (tick_count st') \<le> unat (tick_count sample_win) + 10"
proof -
  have "unat (tick_count sample_win) = 19"
    by (simp add: sample_win_def gx_state.defs sample_timer_fields)
  then show ?thesis
    using cm_delay_returns [of 1 sample_env sample_win sample_lib 5] sample_win_app_ok
    by (auto simp: sample_env_def sample_lib_def passed_def)
qed

end
