(* ===== verification/Demo_Apps.thy ===== *)
theory Demo_Apps
  imports App_Delay
begin

text \<open>
  The programs that come with the system: \<open>src/apps/init.c\<close>, \<open>src/apps/gui0.c\<close>, \<open>src/apps/mpdemo.c\<close> and \<open>src/apps/proc1.c\<close>, over the functions of the
  library. Where two of them have a function of the same name, the name of the file is in front.

  The image of a program gives the addresses of its string literals and functions. A loop without an end is modelled by the number of its
  iterations so far. The log messages of builds with the debug port are left out, as in the other theories.
\<close>

section \<open>The image of a program\<close>

record image =
  lit :: "string \<Rightarrow> PTR"
  func :: "string \<Rightarrow> PTR"

definition cm_INVALID_HANDLE :: U32 where "cm_INVALID_HANDLE = - 1"

text \<open>Handling events for a number of times.\<close>

fun handle_events_loop :: "nat \<Rightarrow> ('a win_state_scheme) app_env \<Rightarrow> cm_lib \<Rightarrow> 'a win_state_scheme \<Rightarrow> (cm_lib \<times> 'a win_state_scheme) option" where
  "handle_events_loop 0 env lib st = Some (lib, st)"
| "handle_events_loop (Suc n) env lib st = do {
     ((_, lib), st) \<leftarrow> cm_process_handle_events env lib st;
     handle_events_loop n env lib st
   }"

section \<open>The first program\<close>

text \<open>\<open>INIT_PROG\<close> is the file name the build sets.\<close>

definition init_child_killed :: "PTR \<Rightarrow> cm_lib \<Rightarrow> 'a win_state_scheme \<Rightarrow> (cm_lib \<times> 'a win_state_scheme) option" where
  "init_child_killed e lib st = Some (lib, st)"

definition init_proc_main ::
  "string \<Rightarrow> image \<Rightarrow> nat \<Rightarrow> ('a win_state_scheme) app_env \<Rightarrow> cm_lib \<Rightarrow> 'a win_state_scheme \<Rightarrow> (cm_lib \<times> 'a win_state_scheme) option" where
  "init_proc_main INIT_PROG im n env lib st = do {
     (_, lib) \<leftarrow> cm_process_register_event_handler OSIF_PROCESS_EVENT_PROCCESS_CHILD_KILLED (func im ''init_child_killed'') lib;
     ((_, lib), st) \<leftarrow> cm_process_create env (lit im INIT_PROG) False lib st;
     handle_events_loop n env lib st
   }"

section \<open>Windows with moving colours\<close>

text \<open>The local structure of \<open>createWindow\<close> is at \<open>env_local\<close>. \<open>HALT\<close> does not return.\<close>

definition load_area :: "memory \<Rightarrow> PTR \<Rightarrow> KGraphicsArea" where
  "load_area m p = \<lparr>width_px = load32 m p, height_px = load32 m (p + 4), bytesPerPixel = load32 m (p + 8), bytesPerRow = load32 m (p + 12),
     buffer = load32 m (p + 16), bufferSizeBytes = load32 m (p + 20)\<rparr>"

definition createWindow :: "('a win_state_scheme) app_env \<Rightarrow> PTR \<Rightarrow> 'a win_state_scheme \<Rightarrow> (KGraphicsArea \<times> 'a win_state_scheme) option" where
  "createWindow env title st = do {
     (h, st) \<leftarrow> cm_window_create env title st;
     if h = cm_INVALID_HANDLE then None
     else do {
       (ok, st) \<leftarrow> cm_window_getFB env h (env_local env) st;
       if \<not> ok then None else Some (load_area (view st) (env_local env), st)
     }
   }"

text \<open>The variables are of type \<open>int\<close>; they stay small enough not to overflow, see \<open>triangle_wave\<close>.\<close>

definition triangle_sum :: "int \<Rightarrow> int \<Rightarrow> int \<times> int \<Rightarrow> int \<times> int" where
  "triangle_sum start stop v =
     (let (now, incby) = v;
          l_now = now + incby;
          l_now = (if l_now \<ge> stop then stop else if l_now \<le> start then start else l_now);
          incby = (if l_now = stop \<or> l_now = start then incby * (- 1) else incby)
      in (l_now, incby))"

definition repaint_on_yield ::
  "('a win_state_scheme) app_env \<Rightarrow> PTR \<Rightarrow> cm_lib \<Rightarrow> 'a win_state_scheme \<Rightarrow> (cm_lib \<times> 'a win_state_scheme) option" where
  "repaint_on_yield env e lib st = do { st \<leftarrow> cm_window_flush_graphics env st; Some (lib, st) }"

definition gui0_proc_main ::
  "image \<Rightarrow> nat \<Rightarrow> ('a win_state_scheme) app_env \<Rightarrow> cm_lib \<Rightarrow> 'a win_state_scheme \<Rightarrow> (cm_lib \<times> 'a win_state_scheme) option" where
  "gui0_proc_main im n env lib st = do {
     st \<leftarrow> cm_window_flush_graphics env st;
     ((_, lib), st) \<leftarrow> cm_thread_create env (func im ''thread0'') False lib st;
     ((_, lib), st) \<leftarrow> cm_thread_create env (func im ''thread1'') False lib st;
     ((_, lib), st) \<leftarrow> cm_thread_create env (func im ''thread2'') False lib st;
     (_, lib) \<leftarrow> cm_process_register_event_handler OSIF_PROCESS_EVENT_PROCCESS_YIELD_REQ (func im ''repaint_on_yield'') lib;
     handle_events_loop n env lib st
   }"

text \<open>The two loops over the pixels of a window; \<open>gx\<close> is the size of a pixel in bytes.\<close>

definition paint_column :: "nat \<Rightarrow> KGraphicsArea \<Rightarrow> (UINT \<Rightarrow> UINT \<Rightarrow> Color) \<Rightarrow> nat \<Rightarrow> nat \<Rightarrow> memory \<Rightarrow> memory" where
  "paint_column gx g color x h m = fold (\<lambda>y. graphics_putpixel gx g (of_nat x) (of_nat y) (color (of_nat x) (of_nat y))) [0..<h] m"

definition paint :: "nat \<Rightarrow> KGraphicsArea \<Rightarrow> (UINT \<Rightarrow> UINT \<Rightarrow> Color) \<Rightarrow> memory \<Rightarrow> memory" where
  "paint gx g color m = fold (\<lambda>x. paint_column gx g color x (unat (height_px g))) [0..<unat (width_px g)] m"

text \<open>One picture, and what a thread of the program does in one iteration: the picture, then a delay.\<close>

definition picture ::
  "nat \<Rightarrow> int \<Rightarrow> int \<Rightarrow> (int \<Rightarrow> UINT \<Rightarrow> UINT \<Rightarrow> Color) \<Rightarrow> KGraphicsArea \<Rightarrow> int \<times> int \<Rightarrow> 'a win_state_scheme
   \<Rightarrow> (int \<times> int) \<times> 'a win_state_scheme" where
  "picture gx start stop color fbi v st =
     (let v = triangle_sum start stop v in (v, set_view (paint gx fbi (color (fst v)) (view st)) st))"

fun gui_loop ::
  "nat \<Rightarrow> nat \<Rightarrow> int \<Rightarrow> int \<Rightarrow> (int \<Rightarrow> UINT \<Rightarrow> UINT \<Rightarrow> Color) \<Rightarrow> UINT \<Rightarrow> KGraphicsArea \<Rightarrow> int \<times> int \<Rightarrow> ('a win_state_scheme) app_env
   \<Rightarrow> cm_lib \<Rightarrow> 'a win_state_scheme \<Rightarrow> (cm_lib \<times> 'a win_state_scheme) option" where
  "gui_loop 0 gx start stop color ms fbi v env lib st = Some (lib, st)"
| "gui_loop (Suc n) gx start stop color ms fbi v env lib st =
     (let (v, st) = picture gx start stop color fbi v st
      in do {
        (lib, st) \<leftarrow> cm_delay env ms lib st;
        gui_loop n gx start stop color ms fbi v env lib st
      })"

definition gui0_color0 :: "int \<Rightarrow> UINT \<Rightarrow> UINT \<Rightarrow> Color" where
  "gui0_color0 value x y = push_bit 0 (x * of_int value AND 255)"

definition gui0_color1 :: "int \<Rightarrow> UINT \<Rightarrow> UINT \<Rightarrow> Color" where
  "gui0_color1 value x y = push_bit 16 (y * of_int value AND 255)"

definition gui0_color2 :: "int \<Rightarrow> UINT \<Rightarrow> UINT \<Rightarrow> Color" where
  "gui0_color2 value x y = push_bit 8 ((x + y) * of_int value AND 255)"

definition gui0_thread0 ::
  "image \<Rightarrow> nat \<Rightarrow> ('a win_state_scheme) app_env \<Rightarrow> cm_lib \<Rightarrow> 'a win_state_scheme \<Rightarrow> (cm_lib \<times> 'a win_state_scheme) option" where
  "gui0_thread0 im n env lib st = do {
     (fbi, st) \<leftarrow> createWindow env (lit im ''gui0 - Window 1'') st;
     gui_loop n (env_gx env) 1 10 gui0_color0 50 fbi (1, 1) env lib st
   }"

definition gui0_thread1 ::
  "image \<Rightarrow> nat \<Rightarrow> ('a win_state_scheme) app_env \<Rightarrow> cm_lib \<Rightarrow> 'a win_state_scheme \<Rightarrow> (cm_lib \<times> 'a win_state_scheme) option" where
  "gui0_thread1 im n env lib st = do {
     (fbi, st) \<leftarrow> createWindow env (lit im ''gui0 - Window 2'') st;
     gui_loop n (env_gx env) 10 20 gui0_color1 50 fbi (10, 1) env lib st
   }"

definition gui0_thread2 ::
  "image \<Rightarrow> nat \<Rightarrow> ('a win_state_scheme) app_env \<Rightarrow> cm_lib \<Rightarrow> 'a win_state_scheme \<Rightarrow> (cm_lib \<times> 'a win_state_scheme) option" where
  "gui0_thread2 im n env lib st = do {
     (fbi, st) \<leftarrow> createWindow env (lit im ''gui0 - Window 3'') st;
     gui_loop n (env_gx env) 1 10 gui0_color2 80 fbi (1, 1) env lib st
   }"

section \<open>Progress bars\<close>

text \<open>The globals of the program: the counter of \<open>count_child_exits\<close> and the flag the main thread waits for.\<close>

record mpdemo_state = win_state +
  exit_count :: int
  all_child_exited :: bool

definition MAX_VGA_COLUMNS :: UINT where "MAX_VGA_COLUMNS = 80"

text \<open>The colours of the text display.\<close>

datatype DisplayVgaColors = BLACK | BLUE | GREEN | CYAN | RED | MAGENTA | BROWN | VGA_LIGHT_GRAY | DARK_GRAY | LIGHT_BLUE | LIGHT_GREEN
  | LIGHT_CYAN | LIGHT_RED | PINK | YELLOW | WHITE

fun color_code :: "DisplayVgaColors \<Rightarrow> U32" where
  "color_code BLACK = 0" | "color_code BLUE = 1" | "color_code GREEN = 2" | "color_code CYAN = 3" | "color_code RED = 4"
| "color_code MAGENTA = 5" | "color_code BROWN = 6" | "color_code VGA_LIGHT_GRAY = 7" | "color_code DARK_GRAY = 8"
| "color_code LIGHT_BLUE = 9" | "color_code LIGHT_GREEN = 10" | "color_code LIGHT_CYAN = 11" | "color_code LIGHT_RED = 12"
| "color_code PINK = 13" | "color_code YELLOW = 14" | "color_code WHITE = 15"

definition s_printString ::
  "('a win_state_scheme) app_env \<Rightarrow> U32 \<Rightarrow> U32 \<Rightarrow> U32 \<Rightarrow> U32 \<Rightarrow> PTR \<Rightarrow> 'a win_state_scheme \<Rightarrow> 'a win_state_scheme option" where
  "s_printString env row col bgcolor fgcolor text st = do {
     (_, st) \<leftarrow> syscall env 4 bgcolor fgcolor 0 0 0 st;
     (_, st) \<leftarrow> syscall env 5 row col 0 0 0 st;
     cm_putstr env text st
   }"

text \<open>The loop of \<open>s_progressbar\<close> over the columns that are left.\<close>

fun progress_loop ::
  "image \<Rightarrow> ('a win_state_scheme) app_env \<Rightarrow> UINT \<Rightarrow> UINT \<Rightarrow> U32 \<Rightarrow> nat list \<Rightarrow> cm_lib \<Rightarrow> 'a win_state_scheme \<Rightarrow> (cm_lib \<times> 'a win_state_scheme) option" where
  "progress_loop im env delay_ms row color [] lib st = Some (lib, st)"
| "progress_loop im env delay_ms row color (i # is) lib st = do {
     st \<leftarrow> s_printString env (row + 2) (of_nat i) color (color_code DARK_GRAY) (lit im '' '') st;
     (lib, st) \<leftarrow> cm_delay env delay_ms lib st;
     progress_loop im env delay_ms row color is lib st
   }"

definition s_progressbar ::
  "image \<Rightarrow> ('a win_state_scheme) app_env \<Rightarrow> UINT \<Rightarrow> PTR \<Rightarrow> UINT \<Rightarrow> U32 \<Rightarrow> cm_lib \<Rightarrow> 'a win_state_scheme \<Rightarrow> (cm_lib \<times> 'a win_state_scheme) option" where
  "s_progressbar im env delay_ms title row color lib st = do {
     st \<leftarrow> s_printString env row 0 (color_code BLACK) (color_code DARK_GRAY) title st;
     progress_loop im env delay_ms row color [0..<unat MAX_VGA_COLUMNS] lib st
   }"

definition count_child_exits :: "PTR \<Rightarrow> cm_lib \<Rightarrow> mpdemo_state \<Rightarrow> (cm_lib \<times> mpdemo_state) option" where
  "count_child_exits e lib st =
     (let st = st\<lparr>exit_count := exit_count st + 1\<rparr>
      in Some (lib, if exit_count st = 2 then st\<lparr>all_child_exited := True\<rparr> else st))"

partial_function (option) wait_for_all_child_exit :: "mpdemo_state app_env \<Rightarrow> cm_lib \<Rightarrow> mpdemo_state \<Rightarrow> (cm_lib \<times> mpdemo_state) option" where
  "wait_for_all_child_exit env lib st =
     (if \<not> all_child_exited st then do {
        ((_, lib), st) \<leftarrow> cm_process_handle_events env lib st;
        wait_for_all_child_exit env lib st
      }
      else Some (lib, st))"

declare wait_for_all_child_exit.simps [code]

definition mpdemo_proc_main ::
  "image \<Rightarrow> mpdemo_state app_env \<Rightarrow> cm_lib \<Rightarrow> mpdemo_state \<Rightarrow> ((UINT \<times> ProcessRegisterState) \<times> mpdemo_state) option" where
  "mpdemo_proc_main im env lib st = do {
     ((_, lib), st) \<leftarrow> cm_thread_create env (func im ''thread0'') False lib st;
     ((_, lib), st) \<leftarrow> cm_thread_create env (func im ''thread1'') False lib st;
     (_, lib) \<leftarrow> cm_process_register_event_handler OSIF_PROCESS_EVENT_PROCCESS_CHILD_KILLED (func im ''count_child_exits'') lib;
     (lib, st) \<leftarrow> s_progressbar im env 5 (lit im (''Process 0:'' @ [CHR 0x0A])) 26 (color_code RED) lib st;
     (lib, st) \<leftarrow> wait_for_all_child_exit env lib st;
     cm_process_kill env 1 st
   }"

definition mpdemo_thread0 ::
  "image \<Rightarrow> mpdemo_state app_env \<Rightarrow> cm_lib \<Rightarrow> mpdemo_state \<Rightarrow> ((UINT \<times> ProcessRegisterState) \<times> mpdemo_state) option" where
  "mpdemo_thread0 im env lib st = do {
     (lib, st) \<leftarrow> s_progressbar im env 10 (lit im (''Thread 0:'' @ [CHR 0x0A])) 30 (color_code GREEN) lib st;
     cm_process_kill env 2 st
   }"

definition mpdemo_thread1 ::
  "image \<Rightarrow> mpdemo_state app_env \<Rightarrow> cm_lib \<Rightarrow> mpdemo_state \<Rightarrow> ((UINT \<times> ProcessRegisterState) \<times> mpdemo_state) option" where
  "mpdemo_thread1 im env lib st = do {
     (lib, st) \<leftarrow> s_progressbar im env 2 (lit im (''Thread 1:'' @ [CHR 0x0A])) 34 (color_code YELLOW) lib st;
     cm_process_kill env 3 st
   }"

section \<open>Two threads that yield\<close>

text \<open>The code behind \<open>cm_process_kill\<close> is not reached.\<close>

definition say :: "image \<Rightarrow> ('a win_state_scheme) app_env \<Rightarrow> string \<Rightarrow> 'a win_state_scheme \<Rightarrow> 'a win_state_scheme option" where
  "say im env s st = cm_putstr env (lit im (CHR 0x0A # s)) st"

definition proc1_yield :: "image \<Rightarrow> ('a win_state_scheme) app_env \<Rightarrow> 'a win_state_scheme \<Rightarrow> 'a win_state_scheme option" where
  "proc1_yield im env st = do {
     st \<leftarrow> say im env ''  Process 0 - Yielding'' st;
     st \<leftarrow> cm_process_yield env st;
     say im env ''  Process 0 - Running'' st
   }"

definition proc1_proc_main ::
  "image \<Rightarrow> ('a win_state_scheme) app_env \<Rightarrow> cm_lib \<Rightarrow> 'a win_state_scheme \<Rightarrow> ((UINT \<times> ProcessRegisterState) \<times> 'a win_state_scheme) option" where
  "proc1_proc_main im env lib st = do {
     st \<leftarrow> say im env ''  Process 0 - Running'' st;
     st \<leftarrow> say im env ''  Process 0 - Creating Thread 1'' st;
     ((_, lib), st) \<leftarrow> cm_thread_create env (func im ''another_thread'') False lib st;
     st \<leftarrow> proc1_yield im env st;
     st \<leftarrow> proc1_yield im env st;
     st \<leftarrow> say im env ''  Process 0 - Exiting'' st;
     cm_process_kill env 1 st
   }"

definition another_thread ::
  "image \<Rightarrow> ('a win_state_scheme) app_env \<Rightarrow> 'a win_state_scheme \<Rightarrow> ((UINT \<times> ProcessRegisterState) \<times> 'a win_state_scheme) option" where
  "another_thread im env st = do {
     st \<leftarrow> say im env ''  Thread 1 - Running'' st;
     st \<leftarrow> say im env ''  Thread 1 - Yielding'' st;
     st \<leftarrow> cm_process_yield env st;
     st \<leftarrow> say im env ''  Thread 1 - Running'' st;
     st \<leftarrow> say im env ''  Thread 1 - Exiting'' st;
     cm_process_kill env 2 st
   }"

section \<open>What a window shows\<close>

text \<open>A wave that goes up to \<open>d\<close> and down again in steps of one.\<close>

definition wave :: "nat \<Rightarrow> nat \<Rightarrow> int" where
  "wave d n = (let k = n mod (2 * d) in if k \<le> d then int k else int (2 * d - k))"

lemma triangle_wave:
  assumes "0 < d"
  shows "(triangle_sum start (start + int d) ^^ n) (start, 1) = (start + wave d n, if n mod (2 * d) < d then 1 else - 1)"
proof (induction n)
  case (Suc n)
  define k where "k = n mod (2 * d)"
  have k: "k < 2 * d"
    using assms by (simp add: k_def)
  have "Suc n mod (2 * d) = (if Suc k = 2 * d then 0 else Suc k)"
    by (simp add: mod_Suc k_def)
  moreover have "triangle_sum start (start + int d) (start + (if k \<le> d then int k else int (2 * d - k)), if k < d then 1 else - 1) =
      (let k = (if Suc k = 2 * d then 0 else Suc k) in (start + (if k \<le> d then int k else int (2 * d - k)), if k < d then 1 else - 1))"
    using k assms by (simp add: triangle_sum_def Let_def of_nat_diff)
  ultimately show ?case
    using Suc by (simp add: wave_def Let_def k_def [symmetric])
qed (simp add: wave_def assms)

lemma putpixel_pixel:
  assumes "area_ok gx g" "x < unat (width_px g)" "y < unat (height_px g)" "i < unat (width_px g)" "j < unat (height_px g)" "\<not> in_buffer g a"
  shows "pixel gx g i j (graphics_putpixel gx g (of_nat x) (of_nat y) c m) = (if i = x \<and> j = y then map (color_byte c) [0..<gx] else pixel gx g i j m)
    \<and> graphics_putpixel gx g (of_nat x) (of_nat y) c m a = m a"
proof -
  have lt32: "unat w < 4294967296" for w :: UINT
    using unsigned_less [of w, where 'a = nat] by simp
  have u: "unat (of_nat x :: UINT) = x" "unat (of_nat y :: UINT) = y"
    using assms(2,3) lt32 [of "width_px g"] lt32 [of "height_px g"] by (intro unat_of_nat_word32, linarith)+
  have "kgraphics_rect gx g (of_nat x) (of_nat y) 1 1 c m = graphics_putpixel gx g (of_nat x) (of_nat y) c m"
    by (simp add: kgraphics_rect_def graphics_putpixel_def)
  with rect_paints [OF assms(1), of "of_nat x" 1 "of_nat y" 1 i j a c m] show ?thesis
    using assms(2-6) by (simp add: u)
qed

lemma paint_column_pixel:
  assumes "area_ok gx g" "x < unat (width_px g)" "h \<le> unat (height_px g)" "i < unat (width_px g)" "j < unat (height_px g)" "\<not> in_buffer g a"
  shows "pixel gx g i j (paint_column gx g c x h m) =
      (if i = x \<and> j < h then map (color_byte (c (of_nat i) (of_nat j))) [0..<gx] else pixel gx g i j m)
    \<and> paint_column gx g c x h m a = m a"
  using assms(3)
proof (induction h)
  case (Suc h)
  have "paint_column gx g c x (Suc h) m = graphics_putpixel gx g (of_nat x) (of_nat h) (c (of_nat x) (of_nat h)) (paint_column gx g c x h m)"
    by (simp add: paint_column_def)
  then show ?case
    using Suc putpixel_pixel [OF assms(1,2) _ assms(4-6), of h] by (auto simp: less_Suc_eq)
qed (simp add: paint_column_def)

lemma paint_pixel:
  assumes "area_ok gx g" "i < unat (width_px g)" "j < unat (height_px g)" "\<not> in_buffer g a"
  shows "pixel gx g i j (paint gx g c m) = map (color_byte (c (of_nat i) (of_nat j))) [0..<gx] \<and> paint gx g c m a = m a"
proof -
  let ?p = "\<lambda>w. fold (\<lambda>x. paint_column gx g c x (unat (height_px g))) [0..<w] m"
  have "pixel gx g i j (?p w) = (if i < w then map (color_byte (c (of_nat i) (of_nat j))) [0..<gx] else pixel gx g i j m) \<and> ?p w a = m a"
    if "w \<le> unat (width_px g)" for w
    using that
  proof (induction w)
    case (Suc w)
    then show ?case
      using paint_column_pixel [OF assms(1) _ order_refl assms(2-4), of w c "?p w"] assms(3) by (auto simp: less_Suc_eq)
  qed simp
  then show ?thesis
    using assms(2) by (simp add: paint_def)
qed

text \<open>
  What the windows of the demonstration show. The value that changes the colours follows a triangle wave: it starts at the lower bound, moves by one with each picture, turns
  at both bounds and never leaves them. The next picture after \<open>n\<close> pictures gives each pixel of the window the colour of its coordinates for the value of the wave, and changes no
  byte outside of the frame buffer of the window.
\<close>

theorem picture_correct:
  fixes st :: "'a win_state_scheme"
  assumes "0 < d" "area_ok gx fbi" "i < unat (width_px fbi)" "j < unat (height_px fbi)" "\<not> in_buffer fbi a"
  shows "\<exists>v st'. picture gx start (start + int d) color fbi ((triangle_sum start (start + int d) ^^ n) (start, 1)) st = (v, st')
    \<and> v = (triangle_sum start (start + int d) ^^ Suc n) (start, 1) \<and> fst v = start + wave d (Suc n) \<and> start \<le> fst v \<and> fst v \<le> start + int d
    \<and> pixel gx fbi i j (view st') = map (color_byte (color (start + wave d (Suc n)) (of_nat i) (of_nat j))) [0..<gx]
    \<and> view st' a = view st a"
proof -
  let ?t = "triangle_sum start (start + int d)"
  have v: "?t ((?t ^^ n) (start, 1)) = (start + wave d (Suc n), if Suc n mod (2 * d) < d then 1 else - 1)"
    using triangle_wave [OF assms(1), where start = start and n = "Suc n"] by simp
  have w: "0 \<le> wave d (Suc n)" "wave d (Suc n) \<le> int d"
    by (auto simp: wave_def Let_def)
  show ?thesis
    using paint_pixel [OF assms(2-5), of "color (start + wave d (Suc n))" "view st"] w
    by (simp add: picture_def Let_def v)
qed

theorem picture_correct_witness:
  "\<exists>v st'. picture 1 1 10 gui0_color0 sample_area (1, 1) sample_win = (v, st') \<and> v = (2, 1) \<and> pixel 1 sample_area 3 1 (view st') = [6]
    \<and> view st' 0 = view sample_win 0"
  using picture_correct [where d = 9 and gx = 1 and fbi = sample_area and i = 3 and j = 1 and a = 0 and start = 1 and color = gui0_color0
      and n = 0 and st = sample_win]
  by (simp add: area_ok_def sample_area_def in_buffer_def color_byte_def gui0_color0_def wave_def triangle_sum_def)

section \<open>Waiting for the threads\<close>

lemma popEvent_mpdemo:
  fixes st :: mpdemo_state
  assumes "kprocess_popEvent pid st = Some (r, st')"
  shows "exit_count st' = exit_count st \<and> all_child_exited st' = all_child_exited st"
  using assms
  by (auto simp: kprocess_popEvent_def s_getProcessInfoFromID_def kfree_def RETURN_ERROR_def Let_def
      elim!: bind_SomeE split: option.splits if_splits prod.splits node.splits)

lemma pop_call_mpdemo:
  fixes st :: mpdemo_state
  assumes "quiet env" "cm_process_pop_event env e st = Some (b, st')"
  shows "exit_count st' = exit_count st \<and> all_child_exited st' = all_child_exited st"
  using assms
  by (auto simp: cm_process_pop_event_def syscall_def int_0x50_def quiet_def syscall_asm_despatcher_def s_getSysCallCount_def g_syscall_table_def
      ksys_processPopEvent_def nth_append RETURN_ERROR_def set_view_def elim!: bind_SomeE split: if_splits dest!: popEvent_mpdemo)

lemma mpdemo_globals [simp]:
  fixes st :: mpdemo_state
  shows "events_ok (st\<lparr>exit_count := n\<rparr>) = events_ok st" "events_ok (st\<lparr>all_child_exited := b\<rparr>) = events_ok st"
    "sched_queue (st\<lparr>exit_count := n\<rparr>) = sched_queue st" "sched_queue (st\<lparr>all_child_exited := b\<rparr>) = sched_queue st"
    "pending (st\<lparr>exit_count := n\<rparr>) p = pending st p" "pending (st\<lparr>all_child_exited := b\<rparr>) p = pending st p"
  by (simp_all add: events_ok_def sched_queue_def event_objects_def heap_block_def kmalloc_inv_def kmalloc_segments_def pending_def)

text \<open>The handler of the program is installed.\<close>

definition counting :: "mpdemo_state app_env \<Rightarrow> cm_lib \<Rightarrow> bool" where
  "counting env lib \<longleftrightarrow> quiet env \<and> app_event_handlers lib ! 2 \<noteq> 0 \<and> env_handler env (app_event_handlers lib ! 2) = count_child_exits"

lemma child_exit_handled:
  assumes c: "counting env lib" and ok: "events_ok st" "currentProcess st \<in> set (sched_queue st)"
    and ev: "pending st (currentProcess st) = \<lparr>ev_event = KERNEL_EVENT_PROCCESS_CHILD_KILLED, ev_data = d\<rparr> # evs"
  shows "\<exists>st'. cm_process_handle_events env lib st = Some ((True, lib), st') \<and> exit_count st' = exit_count st + 1
    \<and> all_child_exited st' = (all_child_exited st \<or> exit_count st = 1) \<and> events_ok st' \<and> sched_queue st' = sched_queue st
    \<and> currentProcess st' = currentProcess st \<and> pending st' (currentProcess st) = evs"
proof -
  let ?e = "env_local env"
  let ?s = "set_view (store_event ?e \<lparr>ev_event = 0, ev_data = 0\<rparr> (view st)) st"
  have q: "quiet env" and h: "app_event_handlers lib ! 2 \<noteq> 0" "env_handler env (app_event_handlers lib ! 2) = count_child_exits"
    using c by (simp_all add: counting_def)
  have f: "sched_frame st ?s"
    by simp
  have s: "events_ok ?s" "currentProcess ?s \<in> set (sched_queue ?s)" "pending ?s (currentProcess st) = pending st (currentProcess st)"
      "currentProcess ?s = currentProcess st"
    using ok by (simp_all add: sched_frameD [OF f])
  have g: "exit_count ?s = exit_count st" "all_child_exited ?s = all_child_exited st"
    by (simp_all add: set_view_def)
  obtain st1 where p: "cm_process_pop_event env ?e ?s = Some (True, st1)" "events_ok st1" "sched_frame ?s st1"
      "load_event (view st1) ?e = \<lparr>ev_event = KERNEL_EVENT_PROCCESS_CHILD_KILLED, ev_data = d\<rparr>" "pending st1 (currentProcess st) = evs"
    using pop_event_library [OF q s(1,2)] by (auto simp: s ev)
  have "load32 (view st1) ?e = 2"
    using arg_cong [OF p(4), of ev_event] by (simp add: load_event_def KERNEL_EVENT_PROCCESS_CHILD_KILLED_def)
  then have "cm_process_handle_events env lib st = map_option (\<lambda>(lib, st). ((True, lib), st)) (count_child_exits ?e lib st1)"
    using p(1) h by (simp add: cm_process_handle_events_def Let_def call_handler_def OSIF_PROCESS_EVENT_PROCCESS_YIELD_REQ_def
        OSIF_PROCESS_EVENT_PROCCESS_CHILD_KILLED_def count_child_exits_def)
  then show ?thesis
    using pop_call_mpdemo [OF q p(1)] p(2,5) sched_frameD [OF p(3)] sched_frameD [OF f] g
    by (auto simp: count_child_exits_def Let_def)
qed

text \<open>
  C40. The main thread of the demonstration waits until exactly two children have ended. Let the handler that counts the children be installed, fewer than two of them
  be counted, and the events of the missing ones be pending. Then the loop that waits returns with the flag set: the pending events of these children are taken, and later
  ones stay pending.
\<close>

theorem wait_for_all_child_exit_returns:
  assumes "counting env lib" "events_ok st" "currentProcess st \<in> set (sched_queue st)" "\<not> all_child_exited st" "0 < length ds"
    and "exit_count st + int (length ds) = 2"
    and "pending st (currentProcess st) = map (\<lambda>d. \<lparr>ev_event = KERNEL_EVENT_PROCCESS_CHILD_KILLED, ev_data = d\<rparr>) ds @ evs"
  shows "\<exists>st'. wait_for_all_child_exit env lib st = Some (lib, st') \<and> all_child_exited st' \<and> exit_count st' = 2
    \<and> pending st' (currentProcess st) = evs \<and> events_ok st'"
  using assms(2-7)
proof (induction ds arbitrary: st)
  case (Cons d ds)
  obtain st1 where s1: "cm_process_handle_events env lib st = Some ((True, lib), st1)" "exit_count st1 = exit_count st + 1"
      "all_child_exited st1 = (exit_count st = 1)" "events_ok st1" "sched_queue st1 = sched_queue st" "currentProcess st1 = currentProcess st"
      "pending st1 (currentProcess st) = map (\<lambda>d. \<lparr>ev_event = KERNEL_EVENT_PROCCESS_CHILD_KILLED, ev_data = d\<rparr>) ds @ evs"
    using child_exit_handled [OF assms(1) Cons.prems(1,2), of d] Cons.prems(3,6) by auto
  have w: "wait_for_all_child_exit env lib st = wait_for_all_child_exit env lib st1"
    by (subst wait_for_all_child_exit.simps) (simp add: Cons.prems(3) s1(1))
  show ?case
  proof (cases "ds = []")
    case True
    then have "wait_for_all_child_exit env lib st1 = Some (lib, st1)"
      using s1(3) Cons.prems(5) by (subst wait_for_all_child_exit.simps) simp
    then show ?thesis
      using w s1 True Cons.prems(5) by simp
  next
    case False
    then show ?thesis
      using Cons.IH [of st1] Cons.prems w s1 by simp
  qed
qed simp

section \<open>Witness\<close>

definition sample_mp :: mpdemo_state where
  "sample_mp = win_state.extend sample_win \<lparr>exit_count = 1, all_child_exited = False\<rparr>"

definition sample_mp_env :: "mpdemo_state app_env" where
  "sample_mp_env = \<lparr>env_gx = 1, env_frame = env_frame sample_env, env_ebp = 0, env_ss = 0, env_eax = 0, env_local = 0x20000, env_interrupts = Some,
     env_resume = (\<lambda>_ _. Some), env_handler = (\<lambda>_. count_child_exits)\<rparr>"

lemma sample_mp_ok:
  "events_ok sample_mp" "sched_queue sample_mp = [1, 2, 3]" "pending sample_mp p = []" "currentProcess sample_mp = 2" "processID (pinfos sample_mp 2) = 2"
  "kmalloc_segments sample_mp = [(0xC0200000, 0x20000, False)]"
proof -
  have f: "kheap sample_mp = kheap sample_win" "schedulerQueue sample_mp = schedulerQueue sample_win" "pinfos sample_mp = pinfos sample_win"
      "eventsQueue sample_mp = eventsQueue sample_win" "kevents sample_mp = kevents sample_win" "phase sample_mp = phase sample_win"
      "currentProcess sample_mp = currentProcess sample_win"
    by (simp_all add: sample_mp_def win_state.defs)
  show q: "sched_queue sample_mp = [1, 2, 3]"
    using sample_win_ok(2) by (simp add: sched_queue_def f)
  have e: "event_objects sample_mp p = event_objects sample_win p" for p
    by (simp add: event_objects_def f)
  show "pending sample_mp p = []"
    using sample_win_ok(3) [of p] by (simp add: pending_def e)
  show "events_ok sample_mp"
    using sample_win_ok(1,2) q by (simp add: events_ok_def e f kmalloc_inv_def heap_block_def kmalloc_segments_def)
  show "currentProcess sample_mp = 2" "processID (pinfos sample_mp 2) = 2" "kmalloc_segments sample_mp = [(0xC0200000, 0x20000, False)]"
    using sample_timer_ok(4) by (simp_all add: f sample_win_fields sample_timer_fields sample_process_def kmalloc_segments_def)
qed

lemma pushEvent_mpdemo:
  fixes st :: mpdemo_state
  assumes "kprocess_pushEvent pid i d st = Some (r, st')"
  shows "exit_count st' = exit_count st \<and> all_child_exited st' = all_child_exited st"
  using assms
  by (auto simp: kprocess_pushEvent_def s_getProcessInfoFromID_def kmalloc_def RETURN_ERROR_def Let_def
      elim!: bind_SomeE split: option.splits if_splits)

theorem wait_for_all_child_exit_returns_witness:
  "\<exists>st1 st2. kprocess_pushEvent 2 KERNEL_EVENT_PROCCESS_CHILD_KILLED 3 sample_mp = Some (True, st1)
    \<and> wait_for_all_child_exit sample_mp_env (sample_lib\<lparr>app_event_handlers := [0, 0, 0x400]\<rparr>) st1
        = Some (sample_lib\<lparr>app_event_handlers := [0, 0, 0x400]\<rparr>, st2) \<and> all_child_exited st2"
proof -
  let ?e = KERNEL_EVENT_PROCCESS_CHILD_KILLED and ?lib = "sample_lib\<lparr>app_event_handlers := [0, 0, 0x400]\<rparr>"
  have "2 \<in> set (sched_queue sample_mp)"
    by (simp add: sample_mp_ok)
  from pushEvent_spec [OF sample_mp_ok(1) this, of ?e 3]
  obtain st1 where p: "kprocess_pushEvent 2 ?e 3 sample_mp = Some (True, st1)" "events_ok st1" "sched_queue st1 = [1, 2, 3]"
      "pending st1 2 = [\<lparr>ev_event = ?e, ev_data = 3\<rparr>]"
    by (auto simp: sample_mp_ok split: if_splits)
  have c: "currentProcess st1 = 2"
    using sched_frameD(4) [OF sched_frame_push [OF p(1)]] by (simp add: sample_mp_ok)
  have g: "exit_count st1 = 1" "\<not> all_child_exited st1"
    using pushEvent_mpdemo [OF p(1)] by (simp_all add: sample_mp_def win_state.defs)
  have "counting sample_mp_env ?lib"
    by (simp add: counting_def quiet_def sample_mp_env_def)
  then show ?thesis
    using wait_for_all_child_exit_returns [of sample_mp_env ?lib st1 "[3]" "[]"] p c g by auto
qed

end
