(* ===== verification/Spec2Isabelle.thy ===== *)
theory Spec2Isabelle
  imports Exceptions System_Info Context_Switch Direction_Flag Window_Handles Demo_Apps
begin

text \<open>
  Verification of the MeghaOS x86 kernel and of the library its applications are linked with.

  \<^bold>\<open>The program.\<close> The kernel is C (\<open>src/src/kernel\<close>, headers in \<open>src/include\<close>). It is started by a boot loader that leaves a
  description of the machine in memory, brings its memory managers up one after the other, loads a first program, and
  then runs processes that give up the processor voluntarily. The parts build on each other: the physical memory manager
  keeps a bitmap of page frames; a static allocator gives out memory that is never freed; paging writes page tables into
  frames; the virtual memory manager keeps a list of address spaces per process and commits pages on demand; the kernel
  heap serves objects; processes own an address space, a saved register state and queues of events; a table of handles
  names kernel objects to applications. Applications enter the kernel through system calls; the timer interrupt asks
  the running process to yield, and a page fault commits memory that was only reserved. Drivers for the interrupt
  controller, the timer, the text display and the PS/2 devices, a formatter, a drawing library and a window compositor
  complete it.

  \<^bold>\<open>How the model is built.\<close> Each C function is a HOL function of the same name that takes the state of its component and
  returns \<open>(result \<times> state) option\<close>; \<open>None\<close> is a panic, a failed assertion of the debug build, a page fault in the kernel or a
  loop that does not end. An error is an ordinary result together with the error number left in the state. Integers are
  words of the width the code gives them, so wrap-around is part of every theorem. States are extensible records,
  each component extending the one below it: \<open>kglobals\<close>, \<open>pmm_state\<close>, \<open>salloc_state\<close>, \<open>handle_state\<close>, \<open>kmalloc_state\<close>,
  \<open>paging_state\<close>, \<open>vmm_state\<close>, \<open>process_state\<close>, \<open>dt_state\<close>, \<open>hw_state\<close>, \<open>vga_state\<close>, \<open>gx_state\<close>, \<open>win_state\<close>. Objects in kernel memory are maps from addresses to
  records; a field the code does not initialise keeps what the map held. Linked lists are pointer links as in the code;
  the lemmas about them are stated through the list of nodes they represent.

  \<^bold>\<open>The theories.\<close>

  \<^item> Prelude: machine types, error codes, boot phases, assertions and the rounding macros (\<open>kerror.h\<close>, \<open>kernel.h\<close>,
    \<open>kassert.h\<close>, \<open>utils.h\<close>), and the lemmas on words they need.
  \<^item> Bitmap_Store: \<open>bitmap.c\<close>, an array of small states packed into bytes. Its contract is a locale that the physical
    memory manager uses.
  \<^item> Kstdlib: \<open>kstdlib.c\<close> and \<open>cm/string.c\<close> on a byte addressed memory. Boot_Info: \<open>x86/boot.c\<close>.
  \<^item> Physical_Memory: \<open>pmm.c\<close> and \<open>x86/pmm.c\<close>. Allocation is first fit, marks exactly the run it returns and fails only when
    no run is long enough; freeing undoes an allocation.
  \<^item> Intrusive_List: \<open>intrusive_list.h\<close> and \<open>intrusive_queue.h\<close> refine lists; any sequence of operations on a queue
    behaves as on a first in first out list.
  \<^item> Static_Alloc: \<open>salloc.c\<close>, blocks are aligned and disjoint. Handle_Table: \<open>handle.c\<close>.
  \<^item> Heap_Core, Kernel_Heap, App_Heap: the boundary lists of \<open>kmalloc.c\<close> and \<open>cm/malloc.c\<close>, whose helpers are the same code.
    The heap is specified by its sequence of segments; allocation splits the first free segment with room, freeing
    joins it with its free neighbours. The two allocators are interpretations of one locale.
  \<^item> Paging, Paging_Map, Page_Directory: \<open>x86/paging.c\<close>. Memory accesses go through an explicit page table walk, so the
    recursive mapping and the temporary slots are exercised by the proofs. Mapping and unmapping are specified by
    the translation of addresses.
  \<^item> VMM, VMM_Spaces: \<open>vmm.c\<close>. The list of address spaces refines a sorted list of disjoint intervals.
  \<^item> Process, Scheduler, Frames: \<open>x86/process.c\<close>. Yielding refines a round robin over the queue; no process starves. Frames
    holds what the operations of the lower components leave unchanged.
  \<^item> Descriptor_Tables: \<open>gdt.c\<close>, \<open>idt.c\<close>, \<open>tss.c\<close>. Descriptors read back as the processor reads them, and what the one
    entry behind the table overwrites; which I/O ports user programs may use.
  \<^item> Devices, PS2: the drivers \<open>8259_pic.c\<close>, \<open>8254_pit.c\<close>, \<open>8042_ps2.c\<close>, \<open>ps2mouse.c\<close>, \<open>ps2kb.c\<close>, \<open>pcspeaker.c\<close>. The answers
    of the devices are an arbitrary function of the accesses so far. A locale states what an invariant of all drivers
    needs; it is interpreted for the handshake with the controller and for the state of the mouse decoder.
  \<^item> Printk: \<open>printk.c\<close> and \<open>cm/printf.c\<close> against a reference formatter. Graphics: \<open>kgraphics.c\<close>, \<open>kgraphics.h\<close> and
    \<open>cm/graphics.c\<close> on the frame buffer. Kernel_Graphics: the mapping of the frame buffer, the mouse cursor and the copy to
    the screen. Text_Display: \<open>x86/vgatext.c\<close>, characters and cursor on the text screen.
  \<^item> Events: the queues of events of the processes are first in first out and live in the kernel heap. Interrupts: the
    handlers of \<open>x86/interrupts.c\<close> and the periodic work; a timer interrupt asks the running process to yield.
  \<^item> Compositor: \<open>compositor.c\<close>, the windows, their buffers in user memory and their places on the screen. Windows: in every
    state the compositor reaches, no two windows overlap.
  \<^item> Syscalls, Syscall_Facts: \<open>x86/syscalls.c\<close>, the dispatcher with its two tables and every handler. A process that yields is
    resumed where it was; an event reaches the caller; unknown calls are refused.
  \<^item> Kernel_Main, Kernel_Start: \<open>kernel_main\<close> of \<open>x86/kernel.c\<close> and all it does. The loop that lines up page tables and
    address spaces with the physical memory manager ends and makes them agree; which gates user programs may use.
  \<^item> Demand_Paging: a page fault in reserved memory commits the lowest free frame and nothing else, and which faults
    end in a panic; page fault handler,
    both memory managers and paging together.
  \<^item> App_Library, App_Facts: the library of applications (\<open>cm/process.c\<close>, \<open>cm/cm.c\<close>, \<open>cm/syscalls.c\<close> and the inline functions of its
    headers) over the dispatcher of the system calls. A process that handles its events is switched away from when its
    period is over; timer, events, system calls, library and scheduler together.
  \<^item> Debug_Log, Exceptions: \<open>kdebug.c\<close>, \<open>cm/debug.c\<close>, \<open>kpanic.c\<close> and the handlers that end in a panic: what they print
    as long as it fits their buffers, and when it does not. VMM_Labels, System_Info: the labels that debugging builds attach to address spaces, and the logs of
    address spaces, of the machine and of the queue of processes.
  \<^item> Machine, Entry_Code, Context_Switch, Direction_Flag: a model of the processor with the instructions the kernel uses, and on it the assembly in the C
    files, instruction by instruction: the stubs of interrupts and exceptions, the dispatcher of the system calls and
    \<open>jump_to_process\<close>. The stubs are invisible to the interrupted program; the dispatcher implements the function of the same name in
    Syscalls; a process that yields is resumed where it was. What the dispatcher does with the direction flag set.
  \<^item> Window_Handles: what a program learns from the library about the handle of a window, in use or not; library, dispatcher, handles and
    compositor together. Of a Boolean result only the low byte of \<open>eax\<close> is defined.
  \<^item> App_Delay: \<open>cm_delay\<close> returns in time, given the timer and processes that give the processor back; a locale states what an application
    relies on, and a sublocale shows that the timer provides it.
  \<^item> Demo_Apps: the programs of \<open>src/apps\<close>. What the windows of one show, and that another one waits for exactly its two children.

  \<^bold>\<open>Bounds and fuel.\<close> Loops of the code are recursions on the data they run over. A walk along a linked list follows
  pointers and is bounded by the number of nodes that were ever linked, which a well formed list does not exceed.
  Waiting for a device is bounded by the 10000 iterations of the code. The loop that empties the buffer of the PS/2
  controller, the delay of the library and the loop in which a program waits for its children may run forever; they are partial
  functions, and the last two are shown to return under what they rely on. So are the loops of the start, which are shown to return. The endless
  loops of the programs are modelled by the number of iterations they have made. All jumps of the assembly go forward, so
  that its execution is a recursion on the rest of the code.

  \<^bold>\<open>Not modelled.\<close> What happens after a write past a buffer on the stack (the model ends there); the boot loader and the assembly files, the unit tests and their framework; the translation cache of the
  processor, its checks on segment selectors and its status flags other than carry and zero; interrupts at the end of the start, where they are enabled while the drivers of the PS/2 devices are set up
  (elsewhere the kernel runs with interrupts disabled, and handlers run between its functions). The theories
  below Debug_Log model a build without the debug port, in which the log calls are empty, and leave out the calls that set
  labels.
\<close>

end
